(* ===== verification/Prelude.thy ===== *)
theory Prelude
  imports Main "HOL-Library.Char_ord" "HOL-Library.List_Lexorder" "HOL-Library.Product_Lexorder"
begin

text \<open>
  What every component shares: the errors the code throws, results, PostgreSQL transactions,
  JavaScript strings and numbers as far as the code inspects them, and the handful of SQL
  statements (\<open>UPDATE ... WHERE\<close>, \<open>SELECT ... ORDER BY ... LIMIT\<close>, \<open>INSERT ... ON CONFLICT\<close>)
  over tables that are lists of rows.

  An operation of a repository is a function from its arguments, the transaction time
  \<open>now\<close> and the database to a result and the next database.
\<close>

named_theorems row_simps \<open>how a statement changes the columns of a row\<close>
named_theorems op_defs \<open>definitions of the operations of a component\<close>

section \<open>Errors and results\<close>

text \<open>
  \<open>AppError\<close> (agent/lib/app-error.ts) carries a stable code; its message is wording for people
  and is left out. \<open>PgError\<close> is an error PostgreSQL raises (a violated constraint),
  \<open>HostError\<close> any other JavaScript error, by its name.
\<close>

datatype app_error = AppError string | PgError string | HostError string

type_synonym 'a result = "app_error + 'a"

definition res_bind :: "'a result \<Rightarrow> ('a \<Rightarrow> 'b result) \<Rightarrow> 'b result" where
  "res_bind r f = (case r of Inl e \<Rightarrow> Inl e | Inr x \<Rightarrow> f x)"

lemma res_bind_simps [simp]:
  "res_bind (Inl e) f = Inl e" "res_bind (Inr x) f = f x"
  by (simp_all add: res_bind_def)

lemma res_bind_Inr_iff:
  "res_bind r f = Inr y \<longleftrightarrow> (\<exists>x. r = Inr x \<and> f x = Inr y)"
  by (cases r) auto

lemma res_bind_Inl_iff:
  "res_bind r f = Inl e \<longleftrightarrow> r = Inl e \<or> (\<exists>x. r = Inr x \<and> f x = Inl e)"
  by (cases r) auto

definition is_ok :: "'a result \<Rightarrow> bool" where
  "is_ok r = (case r of Inl _ \<Rightarrow> False | Inr _ \<Rightarrow> True)"

lemma is_ok_simps [simp]: "\<not> is_ok (Inl e)" "is_ok (Inr x)"
  by (simp_all add: is_ok_def)

section \<open>Transactions\<close>

text \<open>
  The body of a transaction ends in one of three ways: \<open>COMMIT\<close> and a value, \<open>ROLLBACK\<close> and a
  value, or an exception, which the \<open>catch\<close> of every repository turns into \<open>ROLLBACK\<close> and a
  rethrow. Only the first keeps what the body wrote.
\<close>

datatype ('a, 's) tx = Commit 'a 's | Rollback 'a | Throw app_error

fun end_tx :: "('a, 's) tx \<Rightarrow> 's \<Rightarrow> 'a result \<times> 's" where
  "end_tx (Commit x s') s = (Inr x, s')"
| "end_tx (Rollback x) s = (Inr x, s)"
| "end_tx (Throw e) s = (Inl e, s)"

definition run_tx :: "('s \<Rightarrow> ('a, 's) tx) \<Rightarrow> 's \<Rightarrow> 'a result \<times> 's" where
  "run_tx body s = end_tx (body s) s"

lemma run_tx_error_unchanged: "run_tx body s = (Inl e, s') \<Longrightarrow> s' = s"
  by (cases "body s") (auto simp: run_tx_def)

text \<open>Validation in front of a transaction: a refusal leaves the database alone.\<close>

definition when_valid :: "'v result \<Rightarrow> ('v \<Rightarrow> 's \<Rightarrow> 'a result \<times> 's) \<Rightarrow> 's \<Rightarrow> 'a result \<times> 's" where
  "when_valid v f s = (case v of Inl e \<Rightarrow> (Inl e, s) | Inr x \<Rightarrow> f x s)"

lemma when_valid_simps [simp]:
  "when_valid (Inl e) f s = (Inl e, s)" "when_valid (Inr x) f s = f x s"
  by (simp_all add: when_valid_def)

lemma when_valid_Inr:
  "when_valid v f s = (Inr y, s') \<longleftrightarrow> (\<exists>x. v = Inr x \<and> f x s = (Inr y, s'))"
  by (cases v) auto

section \<open>JavaScript strings and numbers\<close>

text \<open>
  A string is a list of code units, here those up to U+00FF. \<open>trim\<close> removes ECMAScript white
  space; of that set the code units below U+0100 are tab to carriage return, space and
  no-break space.
\<close>

definition js_space :: "char \<Rightarrow> bool" where
  "js_space c = (of_char c \<in> {9::nat, 10, 11, 12, 13, 32, 160})"

definition js_trim :: "string \<Rightarrow> string" where
  "js_trim s = rev (dropWhile js_space (rev (dropWhile js_space s)))"

definition ascii_digit :: "char \<Rightarrow> bool" where
  "ascii_digit c = (CHR ''0'' \<le> c \<and> c \<le> CHR ''9'')"

definition digit_value :: "char \<Rightarrow> int" where
  "digit_value c = of_char c - 48"

definition decimal_value :: "string \<Rightarrow> int" where
  "decimal_value s = foldl (\<lambda>n c. 10 * n + digit_value c) 0 s"

definition ascii_lower :: "char \<Rightarrow> char" where
  "ascii_lower c =
     (if CHR ''A'' \<le> c \<and> c \<le> CHR ''Z'' then char_of (of_char c + 32 :: nat) else c)"

text \<open>Decimal text of a natural number, as \<open>update_id::text\<close> prints it.\<close>

definition digit_char :: "nat \<Rightarrow> char" where
  "digit_char n = char_of (48 + n)"

fun nat_text :: "nat \<Rightarrow> string" where
  "nat_text n = (if n < 10 then [digit_char n] else nat_text (n div 10) @ [digit_char (n mod 10)])"

declare nat_text.simps [simp del]

lemma of_char_digit: "n < 10 \<Longrightarrow> of_char (digit_char n) = (48 + n :: nat)"
  by (simp add: digit_char_def of_char_of)

lemma ascii_digit_digit_char [simp]: "n < 10 \<Longrightarrow> ascii_digit (digit_char n)"
  by (simp add: ascii_digit_def less_eq_char_def of_char_digit)

lemma digit_value_digit_char: "n < 10 \<Longrightarrow> digit_value (digit_char n) = int n"
proof -
  assume n: "n < 10"
  have "(of_char (digit_char n) :: int) = int (of_char (digit_char n))"
    by (simp only: of_nat_of_char)
  with n show ?thesis by (simp add: digit_value_def of_char_digit)
qed

lemma decimal_value_append [simp]: "decimal_value (s @ [c]) = 10 * decimal_value s + digit_value c"
  by (simp add: decimal_value_def)

lemma decimal_value_nat_text [simp]: "decimal_value (nat_text n) = int n"
proof (induction n rule: nat_text.induct)
  case (1 n)
  show ?case
  proof (cases "n < 10")
    case True
    then show ?thesis
      by (simp add: nat_text.simps [of n] decimal_value_def digit_value_digit_char)
  next
    case False
    then have "decimal_value (nat_text n) = 10 * int (n div 10) + int (n mod 10)"
      using 1 by (simp add: nat_text.simps [of n] digit_value_digit_char)
    also have "\<dots> = int n" by presburger
    finally show ?thesis .
  qed
qed

lemma nat_text_digits: "list_all ascii_digit (nat_text n)"
proof (induction n rule: nat_text.induct)
  case (1 n)
  then show ?case by (subst nat_text.simps) simp
qed

lemma nat_text_not_Nil [simp]: "nat_text n \<noteq> []"
  by (subst nat_text.simps) simp

lemma nat_text_leading: "0 < n \<Longrightarrow> hd (nat_text n) \<noteq> CHR ''0''"
proof (induction n rule: nat_text.induct)
  case (1 n)
  show ?case
  proof (cases "n < 10")
    case True
    have "digit_char n \<noteq> CHR ''0''"
    proof
      assume "digit_char n = CHR ''0''"
      then have "of_char (digit_char n) = (48 :: nat)" by simp
      with True 1(2) show False by (simp add: of_char_digit)
    qed
    with True show ?thesis by (simp add: nat_text.simps [of n])
  next
    case False
    with 1 show ?thesis by (simp add: nat_text.simps [of n] hd_append)
  qed
qed

fun join_with :: "string \<Rightarrow> string list \<Rightarrow> string" where
  "join_with sep [] = []"
| "join_with sep [s] = s"
| "join_with sep (s # t # ts) = s @ sep @ join_with sep (t # ts)"

text \<open>
  A JavaScript number, as the validators see it: an integer, or one of the values they only
  refuse (a fraction, \<open>NaN\<close>, an infinity).
\<close>

datatype js_number = Int_num int | Other_num

definition max_safe_integer :: int where
  "max_safe_integer = 9007199254740991"

fun is_safe_integer :: "js_number \<Rightarrow> bool" where
  "is_safe_integer (Int_num n) = (- max_safe_integer \<le> n \<and> n \<le> max_safe_integer)"
| "is_safe_integer Other_num = False"

fun is_integer :: "js_number \<Rightarrow> bool" where
  "is_integer (Int_num n) = True"
| "is_integer Other_num = False"

fun number_value :: "js_number \<Rightarrow> int" where
  "number_value (Int_num n) = n"
| "number_value Other_num = 0"

text \<open>Instants are microseconds, the resolution of \<open>timestamptz\<close>; the code adds milliseconds.\<close>

type_synonym time = int

definition millis :: "int \<Rightarrow> time" where
  "millis n = 1000 * n"

lemma millis_mono [simp]: "millis a \<le> millis b \<longleftrightarrow> a \<le> b" "millis a < millis b \<longleftrightarrow> a < b"
  by (simp_all add: millis_def)

lemma millis_pos [simp]: "0 < millis a \<longleftrightarrow> 0 < a" "0 \<le> millis a \<longleftrightarrow> 0 \<le> a" "millis 0 = 0"
  by (simp_all add: millis_def)

section \<open>SQL statements over lists of rows\<close>

definition update_where :: "('r \<Rightarrow> bool) \<Rightarrow> ('r \<Rightarrow> 'r) \<Rightarrow> 'r list \<Rightarrow> 'r list" where
  "update_where P f rows = map (\<lambda>r. if P r then f r else r) rows"

definition delete_where :: "('r \<Rightarrow> bool) \<Rightarrow> 'r list \<Rightarrow> 'r list" where
  "delete_where P rows = filter (\<lambda>r. \<not> P r) rows"

definition row_count :: "('r \<Rightarrow> bool) \<Rightarrow> 'r list \<Rightarrow> nat" where
  "row_count P rows = length (filter P rows)"

definition first_row :: "('r \<Rightarrow> bool) \<Rightarrow> 'r list \<Rightarrow> 'r option" where
  "first_row P rows = (case filter P rows of [] \<Rightarrow> None | r # _ \<Rightarrow> Some r)"

definition exists_row :: "('r \<Rightarrow> bool) \<Rightarrow> 'r list \<Rightarrow> bool" where
  "exists_row P rows = list_ex P rows"

definition select_ordered :: "('r \<Rightarrow> bool) \<Rightarrow> ('r \<Rightarrow> 'k::linorder) \<Rightarrow> nat \<Rightarrow> 'r list \<Rightarrow> 'r list" where
  "select_ordered P key n rows = take n (sort_key key (filter P rows))"

lemma set_update_where: "set (update_where P f rows) = (\<lambda>r. if P r then f r else r) ` set rows"
  by (auto simp: update_where_def)

lemma length_update_where [simp]: "length (update_where P f rows) = length rows"
  by (simp add: update_where_def)

lemma update_where_cong:
  "(\<And>r. r \<in> set rows \<Longrightarrow> \<not> P r) \<Longrightarrow> update_where P f rows = rows"
  by (induction rows) (auto simp: update_where_def)

lemma row_count_0_iff: "row_count P rows = 0 \<longleftrightarrow> (\<forall>r\<in>set rows. \<not> P r)"
  by (auto simp: row_count_def filter_empty_conv)

lemma update_where_none: "row_count P rows = 0 \<Longrightarrow> update_where P f rows = rows"
  by (auto simp: row_count_0_iff intro: update_where_cong)

lemma update_where_keeps: "r \<in> set rows \<Longrightarrow> \<not> P r \<Longrightarrow> r \<in> set (update_where P f rows)"
  by (force simp: set_update_where)

lemma exists_row_iff [simp]: "exists_row P rows \<longleftrightarrow> (\<exists>r\<in>set rows. P r)"
  by (simp add: exists_row_def list_ex_iff)

lemma first_row_Some: "first_row P rows = Some r \<Longrightarrow> r \<in> set rows \<and> P r"
proof -
  assume "first_row P rows = Some r"
  then obtain rs where "filter P rows = r # rs"
    by (auto simp: first_row_def split: list.splits)
  then have "r \<in> set (filter P rows)" by simp
  then show ?thesis by simp
qed

lemma first_row_None_iff: "first_row P rows = None \<longleftrightarrow> (\<forall>r\<in>set rows. \<not> P r)"
proof -
  have "first_row P rows = None \<longleftrightarrow> filter P rows = []"
    by (simp add: first_row_def split: list.split)
  then show ?thesis by (simp add: filter_empty_conv)
qed

lemma set_select_ordered: "r \<in> set (select_ordered P key n rows) \<Longrightarrow> r \<in> set rows \<and> P r"
  unfolding select_ordered_def by (drule in_set_takeD) simp

lemma length_select_ordered [simp]: "length (select_ordered P key n rows) \<le> n"
  by (simp add: select_ordered_def)

text \<open>\<open>ORDER BY key LIMIT 1\<close> picks a row whose key no other matching row undercuts.\<close>

lemma select_ordered_one:
  assumes "select_ordered P key (Suc 0) rows = [r]" "r' \<in> set rows" "P r'"
  shows "key r \<le> key r'"
proof -
  obtain rs where rs: "sort_key key (filter P rows) = r # rs"
    using assms(1) by (cases "sort_key key (filter P rows)") (auto simp: select_ordered_def)
  have "sorted (map key (r # rs))"
    using sorted_sort_key [of key "filter P rows"] rs by simp
  moreover have "r' \<in> set (r # rs)"
    using assms(2,3) set_sort [of key "filter P rows"] rs by auto
  ultimately show ?thesis by auto
qed

lemma select_ordered_Nil_iff:
  "select_ordered P key (Suc n) rows = [] \<longleftrightarrow> (\<forall>r\<in>set rows. \<not> P r)"
proof -
  have "sort_key key (filter P rows) = [] \<longleftrightarrow> filter P rows = []"
    by (metis length_0_conv length_sort)
  then show ?thesis by (simp add: select_ordered_def filter_empty_conv)
qed

text \<open>A loop that runs one \<open>UPDATE\<close> per element; row by row it folds over the elements.\<close>

definition update_each :: "('x \<Rightarrow> 'r \<Rightarrow> bool) \<Rightarrow> ('x \<Rightarrow> 'r \<Rightarrow> 'r) \<Rightarrow> 'x list \<Rightarrow> 'r list \<Rightarrow> 'r list" where
  "update_each P f xs rows = foldl (\<lambda>rs x. update_where (P x) (f x) rs) rows xs"

definition through_each :: "('x \<Rightarrow> 'r \<Rightarrow> bool) \<Rightarrow> ('x \<Rightarrow> 'r \<Rightarrow> 'r) \<Rightarrow> 'x list \<Rightarrow> 'r \<Rightarrow> 'r" where
  "through_each P f xs r = foldl (\<lambda>r x. if P x r then f x r else r) r xs"

lemma update_each_simps [simp]:
  "update_each P f [] rows = rows" "update_each P f (x # xs) rows = update_each P f xs (update_where (P x) (f x) rows)"
  by (simp_all add: update_each_def)

lemma through_each_simps [simp]:
  "through_each P f [] r = r" "through_each P f (x # xs) r = through_each P f xs (if P x r then f x r else r)"
  by (simp_all add: through_each_def)

lemma update_each_map: "update_each P f xs rows = map (through_each P f xs) rows"
proof (induction xs arbitrary: rows)
  case Nil
  have "through_each P f [] = (\<lambda>r. r)" by (rule ext) simp
  then show ?case by simp
next
  case (Cons x xs)
  then show ?case by (simp add: update_where_def comp_def)
qed

lemma through_each_cases:
  assumes "\<And>x y r. x \<in> set xs \<Longrightarrow> P x r \<Longrightarrow> \<not> P y (f x r)"
  shows "(\<exists>x\<in>set xs. P x r \<and> through_each P f xs r = f x r) \<or> (\<forall>x\<in>set xs. \<not> P x r) \<and> through_each P f xs r = r"
  using assms
proof (induction xs arbitrary: r)
  case (Cons x xs)
  show ?case
  proof (cases "P x r")
    case True
    with Cons.prems have "\<not> P y (f x r)" for y by simp
    then have "through_each P f xs (f x r) = f x r" using Cons.IH [of "f x r"] Cons.prems by fastforce
    with True show ?thesis by simp
  next
    case False
    then show ?thesis using Cons.IH [of r] Cons.prems by auto
  qed
qed simp

text \<open>\<open>ORDER BY key DESC\<close>\<close>

definition descending :: "('r \<Rightarrow> 'k::linorder) \<Rightarrow> 'r list \<Rightarrow> 'r list" where
  "descending key rows = rev (sort_key key rows)"

lemma set_descending [simp]: "set (descending key rows) = set rows"
  by (simp add: descending_def)

text \<open>
  A row and its key: an update that keeps keys keeps the primary key constraint. Stated once as
  an interface, interpreted for every table of the schema.
\<close>

locale keyed_table =
  fixes key :: "'r \<Rightarrow> 'k"
begin

definition pk :: "'r list \<Rightarrow> bool" where
  "pk rows = distinct (map key rows)"

lemma pk_update:
  assumes "pk rows" "\<And>r. key (f r) = key r"
  shows "pk (update_where P f rows)"
proof -
  have "map key (update_where P f rows) = map key rows"
    using assms(2) by (simp add: update_where_def)
  with assms(1) show ?thesis by (simp add: pk_def)
qed

lemma pk_delete: "pk rows \<Longrightarrow> pk (delete_where P rows)"
  by (simp add: pk_def delete_where_def distinct_map_filter)

lemma pk_insert: "pk rows \<Longrightarrow> (\<And>r'. r' \<in> set rows \<Longrightarrow> key r' \<noteq> key r) \<Longrightarrow> pk (rows @ [r])"
  by (force simp: pk_def)

lemma pk_unique: "pk rows \<Longrightarrow> r \<in> set rows \<Longrightarrow> r' \<in> set rows \<Longrightarrow> key r = key r' \<Longrightarrow> r = r'"
  by (auto simp: pk_def distinct_map inj_on_def)

lemma pk_first_row:
  assumes "pk rows" "r \<in> set rows"
  shows "first_row (\<lambda>r'. key r' = key r) rows = Some r"
proof (cases "first_row (\<lambda>r'. key r' = key r) rows")
  case None
  with assms(2) show ?thesis by (auto simp: first_row_None_iff)
next
  case (Some r')
  then have "r' \<in> set rows" "key r' = key r" by (auto dest: first_row_Some)
  with assms Some show ?thesis by (auto dest: pk_unique)
qed

lemma pk_row_count_le: "pk rows \<Longrightarrow> row_count (\<lambda>r. key r = k \<and> P r) rows \<le> 1"
proof (induction rows)
  case Nil
  then show ?case by (simp add: row_count_def)
next
  case (Cons r rows)
  then have pk: "pk rows" and fresh: "key r \<notin> key ` set rows" by (auto simp: pk_def)
  show ?case
  proof (cases "key r = k")
    case True
    with fresh have "row_count (\<lambda>r. key r = k \<and> P r) rows = 0"
      unfolding row_count_0_iff by (metis imageI)
    then show ?thesis by (simp add: row_count_def)
  next
    case False
    with Cons.IH pk show ?thesis by (simp add: row_count_def)
  qed
qed

end

end
