(* ===== verification/Json_Value.thy ===== *)
theory Json_Value
  imports Complex_Main Prelude
begin

text \<open>
  JSON values as the code reads them: \<open>unknown\<close> values from Telegram and from \<open>jsonb\<close> columns,
  the narrowing helpers of agent/lib/json-value.ts, \<open>jsonb\<close> paths and \<open>jsonb\<close> equality.
  An object is the list of its members in insertion order, as JavaScript enumerates them.
\<close>

datatype json =
    JNull
  | JBool bool
  | JNum rat
  | JStr string
  | JArr "json list"
  | JObj "(string \<times> json) list"

type_synonym jobj = "(string \<times> json) list"

section \<open>Sizes, for recursion into members and elements\<close>

primrec jsize :: "json \<Rightarrow> nat" where
  "jsize JNull = 1"
| "jsize (JBool b) = 1"
| "jsize (JNum n) = 1"
| "jsize (JStr s) = 1"
| "jsize (JArr xs) = Suc (sum_list (map jsize xs))"
| "jsize (JObj kvs) = Suc (sum_list (map (\<lambda>kv. snd kv) (map (map_prod id jsize) kvs)))"

abbreviation members_size :: "jobj \<Rightarrow> nat" where
  "members_size kvs \<equiv> sum_list (map (\<lambda>kv. jsize (snd kv)) kvs)"

lemma jsize_JObj [simp]: "jsize (JObj kvs) = Suc (members_size kvs)"
  by (simp add: comp_def)

declare jsize.simps(6) [simp del]

lemma jsize_pos [simp]: "0 < jsize v"
  by (cases v) auto

lemma jsize_element: "x \<in> set xs \<Longrightarrow> jsize x \<le> sum_list (map jsize xs)"
  by (simp add: member_le_sum_list)

lemma members_size_member: "(k, v) \<in> set kvs \<Longrightarrow> jsize v \<le> members_size kvs"
proof (induction kvs)
  case Nil
  then show ?case by simp
next
  case (Cons kv kvs)
  then show ?case by (cases kv) fastforce
qed

section \<open>Narrowing, agent/lib/json-value.ts\<close>

definition is_record :: "json \<Rightarrow> bool" where
  "is_record v = (case v of JObj _ \<Rightarrow> True | _ \<Rightarrow> False)"

definition as_record :: "json \<Rightarrow> jobj option" where
  "as_record v = (case v of JObj kvs \<Rightarrow> Some kvs | _ \<Rightarrow> None)"

definition non_empty_text :: "json \<Rightarrow> string option" where
  "non_empty_text v =
     (case v of JStr s \<Rightarrow> (let text = js_trim s in if text \<noteq> [] then Some text else None)
      | _ \<Rightarrow> None)"

text \<open>A member, \<open>undefined\<close> (\<open>None\<close>) when it is absent; \<open>record(x)?.key\<close> is \<open>opt_member\<close>.\<close>

definition member_of :: "jobj \<Rightarrow> string \<Rightarrow> json option" where
  "member_of kvs k = map_of kvs k"

definition opt_record :: "json option \<Rightarrow> jobj option" where
  "opt_record v = Option.bind v as_record"

definition opt_member :: "jobj option \<Rightarrow> string \<Rightarrow> json option" where
  "opt_member r k = Option.bind r (\<lambda>kvs. member_of kvs k)"

lemma opt_member_simps [simp]: "opt_member (Some kvs) k = member_of kvs k" "opt_member None k = None"
  by (simp_all add: opt_member_def)

lemma opt_record_simps [simp]: "opt_record None = None" "opt_record (Some (JObj kvs)) = Some kvs"
  by (simp_all add: opt_record_def as_record_def)

lemma opt_record_Some_iff: "opt_record v = Some kvs \<longleftrightarrow> v = Some (JObj kvs)"
  by (cases v) (auto simp: opt_record_def as_record_def split: json.splits)

text \<open>\<open>{...kvs, k: v}\<close>: an existing member keeps its place, a new one goes last.\<close>

fun set_member :: "jobj \<Rightarrow> string \<Rightarrow> json \<Rightarrow> jobj" where
  "set_member [] k v = [(k, v)]"
| "set_member ((k', v') # kvs) k v = (if k' = k then (k, v) # kvs else (k', v') # set_member kvs k v)"

lemma member_set_member: "member_of (set_member kvs k v) k' = (if k' = k then Some v else member_of kvs k')"
  by (induction kvs k v rule: set_member.induct) (auto simp: member_of_def)

lemma member_of_in: "member_of kvs k = Some v \<Longrightarrow> (k, v) \<in> set kvs"
  by (simp add: member_of_def map_of_SomeD)

lemma member_size: "member_of kvs k = Some v \<Longrightarrow> jsize v \<le> members_size kvs"
  by (blast dest: member_of_in members_size_member)

lemma as_record_Some [simp]: "as_record v = Some kvs \<longleftrightarrow> v = JObj kvs"
  by (cases v) (auto simp: as_record_def)

lemma as_record_JObj [simp]: "as_record (JObj kvs) = Some kvs"
  by (simp add: as_record_def)

lemma is_record_iff: "is_record v \<longleftrightarrow> as_record v \<noteq> None"
  by (cases v) (auto simp: as_record_def is_record_def)

text \<open>
  \<open>===\<close> on two members: primitives by value, \<open>undefined\<close> equals only itself, and two
  separately parsed objects or arrays are never the same reference.
\<close>

fun strict_equal :: "json option \<Rightarrow> json option \<Rightarrow> bool" where
  "strict_equal None None = True"
| "strict_equal (Some JNull) (Some JNull) = True"
| "strict_equal (Some (JBool a)) (Some (JBool b)) = (a = b)"
| "strict_equal (Some (JNum a)) (Some (JNum b)) = (a = b)"
| "strict_equal (Some (JStr a)) (Some (JStr b)) = (a = b)"
| "strict_equal _ _ = False"

lemma strict_equal_eq: "strict_equal v w \<Longrightarrow> v = w"
  by (induction v w rule: strict_equal.induct) auto

section \<open>\<open>jsonb\<close>\<close>

text \<open>\<open>payload #> '{a,b}'\<close> over objects, and \<open>payload ? 'k'\<close>.\<close>

fun json_path :: "string list \<Rightarrow> json \<Rightarrow> json option" where
  "json_path [] v = Some v"
| "json_path (k # ks) v =
     (case as_record v of None \<Rightarrow> None
      | Some kvs \<Rightarrow> (case member_of kvs k of None \<Rightarrow> None | Some v' \<Rightarrow> json_path ks v'))"

definition has_key :: "json \<Rightarrow> string \<Rightarrow> bool" where
  "has_key v k = (opt_member (as_record v) k \<noteq> None)"

text \<open>
  \<open>jsonb\<close> does not keep the order of members: two values are equal when their forms with sorted
  members are. \<open>JSON.stringify\<close> of an object never repeats a key.
\<close>

function jsonb_form :: "json \<Rightarrow> json" where
  "jsonb_form (JArr xs) = JArr (map jsonb_form xs)"
| "jsonb_form (JObj kvs) = JObj (sort_key fst (map (\<lambda>kv. (fst kv, jsonb_form (snd kv))) kvs))"
| "jsonb_form JNull = JNull"
| "jsonb_form (JBool b) = JBool b"
| "jsonb_form (JNum n) = JNum n"
| "jsonb_form (JStr s) = JStr s"
  by pat_completeness auto
termination
  by (relation "measure jsize")
    (auto simp: less_Suc_eq_le jsize_element intro: members_size_member)

definition jsonb_eq :: "json \<Rightarrow> json \<Rightarrow> bool" where
  "jsonb_eq v w = (jsonb_form v = jsonb_form w)"

lemma jsonb_eq_refl [simp]: "jsonb_eq v v"
  by (simp add: jsonb_eq_def)

lemma jsonb_eq_sym: "jsonb_eq v w \<Longrightarrow> jsonb_eq w v"
  by (simp add: jsonb_eq_def)

lemma jsonb_eq_swapped_members:
  "jsonb_eq (JObj [(''a'', JNum 1), (''b'', JNull)]) (JObj [(''b'', JNull), (''a'', JNum 1)])"
  by (simp add: jsonb_eq_def)

end
