(* ===== verification/Schema.thy ===== *)
theory Schema
  imports Json_Value
begin

text \<open>
  The PostgreSQL tables (migrations/) the modelled components read and write, one record per
  table, and the database that holds them. Columns are those the modelled statements mention;
  the audit columns \<open>created_at\<close> and \<open>updated_at\<close> are kept only where a statement reads them.
  Identifiers of type \<open>uuid\<close> are strings in PostgreSQL's canonical (lower case) form.
\<close>

section \<open>Durable Telegram ingress\<close>

datatype ingress_status = IPending | IProcessing | ICompleted | IFailed

record ingress_queue =
  q_id :: string
  q_key :: string

record ingress_update =
  u_id :: int
  u_queue :: string
  u_key :: string
  u_payload :: json
  u_status :: ingress_status
  u_attempts :: int
  u_token :: "string option"
  u_expires :: "time option"
  u_dispatch :: "time option"
  u_session :: "string option"
  u_voice_file :: "string option"
  u_voice_size :: "int option"
  u_voice_mime :: "string option"
  u_transcript :: "string option"
  u_tr_started :: "time option"
  u_tr_done :: "time option"
  u_err_code :: "string option"
  u_err_message :: "string option"
  u_received :: time
  u_completed :: "time option"
  u_stall :: "time option"

section \<open>Families and groups\<close>

datatype chat_type = Private_chat | Group_chat | Supergroup_chat | Channel_chat

datatype group_type = Family_private | External_group

datatype message_mode = Addressed_only | All_messages | Owner_only

datatype family_role = Member_role | Owner_role | Recovery_owner_role

record telegram_group =
  g_id :: string
  g_family :: string
  g_chat_id :: string
  g_chat_type :: "chat_type option"
  g_type :: group_type
  g_mode :: message_mode
  g_allowlist :: "string list"

record app_user =
  usr_id :: string
  usr_telegram_id :: string

record membership =
  m_family :: string
  m_user :: string
  m_role :: family_role

section \<open>Conversation sessions\<close>

datatype memory_scope = Personal_scope | Family_scope | Group_scope

datatype session_kind = Canonical_session | Task_session

datatype task_state = Task_running | Task_pending | Task_completed | Task_failed

record conversation_session =
  s_id :: string
  s_thread :: string
  s_family :: string
  s_owner :: "string option"
  s_group :: "string option"
  s_scope :: memory_scope
  s_token :: string
  s_eve :: "string option"
  s_pending :: bool
  s_pending_request :: "string option"
  s_kind :: session_kind
  s_task :: "task_state option"
  s_retired :: "time option"

section \<open>Confirmation prompts\<close>

datatype request_kind = Question_request | Session_limit_request | Tool_approval_request

record callback_option =
  o_data :: string
  o_label :: string
  o_id :: string

record approval =
  a_id :: string
  a_session :: string
  a_eve :: string
  a_request :: string
  a_kind :: "request_kind option"
  a_chat :: string
  a_chat_type :: chat_type
  a_message :: int
  a_thread :: "int option"
  a_user :: string
  a_callbacks :: "string list"
  a_options :: json
  a_prompt :: "string option"
  a_call :: "string option"
  a_tool :: "string option"
  a_hash :: "string option"
  a_conversation :: "string option"
  a_timeline :: "string option"
  a_attributes :: "json option"
  a_created :: time
  a_consumed :: "time option"
  a_timed_out :: "time option"
  a_lease :: "string option"
  a_lease_until :: "time option"
  a_attempts :: int
  a_selected :: "(string \<times> string) option"

section \<open>Messages shown to a running turn\<close>

datatype content_kind = Kind_notice | Kind_text | Kind_voice

record interjection =
  i_update :: int
  i_session :: string
  i_eve :: string
  i_turn :: string
  i_call :: string
  i_kind :: content_kind
  i_returned :: "time option"
  i_step :: "int option"
  i_delivered :: "time option"

record turn_step =
  ts_eve :: string
  ts_turn :: string
  ts_index :: int
  ts_started :: time

section \<open>The database\<close>

record database =
  queues :: "ingress_queue list"
  aliases :: "(string \<times> string) list"
  updates :: "ingress_update list"
  ignored :: "(int \<times> string) list"
  cursors :: "(string \<times> int) list"
  pauses :: "time list"
  groups :: "telegram_group list"
  app_users :: "app_user list"
  memberships :: "membership list"
  sessions :: "conversation_session list"
  routes :: "(string \<times> string) list"
  approvals :: "approval list"
  interjections :: "interjection list"
  turn_steps :: "turn_step list"

definition empty_database :: database where
  "empty_database = \<lparr>queues = [], aliases = [], updates = [], ignored = [], cursors = [],
     pauses = [], groups = [], app_users = [], memberships = [], sessions = [], routes = [],
     approvals = [], interjections = [], turn_steps = []\<rparr>"

interpretation queue_rows: keyed_table q_id .
interpretation update_rows: keyed_table u_id .
interpretation approval_rows: keyed_table a_id .
interpretation session_rows: keyed_table s_id .
interpretation interjection_rows: keyed_table i_update .
interpretation alias_rows: keyed_table "fst :: string \<times> string \<Rightarrow> string" .

text \<open>
  A column \<open>callback_options\<close> is written from typed options and read back as untyped JSON.
\<close>

definition json_of_option :: "callback_option \<Rightarrow> json" where
  "json_of_option opt = JObj [(''callbackData'', JStr (o_data opt)), (''label'', JStr (o_label opt)),
     (''optionId'', JStr (o_id opt))]"

end
