(* ===== verification/Input_Validation.thy ===== *)
theory Input_Validation
  imports Json_Value
begin

text \<open>
  agent/lib/tool-input-validation.ts: the validators in front of every tool the model can call.
  A tool input is a JSON value the model wrote; each validator returns the typed value or throws
  an \<open>AppError\<close> with the code its caller gives. The messages, wording for the model, are left out.
\<close>

section \<open>Patterns\<close>

definition hex_digit :: "char \<Rightarrow> bool" where
  "hex_digit c = (ascii_digit c \<or> (CHR ''a'' \<le> c \<and> c \<le> CHR ''f''))"

definition uuid_shape :: "(char \<Rightarrow> bool) list" where
  "uuid_shape = replicate 8 hex_digit @ [\<lambda>c. c = CHR ''-''] @ replicate 4 hex_digit @
     [\<lambda>c. c = CHR ''-'', \<lambda>c. CHR ''1'' \<le> c \<and> c \<le> CHR ''8''] @ replicate 3 hex_digit @
     [\<lambda>c. c = CHR ''-'', \<lambda>c. c \<in> set ''89ab''] @ replicate 3 hex_digit @
     [\<lambda>c. c = CHR ''-''] @ replicate 12 hex_digit"

text \<open>\<open>UUID_PATTERN.test\<close>; the pattern ignores case.\<close>

definition uuid_pattern :: "string \<Rightarrow> bool" where
  "uuid_pattern s = list_all2 (\<lambda>p c. p (ascii_lower c)) uuid_shape s"

text \<open>\<open>$1::uuid\<close>: PostgreSQL compares a UUID without regard to case.\<close>

definition uuid_of :: "string \<Rightarrow> string" where
  "uuid_of s = map ascii_lower s"

lemma uuid_pattern_length: "uuid_pattern s \<Longrightarrow> length s = 36"
  by (auto simp: uuid_pattern_def uuid_shape_def dest: list_all2_lengthD)

lemma ascii_lower_idem [simp]: "ascii_lower (ascii_lower c) = ascii_lower c"
proof (cases "CHR ''A'' \<le> c \<and> c \<le> CHR ''Z''")
  case True
  then have b: "(65::nat) \<le> of_char c" "of_char c \<le> (90::nat)"
    by (auto simp: less_eq_char_def)
  then have "of_char (char_of (of_char c + 32 :: nat)) = (of_char c + 32 :: nat)"
    by (simp add: of_char_of)
  with True b show ?thesis
    by (simp add: ascii_lower_def less_eq_char_def)
next
  case False
  then show ?thesis by (auto simp: ascii_lower_def)
qed

lemma uuid_of_idem [simp]: "uuid_of (uuid_of s) = uuid_of s"
  by (simp add: uuid_of_def)

lemma uuid_pattern_uuid_of: "uuid_pattern (uuid_of s) = uuid_pattern s"
  by (simp add: uuid_pattern_def uuid_of_def list_all2_map2)

section \<open>Validators\<close>

definition tool_input_error :: "string \<Rightarrow> 'a result" where
  "tool_input_error code = Inl (AppError code)"

definition require_input_record :: "json option \<Rightarrow> string \<Rightarrow> jobj result" where
  "require_input_record raw code =
     (case opt_record raw of None \<Rightarrow> tool_input_error code | Some input \<Rightarrow> Inr input)"

definition require_only_fields :: "jobj \<Rightarrow> string list \<Rightarrow> string \<Rightarrow> unit result" where
  "require_only_fields input allowed_fields code =
     (let extra = filter (\<lambda>key. key \<notin> set allowed_fields) (map fst input)
      in if extra \<noteq> [] then tool_input_error code else Inr ())"

definition require_action :: "jobj \<Rightarrow> string list \<Rightarrow> string \<Rightarrow> string result" where
  "require_action input actions code =
     (case member_of input ''action'' of
        Some (JStr action) \<Rightarrow> if action \<in> set actions then Inr action else tool_input_error code
      | _ \<Rightarrow> tool_input_error code)"

definition required_string :: "jobj \<Rightarrow> string \<Rightarrow> string \<Rightarrow> nat option \<Rightarrow> string result" where
  "required_string input key code max_length =
     (case member_of input key of
        Some (JStr value) \<Rightarrow>
          if js_trim value = [] then tool_input_error code
          else (case max_length of
                  None \<Rightarrow> Inr value
                | Some limit \<Rightarrow> if limit < length value then tool_input_error code else Inr value)
      | _ \<Rightarrow> tool_input_error code)"

definition optional_field :: "(jobj \<Rightarrow> string \<Rightarrow> 'a result) \<Rightarrow> jobj \<Rightarrow> string \<Rightarrow> 'a option result" where
  "optional_field validator input key =
     (if member_of input key = None then Inr None
      else res_bind (validator input key) (\<lambda>x. Inr (Some x)))"

definition optional_string :: "jobj \<Rightarrow> string \<Rightarrow> string \<Rightarrow> nat option \<Rightarrow> string option result" where
  "optional_string input key code max_length =
     optional_field (\<lambda>i k. required_string i k code max_length) input key"

definition required_enum :: "jobj \<Rightarrow> string \<Rightarrow> string list \<Rightarrow> string \<Rightarrow> string result" where
  "required_enum input key values code =
     res_bind (required_string input key code None)
       (\<lambda>value. if value \<in> set values then Inr value else tool_input_error code)"

definition optional_enum :: "jobj \<Rightarrow> string \<Rightarrow> string list \<Rightarrow> string \<Rightarrow> string option result" where
  "optional_enum input key values code =
     optional_field (\<lambda>i k. required_enum i k values code) input key"

definition required_uuid :: "jobj \<Rightarrow> string \<Rightarrow> string \<Rightarrow> string result" where
  "required_uuid input key code =
     res_bind (required_string input key code None)
       (\<lambda>value. if uuid_pattern value then Inr value else tool_input_error code)"

definition required_object_field :: "jobj \<Rightarrow> string \<Rightarrow> string \<Rightarrow> jobj result" where
  "required_object_field input key code =
     (case opt_record (member_of input key) of
        None \<Rightarrow> tool_input_error code | Some kvs \<Rightarrow> Inr kvs)"

section \<open>What a validator's answer guarantees\<close>

lemmas validator_defs = tool_input_error_def require_input_record_def require_only_fields_def
  require_action_def required_string_def optional_field_def optional_string_def required_enum_def
  optional_enum_def required_uuid_def required_object_field_def

lemma required_string_Inr_iff:
  "required_string input key code max_length = Inr v \<longleftrightarrow>
     member_of input key = Some (JStr v) \<and> js_trim v \<noteq> [] \<and>
     (\<forall>limit. max_length = Some limit \<longrightarrow> length v \<le> limit)"
  by (auto simp: required_string_def tool_input_error_def not_less
      split: option.splits json.splits if_splits)

lemma required_string_Inl:
  "required_string input key code max_length = Inl e \<Longrightarrow> e = AppError code"
  by (auto simp: required_string_def tool_input_error_def
      split: option.splits json.splits if_splits)

lemma required_enum_Inr:
  "required_enum input key values code = Inr v \<Longrightarrow> v \<in> set values \<and> member_of input key = Some (JStr v)"
  by (auto simp: required_enum_def res_bind_Inr_iff required_string_Inr_iff tool_input_error_def
      split: if_splits)

lemma required_uuid_Inr:
  "required_uuid input key code = Inr v \<Longrightarrow> uuid_pattern v \<and> member_of input key = Some (JStr v)"
  by (auto simp: required_uuid_def res_bind_Inr_iff required_string_Inr_iff tool_input_error_def
      split: if_splits)

lemma optional_field_absent: "member_of input key = None \<Longrightarrow> optional_field f input key = Inr None"
  by (simp add: optional_field_def)

lemma require_action_Inr_iff:
  "require_action input actions code = Inr a \<longleftrightarrow>
     member_of input ''action'' = Some (JStr a) \<and> a \<in> set actions"
  by (auto simp: require_action_def tool_input_error_def split: option.splits json.splits if_splits)

lemma require_only_fields_Inr_iff:
  "require_only_fields input allowed code = Inr u \<longleftrightarrow> fst ` set input \<subseteq> set allowed"
  by (auto simp: require_only_fields_def tool_input_error_def filter_empty_conv split: if_splits)

end
