(* ===== verification/Ingress_Contract.thy ===== *)
theory Ingress_Contract
  imports Schema Input_Validation
begin

text \<open>
  agent/lib/telegram-ingress-contract.ts and telegram-ingress-concurrency.ts: the types that cross
  the boundary of the durable Telegram ingress and their validation, and the number of chats that
  are drained at once.
\<close>

definition postgres_bigint_max :: int where
  "postgres_bigint_max = 9223372036854775807"

record ingress_voice =
  v_file :: string
  v_size :: "js_number option"
  v_mime :: "string option"

record enqueue_input =
  e_key :: string
  e_payload :: json
  e_update :: string
  e_voice :: "ingress_voice option"

record ingress_failure =
  f_code :: string
  f_message :: string

record ingress_claim =
  c_attempts :: int
  c_delivery_key :: string
  c_ingress_key :: string
  c_expires :: time
  c_token :: string
  c_payload :: json
  c_queue :: string
  c_transcript :: "string option"
  c_update :: string
  c_voice :: "ingress_voice option"

record burst_policy =
  max_wait_ms :: js_number
  quiet_ms :: js_number

definition no_private_burst :: burst_policy where
  "no_private_burst = \<lparr>max_wait_ms = Int_num 0, quiet_ms = Int_num 0\<rparr>"

section \<open>Validation\<close>

definition require_non_empty :: "string \<Rightarrow> string \<Rightarrow> string result" where
  "require_non_empty value code = (if js_trim value = [] then Inl (AppError code) else Inr value)"

definition update_id_syntax :: "string \<Rightarrow> bool" where
  "update_id_syntax s \<longleftrightarrow> s = ''0'' \<or> (s \<noteq> [] \<and> hd s \<noteq> CHR ''0'' \<and> list_all ascii_digit s)"

text \<open>The text of an update id; its \<open>bigint\<close> value is \<open>decimal_value\<close>.\<close>

definition require_update_id :: "string \<Rightarrow> string result" where
  "require_update_id update_id =
     (if \<not> update_id_syntax update_id \<or> postgres_bigint_max < decimal_value update_id
      then Inl (AppError ''AGENT_TELEGRAM_UPDATE_ID_INVALID'') else Inr update_id)"

definition require_lease_milliseconds :: "js_number \<Rightarrow> int result" where
  "require_lease_milliseconds v =
     (if \<not> is_safe_integer v \<or> number_value v \<le> 0 then Inl (AppError ''AGENT_TELEGRAM_LEASE_INVALID'')
      else Inr (number_value v))"

definition require_uuid :: "string \<Rightarrow> string \<Rightarrow> string result" where
  "require_uuid value code = (if \<not> uuid_pattern value then Inl (AppError code) else Inr value)"

definition require_failure :: "ingress_failure \<Rightarrow> ingress_failure result" where
  "require_failure f =
     res_bind (require_non_empty (f_code f) ''AGENT_TELEGRAM_FAILURE_CODE_INVALID'') (\<lambda>_.
     res_bind (require_non_empty (f_message f) ''AGENT_TELEGRAM_FAILURE_MESSAGE_INVALID'') (\<lambda>_.
     Inr f))"

text \<open>\<open>!payload || Array.isArray(payload)\<close>\<close>

fun falsy_or_array :: "json \<Rightarrow> bool" where
  "falsy_or_array JNull = True"
| "falsy_or_array (JBool b) = (\<not> b)"
| "falsy_or_array (JNum n) = (n = 0)"
| "falsy_or_array (JStr s) = (s = [])"
| "falsy_or_array (JArr xs) = True"
| "falsy_or_array (JObj kvs) = False"

definition validate_voice :: "ingress_voice \<Rightarrow> unit result" where
  "validate_voice v =
     res_bind (require_non_empty (v_file v) ''AGENT_TELEGRAM_VOICE_INVALID'') (\<lambda>_.
       case v_size v of
         None \<Rightarrow> Inr ()
       | Some sz \<Rightarrow> if \<not> is_safe_integer sz \<or> number_value sz \<le> 0
                    then Inl (AppError ''AGENT_TELEGRAM_VOICE_INVALID'') else Inr ())"

definition validate_enqueue_input :: "enqueue_input \<Rightarrow> unit result" where
  "validate_enqueue_input input =
     res_bind (require_update_id (e_update input)) (\<lambda>_.
     res_bind (require_non_empty (e_key input) ''AGENT_TELEGRAM_CONTINUATION_INVALID'') (\<lambda>_.
     if falsy_or_array (e_payload input) then Inl (AppError ''AGENT_TELEGRAM_PAYLOAD_INVALID'')
     else (case e_voice input of None \<Rightarrow> Inr () | Some v \<Rightarrow> validate_voice v)))"

definition require_private_burst_policy :: "burst_policy \<Rightarrow> unit result" where
  "require_private_burst_policy burst =
     (if \<not> list_all (\<lambda>v. is_safe_integer v \<and> 0 \<le> number_value v) [max_wait_ms burst, quiet_ms burst] \<or>
         number_value (max_wait_ms burst) < number_value (quiet_ms burst)
      then Inl (AppError ''AGENT_TELEGRAM_BURST_WINDOW_INVALID'') else Inr ())"

lemma require_non_empty_Inr: "require_non_empty v c = Inr w \<longleftrightarrow> w = v \<and> js_trim v \<noteq> []"
  by (auto simp: require_non_empty_def)

lemma require_uuid_Inr: "require_uuid v c = Inr w \<longleftrightarrow> w = v \<and> uuid_pattern v"
  by (auto simp: require_uuid_def)

lemma require_lease_Inr:
  "require_lease_milliseconds v = Inr n \<longleftrightarrow> v = Int_num n \<and> 0 < n \<and> n \<le> max_safe_integer"
  by (cases v) (auto simp: require_lease_milliseconds_def max_safe_integer_def)

lemma js_trim_Nil [simp]: "js_trim [] = []"
  by (simp add: js_trim_def)

lemma js_trim_nonempty: "js_trim s \<noteq> [] \<Longrightarrow> s \<noteq> []"
  by (auto simp: js_trim_def)

text \<open>The digits of a natural number are never refused for their form.\<close>

lemma update_id_syntax_nat_text: "update_id_syntax (nat_text n)"
proof (cases "n = 0")
  case True
  have "nat_text 0 = ''0''" by (subst nat_text.simps) (simp add: digit_char_def char_of_def bit_simps)
  with True show ?thesis by (simp add: update_id_syntax_def)
next
  case False
  then show ?thesis
    by (simp add: update_id_syntax_def nat_text_digits nat_text_leading)
qed

lemma decimal_value_nonneg: "list_all ascii_digit s \<Longrightarrow> 0 \<le> decimal_value s"
proof (induction s rule: rev_induct)
  case Nil
  then show ?case by (simp add: decimal_value_def)
next
  case (snoc c s)
  then have "(48::nat) \<le> of_char c" by (simp add: ascii_digit_def less_eq_char_def)
  then have "48 \<le> int (of_char c)" by linarith
  then have "0 \<le> digit_value c" by (simp only: digit_value_def of_nat_of_char diff_ge_0_iff_ge)
  with snoc show ?case by simp
qed

lemma require_update_id_Inr:
  "require_update_id s = Inr w \<Longrightarrow> w = s \<and> 0 \<le> decimal_value s \<and> decimal_value s \<le> postgres_bigint_max"
  by (auto simp: require_update_id_def update_id_syntax_def decimal_value_nonneg split: if_splits)
    (simp_all add: decimal_value_def digit_value_def)

section \<open>Claims\<close>

text \<open>
  \<open>mapTelegramIngressClaim\<close> over the row of the update and the current key of its queue; a lease is
  set in every row a claim returns.
\<close>

definition map_telegram_ingress_claim :: "ingress_update \<Rightarrow> string \<Rightarrow> ingress_claim" where
  "map_telegram_ingress_claim r current_key =
     \<lparr>c_attempts = u_attempts r, c_delivery_key = current_key, c_ingress_key = u_key r,
      c_expires = the (u_expires r), c_token = the (u_token r), c_payload = u_payload r,
      c_queue = u_queue r, c_transcript = u_transcript r, c_update = nat_text (nat (u_id r)),
      c_voice = (case u_voice_file r of
          None \<Rightarrow> None
        | Some f \<Rightarrow> if f = [] then None
                    else Some \<lparr>v_file = f, v_size = map_option Int_num (u_voice_size r),
                               v_mime = u_voice_mime r\<rparr>)\<rparr>"

section \<open>Concurrency\<close>

definition default_drains :: int where "default_drains = 3"

definition max_drains :: int where "max_drains = 100"

text \<open>\<open>Number(raw)\<close> of a text of digits above the safe range is refused like any unsafe number.\<close>

definition telegram_ingress_max_concurrent_drains :: "string option \<Rightarrow> int result" where
  "telegram_ingress_max_concurrent_drains raw =
     (case raw of
        None \<Rightarrow> Inr default_drains
      | Some s \<Rightarrow>
          (let value = decimal_value s
           in if s = [] \<or> \<not> list_all ascii_digit s \<or> max_safe_integer < value \<or> value < 1 \<or> max_drains < value
              then Inl (AppError ''AGENT_TELEGRAM_INGRESS_CONCURRENCY_INVALID'') else Inr value))"

end
