(* ===== verification/Rich_Message.thy ===== *)
theory Rich_Message
  imports Json_Value
begin

text \<open>
  agent/lib/telegram-rich-message.ts: the readable text of a Bot API rich message, the one file it
  may carry, and the stored shape of a message whose file the chat may not read.
\<close>

section \<open>Rich text\<close>

function rich_text :: "json \<Rightarrow> string" where
  "rich_text (JStr s) = s"
| "rich_text (JArr parts) = concat (map rich_text parts)"
| "rich_text (JObj kvs) =
     (case member_of kvs ''text'' of
        Some text \<Rightarrow> (case text of JStr _ \<Rightarrow> rich_text text | JArr _ \<Rightarrow> rich_text text | _ \<Rightarrow> [])
      | None \<Rightarrow> [])"
| "rich_text JNull = []"
| "rich_text (JBool b) = []"
| "rich_text (JNum n) = []"
  by pat_completeness auto
termination
  by (relation "measure jsize") (auto simp: less_Suc_eq_le jsize_element dest: member_size)

definition opt_rich_text :: "json option \<Rightarrow> string" where
  "opt_rich_text v = (case v of None \<Rightarrow> [] | Some x \<Rightarrow> rich_text x)"

text \<open>\<open>a ?? b\<close>\<close>

definition nullish_or :: "json option \<Rightarrow> json option \<Rightarrow> json option" where
  "nullish_or a b = (case a of None \<Rightarrow> b | Some JNull \<Rightarrow> b | Some x \<Rightarrow> Some x)"

definition text_or_self :: "json option \<Rightarrow> string" where
  "text_or_self v = opt_rich_text (nullish_or (opt_member (opt_record v) ''text'') v)"

definition non_empty :: "string \<Rightarrow> string list" where
  "non_empty s = (if s = [] then [] else [s])"

definition block_type :: "jobj \<Rightarrow> string option" where
  "block_type block = (case member_of block ''type'' of Some (JStr t) \<Rightarrow> Some t | _ \<Rightarrow> None)"

definition text_block_types :: "string list" where
  "text_block_types = [''paragraph'', ''section_heading'', ''preformatted'', ''footer'', ''thinking'',
     ''mathematical_expression'']"

definition quotation_block_types :: "string list" where
  "quotation_block_types = [''blockquote'', ''expandable_blockquote'', ''block_quotation'',
     ''expandable_block_quotation'']"

definition rich_media_blocks :: "string list" where
  "rich_media_blocks = [''animation'', ''audio'', ''document'', ''photo'', ''video'', ''voice_note'']"

definition table_text :: "jobj \<Rightarrow> string list" where
  "table_text block =
     (case member_of block ''rows'' of
        Some (JArr rows) \<Rightarrow>
          filter (\<lambda>s. s \<noteq> []) (concat (map (\<lambda>row.
            (case opt_member (as_record row) ''cells'' of
               Some (JArr cells) \<Rightarrow>
                 [join_with '' | '' (filter (\<lambda>s. s \<noteq> []) (map (\<lambda>cell. text_or_self (Some cell)) cells))]
             | _ \<Rightarrow> [])) rows))
      | _ \<Rightarrow> [])"

section \<open>Blocks\<close>

function (sequential) blocks_text :: "json \<Rightarrow> string list"
  and block_text :: "json \<Rightarrow> string list"
  and item_text :: "json \<Rightarrow> string list" where
  "blocks_text (JArr blocks) = concat (map block_text blocks)"
| "blocks_text _ = []"
| "block_text (JObj block) =
     (case block_type block of
        None \<Rightarrow> []
      | Some t \<Rightarrow>
          if t \<in> set text_block_types then non_empty (opt_rich_text (member_of block ''text''))
          else if t = ''details'' then
            non_empty (opt_rich_text (nullish_or (member_of block ''summary'') (member_of block ''header''))) @
            (case member_of block ''blocks'' of None \<Rightarrow> [] | Some v \<Rightarrow> blocks_text v)
          else if t \<in> set quotation_block_types then
            (case member_of block ''blocks'' of None \<Rightarrow> [] | Some v \<Rightarrow> blocks_text v)
          else if t = ''pull_quotation'' then
            non_empty (opt_rich_text (member_of block ''text'')) @
            (case member_of block ''blocks'' of None \<Rightarrow> [] | Some v \<Rightarrow> blocks_text v)
          else if t = ''list'' then
            (case member_of block ''items'' of
               Some (JArr items) \<Rightarrow> concat (map item_text items) | _ \<Rightarrow> [])
          else if t = ''table'' then table_text block
          else if t \<in> set rich_media_blocks then non_empty (text_or_self (member_of block ''caption''))
          else [])"
| "block_text _ = []"
| "item_text (JObj entry) =
     (let text = opt_rich_text (member_of entry ''text'')
      in if text \<noteq> [] then [text]
         else (case member_of entry ''blocks'' of None \<Rightarrow> [] | Some v \<Rightarrow> blocks_text v))"
| "item_text _ = []"
  by pat_completeness auto
termination
  by (relation "measure (\<lambda>x. case x of Inl v \<Rightarrow> jsize v | Inr (Inl v) \<Rightarrow> jsize v | Inr (Inr v) \<Rightarrow> jsize v)")
    (auto simp: less_Suc_eq_le jsize_element dest!: member_size dest: jsize_element)

definition opt_blocks_text :: "json option \<Rightarrow> string list" where
  "opt_blocks_text v = (case v of None \<Rightarrow> [] | Some x \<Rightarrow> blocks_text x)"

definition paragraph_break :: string where
  "paragraph_break = [CHR 0x0A, CHR 0x0A]"

definition rich_message_plain_text :: "jobj \<Rightarrow> string option" where
  "rich_message_plain_text raw =
     (case opt_record (member_of raw ''rich_message'') of
        None \<Rightarrow> None
      | Some rich \<Rightarrow>
          (let from_blocks = join_with paragraph_break
                 (filter (\<lambda>s. s \<noteq> []) (map js_trim (opt_blocks_text (member_of rich ''blocks''))))
           in if from_blocks \<noteq> [] then Some from_blocks
              else (case member_of rich ''text'' of
                      Some (JStr text) \<Rightarrow> if js_trim text \<noteq> [] then Some (js_trim text) else None
                    | _ \<Rightarrow> None)))"

section \<open>The inbound update\<close>

text \<open>
  Eve's parsed update, the fields this module reads: the message text, its attachments and the raw
  Telegram object.
\<close>

record attachment =
  at_file :: json
  at_kind :: string
  at_unique :: "string option"
  at_name :: "string option"
  at_media_type :: "string option"
  at_size :: "rat option"
  at_width :: "rat option"
  at_height :: "rat option"

record telegram_message =
  tm_text :: string
  tm_attachments :: "attachment list"
  tm_raw :: jobj

datatype telegram_update = Message_update telegram_message | Callback_update

definition with_rich_message_text :: "telegram_update \<Rightarrow> telegram_update" where
  "with_rich_message_text update =
     (case update of
        Callback_update \<Rightarrow> update
      | Message_update m \<Rightarrow>
          if js_trim (tm_text m) \<noteq> [] then update
          else (case rich_message_plain_text (tm_raw m) of
                  None \<Rightarrow> update | Some text \<Rightarrow> Message_update (m\<lparr>tm_text := text\<rparr>)))"

section \<open>The file of a rich message\<close>

function all_blocks :: "json \<Rightarrow> jobj list" where
  "all_blocks (JArr blocks) =
     concat (map (\<lambda>entry. case entry of
         JObj block \<Rightarrow> block #
           (case member_of block ''blocks'' of None \<Rightarrow> [] | Some v \<Rightarrow> all_blocks v) @
           (case member_of block ''items'' of None \<Rightarrow> [] | Some v \<Rightarrow> all_blocks v)
       | _ \<Rightarrow> []) blocks)"
| "all_blocks JNull = []"
| "all_blocks (JBool b) = []"
| "all_blocks (JNum n) = []"
| "all_blocks (JStr s) = []"
| "all_blocks (JObj kvs) = []"
  by pat_completeness auto
termination
  by (relation "measure jsize")
    (fastforce simp: less_Suc_eq_le dest!: member_size dest: jsize_element)+

definition is_media_block :: "jobj \<Rightarrow> bool" where
  "is_media_block block = (case block_type block of None \<Rightarrow> False | Some t \<Rightarrow> t \<in> set rich_media_blocks)"

definition media_blocks :: "jobj \<Rightarrow> jobj list option" where
  "media_blocks raw =
     (case opt_member (opt_record (member_of raw ''rich_message'')) ''blocks'' of
        Some (JArr blocks) \<Rightarrow> Some (filter is_media_block (all_blocks (JArr blocks)))
      | _ \<Rightarrow> None)"

datatype rich_media = Rich_document jobj | Rich_photo "jobj list"

definition has_file_id :: "jobj \<Rightarrow> bool" where
  "has_file_id r = (case member_of r ''file_id'' of Some (JStr s) \<Rightarrow> s \<noteq> [] | _ \<Rightarrow> False)"

definition sized_photos :: "json list \<Rightarrow> jobj list option" where
  "sized_photos photos =
     (let sizes = map as_record photos
      in if sizes = [] \<or> list_ex (\<lambda>sz. case sz of None \<Rightarrow> True | Some r \<Rightarrow> \<not> has_file_id r) sizes
         then None else Some (map the sizes))"

definition rich_message_media :: "jobj \<Rightarrow> rich_media option" where
  "rich_message_media raw =
     (case media_blocks raw of
        Some [block] \<Rightarrow>
          (case block_type block of
             None \<Rightarrow> None
           | Some t \<Rightarrow>
               if t = ''photo'' then
                 (case member_of block ''photo'' of
                    Some (JArr photos) \<Rightarrow> map_option Rich_photo (sized_photos photos) | _ \<Rightarrow> None)
               else if t = ''document'' then
                 (case opt_record (member_of block ''document'') of
                    Some d \<Rightarrow> if has_file_id d then Some (Rich_document d) else None
                  | None \<Rightarrow> None)
               else None)
      | _ \<Rightarrow> None)"

definition number_or_zero :: "json option \<Rightarrow> rat" where
  "number_or_zero v = (case v of Some (JNum n) \<Rightarrow> n | _ \<Rightarrow> 0)"

definition size_area :: "jobj \<Rightarrow> rat" where
  "size_area sz = number_or_zero (member_of sz ''width'') * number_or_zero (member_of sz ''height'')"

definition largest_size :: "jobj \<Rightarrow> jobj list \<Rightarrow> jobj" where
  "largest_size first rest =
     foldl (\<lambda>best sz. if size_area best < size_area sz then sz else best) first (first # rest)"

definition string_member :: "jobj \<Rightarrow> string \<Rightarrow> string option" where
  "string_member r k = (case member_of r k of Some (JStr s) \<Rightarrow> Some s | _ \<Rightarrow> None)"

definition number_member :: "jobj \<Rightarrow> string \<Rightarrow> rat option" where
  "number_member r k = (case member_of r k of Some (JNum n) \<Rightarrow> Some n | _ \<Rightarrow> None)"

definition file_id_of :: "jobj \<Rightarrow> json" where
  "file_id_of r = (case member_of r ''file_id'' of Some v \<Rightarrow> v | None \<Rightarrow> JNull)"

definition photo_attachment :: "jobj \<Rightarrow> attachment" where
  "photo_attachment best =
     \<lparr>at_file = file_id_of best, at_kind = ''photo'', at_unique = string_member best ''file_unique_id'',
      at_name = None, at_media_type = Some ''image/jpeg'', at_size = number_member best ''file_size'',
      at_width = number_member best ''width'', at_height = number_member best ''height''\<rparr>"

definition document_attachment :: "jobj \<Rightarrow> attachment" where
  "document_attachment d =
     \<lparr>at_file = file_id_of d, at_kind = ''document'', at_unique = string_member d ''file_unique_id'',
      at_name = string_member d ''file_name'', at_media_type = string_member d ''mime_type'',
      at_size = number_member d ''file_size'', at_width = None, at_height = None\<rparr>"

definition normalize_rich_message :: "telegram_update \<Rightarrow> telegram_update" where
  "normalize_rich_message update =
     (case with_rich_message_text update of
        Callback_update \<Rightarrow> Callback_update
      | Message_update m \<Rightarrow>
          if member_of (tm_raw m) ''photo'' \<noteq> None \<or> member_of (tm_raw m) ''document'' \<noteq> None \<or>
             tm_attachments m \<noteq> [] then Message_update m
          else (case rich_message_media (tm_raw m) of
                  None \<Rightarrow> Message_update m
                | Some (Rich_photo sizes) \<Rightarrow>
                    Message_update (m\<lparr>tm_attachments := [photo_attachment (largest_size (hd sizes) (tl sizes))],
                      tm_raw := set_member (tm_raw m) ''photo'' (JArr (map JObj sizes))\<rparr>)
                | Some (Rich_document d) \<Rightarrow>
                    Message_update (m\<lparr>tm_attachments := [document_attachment d],
                      tm_raw := set_member (tm_raw m) ''document'' (JObj d)\<rparr>)))"

definition photo_ids :: "json list \<Rightarrow> string" where
  "photo_ids sizes = join_with [CHR 0x00] (sort (concat (map (\<lambda>sz.
     (case opt_member (as_record sz) ''file_id'' of Some (JStr s) \<Rightarrow> [s] | _ \<Rightarrow> [])) sizes)))"

definition rich_media_is_lifted :: "jobj \<Rightarrow> bool" where
  "rich_media_is_lifted raw =
     (case rich_message_media raw of
        None \<Rightarrow> False
      | Some (Rich_document d) \<Rightarrow>
          member_of raw ''photo'' = None \<and>
          strict_equal (opt_member (opt_record (member_of raw ''document'')) ''file_id'') (member_of d ''file_id'')
      | Some (Rich_photo sizes) \<Rightarrow>
          (case (member_of raw ''document'', member_of raw ''photo'') of
             (None, Some (JArr photos)) \<Rightarrow> photo_ids (map JObj sizes) = photo_ids photos
           | _ \<Rightarrow> False))"

section \<open>The stored shape without files\<close>

text \<open>\<open>{...block, ...nested}\<close> with \<open>nested\<close> holding only the array-valued container members.\<close>

definition put_member :: "jobj \<Rightarrow> string \<Rightarrow> json option \<Rightarrow> jobj" where
  "put_member r k v = (case v of None \<Rightarrow> r | Some x \<Rightarrow> set_member r k x)"

function strip_entry :: "json \<Rightarrow> json list" where
  "strip_entry (JObj block) =
     (if is_media_block block then
        (let caption = text_or_self (member_of block ''caption'')
         in if caption \<noteq> [] then [JObj [(''text'', JStr caption), (''type'', JStr ''paragraph'')]] else [])
      else
        [JObj (put_member (put_member block ''blocks''
          (case member_of block ''blocks'' of
             Some v \<Rightarrow> (case v of JArr xs \<Rightarrow> Some (JArr (concat (map strip_entry xs))) | _ \<Rightarrow> None)
           | None \<Rightarrow> None)) ''items''
          (case member_of block ''items'' of
             Some v \<Rightarrow> (case v of JArr xs \<Rightarrow> Some (JArr (concat (map strip_entry xs))) | _ \<Rightarrow> None)
           | None \<Rightarrow> None))])"
| "strip_entry JNull = [JNull]"
| "strip_entry (JBool b) = [JBool b]"
| "strip_entry (JNum n) = [JNum n]"
| "strip_entry (JStr s) = [JStr s]"
| "strip_entry (JArr xs) = [JArr xs]"
  by pat_completeness auto
termination
  by (relation "measure jsize")
    (auto simp: less_Suc_eq_le dest!: member_size dest: jsize_element)

definition strip_media_blocks :: "json list \<Rightarrow> json list" where
  "strip_media_blocks blocks = concat (map strip_entry blocks)"

definition without_rich_media_blocks :: "jobj \<Rightarrow> jobj" where
  "without_rich_media_blocks payload =
     (case opt_record (member_of payload ''message'') of
        None \<Rightarrow> payload
      | Some message \<Rightarrow>
          (case opt_record (member_of message ''rich_message'') of
             None \<Rightarrow> payload
           | Some rich \<Rightarrow>
               (case member_of rich ''blocks'' of
                  Some (JArr blocks) \<Rightarrow>
                    set_member payload ''message'' (JObj (set_member message ''rich_message''
                      (JObj (set_member rich ''blocks'' (JArr (strip_media_blocks blocks))))))
                | _ \<Rightarrow> payload)))"

section \<open>Stripping removes every file\<close>

definition strip_member :: "json option \<Rightarrow> json option" where
  "strip_member v = (case v of Some (JArr xs) \<Rightarrow> Some (JArr (strip_media_blocks xs)) | _ \<Rightarrow> None)"

lemma strip_entry_JObj:
  "strip_entry (JObj block) =
     (if is_media_block block then
        (if text_or_self (member_of block ''caption'') \<noteq> []
         then [JObj [(''text'', JStr (text_or_self (member_of block ''caption''))), (''type'', JStr ''paragraph'')]]
         else [])
      else [JObj (put_member (put_member block ''blocks'' (strip_member (member_of block ''blocks'')))
              ''items'' (strip_member (member_of block ''items'')))])"
  by (simp add: Let_def strip_member_def strip_media_blocks_def split: option.split json.split)

declare strip_entry.simps(1) [simp del] all_blocks.simps(1) [simp del]

lemma strip_induct:
  assumes obj: "\<And>block. (\<And>k xs x. \<not> is_media_block block \<Longrightarrow> k \<in> {''blocks'', ''items''} \<Longrightarrow>
      member_of block k = Some (JArr xs) \<Longrightarrow> x \<in> set xs \<Longrightarrow> P x) \<Longrightarrow> P (JObj block)"
    and other: "\<And>v. as_record v = None \<Longrightarrow> P v"
  shows "P e"
proof (induction e rule: strip_entry.induct)
  case (1 block)
  show ?case by (rule obj) (use 1 in auto)
qed (simp_all add: other as_record_def)

lemma strip_entry_other: "as_record v = None \<Longrightarrow> strip_entry v = [v]"
  by (cases v) (simp_all add: as_record_def)

lemma member_put_member:
  "member_of (put_member r k v) k' = (if k' = k \<and> v \<noteq> None then v else member_of r k')"
  by (auto simp: put_member_def member_set_member split: option.splits)

lemma strip_member_Some_iff:
  "strip_member v = Some z \<longleftrightarrow> (\<exists>xs. v = Some (JArr xs) \<and> z = JArr (strip_media_blocks xs))"
  by (auto simp: strip_member_def split: option.splits json.splits)

lemma strip_member_None_iff: "strip_member v = None \<longleftrightarrow> (\<forall>xs. v \<noteq> Some (JArr xs))"
  by (auto simp: strip_member_def split: option.splits json.splits)

lemma block_type_put_member [simp]: "k \<noteq> ''type'' \<Longrightarrow> block_type (put_member r k v) = block_type r"
  by (simp add: block_type_def member_put_member)

lemma is_media_put_member [simp]: "k \<noteq> ''type'' \<Longrightarrow> is_media_block (put_member r k v) = is_media_block r"
  by (simp add: is_media_block_def)

lemma all_blocks_append: "all_blocks (JArr (xs @ ys)) = all_blocks (JArr xs) @ all_blocks (JArr ys)"
  by (simp add: all_blocks.simps(1))

lemma all_blocks_Nil [simp]: "all_blocks (JArr []) = []"
  by (simp add: all_blocks.simps(1))

lemma all_blocks_other: "as_record v = None \<Longrightarrow> all_blocks (JArr [v]) = []"
  by (cases v) (simp_all add: as_record_def all_blocks.simps(1))

lemma set_all_blocks_strip:
  "set (all_blocks (JArr (strip_media_blocks xs))) = (\<Union>x\<in>set xs. set (all_blocks (JArr (strip_entry x))))"
  by (induction xs) (auto simp: strip_media_blocks_def all_blocks_append)

definition nested_blocks :: "jobj \<Rightarrow> string \<Rightarrow> jobj list" where
  "nested_blocks block k = (case member_of block k of None \<Rightarrow> [] | Some v \<Rightarrow> all_blocks v)"

lemma all_blocks_JObj:
  "all_blocks (JArr [JObj block]) = block # nested_blocks block ''blocks'' @ nested_blocks block ''items''"
  by (simp add: nested_blocks_def all_blocks.simps(1))

lemma nested_stripped:
  "nested_blocks (put_member (put_member block ''blocks'' (strip_member (member_of block ''blocks'')))
     ''items'' (strip_member (member_of block ''items''))) k =
   (if k \<in> {''blocks'', ''items''}
    then (case member_of block k of Some (JArr xs) \<Rightarrow> all_blocks (JArr (strip_media_blocks xs)) | _ \<Rightarrow> [])
    else nested_blocks block k)"
  by (auto simp: nested_blocks_def member_put_member strip_member_def 
      split: option.splits json.splits)

lemma in_nested_stripped:
  assumes "k \<in> {''blocks'', ''items''}"
  shows "b \<in> set (nested_blocks (put_member (put_member block ''blocks'' (strip_member (member_of block ''blocks'')))
       ''items'' (strip_member (member_of block ''items''))) k) \<longleftrightarrow>
     (\<exists>xs. member_of block k = Some (JArr xs) \<and> b \<in> set (all_blocks (JArr (strip_media_blocks xs))))"
proof (cases "member_of block k")
  case None
  with assms show ?thesis by (simp add: nested_stripped)
next
  case (Some v)
  with assms show ?thesis by (cases v) (simp_all add: nested_stripped)
qed

lemma strip_entry_no_media: "b \<in> set (all_blocks (JArr (strip_entry e))) \<Longrightarrow> \<not> is_media_block b"
proof (induction e arbitrary: b rule: strip_induct)
  case (1 block)
  show ?case
  proof (cases "is_media_block block")
    case True
    with 1(2) show ?thesis
      by (auto simp: strip_entry_JObj all_blocks_JObj nested_blocks_def is_media_block_def block_type_def
          member_of_def rich_media_blocks_def split: if_splits)
  next
    case False
    have nest: "\<not> is_media_block b" if "member_of block k = Some (JArr xs)" "k \<in> {''blocks'', ''items''}"
      "b \<in> set (all_blocks (JArr (strip_media_blocks xs)))" for k xs
      using that 1(1) False unfolding set_all_blocks_strip by blast
    from 1(2) False nest show ?thesis
      unfolding strip_entry_JObj if_not_P [OF False] all_blocks_JObj
      by (auto simp: in_nested_stripped)
  qed
qed (simp add: strip_entry_other all_blocks_other)

lemma strip_no_media: "filter is_media_block (all_blocks (JArr (strip_media_blocks xs))) = []"
  unfolding filter_empty_conv set_all_blocks_strip by (auto dest: strip_entry_no_media)

section \<open>Stripping twice is stripping once\<close>

lemma set_member_same: "member_of r k = Some v \<Longrightarrow> set_member r k v = r"
  by (induction r k v rule: set_member.induct) (auto simp: member_of_def)

lemma strip_fixed_arr:
  assumes "\<And>x. x \<in> set xs \<Longrightarrow> strip_media_blocks (strip_entry x) = strip_entry x"
  shows "strip_media_blocks (strip_media_blocks xs) = strip_media_blocks xs"
  using assms by (induction xs) (auto simp: strip_media_blocks_def)

lemma strip_member_same:
  assumes "\<And>xs. member_of r k = Some (JArr xs) \<Longrightarrow> strip_media_blocks xs = xs"
  shows "put_member r k (strip_member (member_of r k)) = r"
  using assms by (auto simp: put_member_def strip_member_def set_member_same split: option.splits json.splits)

lemma strip_entry_twice: "strip_media_blocks (strip_entry e) = strip_entry e"
proof (induction e rule: strip_induct)
  case (1 block)
  show ?case
  proof (cases "is_media_block block")
    case True
    show ?thesis
      using True by (auto simp: strip_entry_JObj strip_media_blocks_def is_media_block_def block_type_def
          member_of_def rich_media_blocks_def strip_member_def put_member_def)
  next
    case False
    define b' where "b' = put_member (put_member block ''blocks'' (strip_member (member_of block ''blocks'')))
      ''items'' (strip_member (member_of block ''items''))"
    have e: "strip_entry (JObj block) = [JObj b']"
      using False by (simp add: strip_entry_JObj b'_def)
    have fixed: "strip_media_blocks ys = ys" if h: "member_of b' k = Some (JArr ys)" "k \<in> {''blocks'', ''items''}" for k ys
    proof -
      obtain xs where "member_of block k = Some (JArr xs)" "ys = strip_media_blocks xs"
        using h unfolding b'_def member_put_member
        by (auto simp: strip_member_Some_iff strip_member_None_iff split: if_splits)
      with h(2) 1 False show ?thesis
        using strip_fixed_arr [of xs] by blast
    qed
    have "strip_entry (JObj b') = [JObj b']"
      using False strip_member_same [of b' "''blocks''"] strip_member_same [of b' "''items''"] fixed
      by (simp add: strip_entry_JObj) (simp add: b'_def)
    then show ?thesis by (simp add: e strip_media_blocks_def)
  qed
qed (simp add: strip_entry_other strip_media_blocks_def)

section \<open>Stripping keeps the text\<close>

text \<open>
  A list shows the text of its items and not their captions, so the text survives when no item of
  a list is itself a media block (the Bot API gives items no type).
\<close>

definition plain_items :: "jobj \<Rightarrow> bool" where
  "plain_items block =
     (block_type block = Some ''list'' \<longrightarrow>
      (case member_of block ''items'' of
         Some (JArr items) \<Rightarrow>
           list_all (\<lambda>it. case as_record it of None \<Rightarrow> True | Some entry \<Rightarrow> \<not> is_media_block entry) items
       | _ \<Rightarrow> True))"

declare block_text.simps(1) [simp del] item_text.simps(1) [simp del]

lemma block_text_JObj:
  "block_text (JObj block) =
     (case block_type block of
        None \<Rightarrow> []
      | Some t \<Rightarrow>
          if t \<in> set text_block_types then non_empty (opt_rich_text (member_of block ''text''))
          else if t = ''details'' then
            non_empty (opt_rich_text (nullish_or (member_of block ''summary'') (member_of block ''header''))) @
            opt_blocks_text (member_of block ''blocks'')
          else if t \<in> set quotation_block_types then opt_blocks_text (member_of block ''blocks'')
          else if t = ''pull_quotation'' then
            non_empty (opt_rich_text (member_of block ''text'')) @ opt_blocks_text (member_of block ''blocks'')
          else if t = ''list'' then
            (case member_of block ''items'' of
               Some (JArr items) \<Rightarrow> concat (map item_text items) | _ \<Rightarrow> [])
          else if t = ''table'' then table_text block
          else if t \<in> set rich_media_blocks then non_empty (text_or_self (member_of block ''caption''))
          else [])"
  by (simp add: block_text.simps(1) opt_blocks_text_def cong: if_cong split: option.split)

lemma item_text_JObj:
  "item_text (JObj entry) =
     (if opt_rich_text (member_of entry ''text'') \<noteq> [] then [opt_rich_text (member_of entry ''text'')]
      else opt_blocks_text (member_of entry ''blocks''))"
  by (simp add: item_text.simps(1) opt_blocks_text_def Let_def split: option.split)

lemma table_text_put_member [simp]: "k \<noteq> ''rows'' \<Longrightarrow> table_text (put_member r k v) = table_text r"
  by (simp add: table_text_def member_put_member)

lemma nested_element:
  "member_of block k = Some (JArr xs) \<Longrightarrow> x \<in> set xs \<Longrightarrow>
     set (all_blocks (JArr [x])) \<subseteq> set (nested_blocks block k)"
  by (auto simp: nested_blocks_def all_blocks.simps(1) split: json.splits)

lemma media_block_text:
  "is_media_block block \<Longrightarrow> block_text (JObj block) = non_empty (text_or_self (member_of block ''caption''))"
  by (auto simp: is_media_block_def block_text_JObj rich_media_blocks_def text_block_types_def
      quotation_block_types_def split: option.splits)

lemma caption_paragraph_text:
  "block_text (JObj [(''text'', JStr c), (''type'', JStr ''paragraph'')]) = non_empty c"
  by (simp add: block_text_JObj block_type_def member_of_def text_block_types_def opt_rich_text_def)

lemma strip_entry_media_text:
  "is_media_block block \<Longrightarrow> concat (map block_text (strip_entry (JObj block))) = block_text (JObj block)"
  by (simp add: strip_entry_JObj media_block_text caption_paragraph_text non_empty_def)

lemma strip_list_text:
  assumes "\<And>x. x \<in> set xs \<Longrightarrow> concat (map f (strip_entry x)) = f x"
  shows "concat (map f (strip_media_blocks xs)) = concat (map f xs)"
  using assms by (induction xs) (auto simp: strip_media_blocks_def)

lemma strip_entry_text:
  "list_all plain_items (all_blocks (JArr [e])) \<Longrightarrow>
     concat (map block_text (strip_entry e)) = block_text e \<and>
     ((\<forall>b. e = JObj b \<longrightarrow> \<not> is_media_block b) \<longrightarrow> concat (map item_text (strip_entry e)) = item_text e)"
proof (induction e rule: strip_induct)
  case (1 block)
  show ?case
  proof (cases "is_media_block block")
    case True
    then show ?thesis by (simp add: strip_entry_media_text)
  next
    case False
    define b' where "b' = put_member (put_member block ''blocks'' (strip_member (member_of block ''blocks'')))
      ''items'' (strip_member (member_of block ''items''))"
    have e: "strip_entry (JObj block) = [JObj b']"
      using False by (simp add: strip_entry_JObj b'_def)
    have other: "member_of b' k = member_of block k" if "k \<notin> {''blocks'', ''items''}" for k
      using that by (simp add: b'_def member_put_member)
    have type: "block_type b' = block_type block" and table: "table_text b' = table_text block"
      by (simp_all add: b'_def)
    have IH: "concat (map block_text (strip_entry x)) = block_text x"
        "(\<forall>b. x = JObj b \<longrightarrow> \<not> is_media_block b) \<Longrightarrow> concat (map item_text (strip_entry x)) = item_text x"
      if "k \<in> {''blocks'', ''items''}" "member_of block k = Some (JArr xs)" "x \<in> set xs" for k xs x
    proof -
      have "list_all plain_items (all_blocks (JArr [x]))"
        using nested_element [OF that(2,3)] 1(2) that(1) unfolding all_blocks_JObj list_all_iff by auto
      with 1(1) [OF False that] show
        "concat (map block_text (strip_entry x)) = block_text x"
        "(\<forall>b. x = JObj b \<longrightarrow> \<not> is_media_block b) \<Longrightarrow> concat (map item_text (strip_entry x)) = item_text x"
        by blast+
    qed
    have blocks: "opt_blocks_text (member_of b' ''blocks'') = opt_blocks_text (member_of block ''blocks'')"
    proof (cases "\<exists>xs. member_of block ''blocks'' = Some (JArr xs)")
      case True
      then obtain xs where xs: "member_of block ''blocks'' = Some (JArr xs)" by blast
      then have "concat (map block_text (strip_media_blocks xs)) = concat (map block_text xs)"
        by (intro strip_list_text IH(1)) auto
      with xs show ?thesis by (simp add: b'_def member_put_member strip_member_def opt_blocks_text_def)
    next
      case False
      then have "strip_member (member_of block ''blocks'') = None" by (simp add: strip_member_None_iff)
      then show ?thesis by (simp add: b'_def member_put_member)
    qed
    have items: "concat (map item_text (strip_media_blocks xs)) = concat (map item_text xs)"
      if "member_of block ''items'' = Some (JArr xs)" "block_type block = Some ''list''" for xs
    proof (rule strip_list_text)
      fix x assume x: "x \<in> set xs"
      have "plain_items block" using 1(2) by (simp add: all_blocks_JObj)
      with that x have "\<forall>b. x = JObj b \<longrightarrow> \<not> is_media_block b"
        by (auto simp: plain_items_def list_all_iff)
      with that(1) x show "concat (map item_text (strip_entry x)) = item_text x"
        by (intro IH(2)) auto
    qed
    have list: "(case member_of b' ''items'' of Some (JArr items) \<Rightarrow> concat (map item_text items) | _ \<Rightarrow> [])
        = (case member_of block ''items'' of Some (JArr items) \<Rightarrow> concat (map item_text items) | _ \<Rightarrow> [])"
      if "block_type block = Some ''list''"
    proof (cases "strip_member (member_of block ''items'')")
      case None
      then show ?thesis by (simp add: b'_def member_put_member)
    next
      case (Some z)
      then obtain xs where "member_of block ''items'' = Some (JArr xs)" "z = JArr (strip_media_blocks xs)"
        by (auto simp: strip_member_Some_iff)
      with Some that items show ?thesis by (simp add: b'_def member_put_member)
    qed
    have "block_text (JObj b') = block_text (JObj block)"
      unfolding block_text_JObj type blocks table
      using list by (auto simp: other split: option.split)
    moreover have "item_text (JObj b') = item_text (JObj block)"
      unfolding item_text_JObj blocks by (simp add: other)
    ultimately show ?thesis by (simp add: e)
  qed
qed (simp add: strip_entry_other)

lemma strip_blocks_text:
  assumes "list_all plain_items (all_blocks (JArr xs))"
  shows "blocks_text (JArr (strip_media_blocks xs)) = blocks_text (JArr xs)"
proof -
  have "concat (map block_text (strip_entry x)) = block_text x" if "x \<in> set xs" for x
  proof -
    have "set (all_blocks (JArr [x])) \<subseteq> set (all_blocks (JArr xs))"
      using that by (auto simp: all_blocks.simps(1) split: json.splits)
    with assms have "list_all plain_items (all_blocks (JArr [x]))"
      by (auto simp: list_all_iff)
    then show ?thesis using strip_entry_text by blast
  qed
  then show ?thesis by (simp add: strip_list_text)
qed

section \<open>What a stored payload keeps\<close>

text \<open>The blocks of the rich message inside an update payload, and the message as the parser sees it.\<close>

definition payload_message :: "jobj \<Rightarrow> jobj option" where
  "payload_message payload = opt_record (member_of payload ''message'')"

lemma payload_message_without:
  "payload_message (without_rich_media_blocks payload) =
     map_option (\<lambda>message.
       case opt_record (member_of message ''rich_message'') of
         Some rich \<Rightarrow> (case member_of rich ''blocks'' of
             Some (JArr blocks) \<Rightarrow> set_member message ''rich_message''
                (JObj (set_member rich ''blocks'' (JArr (strip_media_blocks blocks))))
           | _ \<Rightarrow> message)
       | None \<Rightarrow> message) (payload_message payload)"
  by (auto simp: payload_message_def without_rich_media_blocks_def member_set_member opt_record_def
      split: option.splits json.splits)

lemma rich_message_media_stripped:
  "rich_message_media (set_member message ''rich_message''
     (JObj (set_member rich ''blocks'' (JArr (strip_media_blocks blocks))))) = None"
  by (simp add: rich_message_media_def media_blocks_def member_set_member opt_record_def strip_no_media)

definition rich_blocks :: "jobj \<Rightarrow> jobj \<Rightarrow> jobj \<Rightarrow> json list \<Rightarrow> bool" where
  "rich_blocks payload message rich blocks \<longleftrightarrow>
     member_of payload ''message'' = Some (JObj message) \<and>
     member_of message ''rich_message'' = Some (JObj rich) \<and> member_of rich ''blocks'' = Some (JArr blocks)"

lemma without_rich_media_blocks_stripped:
  "rich_blocks payload message rich blocks \<Longrightarrow>
     without_rich_media_blocks payload = set_member payload ''message'' (JObj (set_member message ''rich_message''
       (JObj (set_member rich ''blocks'' (JArr (strip_media_blocks blocks))))))"
  by (simp add: rich_blocks_def without_rich_media_blocks_def)

lemma without_rich_media_blocks_kept:
  "(\<And>message rich blocks. \<not> rich_blocks payload message rich blocks) \<Longrightarrow>
     without_rich_media_blocks payload = payload"
  by (auto simp: rich_blocks_def without_rich_media_blocks_def opt_record_Some_iff split: option.splits json.splits)

lemma media_without_blocks:
  "member_of payload ''message'' = Some (JObj message) \<Longrightarrow>
     (\<And>rich blocks. \<not> rich_blocks payload message rich blocks) \<Longrightarrow> rich_message_media message = None"
  by (auto simp: rich_blocks_def rich_message_media_def media_blocks_def opt_member_def opt_record_Some_iff
      split: option.splits json.splits bind_splits)

lemma strip_twice: "strip_media_blocks (strip_media_blocks xs) = strip_media_blocks xs"
  by (rule strip_fixed_arr) (rule strip_entry_twice)

lemma stripped_payload_has_no_media:
  assumes "payload_message (without_rich_media_blocks payload) = Some message"
  shows "rich_message_media message = None"
proof (cases "\<exists>m r bs. rich_blocks payload m r bs")
  case True
  then obtain m r bs where "rich_blocks payload m r bs" by blast
  with assms show ?thesis
    by (auto simp: without_rich_media_blocks_stripped payload_message_def member_set_member
        rich_message_media_stripped)
next
  case False
  with assms show ?thesis
    using media_without_blocks [of payload message]
    by (simp add: without_rich_media_blocks_kept payload_message_def opt_record_Some_iff)
qed

text \<open>
  A photo or document of a rich message that the chat may not read is gone from the stored
  update: nothing in the stored message can be lifted into an attachment any more.
\<close>

theorem stored_message_carries_no_file:
  assumes "payload_message (without_rich_media_blocks payload) = Some message"
  shows "rich_message_media message = None \<and> \<not> rich_media_is_lifted message"
  using stripped_payload_has_no_media [OF assms] by (simp add: rich_media_is_lifted_def)

text \<open>
  The stored shape is a fixed point: stripping a stored payload again changes nothing, so a
  repeated delivery of the same update compares equal to the stored row.
\<close>

theorem stripping_is_idempotent:
  "without_rich_media_blocks (without_rich_media_blocks payload) = without_rich_media_blocks payload"
proof (cases "\<exists>m r bs. rich_blocks payload m r bs")
  case True
  then obtain m r bs where h: "rich_blocks payload m r bs" by blast
  define r' where "r' = set_member r ''blocks'' (JArr (strip_media_blocks bs))"
  define m' where "m' = set_member m ''rich_message'' (JObj r')"
  have w: "without_rich_media_blocks payload = set_member payload ''message'' (JObj m')"
    by (simp add: without_rich_media_blocks_stripped [OF h] m'_def r'_def)
  have "rich_blocks (set_member payload ''message'' (JObj m')) m' r' (strip_media_blocks bs)"
    by (simp add: rich_blocks_def member_set_member m'_def r'_def)
  then show ?thesis
    unfolding w by (simp add: without_rich_media_blocks_stripped strip_twice set_member_same
        member_set_member m'_def r'_def)
next
  case False
  then show ?thesis by (simp add: without_rich_media_blocks_kept)
qed

text \<open>
  Hiding the files of a rich message does not change its readable text: captions survive as
  paragraphs, in place. (No item of a list may itself be a media block, a shape the Bot API does
  not have: the parser would show such an item only after its caption became a paragraph.)
\<close>

theorem stripping_keeps_the_text:
  assumes "payload_message payload = Some message"
    "opt_record (member_of message ''rich_message'') = Some rich"
    "member_of rich ''blocks'' = Some (JArr blocks)"
    "list_all plain_items (all_blocks (JArr blocks))"
  shows "map_option rich_message_plain_text (payload_message (without_rich_media_blocks payload)) =
    Some (rich_message_plain_text message)"
proof -
  define rich' where "rich' = set_member rich ''blocks'' (JArr (strip_media_blocks blocks))"
  have "opt_blocks_text (member_of rich' ''blocks'') = opt_blocks_text (member_of rich ''blocks'')"
    "member_of rich' ''text'' = member_of rich ''text''"
    using assms(3,4) by (simp_all del: blocks_text.simps
        add: rich'_def member_set_member opt_blocks_text_def strip_blocks_text)
  with assms(1-3) show ?thesis
    by (simp add: payload_message_without rich_message_plain_text_def member_set_member Let_def
        flip: rich'_def)
qed

definition sample_blocks :: "json list" where
  "sample_blocks = [JObj [(''type'', JStr ''paragraph''), (''text'', JStr ''hello'')],
     JObj [(''type'', JStr ''photo''), (''caption'', JStr ''beach''),
           (''photo'', JArr [JObj [(''file_id'', JStr ''F1'')]])]]"

definition sample_payload :: jobj where
  "sample_payload = [(''message'', JObj [(''rich_message'', JObj [(''blocks'', JArr sample_blocks)])])]"

lemma stored_message_carries_no_file_witness:
  "\<exists>message. payload_message (without_rich_media_blocks sample_payload) = Some message \<and>
     rich_message_media message = None \<and>
     map_option rich_message_media (payload_message sample_payload) \<noteq> Some None"
proof -
  have "payload_message sample_payload \<noteq> None"
    by (simp add: payload_message_def sample_payload_def member_of_def)
  then obtain message where m: "payload_message (without_rich_media_blocks sample_payload) = Some message"
    by (auto simp: payload_message_without)
  have "map_option rich_message_media (payload_message sample_payload) \<noteq> Some None"
    by (simp add: payload_message_def sample_payload_def sample_blocks_def member_of_def rich_message_media_def
        media_blocks_def all_blocks.simps is_media_block_def block_type_def rich_media_blocks_def
        sized_photos_def has_file_id_def)
  then show ?thesis using m stored_message_carries_no_file [OF m] by blast
qed

lemma stripping_keeps_the_text_witness:
  "map_option rich_message_plain_text (payload_message (without_rich_media_blocks sample_payload)) =
     Some (Some (''hello'' @ paragraph_break @ ''beach''))"
proof -
  have "list_all plain_items (all_blocks (JArr sample_blocks))"
    by (simp add: sample_blocks_def all_blocks.simps member_of_def plain_items_def block_type_def)
  moreover have "rich_message_plain_text [(''rich_message'', JObj [(''blocks'', JArr sample_blocks)])] =
      Some (''hello'' @ paragraph_break @ ''beach'')"
    by (simp add: sample_blocks_def rich_message_plain_text_def member_of_def opt_blocks_text_def
        block_text_JObj block_type_def text_block_types_def quotation_block_types_def rich_media_blocks_def
        opt_rich_text_def text_or_self_def nullish_or_def opt_record_def as_record_def non_empty_def
        js_trim_def js_space_def paragraph_break_def)
  ultimately show ?thesis
    using stripping_keeps_the_text [of sample_payload "[(''rich_message'', JObj [(''blocks'', JArr sample_blocks)])]"
        "[(''blocks'', JArr sample_blocks)]" sample_blocks]
    by (simp add: sample_payload_def payload_message_def member_of_def)
qed

end
