(* ===== verification/Tool_Policy.thy ===== *)
theory Tool_Policy
  imports Json_Value
begin

text \<open>
  What the model may do in an external Telegram group: the capability catalog and the parser of a
  persisted allowlist (agent/lib/tool-policy/group-tool-catalog.ts), what an owner can grant now
  (grantable-group-capabilities.ts) and the projection of a policy from the verified session
  identity (external-group-policy.ts). The \<open>usage\<close> texts shown to the owner are left out.
\<close>

section \<open>The catalog\<close>

record capability =
  cap_name :: string
  cap_image :: bool
  cap_widgets :: bool

definition plain_capability :: "string \<Rightarrow> capability" where
  "plain_capability n = \<lparr>cap_name = n, cap_image = False, cap_widgets = False\<rparr>"

definition external_group_capability_catalog :: "capability list" where
  "external_group_capability_catalog =
     [\<lparr>cap_name = ''generate_image'', cap_image = True, cap_widgets = False\<rparr>,
      \<lparr>cap_name = ''fetch_telegram_avatars'', cap_image = True, cap_widgets = False\<rparr>,
      plain_capability ''import_telegram_attachment'',
      plain_capability ''inspect_workspace_image'',
      plain_capability ''list_memories'',
      plain_capability ''list_memory_threads'',
      plain_capability ''list_group_history'',
      plain_capability ''manage_memory.delete'',
      plain_capability ''manage_memory.edit'',
      plain_capability ''manage_memory.undo'',
      plain_capability ''manage_memory_conflict'',
      plain_capability ''manage_memory_thread.complete'',
      plain_capability ''manage_memory_thread.reactivate'',
      plain_capability ''read_memory_thread'',
      plain_capability ''remember'',
      plain_capability ''remove_group_file'',
      plain_capability ''search_memories'',
      plain_capability ''search_memory_threads'',
      plain_capability ''send_workspace_file'',
      \<lparr>cap_name = ''send_widget'', cap_image = False, cap_widgets = True\<rparr>,
      plain_capability ''send_workspace_image'',
      plain_capability ''web_fetch'',
      plain_capability ''web_search'']"

definition external_group_tool_names :: "string list" where
  "external_group_tool_names = map cap_name external_group_capability_catalog"

definition requires_image_generation_tool_name :: "string \<Rightarrow> bool" where
  "requires_image_generation_tool_name value \<longleftrightarrow>
     value \<in> set (map cap_name (filter cap_image external_group_capability_catalog))"

definition requires_telegram_widgets_tool_name :: "string \<Rightarrow> bool" where
  "requires_telegram_widgets_tool_name value \<longleftrightarrow>
     value \<in> set (map cap_name (filter cap_widgets external_group_capability_catalog))"

definition sandbox_file_tool_names :: "string list" where
  "sandbox_file_tool_names = [''glob'', ''grep'', ''read_file'', ''write_file'']"

definition framework_tools_denied_in_external_groups :: "string list" where
  "framework_tools_denied_in_external_groups =
     [''agent'', ''ask_question'', ''bash'', ''todo'', ''web_fetch'', ''web_search'']"

definition is_external_group_tool_name :: "string \<Rightarrow> bool" where
  "is_external_group_tool_name value \<longleftrightarrow> value \<in> set external_group_tool_names"

lemma distinct_tool_names: "distinct external_group_tool_names"
  by (simp add: external_group_tool_names_def external_group_capability_catalog_def plain_capability_def)

section \<open>Persisted allowlists\<close>

text \<open>A JavaScript \<open>Set\<close> is the list of its members in insertion order.\<close>

fun parse_names :: "json list \<Rightarrow> string list \<Rightarrow> string list option" where
  "parse_names [] allowed = Some allowed"
| "parse_names (JStr name # rest) allowed =
     (if \<not> is_external_group_tool_name name \<or> name \<in> set allowed then None
      else parse_names rest (allowed @ [name]))"
| "parse_names (_ # rest) allowed = None"

definition parse_external_group_tool_allowlist :: "json option \<Rightarrow> string list option" where
  "parse_external_group_tool_allowlist value =
     (case value of Some (JArr names) \<Rightarrow> parse_names names [] | _ \<Rightarrow> None)"

lemma parse_names_Some_iff:
  "parse_names vs acc = Some names \<longleftrightarrow>
     (\<exists>ns. vs = map JStr ns \<and> names = acc @ ns \<and> distinct ns \<and> set ns \<inter> set acc = {} \<and>
       set ns \<subseteq> set external_group_tool_names)"
proof (induction vs acc arbitrary: names rule: parse_names.induct)
  case (1 allowed)
  then show ?case by auto
next
  case (2 name rest allowed)
  show ?case
  proof (cases "is_external_group_tool_name name \<and> name \<notin> set allowed")
    case True
    with 2 have "parse_names (JStr name # rest) allowed = Some names \<longleftrightarrow>
      (\<exists>ns. rest = map JStr ns \<and> names = (allowed @ [name]) @ ns \<and> distinct ns \<and>
        set ns \<inter> set (allowed @ [name]) = {} \<and> set ns \<subseteq> set external_group_tool_names)"
      by simp
    also have "\<dots> \<longleftrightarrow> (\<exists>ns. JStr name # rest = map JStr ns \<and> names = allowed @ ns \<and> distinct ns \<and>
        set ns \<inter> set allowed = {} \<and> set ns \<subseteq> set external_group_tool_names)"
      using True by (auto simp: is_external_group_tool_name_def Cons_eq_map_conv)
    finally show ?thesis .
  next
    case False
    then show ?thesis
      by (auto simp: is_external_group_tool_name_def Cons_eq_map_conv)
  qed
qed (auto simp: Cons_eq_map_conv)

lemma parse_allowlist_Some_iff:
  "parse_external_group_tool_allowlist value = Some names \<longleftrightarrow>
     value = Some (JArr (map JStr names)) \<and> distinct names \<and> set names \<subseteq> set external_group_tool_names"
  by (auto simp: parse_external_group_tool_allowlist_def parse_names_Some_iff
      split: option.splits json.splits)

section \<open>What an owner can grant now\<close>

text \<open>
  The two flags are configuration read once at start: whether an image provider is connected and
  whether Telegram widgets are switched on.
\<close>

definition is_grantable_capability :: "bool \<Rightarrow> bool \<Rightarrow> string \<Rightarrow> bool" where
  "is_grantable_capability image_available widgets_enabled name \<longleftrightarrow>
     (\<not> requires_image_generation_tool_name name \<or> image_available) \<and>
     (\<not> requires_telegram_widgets_tool_name name \<or> widgets_enabled)"

definition grantable_external_group_tool_names :: "bool \<Rightarrow> bool \<Rightarrow> string list" where
  "grantable_external_group_tool_names image_available widgets_enabled =
     filter (is_grantable_capability image_available widgets_enabled)
       (map cap_name external_group_capability_catalog)"

definition is_grantable_external_group_tool_name :: "bool \<Rightarrow> bool \<Rightarrow> string \<Rightarrow> bool" where
  "is_grantable_external_group_tool_name image_available widgets_enabled value \<longleftrightarrow>
     value \<in> set (grantable_external_group_tool_names image_available widgets_enabled)"

record tool_selection =
  effective :: "string list"
  unavailable :: "string list"

fun select_loop :: "bool \<Rightarrow> bool \<Rightarrow> string list \<Rightarrow> tool_selection \<Rightarrow> tool_selection" where
  "select_loop i w [] acc = acc"
| "select_loop i w (name # rest) acc =
     select_loop i w rest
       (if is_grantable_external_group_tool_name i w name
        then acc\<lparr>effective := effective acc @ [name]\<rparr>
        else acc\<lparr>unavailable := unavailable acc @ [name]\<rparr>)"

definition select_grantable_external_group_tools :: "bool \<Rightarrow> bool \<Rightarrow> string list \<Rightarrow> tool_selection" where
  "select_grantable_external_group_tools i w persisted =
     select_loop i w persisted \<lparr>effective = [], unavailable = []\<rparr>"

lemma select_loop_filter:
  "select_loop i w ns acc =
     \<lparr>effective = effective acc @ filter (is_grantable_external_group_tool_name i w) ns,
      unavailable = unavailable acc @ filter (\<lambda>n. \<not> is_grantable_external_group_tool_name i w n) ns\<rparr>"
  by (induction ns arbitrary: acc) auto

section \<open>The policy of a session\<close>

text \<open>
  The verified identity of a turn: the attributes of the current principal and of the principal
  that started the session, each possibly absent.
\<close>

record session_auth =
  auth_current :: "jobj option"
  auth_initiator :: "jobj option"

datatype tool_policy = Unrestricted | Restricted "string list"

definition is_external_principal :: "jobj option \<Rightarrow> bool" where
  "is_external_principal p \<longleftrightarrow> opt_member p ''groupType'' = Some (JStr ''external'')"

definition external_policy_caller :: "session_auth \<Rightarrow> jobj option" where
  "external_policy_caller auth =
     (let current_external = is_external_principal (auth_current auth);
          initiator_external = is_external_principal (auth_initiator auth)
      in if \<not> current_external \<and> \<not> initiator_external then None
         else if initiator_external \<and> auth_current auth \<noteq> None then
           (let same_group = strict_equal (opt_member (auth_current auth) ''groupId'')
                 (opt_member (auth_initiator auth) ''groupId'')
            in if current_external \<and> same_group then auth_current auth else None)
         else if auth_current auth = None \<and> initiator_external then auth_initiator auth
         else auth_current auth)"

definition resolve_external_group_policy_identity :: "session_auth \<Rightarrow> (string \<times> string) option" where
  "resolve_external_group_policy_identity auth =
     (let caller = external_policy_caller auth
      in case (opt_member caller ''familyId'', opt_member caller ''groupId'') of
           (Some (JStr family_id), Some (JStr group_id)) \<Rightarrow> Some (family_id, group_id)
         | _ \<Rightarrow> None)"

definition resolve_external_group_tool_policy :: "session_auth \<Rightarrow> tool_policy" where
  "resolve_external_group_tool_policy auth =
     (if \<not> is_external_principal (auth_current auth) \<and> \<not> is_external_principal (auth_initiator auth)
      then Unrestricted
      else (case external_policy_caller auth of
              None \<Rightarrow> Restricted []
            | Some caller \<Rightarrow>
                (case parse_external_group_tool_allowlist (member_of caller ''toolAllowlist'') of
                   None \<Rightarrow> Restricted []
                 | Some allowed \<Rightarrow> Restricted allowed)))"

lemma policy_caller_external:
  "external_policy_caller auth = Some caller \<Longrightarrow> is_external_principal (Some caller)"
  by (auto simp: external_policy_caller_def Let_def split: if_splits)

lemma policy_Restricted_cases:
  assumes "resolve_external_group_tool_policy auth = Restricted allowed" "allowed \<noteq> []"
  obtains caller where "external_policy_caller auth = Some caller"
    "parse_external_group_tool_allowlist (member_of caller ''toolAllowlist'') = Some allowed"
  using assms by (auto simp: resolve_external_group_tool_policy_def split: if_splits option.splits)

end
