(* ===== verification/Lease.thy ===== *)
theory Lease
  imports Prelude
begin

text \<open>
  The contract of a leased row, which four queues of the program share (ingress updates, prompt
  timeouts, reminders, agent schedules): a claim writes a fresh token and a deadline, every later
  statement of the worker carries the token in its \<open>WHERE\<close> clause, and giving the row back clears
  both. The interface states what a queue must provide; what a lease buys, namely that a
  worker whose row was claimed again can change nothing, is proved here once.
\<close>

locale leased_rows = keyed_table key for key :: "'r \<Rightarrow> 'k" +
  fixes held :: "'r \<Rightarrow> string \<Rightarrow> time \<Rightarrow> bool"
    and acquire :: "string \<Rightarrow> time \<Rightarrow> 'r \<Rightarrow> 'r"
    and give_back :: "'r \<Rightarrow> 'r"
  assumes held_token: "held r t now \<Longrightarrow> held r t' now \<Longrightarrow> t = t'"
    and acquire_held: "held (acquire t till r) t' now \<Longrightarrow> t' = t"
    and give_back_free: "\<not> held (give_back r) t now"
    and key_acquire: "key (acquire t till r) = key r"
    and key_give_back: "key (give_back r) = key r"
begin

definition guarded :: "'k \<Rightarrow> string \<Rightarrow> time \<Rightarrow> 'r \<Rightarrow> bool" where
  "guarded k t now r \<longleftrightarrow> key r = k \<and> held r t now"

text \<open>At most one worker can pass the guard of a row at a time.\<close>

lemma one_holder:
  "pk rows \<Longrightarrow> r \<in> set rows \<Longrightarrow> r' \<in> set rows \<Longrightarrow> guarded k t now r \<Longrightarrow> guarded k t' now r' \<Longrightarrow> t = t'"
  unfolding guarded_def by (metis held_token pk_unique)

text \<open>After a claim under \<open>t\<close>, a worker with another token matches no row.\<close>

lemma stale_after_acquire:
  assumes "t' \<noteq> t"
  shows "row_count (guarded k t' now) (update_where (\<lambda>r. key r = k) (acquire t till) rows) = 0"
  using assms by (auto simp: row_count_0_iff set_update_where guarded_def dest: acquire_held)

lemma stale_update_is_noop:
  assumes "t' \<noteq> t"
  shows "update_where (guarded k t' now) f (update_where (\<lambda>r. key r = k) (acquire t till) rows)
    = update_where (\<lambda>r. key r = k) (acquire t till) rows"
  by (rule update_where_none) (rule stale_after_acquire [OF assms])

text \<open>After the row was given back, no token matches it until the next claim.\<close>

lemma stale_after_give_back:
  "row_count (guarded k t now) (update_where (\<lambda>r. key r = k) give_back rows) = 0"
  by (auto simp: row_count_0_iff set_update_where guarded_def give_back_free)

lemma second_give_back_is_noop:
  "row_count (guarded k t now) (update_where (guarded k t now) give_back rows) = 0"
  by (auto simp: row_count_0_iff set_update_where guarded_def give_back_free)

end

end
