(* ===== verification/Ingress_Queue.thy ===== *)
theory Ingress_Queue
  imports Ingress_Contract Rich_Message Tool_Policy Lease
begin

text \<open>
  agent/lib/telegram-ingress-repository.ts: the durable FIFO of Telegram updates. Every statement
  is translated from its SQL. \<open>locked\<close> is the set of update ids whose rows another transaction holds
  at that moment (\<open>SKIP LOCKED\<close>); fresh UUIDs (\<open>gen_random_uuid()\<close>) are arguments. Queue ids reach
  these operations from a claim, in the canonical form the database returned.
\<close>

section \<open>Media of groups\<close>

datatype media_kind =
  Image_document_candidate | Native_photo | Text_document_candidate | Unsupported_media

record media_input =
  mi_chat :: string
  mi_chat_type :: chat_type
  mi_kind :: media_kind
  mi_text_fallback :: bool
  mi_update :: string

definition ignored_media_reason :: string where
  "ignored_media_reason = ''external_media''"

definition is_ignored :: "int \<Rightarrow> database \<Rightarrow> bool" where
  "is_ignored uid d = exists_row (\<lambda>t. fst t = uid) (ignored d)"

definition insert_ignored_media :: "int \<Rightarrow> database \<Rightarrow> database" where
  "insert_ignored_media uid d =
     (if is_ignored uid d then d else d\<lparr>ignored := ignored d @ [(uid, ignored_media_reason)]\<rparr>)"

definition group_accepts_media :: "media_kind \<Rightarrow> telegram_group option \<Rightarrow> bool" where
  "group_accepts_media kind policy =
     (let external_allowlist = parse_external_group_tool_allowlist
            (map_option (\<lambda>g. JArr (map JStr (g_allowlist g))) policy);
          allows = (\<lambda>name. case external_allowlist of None \<Rightarrow> False | Some names \<Rightarrow> name \<in> set names);
          is_type = (\<lambda>t. case policy of None \<Rightarrow> False | Some g \<Rightarrow> g_type g = t)
      in is_type Family_private \<or>
         (is_type External_group \<and> kind = Text_document_candidate \<and> allows ''import_telegram_attachment'') \<or>
         (is_type External_group \<and> (kind = Native_photo \<or> kind = Image_document_candidate) \<and>
            allows ''inspect_workspace_image''))"

definition accept_media_body :: "media_input \<Rightarrow> database \<Rightarrow> (bool, database) tx" where
  "accept_media_body input d =
     (let uid = decimal_value (mi_update input) in
      if is_ignored uid d then Commit False d
      else if exists_row (\<lambda>r. u_id r = uid) (updates d) then Commit True d
      else if mi_chat_type input = Private_chat then Commit True d
      else if mi_chat_type input = Channel_chat then Commit False (insert_ignored_media uid d)
      else if group_accepts_media (mi_kind input) (first_row (\<lambda>g. g_chat_id g = mi_chat input) (groups d))
        then Commit True d
      else Commit False (if \<not> mi_text_fallback input then insert_ignored_media uid d else d))"

definition accept_media :: "media_input \<Rightarrow> database \<Rightarrow> bool result \<times> database" where
  "accept_media input =
     when_valid
       (res_bind (require_update_id (mi_update input)) (\<lambda>_.
          require_non_empty (mi_chat input) ''AGENT_TELEGRAM_CHAT_ID_INVALID''))
       (\<lambda>_. run_tx (accept_media_body input))"

section \<open>Enqueue\<close>

datatype enqueue_outcome = Inserted | Duplicate

text \<open>Constraint violations by their SQLSTATE.\<close>

definition unique_violation :: app_error where "unique_violation = PgError ''23505''"
definition foreign_key_violation :: app_error where "foreign_key_violation = PgError ''23503''"
definition check_violation :: app_error where "check_violation = PgError ''23514''"

definition insert_queue :: "ingress_queue \<Rightarrow> database \<Rightarrow> database result" where
  "insert_queue q d =
     (if exists_row (\<lambda>q'. q_id q' = q_id q \<or> q_key q' = q_key q) (queues d) then Inl unique_violation
      else if q_key q = [] then Inl check_violation
      else Inr (d\<lparr>queues := queues d @ [q]\<rparr>))"

definition insert_alias :: "string \<Rightarrow> string \<Rightarrow> database \<Rightarrow> database result" where
  "insert_alias key queue d =
     (if exists_row (\<lambda>a. fst a = key) (aliases d) then Inl unique_violation
      else if \<not> exists_row (\<lambda>q. q_id q = queue) (queues d) then Inl foreign_key_violation
      else if key = [] then Inl check_violation
      else Inr (d\<lparr>aliases := aliases d @ [(key, queue)]\<rparr>))"

definition alias_of :: "string \<Rightarrow> database \<Rightarrow> string option" where
  "alias_of key d = map_option snd (first_row (\<lambda>a. fst a = key) (aliases d))"

text \<open>\<open>RETURNING id\<close> gives the generated id in its canonical form.\<close>

definition ensure_queue :: "string \<Rightarrow> string \<Rightarrow> database \<Rightarrow> (string \<times> database) result" where
  "ensure_queue uuid key d =
     (case alias_of key d of
        Some queue \<Rightarrow> Inr (queue, d)
      | None \<Rightarrow>
          (let id = uuid_of uuid in
           res_bind (insert_queue \<lparr>q_id = id, q_key = key\<rparr> d) (\<lambda>d1.
           res_bind (insert_alias key id d1) (\<lambda>d2. Inr (id, d2)))))"

definition voice_columns :: "ingress_voice option \<Rightarrow> string option \<times> int option \<times> string option" where
  "voice_columns v =
     (map_option v_file v, map_option number_value (Option.bind v v_size), Option.bind v v_mime)"

definition new_update :: "enqueue_input \<Rightarrow> string \<Rightarrow> time \<Rightarrow> ingress_update" where
  "new_update input queue now =
     \<lparr>u_id = decimal_value (e_update input), u_queue = queue, u_key = e_key input,
      u_payload = e_payload input, u_status = IPending, u_attempts = 0, u_token = None,
      u_expires = None, u_dispatch = None, u_session = None,
      u_voice_file = fst (voice_columns (e_voice input)),
      u_voice_size = fst (snd (voice_columns (e_voice input))),
      u_voice_mime = snd (snd (voice_columns (e_voice input))),
      u_transcript = None, u_tr_started = None, u_tr_done = None, u_err_code = None,
      u_err_message = None, u_received = now, u_completed = None, u_stall = None\<rparr>"

definition without_rich_media :: "json \<Rightarrow> json" where
  "without_rich_media v = (case v of JObj kvs \<Rightarrow> JObj (without_rich_media_blocks kvs) | _ \<Rightarrow> v)"

definition identical_update :: "enqueue_input \<Rightarrow> string \<Rightarrow> ingress_update \<Rightarrow> bool" where
  "identical_update input queue r \<longleftrightarrow>
     u_queue r = queue \<and> u_key r = e_key input \<and>
     (jsonb_eq (u_payload r) (e_payload input) \<or> jsonb_eq (u_payload r) (without_rich_media (e_payload input))) \<and>
     (u_voice_file r, u_voice_size r, u_voice_mime r) = voice_columns (e_voice input)"

definition store_update :: "enqueue_input \<Rightarrow> string \<Rightarrow> time \<Rightarrow> database \<Rightarrow> (enqueue_outcome, database) tx" where
  "store_update input queue now d =
     (if \<not> is_record (e_payload input) then Throw check_violation
      else (case first_row (\<lambda>r. u_id r = decimal_value (e_update input)) (updates d) of
              None \<Rightarrow> if exists_row (\<lambda>q. q_id q = queue) (queues d)
                      then Commit Inserted (d\<lparr>updates := updates d @ [new_update input queue now]\<rparr>)
                      else Throw foreign_key_violation
            | Some r \<Rightarrow> if identical_update input queue r then Commit Duplicate d
                        else Throw (AppError ''AGENT_TELEGRAM_UPDATE_CONFLICT'')))"

definition enqueue_body :: "string \<Rightarrow> enqueue_input \<Rightarrow> time \<Rightarrow> database \<Rightarrow> (enqueue_outcome, database) tx" where
  "enqueue_body uuid input now d =
     (if is_ignored (decimal_value (e_update input)) d then Commit Duplicate d
      else (case ensure_queue uuid (e_key input) d of
              Inl e \<Rightarrow> Throw e
            | Inr (queue, d') \<Rightarrow> store_update input queue now d'))"

definition enqueue :: "string \<Rightarrow> enqueue_input \<Rightarrow> time \<Rightarrow> database \<Rightarrow> enqueue_outcome result \<times> database" where
  "enqueue uuid input now =
     when_valid (validate_enqueue_input input) (\<lambda>_. run_tx (enqueue_body uuid input now))"

section \<open>Claims\<close>

text \<open>agent/lib/deploy/turn-start-pause.ts\<close>

definition turn_start_paused :: "time \<Rightarrow> database \<Rightarrow> bool" where
  "turn_start_paused now d = exists_row (\<lambda>until. now < until) (pauses d)"

definition open_status :: "ingress_update \<Rightarrow> bool" where
  "open_status r \<longleftrightarrow> u_status r = IPending \<or> u_status r = IProcessing"

definition lease_expired :: "time \<Rightarrow> ingress_update \<Rightarrow> bool" where
  "lease_expired now r = (case u_expires r of None \<Rightarrow> False | Some till \<Rightarrow> till \<le> now)"

definition claimable :: "time \<Rightarrow> ingress_update \<Rightarrow> bool" where
  "claimable now r \<longleftrightarrow> u_status r = IPending \<or> (u_status r = IProcessing \<and> lease_expired now r)"

definition behind_open_update :: "database \<Rightarrow> ingress_update \<Rightarrow> bool" where
  "behind_open_update d r =
     exists_row (\<lambda>e. u_queue e = u_queue r \<and> u_id e < u_id r \<and> open_status e) (updates d)"

definition private_payload :: "json \<Rightarrow> bool" where
  "private_payload v \<longleftrightarrow> json_path [''message'', ''chat'', ''type''] v = Some (JStr ''private'')"

definition burst_holds :: "int \<Rightarrow> int \<Rightarrow> time \<Rightarrow> database \<Rightarrow> ingress_update \<Rightarrow> bool" where
  "burst_holds quiet max_wait now d r \<longleftrightarrow>
     u_status r = IPending \<and> 0 < quiet \<and> private_payload (u_payload r) \<and>
     now - millis max_wait < u_received r \<and>
     exists_row (\<lambda>l. u_queue l = u_queue r \<and> u_status l = IPending \<and> has_key (u_payload l) ''message'' \<and>
       now - millis quiet < u_received l) (updates d)"

definition claim_candidate :: "(int \<Rightarrow> bool) \<Rightarrow> int \<Rightarrow> int \<Rightarrow> time \<Rightarrow> database \<Rightarrow> ingress_update \<Rightarrow> bool" where
  "claim_candidate locked quiet max_wait now d r \<longleftrightarrow>
     claimable now r \<and> \<not> turn_start_paused now d \<and> \<not> behind_open_update d r \<and>
     \<not> burst_holds quiet max_wait now d r \<and> \<not> locked (u_id r)"

definition u_acquire :: "string \<Rightarrow> time \<Rightarrow> ingress_update \<Rightarrow> ingress_update" where
  "u_acquire token till r =
     r\<lparr>u_status := IProcessing, u_attempts := u_attempts r + 1, u_token := Some token,
       u_expires := Some till, u_err_code := None, u_err_message := None\<rparr>"

definition claim_next ::
  "js_number \<Rightarrow> burst_policy \<Rightarrow> (int \<Rightarrow> bool) \<Rightarrow> string \<Rightarrow> time \<Rightarrow> database \<Rightarrow> ingress_claim option result \<times> database" where
  "claim_next lease burst locked token now =
     when_valid
       (res_bind (require_lease_milliseconds lease) (\<lambda>ms.
          res_bind (require_private_burst_policy burst) (\<lambda>_. Inr ms)))
       (\<lambda>ms d.
          case select_ordered
                 (claim_candidate locked (number_value (quiet_ms burst)) (number_value (max_wait_ms burst)) now d)
                 u_id 1 (updates d) of
            [] \<Rightarrow> (Inr None, d)
          | r # _ \<Rightarrow>
              (case first_row (\<lambda>q. q_id q = u_queue r) (queues d) of
                 None \<Rightarrow> (Inr None, d)
               | Some q \<Rightarrow>
                   (let acquire = u_acquire token (now + millis ms)
                    in (Inr (Some (map_telegram_ingress_claim (acquire r) (q_key q))),
                        d\<lparr>updates := update_where (\<lambda>r'. u_id r' = u_id r) acquire (updates d)\<rparr>))))"

text \<open>
  The moment a held private chat becomes claimable, in milliseconds from now, rounded up.
\<close>

definition held_update :: "database \<Rightarrow> ingress_update \<Rightarrow> bool" where
  "held_update d r \<longleftrightarrow>
     u_status r = IPending \<and> private_payload (u_payload r) \<and>
     \<not> exists_row (\<lambda>b. u_queue b = u_queue r \<and> u_status b = IProcessing) (updates d)"

definition ready_at :: "int \<Rightarrow> int \<Rightarrow> database \<Rightarrow> string \<Rightarrow> time" where
  "ready_at quiet max_wait d queue =
     (let received = map u_received (filter (\<lambda>r. held_update d r \<and> u_queue r = queue) (updates d))
      in min (fold max (tl received) (hd received) + millis quiet)
             (fold min (tl received) (hd received) + millis max_wait))"

definition held_private_chat_ready_in ::
  "burst_policy \<Rightarrow> time \<Rightarrow> database \<Rightarrow> int option result" where
  "held_private_chat_ready_in burst clock d =
     res_bind (require_private_burst_policy burst) (\<lambda>_.
       if number_value (quiet_ms burst) = 0 then Inr None
       else
         (let chats = remdups (map u_queue (filter (held_update d) (updates d)));
              times = filter (\<lambda>t. clock < t)
                (map (ready_at (number_value (quiet_ms burst)) (number_value (max_wait_ms burst)) d) chats)
          in case times of
               [] \<Rightarrow> Inr None
             | t # ts \<Rightarrow> Inr (Some (max 0 (- ((clock - fold min ts t) div 1000))))))"

record following_input =
  fo_after :: string
  fo_lease :: js_number
  fo_limit :: js_number
  fo_queue :: string

definition pending_after :: "string \<Rightarrow> int \<Rightarrow> ingress_update \<Rightarrow> bool" where
  "pending_after queue after r \<longleftrightarrow> u_queue r = queue \<and> after < u_id r \<and> u_status r = IPending"

definition bad_limit :: "js_number \<Rightarrow> bool" where
  "bad_limit limit \<longleftrightarrow> \<not> is_safe_integer limit \<or> number_value limit \<le> 0"

definition following_candidates :: "following_input \<Rightarrow> database \<Rightarrow> ingress_update list" where
  "following_candidates input d =
     select_ordered (pending_after (fo_queue input) (decimal_value (fo_after input))) u_id
       (nat (number_value (fo_limit input))) (updates d)"

definition accepted_run :: "(json \<Rightarrow> bool) \<Rightarrow> ingress_update list \<Rightarrow> int list" where
  "accepted_run accept candidates =
     map u_id (takeWhile (\<lambda>r. u_voice_file r = None \<and> accept (u_payload r)) candidates)"

definition claim_rows :: "database \<Rightarrow> ingress_update list \<Rightarrow> ingress_claim list" where
  "claim_rows d rows =
     concat (map (\<lambda>r. case first_row (\<lambda>q. q_id q = u_queue r) (queues d) of
         None \<Rightarrow> [] | Some q \<Rightarrow> [map_telegram_ingress_claim r (q_key q)]) rows)"

definition claim_following_body ::
  "(json \<Rightarrow> bool) \<Rightarrow> following_input \<Rightarrow> int \<Rightarrow> (int \<Rightarrow> string) \<Rightarrow> time \<Rightarrow> database
     \<Rightarrow> (ingress_claim list, database) tx" where
  "claim_following_body accept input ms tokens now d =
     (let accepted = accepted_run accept (following_candidates input d)
      in if accepted = [] then Commit [] d
         else
           (let hit = (\<lambda>r. u_id r \<in> set accepted \<and> u_status r = IPending);
                acquire = (\<lambda>r. u_acquire (tokens (u_id r)) (now + millis ms) r);
                claimed = claim_rows d (sort_key u_id (map acquire (filter hit (updates d))))
            in if length claimed \<noteq> length accepted
               then Throw (AppError ''AGENT_TELEGRAM_SERIES_CLAIM_FAILED'')
               else Commit claimed (d\<lparr>updates := update_where hit acquire (updates d)\<rparr>)))"

definition claim_following ::
  "(json \<Rightarrow> bool) \<Rightarrow> following_input \<Rightarrow> (int \<Rightarrow> string) \<Rightarrow> time \<Rightarrow> database
     \<Rightarrow> ingress_claim list result \<times> database" where
  "claim_following accept input tokens now =
     when_valid
       (res_bind (require_lease_milliseconds (fo_lease input)) (\<lambda>ms.
          res_bind (require_update_id (fo_after input)) (\<lambda>_. Inr ms)))
       (\<lambda>ms d. if bad_limit (fo_limit input) then (Inr [], d)
              else run_tx (claim_following_body accept input ms tokens now) d)"

definition list_pending_after ::
  "string \<Rightarrow> string \<Rightarrow> js_number \<Rightarrow> database \<Rightarrow> (json \<times> time) list result" where
  "list_pending_after queue after limit d =
     res_bind (require_update_id after) (\<lambda>_.
       if bad_limit limit then Inr []
       else Inr (map (\<lambda>r. (u_payload r, u_received r))
              (select_ordered (pending_after queue (decimal_value after)) u_id
                (nat (number_value limit)) (updates d))))"

section \<open>Pending prompts\<close>

definition has_pending_approvals_in_chat :: "string \<Rightarrow> database \<Rightarrow> bool result" where
  "has_pending_approvals_in_chat chat d =
     res_bind (require_non_empty chat ''AGENT_TELEGRAM_CHAT_INVALID'') (\<lambda>_.
       Inr (exists_row (\<lambda>a. a_chat a = chat \<and> a_consumed a = None \<and> a_timed_out a = None) (approvals d)))"

definition has_pending_approvals :: "string \<Rightarrow> database \<Rightarrow> bool result" where
  "has_pending_approvals eve_session d =
     res_bind (require_non_empty eve_session ''AGENT_TELEGRAM_SESSION_INVALID'') (\<lambda>_.
       Inr (exists_row (\<lambda>a. a_eve a = eve_session \<and> a_consumed a = None) (approvals d)))"

section \<open>Leases\<close>

definition holds_lease :: "ingress_update \<Rightarrow> string \<Rightarrow> time \<Rightarrow> bool" where
  "holds_lease r token now \<longleftrightarrow>
     u_status r = IProcessing \<and> u_token r = Some token \<and>
     (case u_expires r of None \<Rightarrow> False | Some till \<Rightarrow> now < till)"

definition lease_where :: "string \<Rightarrow> string \<Rightarrow> time \<Rightarrow> ingress_update \<Rightarrow> bool" where
  "lease_where update_id token now r \<longleftrightarrow>
     u_id r = decimal_value update_id \<and> holds_lease r (uuid_of token) now"

definition valid_lease_args :: "string \<Rightarrow> string \<Rightarrow> string result" where
  "valid_lease_args update_id token =
     res_bind (require_update_id update_id) (\<lambda>_.
     res_bind (require_non_empty token ''AGENT_TELEGRAM_LEASE_INVALID'') (\<lambda>_.
     require_uuid token ''AGENT_TELEGRAM_LEASE_INVALID''))"

text \<open>
  \<open>requireActiveLease\<close> around one \<open>UPDATE\<close> of the leased row: no row matched means the lease is lost.
\<close>

definition with_active_lease ::
  "string \<Rightarrow> string \<Rightarrow> time \<Rightarrow> (ingress_update \<Rightarrow> ingress_update) \<Rightarrow> database \<Rightarrow> unit result \<times> database" where
  "with_active_lease update_id token now f =
     when_valid (valid_lease_args update_id token) (\<lambda>_ d.
       (let d' = d\<lparr>updates := update_where (lease_where update_id token now) f (updates d)\<rparr>
        in if row_count (lease_where update_id token now) (updates d) = 0
           then (Inl (AppError ''AGENT_TELEGRAM_LEASE_LOST''), d') else (Inr (), d')))"

definition release_stale_leases :: "time \<Rightarrow> database \<Rightarrow> nat \<times> database" where
  "release_stale_leases now d =
     (let live = (\<lambda>r. u_status r = IProcessing \<and>
            (case u_expires r of None \<Rightarrow> False | Some till \<Rightarrow> now < till))
      in (row_count live (updates d),
          d\<lparr>updates := update_where live (\<lambda>r. r\<lparr>u_expires := Some now\<rparr>) (updates d)\<rparr>))"

definition renew_lease ::
  "string \<Rightarrow> string \<Rightarrow> js_number \<Rightarrow> time \<Rightarrow> database \<Rightarrow> time result \<times> database" where
  "renew_lease update_id token lease now =
     when_valid (require_lease_milliseconds lease) (\<lambda>ms d.
       case with_active_lease update_id token now (\<lambda>r. r\<lparr>u_expires := Some (now + millis ms)\<rparr>) d of
         (Inl e, d') \<Rightarrow> (Inl e, d')
       | (Inr _, d') \<Rightarrow> (Inr (now + millis ms), d'))"

lemma snd_renew_lease:
  "snd (renew_lease u t lease now d) =
     (case require_lease_milliseconds lease of
        Inl _ \<Rightarrow> d
      | Inr ms \<Rightarrow> snd (with_active_lease u t now (\<lambda>r. r\<lparr>u_expires := Some (now + millis ms)\<rparr>) d))"
  by (auto simp: renew_lease_def when_valid_def split: sum.split prod.split)

definition u_complete :: "time \<Rightarrow> ingress_update \<Rightarrow> ingress_update" where
  "u_complete now r =
     r\<lparr>u_status := ICompleted, u_completed := Some now, u_token := None, u_expires := None\<rparr>"

definition complete :: "string \<Rightarrow> string \<Rightarrow> time \<Rightarrow> database \<Rightarrow> unit result \<times> database" where
  "complete update_id token now = with_active_lease update_id token now (u_complete now)"

definition u_release :: "ingress_failure \<Rightarrow> ingress_update \<Rightarrow> ingress_update" where
  "u_release f r =
     r\<lparr>u_status := IPending, u_token := None, u_expires := None,
       u_err_code := Some (f_code f), u_err_message := Some (f_message f)\<rparr>"

definition release :: "string \<Rightarrow> string \<Rightarrow> ingress_failure \<Rightarrow> time \<Rightarrow> database \<Rightarrow> unit result \<times> database" where
  "release update_id token f now =
     when_valid (require_failure f) (\<lambda>f. with_active_lease update_id token now (u_release f))"

definition u_release_undelivered :: "ingress_failure \<Rightarrow> ingress_update \<Rightarrow> ingress_update" where
  "u_release_undelivered f r =
     r\<lparr>u_status := IPending, u_token := None, u_expires := None, u_dispatch := None,
       u_err_code := Some (f_code f), u_err_message := Some (f_message f)\<rparr>"

definition release_undelivered ::
  "string \<Rightarrow> string \<Rightarrow> ingress_failure \<Rightarrow> time \<Rightarrow> database \<Rightarrow> unit result \<times> database" where
  "release_undelivered update_id token f now =
     when_valid (require_failure f) (\<lambda>f. with_active_lease update_id token now (u_release_undelivered f))"

definition u_fail :: "ingress_failure \<Rightarrow> time \<Rightarrow> ingress_update \<Rightarrow> ingress_update" where
  "u_fail f now r =
     r\<lparr>u_status := IFailed, u_token := None, u_expires := None,
       u_err_code := Some (f_code f), u_err_message := Some (f_message f), u_completed := Some now\<rparr>"

definition fail_update ::
  "string \<Rightarrow> string \<Rightarrow> ingress_failure \<Rightarrow> time \<Rightarrow> database \<Rightarrow> unit result \<times> database" where
  "fail_update update_id token f now =
     when_valid (require_failure f) (\<lambda>f. with_active_lease update_id token now (u_fail f now))"

section \<open>A new continuation key\<close>

record rekey_input =
  rk_next :: string
  rk_previous :: string
  rk_queue :: string

text \<open>
  The ids JavaScript compares are texts: a queue id in another letter case names the same row in
  SQL and another queue in the comparison of aliases.
\<close>

definition rekey_body :: "rekey_input \<Rightarrow> database \<Rightarrow> (unit, database) tx" where
  "rekey_body input d =
     (let id = uuid_of (rk_queue input) in
      case first_row (\<lambda>q. q_id q = id) (queues d) of
        None \<Rightarrow> Throw (AppError ''AGENT_TELEGRAM_QUEUE_NOT_FOUND'')
      | Some q \<Rightarrow>
          if q_key q = [] then Throw (AppError ''AGENT_TELEGRAM_QUEUE_NOT_FOUND'')
          else if alias_of (rk_previous input) d \<noteq> Some (rk_queue input)
          then Throw (AppError ''AGENT_TELEGRAM_CONTINUATION_CONFLICT'')
          else if q_key q \<noteq> rk_previous input \<and> q_key q \<noteq> rk_next input
          then Throw (AppError ''AGENT_TELEGRAM_CONTINUATION_STALE'')
          else
            (case (case alias_of (rk_next input) d of
                     Some queue \<Rightarrow> if queue \<noteq> rk_queue input
                                   then Inl (AppError ''AGENT_TELEGRAM_CONTINUATION_CONFLICT'') else Inr d
                   | None \<Rightarrow> insert_alias (rk_next input) id d) of
               Inl e \<Rightarrow> Throw e
             | Inr d1 \<Rightarrow>
                 if exists_row (\<lambda>q'. q_id q' \<noteq> id \<and> q_key q' = rk_next input) (queues d1)
                 then Throw unique_violation
                 else Commit ()
                   (d1\<lparr>queues := update_where (\<lambda>q'. q_id q' = id) (\<lambda>q'. q'\<lparr>q_key := rk_next input\<rparr>) (queues d1)\<rparr>)))"

definition rekey_queue :: "rekey_input \<Rightarrow> database \<Rightarrow> unit result \<times> database" where
  "rekey_queue input =
     when_valid
       (res_bind (require_non_empty (rk_previous input) ''AGENT_TELEGRAM_CONTINUATION_INVALID'') (\<lambda>_.
        res_bind (require_non_empty (rk_next input) ''AGENT_TELEGRAM_CONTINUATION_INVALID'') (\<lambda>_.
        require_uuid (rk_queue input) ''AGENT_TELEGRAM_QUEUE_ID_INVALID'')))
       (\<lambda>_. run_tx (rekey_body input))"

section \<open>The lease of an update\<close>

text \<open>The contract of \<open>Lease\<close>, provided by the statements above.\<close>

interpretation ingress_lease: leased_rows u_id holds_lease u_acquire "u_release f" for f
  by unfold_locales (auto simp: holds_lease_def u_acquire_def u_release_def)

end
