(* ===== verification/Message_Policy.thy ===== *)
theory Message_Policy
  imports Ingress_Queue
begin

text \<open>
  Which messages reach the assistant and which belong together: agent/lib/telegram-message-policy.ts,
  telegram-message-series.ts, and the document candidates of attachments/telegram-vision-attachment.ts and
  attachments/attachment-policy.ts. The name of the agent is recognized by a Unicode pattern and file names are
  normalized by the host; both are arguments (\<open>named\<close>, \<open>nfkc\<close>).
\<close>

section \<open>Parsed updates\<close>

text \<open>Eve's parsed update with the fields the ingress reads. Text, attachments and raw form are the \<open>im_body\<close>.\<close>

record telegram_sender =
  sn_id :: string
  sn_bot :: bool
  sn_username :: "string option"

record inbound_message =
  im_body :: telegram_message
  im_caption :: string
  im_chat :: string
  im_chat_type :: chat_type
  im_from :: "telegram_sender option"
  im_id :: string
  im_reply :: "telegram_sender option option"
  im_thread :: "int option"

record callback_query =
  cq_id :: string
  cq_message :: "(string \<times> int option) option"

datatype inbound_update = Message_in inbound_message | Callback_in callback_query

abbreviation im_raw :: "inbound_message \<Rightarrow> jobj" where "im_raw m \<equiv> tm_raw (im_body m)"
abbreviation im_text :: "inbound_message \<Rightarrow> string" where "im_text m \<equiv> tm_text (im_body m)"
abbreviation im_attachments :: "inbound_message \<Rightarrow> attachment list" where "im_attachments m \<equiv> tm_attachments (im_body m)"

text \<open>\<open>normalizeRichMessage\<close> on the whole update: it reads and writes the body of a message only.\<close>

definition normalize_inbound :: "inbound_update \<Rightarrow> inbound_update" where
  "normalize_inbound update =
     (case update of
        Callback_in q \<Rightarrow> update
      | Message_in m \<Rightarrow>
          (case normalize_rich_message (Message_update (im_body m)) of
             Message_update b \<Rightarrow> Message_in (m\<lparr>im_body := b\<rparr>)
           | Callback_update \<Rightarrow> update))"

definition has_own :: "jobj \<Rightarrow> string \<Rightarrow> bool" where
  "has_own r k = (member_of r k \<noteq> None)"

text \<open>\<open>toLowerCase\<close> on the code units a string has here: A to Z and the Latin-1 capitals.\<close>

definition js_lower_char :: "char \<Rightarrow> char" where
  "js_lower_char c =
     (let n = of_char c :: nat
      in if 65 \<le> n \<and> n \<le> 90 \<or> 192 \<le> n \<and> n \<le> 222 \<and> n \<noteq> 215 then char_of (n + 32) else c)"

definition js_lower :: "string \<Rightarrow> string" where
  "js_lower = map js_lower_char"

section \<open>Commands, mentions, replies\<close>

definition word_char :: "char \<Rightarrow> bool" where
  "word_char c = (let n = of_char c :: nat
     in 48 \<le> n \<and> n \<le> 57 \<or> 65 \<le> n \<and> n \<le> 90 \<or> 97 \<le> n \<and> n \<le> 122 \<or> n = 95)"

text \<open>
  \<open>TELEGRAM_COMMAND_PATTERN\<close>. What follows the name must be \<open>@\<close>, white space or the end, none of which is a
  word character, so the greedy name is the whole run of word characters.
\<close>

definition command_tail :: "string \<Rightarrow> bool" where
  "command_tail rest = (case rest of [] \<Rightarrow> True | c # _ \<Rightarrow> js_space c)"

definition is_telegram_slash_command :: "string \<Rightarrow> bool" where
  "is_telegram_slash_command text =
     (case text of
        [] \<Rightarrow> False
      | c # cs \<Rightarrow>
          c = CHR ''/'' \<and>
          (let name = takeWhile word_char cs; rest = dropWhile word_char cs in
           1 \<le> length name \<and> length name \<le> 32 \<and>
           (command_tail rest \<or>
            (case rest of
               [] \<Rightarrow> False
             | d # ds \<Rightarrow>
                 d = CHR ''@'' \<and> 5 \<le> length (takeWhile word_char ds) \<and> length (takeWhile word_char ds) \<le> 32 \<and>
                 command_tail (dropWhile word_char ds)))))"

text \<open>
  The targets of \<open>text.matchAll(TELEGRAM_MENTION_PATTERN)\<close>: a run of word characters after an \<open>@\<close> that starts
  the text or follows another character. A match ends with a whole run, so the character before
  the next \<open>@\<close> is never consumed by it.
\<close>

fun mention_targets :: "bool \<Rightarrow> string \<Rightarrow> string list" where
  "mention_targets free [] = []"
| "mention_targets free (c # cs) =
     (if free \<and> c = CHR ''@'' \<and> takeWhile word_char cs \<noteq> [] then [takeWhile word_char cs] else []) @
     mention_targets (\<not> word_char c) cs"

definition mentions_another_username :: "string \<Rightarrow> string \<Rightarrow> bool" where
  "mentions_another_username text botname =
     list_ex (\<lambda>target. js_lower target \<noteq> js_lower botname) (mention_targets True text)"

definition is_reply_to_bot :: "inbound_message \<Rightarrow> string \<Rightarrow> bool" where
  "is_reply_to_bot m botname =
     (case im_reply m of
        Some (Some sender) \<Rightarrow>
          sn_bot sender \<and> (case sn_username sender of None \<Rightarrow> False | Some u \<Rightarrow> js_lower u = js_lower botname)
      | _ \<Rightarrow> False)"

definition is_message_addressed_to_bot :: "(string \<Rightarrow> bool) \<Rightarrow> inbound_message \<Rightarrow> string \<Rightarrow> bool" where
  "is_message_addressed_to_bot named m botname =
     (if im_chat_type m = Private_chat then True
      else if im_chat_type m = Channel_chat then False
      else if is_telegram_slash_command (im_text m) then False
      else list_ex (\<lambda>target. js_lower target = js_lower botname) (mention_targets True (im_text m)) \<or>
        is_reply_to_bot m botname \<or> named (im_text m))"

section \<open>Media\<close>

definition inbound_media_fields :: "string list" where
  "inbound_media_fields =
     [''animation'', ''audio'', ''document'', ''game'', ''gift'', ''live_photo'', ''new_chat_photo'', ''paid_media'',
      ''passport_data'', ''photo'', ''sticker'', ''story'', ''unique_gift'', ''video'', ''video_note'', ''voice'']"

definition conditional_media_fields :: "string list" where
  "conditional_media_fields = [''chat_shared'', ''poll'', ''rich_message'', ''users_shared'']"

text \<open>\<open>TelegramInboundMediaKind\<close>: \<open>None\<close> stands for \<open>none\<close>.\<close>

type_synonym inbound_media = "media_kind option"

text \<open>\<open>containsTelegramFileReference\<close>: the stack of values still to be searched, its top first.\<close>

function file_reference_among :: "json list \<Rightarrow> bool" where
  "file_reference_among [] = False"
| "file_reference_among (JArr xs # vs) = file_reference_among (rev xs @ vs)"
| "file_reference_among (JObj kvs # vs) = (has_file_id kvs \<or> file_reference_among (rev (map snd kvs) @ vs))"
| "file_reference_among (JNull # vs) = file_reference_among vs"
| "file_reference_among (JBool b # vs) = file_reference_among vs"
| "file_reference_among (JNum n # vs) = file_reference_among vs"
| "file_reference_among (JStr s # vs) = file_reference_among vs"
  by pat_completeness auto
termination
  by (relation "measure (\<lambda>vs. sum_list (map jsize vs))") (auto simp: rev_map [symmetric] comp_def)

definition contains_telegram_file_reference :: "json \<Rightarrow> bool" where
  "contains_telegram_file_reference v = file_reference_among [v]"

definition conditional_field_is_media :: "jobj \<Rightarrow> string \<Rightarrow> bool" where
  "conditional_field_is_media raw field =
     (case member_of raw field of
        None \<Rightarrow> False
      | Some v \<Rightarrow>
          if field = ''rich_message'' \<and> (rich_message_plain_text raw \<noteq> None \<or> rich_media_is_lifted raw) then False
          else contains_telegram_file_reference v)"

definition has_telegram_raw_media_besides_lifted :: "jobj \<Rightarrow> bool" where
  "has_telegram_raw_media_besides_lifted raw =
     (case rich_message_media raw of
        None \<Rightarrow> True
      | Some lifted \<Rightarrow>
          (let lifted_field = (case lifted of Rich_photo sizes \<Rightarrow> ''photo'' | Rich_document d \<Rightarrow> ''document'')
           in list_ex (\<lambda>f. f \<noteq> lifted_field \<and> has_own raw f) inbound_media_fields \<or>
              list_ex (\<lambda>f. f \<noteq> ''rich_message'' \<and> conditional_field_is_media raw f) conditional_media_fields))"

text \<open>\<open>extname\<close> of Node: the last dot of the last path component, unless nothing stands before it.\<close>

definition path_extname :: "string \<Rightarrow> string" where
  "path_extname path =
     (let trimmed = rev (dropWhile (\<lambda>c. c = CHR ''/'') (rev path));
          base = rev (takeWhile (\<lambda>c. c \<noteq> CHR ''/'') (rev trimmed));
          suffix = rev (takeWhile (\<lambda>c. c \<noteq> CHR ''.'') (rev base)) in
      if CHR ''.'' \<notin> set base \<or> base = ''..'' \<or> length suffix + 1 = length base then [] else CHR ''.'' # suffix)"

definition starts_with :: "string \<Rightarrow> string \<Rightarrow> bool" where
  "starts_with prefix s = (take (length prefix) s = prefix)"

definition is_telegram_image_document_candidate :: "string option \<Rightarrow> string option \<Rightarrow> string \<Rightarrow> bool" where
  "is_telegram_image_document_candidate name media_type kind =
     (kind = ''document'' \<and>
      ((case media_type of None \<Rightarrow> False | Some t \<Rightarrow> starts_with ''image/'' (js_lower t)) \<or>
       (case name of None \<Rightarrow> False
        | Some n \<Rightarrow> js_lower (path_extname n) \<in> set [''.jpeg'', ''.jpg'', ''.png'', ''.webp''])))"

definition is_readable_text_document_candidate :: "(string \<Rightarrow> string) \<Rightarrow> string option \<Rightarrow> string \<Rightarrow> bool" where
  "is_readable_text_document_candidate nfkc name kind =
     (kind = ''document'' \<and>
      (case name of
         None \<Rightarrow> False
       | Some n \<Rightarrow> n \<noteq> [] \<and> js_lower (path_extname (nfkc n)) \<in>
           set [''.csv'', ''.html'', ''.json'', ''.md'', ''.txt'', ''.tsv'', ''.xml'', ''.yaml'', ''.yml'']))"

definition photo_kind :: "json list \<Rightarrow> attachment \<Rightarrow> inbound_media" where
  "photo_kind sizes a =
     (if list_ex (\<lambda>sz. case sz of JObj r \<Rightarrow> \<not> has_file_id r | _ \<Rightarrow> True) sizes then Some Unsupported_media
      else if at_file a \<in> set (concat (map (\<lambda>sz. case sz of JObj r \<Rightarrow> [file_id_of r] | _ \<Rightarrow> []) sizes))
      then Some Native_photo else Some Unsupported_media)"

definition document_kind :: "(string \<Rightarrow> string) \<Rightarrow> jobj \<Rightarrow> attachment \<Rightarrow> inbound_media" where
  "document_kind nfkc d a =
     (let exact_file = strict_equal (member_of d ''file_id'') (Some (at_file a));
          same = (\<lambda>k v. member_of d k = None \<or> strict_equal (member_of d k) (map_option JStr v)) in
      if \<not> exact_file \<or> \<not> same ''mime_type'' (at_media_type a) \<or> \<not> same ''file_name'' (at_name a) then Some Unsupported_media
      else if is_telegram_image_document_candidate (string_member d ''file_name'') (string_member d ''mime_type'') (at_kind a)
        then Some Image_document_candidate
      else if is_readable_text_document_candidate nfkc (string_member d ''file_name'') (at_kind a) then Some Text_document_candidate
      else Some Unsupported_media)"

definition classify_telegram_inbound_media :: "(string \<Rightarrow> string) \<Rightarrow> telegram_message \<Rightarrow> inbound_media" where
  "classify_telegram_inbound_media nfkc m =
     (let raw = tm_raw m;
          conditional = list_ex (conditional_field_is_media raw) conditional_media_fields;
          other = list_ex (\<lambda>f. f \<noteq> ''photo'' \<and> f \<noteq> ''document'' \<and> has_own raw f) inbound_media_fields \<or> conditional in
      if tm_attachments m = [] \<and> \<not> (list_ex (has_own raw) inbound_media_fields \<or> conditional) then None
      else (case (member_of raw ''photo'', member_of raw ''document'', tm_attachments m) of
          (Some (JArr (sz # szs)), None, [a]) \<Rightarrow>
            if \<not> other \<and> at_kind a = ''photo'' then photo_kind (sz # szs) a else Some Unsupported_media
        | (None, Some (JObj d), [a]) \<Rightarrow>
            if \<not> other \<and> at_kind a = ''document'' then document_kind nfkc d a else Some Unsupported_media
        | _ \<Rightarrow> Some Unsupported_media))"

section \<open>Series\<close>

definition series_max_messages :: nat where "series_max_messages = 5"

definition forward_keys :: "string list" where
  "forward_keys = [''forward_origin'', ''forward_from'', ''forward_from_chat'', ''forward_date'']"

definition is_series_eligible :: "(string \<Rightarrow> string) \<Rightarrow> inbound_update \<Rightarrow> string \<Rightarrow> bool" where
  "is_series_eligible nfkc update botname =
     (case update of
        Callback_in q \<Rightarrow> False
      | Message_in m \<Rightarrow>
          im_chat_type m \<noteq> Channel_chat \<and>
          im_from m \<noteq> None \<and> \<not> has_own (im_raw m) ''sender_chat'' \<and>
          \<not> has_own (im_raw m) ''voice'' \<and> im_attachments m = [] \<and>
          classify_telegram_inbound_media nfkc (im_body m) = None \<and>
          \<not> list_ex (has_own (im_raw m)) forward_keys \<and>
          js_trim (im_text m) \<noteq> [] \<and> \<not> is_telegram_slash_command (js_trim (im_text m)) \<and>
          (im_reply m = None \<or> is_reply_to_bot m botname) \<and>
          \<not> mentions_another_username (js_trim (im_text m)) botname)"

definition continues_series :: "(string \<Rightarrow> string) \<Rightarrow> inbound_update \<Rightarrow> inbound_update \<Rightarrow> string \<Rightarrow> bool" where
  "continues_series nfkc head candidate botname =
     (if \<not> is_series_eligible nfkc head botname \<or> \<not> is_series_eligible nfkc candidate botname then False
      else (case (head, candidate) of
          (Message_in a, Message_in b) \<Rightarrow>
            im_chat a = im_chat b \<and> im_thread a = im_thread b \<and>
            map_option sn_id (im_from a) = map_option sn_id (im_from b) \<and>
            map_option sn_bot (im_from a) = map_option sn_bot (im_from b)
        | _ \<Rightarrow> False))"

datatype series_marker = Series_context | Series_current bool "string list" "string list"

text \<open>The marker as a member of the raw message.\<close>

definition marker_json :: "series_marker \<Rightarrow> json" where
  "marker_json marker =
     (case marker of
        Series_context \<Rightarrow> JObj [(''role'', JStr ''context'')]
      | Series_current addressed earlier messages \<Rightarrow>
          JObj [(''addressed'', JBool addressed), (''earlierUpdateIds'', JArr (map JStr earlier)),
            (''role'', JStr ''current''), (''telegramMessageIds'', JArr (map JStr messages))])"

definition with_raw_member :: "string \<Rightarrow> json \<Rightarrow> inbound_message \<Rightarrow> inbound_message" where
  "with_raw_member k v m = m\<lparr>im_body := (im_body m)\<lparr>tm_raw := set_member (im_raw m) k v\<rparr>\<rparr>"

definition with_series_marker :: "series_marker \<Rightarrow> inbound_message \<Rightarrow> inbound_message" where
  "with_series_marker marker = with_raw_member ''osinara_series'' (marker_json marker)"

definition positive_id_text :: "json \<Rightarrow> bool" where
  "positive_id_text v = (case v of JStr (c # cs) \<Rightarrow> c \<noteq> CHR ''0'' \<and> list_all ascii_digit (c # cs) | _ \<Rightarrow> False)"

definition id_texts :: "json option \<Rightarrow> string list option" where
  "id_texts v =
     (case v of
        Some (JArr xs) \<Rightarrow>
          if list_all positive_id_text xs then Some (map (\<lambda>x. case x of JStr s \<Rightarrow> s | _ \<Rightarrow> []) xs) else None
      | _ \<Rightarrow> None)"

text \<open>\<open>earlierUpdateIds\<close> is dropped when it is malformed; the reader has it as an optional member.\<close>

datatype read_marker = Read_context | Read_current bool "string list option" "string list"

definition read_telegram_series_marker :: "jobj \<Rightarrow> read_marker option" where
  "read_telegram_series_marker raw =
     (case opt_record (member_of raw ''osinara_series'') of
        None \<Rightarrow> None
      | Some marker \<Rightarrow>
          if member_of marker ''role'' = Some (JStr ''context'') then Some Read_context
          else (case (member_of marker ''role'', member_of marker ''addressed'', id_texts (member_of marker ''telegramMessageIds'')) of
              (Some (JStr role), Some (JBool addressed), Some ids) \<Rightarrow>
                if role = ''current''
                then Some (Read_current addressed (id_texts (member_of marker ''earlierUpdateIds'')) ids) else None
            | _ \<Rightarrow> None))"

section \<open>What a series is\<close>

lemma js_lower_idem [simp]: "js_lower (js_lower s) = js_lower s"
  by (simp add: js_lower_def js_lower_char_def Let_def)

text \<open>The search finds a reference exactly when some object in the value has one.\<close>

inductive inside :: "json \<Rightarrow> json \<Rightarrow> bool" where
  inside_self: "inside v v"
| inside_element: "x \<in> set xs \<Longrightarrow> inside v x \<Longrightarrow> inside v (JArr xs)"
| inside_member: "(k, x) \<in> set kvs \<Longrightarrow> inside v x \<Longrightarrow> inside v (JObj kvs)"

inductive_simps inside_JArr: "inside v (JArr xs)"
inductive_simps inside_JObj: "inside v (JObj kvs)"
inductive_simps inside_JNull: "inside v JNull"
inductive_simps inside_JBool: "inside v (JBool b)"
inductive_simps inside_JNum: "inside v (JNum n)"
inductive_simps inside_JStr: "inside v (JStr s)"

lemma file_reference_among_iff:
  "file_reference_among vs \<longleftrightarrow> (\<exists>v\<in>set vs. \<exists>r. inside (JObj r) v \<and> has_file_id r)"
proof (induction vs rule: file_reference_among.induct)
  case (2 xs vs)
  then show ?case by (simp add: inside_JArr) blast
next
  case (3 kvs vs)
  have "(\<exists>v\<in>snd ` set kvs. \<exists>r. inside (JObj r) v \<and> has_file_id r) \<longleftrightarrow>
      (\<exists>r. (\<exists>k x. (k, x) \<in> set kvs \<and> inside (JObj r) x) \<and> has_file_id r)" by force
  with 3 show ?case by (auto simp: inside_JObj)
qed (auto simp: inside_JNull inside_JBool inside_JNum inside_JStr)

lemma contains_file_reference_iff:
  "contains_telegram_file_reference v \<longleftrightarrow> (\<exists>r. inside (JObj r) v \<and> has_file_id r)"
  by (simp add: contains_telegram_file_reference_def file_reference_among_iff)

definition same_thread :: "inbound_message \<Rightarrow> inbound_message \<Rightarrow> bool" where
  "same_thread a b \<longleftrightarrow> im_chat a = im_chat b \<and> im_thread a = im_thread b \<and>
     map_option sn_id (im_from a) = map_option sn_id (im_from b) \<and>
     map_option sn_bot (im_from a) = map_option sn_bot (im_from b)"

lemma callbacks_not_eligible [simp]: "\<not> is_series_eligible nfkc (Callback_in q) botname"
  by (simp add: is_series_eligible_def)

lemma continues_series_iff:
  "continues_series nfkc a b botname \<longleftrightarrow> is_series_eligible nfkc a botname \<and> is_series_eligible nfkc b botname \<and>
     (\<exists>m n. a = Message_in m \<and> b = Message_in n \<and> same_thread m n)"
  by (cases a; cases b) (auto simp: continues_series_def same_thread_def)

lemma series_sym: "continues_series nfkc a b botname \<Longrightarrow> continues_series nfkc b a botname"
  by (auto simp: continues_series_iff same_thread_def)

lemma series_trans:
  "continues_series nfkc a b botname \<Longrightarrow> continues_series nfkc b c botname \<Longrightarrow> continues_series nfkc a c botname"
  by (auto simp: continues_series_iff same_thread_def)

lemma positive_id_nat_text: "0 < n \<Longrightarrow> positive_id_text (JStr (nat_text n))"
  using nat_text_leading [of n] nat_text_digits [of n] by (cases "nat_text n") (auto simp: positive_id_text_def)

lemma id_texts_JArr: "list_all (\<lambda>s. positive_id_text (JStr s)) ids \<Longrightarrow> id_texts (Some (JArr (map JStr ids))) = Some ids"
  by (simp add: id_texts_def list_all_iff comp_def)

lemma marker_reads_back:
  assumes "marker = Series_current addressed earlier ids" "list_all (\<lambda>s. positive_id_text (JStr s)) ids"
    "list_all (\<lambda>s. positive_id_text (JStr s)) earlier"
  shows "read_telegram_series_marker (im_raw (with_series_marker marker m)) = Some (Read_current addressed (Some earlier) ids)"
  using assms by (simp add: read_telegram_series_marker_def with_series_marker_def with_raw_member_def member_set_member
      marker_json_def) (simp add: member_of_def id_texts_JArr)

end
