(* ===== verification/Ingress_Processing.thy ===== *)
theory Ingress_Processing
  imports Ingress_Queue
begin

text \<open>
  The markers around a provider call and around the dispatch to Eve
  (agent/lib/telegram-ingress-processing-repository.ts), the completion with its event cursor
  (telegram-ingress-session-cursor-repository.ts), the alert on a stuck update
  (telegram-ingress-stall.ts) and the retention purge (telegram-ingress-retention.ts).
  Where an operation runs two statements outside a transaction, the second has its own time.
\<close>

definition marker_args :: "string \<Rightarrow> string \<Rightarrow> string result" where
  "marker_args update_id token =
     res_bind (require_uuid token ''AGENT_TELEGRAM_LEASE_INVALID'') (\<lambda>_. require_update_id update_id)"

definition active_row :: "string \<Rightarrow> string \<Rightarrow> time \<Rightarrow> database \<Rightarrow> ingress_update option" where
  "active_row update_id token now d =
     (case first_row (\<lambda>r. u_id r = decimal_value update_id) (updates d) of
        None \<Rightarrow> None
      | Some r \<Rightarrow> if holds_lease r (uuid_of token) now then Some r else None)"

section \<open>Voice transcription\<close>

datatype transcription_state = Transcription_completed | Transcription_started

definition transcription_where :: "string \<Rightarrow> string \<Rightarrow> time \<Rightarrow> ingress_update \<Rightarrow> bool" where
  "transcription_where update_id token now r \<longleftrightarrow>
     lease_where update_id token now r \<and> u_voice_file r \<noteq> None \<and> u_tr_started r = None"

definition begin_voice_transcription ::
  "string \<Rightarrow> string \<Rightarrow> time \<Rightarrow> time \<Rightarrow> database \<Rightarrow> transcription_state result \<times> database" where
  "begin_voice_transcription update_id token now later =
     when_valid (marker_args update_id token) (\<lambda>_ d.
       (let hit = transcription_where update_id token now;
            d' = d\<lparr>updates := update_where hit (\<lambda>r. r\<lparr>u_tr_started := Some now\<rparr>) (updates d)\<rparr>
        in if row_count hit (updates d) = 1 then (Inr Transcription_started, d')
           else (case active_row update_id token later d' of
                   None \<Rightarrow> (Inl (AppError ''AGENT_TELEGRAM_LEASE_LOST''), d')
                 | Some r \<Rightarrow>
                     (case u_transcript r of
                        Some t \<Rightarrow> if t \<noteq> [] then (Inr Transcription_completed, d')
                          else (Inl (AppError (if u_tr_started r \<noteq> None
                             then ''AGENT_VOICE_TRANSCRIPTION_RECOVERY_REQUIRED''
                             else ''AGENT_TELEGRAM_VOICE_INVALID'')), d')
                      | None \<Rightarrow> (Inl (AppError (if u_tr_started r \<noteq> None
                             then ''AGENT_VOICE_TRANSCRIPTION_RECOVERY_REQUIRED''
                             else ''AGENT_TELEGRAM_VOICE_INVALID'')), d')))))"

definition save_where :: "string \<Rightarrow> string \<Rightarrow> time \<Rightarrow> ingress_update \<Rightarrow> bool" where
  "save_where update_id token now r \<longleftrightarrow>
     lease_where update_id token now r \<and> u_voice_file r \<noteq> None \<and> u_tr_started r \<noteq> None"

text \<open>\<open>COALESCE(column, value)\<close>\<close>

definition coalesce :: "'a option \<Rightarrow> 'a \<Rightarrow> 'a" where
  "coalesce c v = (case c of None \<Rightarrow> v | Some x \<Rightarrow> x)"

definition u_save_transcript :: "string \<Rightarrow> time \<Rightarrow> ingress_update \<Rightarrow> ingress_update" where
  "u_save_transcript text now r =
     r\<lparr>u_transcript := Some (coalesce (u_transcript r) text),
       u_tr_done := Some (coalesce (u_tr_done r) now)\<rparr>"

definition save_voice_transcript ::
  "string \<Rightarrow> string \<Rightarrow> string \<Rightarrow> time \<Rightarrow> database \<Rightarrow> unit result \<times> database" where
  "save_voice_transcript update_id token transcript now =
     (let text = js_trim transcript in
      when_valid
        (res_bind (require_non_empty text ''AGENT_VOICE_TRANSCRIPT_EMPTY'') (\<lambda>_. marker_args update_id token))
        (\<lambda>_ d.
          (let hit = save_where update_id token now;
               d' = d\<lparr>updates := update_where hit (u_save_transcript text now) (updates d)\<rparr>
           in case first_row hit (updates d) of
                None \<Rightarrow> (Inl (AppError ''AGENT_TELEGRAM_LEASE_LOST''), d')
              | Some r \<Rightarrow>
                  (let persisted = coalesce (u_transcript r) text
                   in if persisted = [] then (Inl (AppError ''AGENT_TELEGRAM_LEASE_LOST''), d')
                      else if persisted \<noteq> text then (Inl (AppError ''AGENT_VOICE_TRANSCRIPT_CONFLICT''), d')
                      else (Inr (), d')))))"

section \<open>Dispatch to Eve\<close>

definition dispatch_where :: "string \<Rightarrow> string \<Rightarrow> time \<Rightarrow> ingress_update \<Rightarrow> bool" where
  "dispatch_where update_id token now r \<longleftrightarrow> lease_where update_id token now r \<and> u_dispatch r = None"

definition begin_dispatch ::
  "string \<Rightarrow> string \<Rightarrow> time \<Rightarrow> time \<Rightarrow> database \<Rightarrow> unit result \<times> database" where
  "begin_dispatch update_id token now later =
     when_valid (marker_args update_id token) (\<lambda>_ d.
       (let hit = dispatch_where update_id token now;
            d' = d\<lparr>updates := update_where hit (\<lambda>r. r\<lparr>u_dispatch := Some now\<rparr>) (updates d)\<rparr>
        in if row_count hit (updates d) = 1 then (Inr (), d')
           else if active_row update_id token later d' = None
           then (Inl (AppError ''AGENT_TELEGRAM_LEASE_LOST''), d')
           else (Inl (AppError ''AGENT_TELEGRAM_DISPATCH_RECOVERY_REQUIRED''), d')))"

section \<open>Completion with the event cursor\<close>

definition u_complete_session :: "string \<Rightarrow> time \<Rightarrow> ingress_update \<Rightarrow> ingress_update" where
  "u_complete_session session now r = (u_complete now r)\<lparr>u_session := Some session\<rparr>"

definition cursor_of :: "string \<Rightarrow> database \<Rightarrow> int option" where
  "cursor_of session d = map_option snd (first_row (\<lambda>c. fst c = session) (cursors d))"

definition complete_with_session_body ::
  "string \<Rightarrow> string \<Rightarrow> string \<Rightarrow> int \<Rightarrow> time \<Rightarrow> database \<Rightarrow> (unit, database) tx" where
  "complete_with_session_body update_id token session next now d =
     (let hit = lease_where update_id token now;
          d1 = d\<lparr>updates := update_where hit (u_complete_session session now) (updates d)\<rparr>
      in if row_count hit (updates d) = 0 then Throw (AppError ''AGENT_TELEGRAM_LEASE_LOST'')
         else (case cursor_of session d1 of
                 None \<Rightarrow> Commit () (d1\<lparr>cursors := cursors d1 @ [(session, next)]\<rparr>)
               | Some index \<Rightarrow>
                   if index \<le> next
                   then Commit () (d1\<lparr>cursors :=
                     update_where (\<lambda>c. fst c = session) (\<lambda>c. (fst c, next)) (cursors d1)\<rparr>)
                   else Throw (AppError ''AGENT_TELEGRAM_SESSION_CURSOR_REGRESSION'')))"

definition complete_with_session ::
  "string \<Rightarrow> string \<Rightarrow> string \<Rightarrow> js_number \<Rightarrow> time \<Rightarrow> database \<Rightarrow> unit result \<times> database" where
  "complete_with_session update_id token session next now =
     when_valid
       (res_bind (require_non_empty session ''AGENT_TELEGRAM_SESSION_INVALID'') (\<lambda>_.
        res_bind (if \<not> is_safe_integer next \<or> number_value next < 0
                  then Inl (AppError ''AGENT_TELEGRAM_SESSION_CURSOR_INVALID'') else Inr ()) (\<lambda>_.
        res_bind (require_update_id update_id) (\<lambda>_.
        require_uuid token ''AGENT_TELEGRAM_LEASE_INVALID''))))
       (\<lambda>_. run_tx (complete_with_session_body update_id token session (number_value next) now))"

definition session_event_stream_cursor :: "string \<Rightarrow> database \<Rightarrow> int result" where
  "session_event_stream_cursor session d =
     res_bind (require_non_empty session ''AGENT_TELEGRAM_SESSION_INVALID'') (\<lambda>_.
       case cursor_of session d of
         None \<Rightarrow> Inr 0
       | Some cursor \<Rightarrow>
           if max_safe_integer < cursor \<or> cursor < 0
           then Inl (AppError ''AGENT_TELEGRAM_SESSION_CURSOR_INVALID'') else Inr cursor)"

section \<open>Stuck updates\<close>

text \<open>
  The threshold is in milliseconds; \<open>chat_type\<close> reads the message of an update or the message under
  a button (\<open>->>\<close> of a text).
\<close>

definition stall_alert_after_ms :: int where
  "stall_alert_after_ms = 30 * 60 * 1000"

definition unreachable_log_interval_ms :: int where
  "unreachable_log_interval_ms = 60 * 60 * 1000"

record stalled_ingress =
  st_chat_type :: string
  st_received :: time
  st_update :: string

definition text_at :: "string list \<Rightarrow> json \<Rightarrow> string option" where
  "text_at path v = (case json_path path v of Some (JStr s) \<Rightarrow> Some s | _ \<Rightarrow> None)"

definition stalled_of :: "ingress_update \<Rightarrow> stalled_ingress" where
  "stalled_of r =
     \<lparr>st_chat_type =
        (case text_at [''message'', ''chat'', ''type''] (u_payload r) of
           Some t \<Rightarrow> t
         | None \<Rightarrow> (case text_at [''callback_query'', ''message'', ''chat'', ''type''] (u_payload r) of
                      Some t \<Rightarrow> t | None \<Rightarrow> ''unknown'')),
      st_received = u_received r, st_update = nat_text (nat (u_id r))\<rparr>"

definition stalled_where :: "int \<Rightarrow> time \<Rightarrow> ingress_update \<Rightarrow> bool" where
  "stalled_where after_ms now r \<longleftrightarrow>
     u_status r = IProcessing \<and> u_stall r = None \<and>
     (case u_dispatch r of None \<Rightarrow> False | Some t \<Rightarrow> t < now - millis after_ms)"

definition claim_stalled_ingress :: "int \<Rightarrow> time \<Rightarrow> database \<Rightarrow> stalled_ingress list \<times> database" where
  "claim_stalled_ingress after_ms now d =
     (map stalled_of (filter (stalled_where after_ms now) (updates d)),
      d\<lparr>updates := update_where (stalled_where after_ms now) (\<lambda>r. r\<lparr>u_stall := Some now\<rparr>) (updates d)\<rparr>)"

definition release_stalled_ingress :: "string \<Rightarrow> database \<Rightarrow> database" where
  "release_stalled_ingress update_id d =
     d\<lparr>updates := update_where (\<lambda>r. u_id r = decimal_value update_id \<and> u_status r = IProcessing)
       (\<lambda>r. r\<lparr>u_stall := None\<rparr>) (updates d)\<rparr>"

text \<open>
  \<open>dispatchIngressStallAlerts\<close> with its collaborators as parameters: the transport's answer for an
  owner, and whether the owner's chat is known to be unreachable. The result is the messages sent,
  the updates whose claim goes back and the updates kept out of the log, or the transport's error.
\<close>

datatype delivery_answer = Delivered | Recipient_unreachable | Transport_error string

fun alert_owners ::
  "(string \<Rightarrow> bool) \<Rightarrow> (string \<Rightarrow> delivery_answer) \<Rightarrow> string list \<Rightarrow> bool \<Rightarrow> nat \<Rightarrow> (bool \<times> nat) result" where
  "alert_owners unreachable deliver [] delivered skipped = Inr (delivered, skipped)"
| "alert_owners unreachable deliver (owner # owners) delivered skipped =
     (if unreachable owner then alert_owners unreachable deliver owners delivered (Suc skipped)
      else (case deliver owner of
              Delivered \<Rightarrow> alert_owners unreachable deliver owners True skipped
            | Recipient_unreachable \<Rightarrow> alert_owners unreachable deliver owners delivered (Suc skipped)
            | Transport_error e \<Rightarrow> Inl (HostError e)))"

type_synonym quiet_map = "(string \<times> time) list"

fun alert_items ::
  "(string \<Rightarrow> bool) \<Rightarrow> (stalled_ingress \<Rightarrow> string \<Rightarrow> delivery_answer) \<Rightarrow> string list \<Rightarrow> time
     \<Rightarrow> stalled_ingress list \<Rightarrow> quiet_map \<Rightarrow> database \<Rightarrow> unit result \<times> quiet_map \<times> database" where
  "alert_items unreachable deliver owners now [] quiet d = (Inr (), quiet, d)"
| "alert_items unreachable deliver owners now (item # items) quiet d =
     (case alert_owners unreachable (deliver item) owners False 0 of
        Inl e \<Rightarrow> (Inl e, quiet, d)
      | Inr (delivered, skipped) \<Rightarrow>
          if delivered \<or> skipped = 0
          then alert_items unreachable deliver owners now items
                 (filter (\<lambda>q. fst q \<noteq> st_update item) quiet) d
          else alert_items unreachable deliver owners now items
                 (if \<exists>q\<in>set quiet. fst q = st_update item then quiet
                  else quiet @ [(st_update item, now + millis unreachable_log_interval_ms)])
                 (release_stalled_ingress (st_update item) d))"

definition dispatch_ingress_stall_alerts ::
  "(string \<Rightarrow> bool) \<Rightarrow> (stalled_ingress \<Rightarrow> string \<Rightarrow> delivery_answer) \<Rightarrow> string list \<Rightarrow> time \<Rightarrow> time
     \<Rightarrow> quiet_map \<Rightarrow> database \<Rightarrow> nat result \<times> quiet_map \<times> database" where
  "dispatch_ingress_stall_alerts unreachable deliver owners now wall quiet d =
     (case claim_stalled_ingress stall_alert_after_ms now d of
        (stalled, d1) \<Rightarrow>
          if stalled = [] then (Inr 0, quiet, d1)
          else (case alert_items unreachable deliver owners wall stalled
                       (filter (\<lambda>q. \<not> snd q \<le> wall) quiet) d1 of
                  (Inl e, quiet', d2) \<Rightarrow> (Inl e, quiet', d2)
                | (Inr _, quiet', d2) \<Rightarrow> (Inr (length stalled), quiet', d2)))"

section \<open>Retention\<close>

definition ingress_retention_days :: int where "ingress_retention_days = 30"

definition ingress_purge_batch_size :: nat where "ingress_purge_batch_size = 500"

definition day :: int where "day = 86400 * 1000000"

definition purge_where :: "(int \<Rightarrow> bool) \<Rightarrow> time \<Rightarrow> ingress_update \<Rightarrow> bool" where
  "purge_where locked now r \<longleftrightarrow>
     u_status r = ICompleted \<and> \<not> locked (u_id r) \<and>
     (case u_completed r of None \<Rightarrow> False | Some t \<Rightarrow> t \<le> now - ingress_retention_days * day)"

text \<open>The rows of telegram_turn_interjections go with their update (\<open>ON DELETE CASCADE\<close>).\<close>

definition purge_completed_telegram_updates ::
  "(int \<Rightarrow> bool) \<Rightarrow> nat \<Rightarrow> time \<Rightarrow> database \<Rightarrow> nat \<times> database" where
  "purge_completed_telegram_updates locked batch_size now d =
     (let expired = map u_id
            (select_ordered (purge_where locked now) (\<lambda>r. the (u_completed r)) batch_size (updates d));
          gone = (\<lambda>uid. uid \<in> set expired)
      in (row_count (\<lambda>r. gone (u_id r)) (updates d),
          d\<lparr>updates := delete_where (\<lambda>r. gone (u_id r)) (updates d),
            interjections := delete_where (\<lambda>i. gone (i_update i)) (interjections d)\<rparr>))"

end
