(* ===== verification/Ingress_Invariant.thy ===== *)
theory Ingress_Invariant
  imports Ingress_Processing
begin

text \<open>
  The table constraints of the ingress (migrations/005_telegram_durable_ingress.sql) as an
  invariant: PostgreSQL would refuse a statement that broke one, so an operation that can break one
  is an operation that fails in production. Plus what the code relies on and no constraint states:
  the current key of a queue is one of its aliases, an update is filed under an alias of its queue,
  a finished update has its completion time, only a completed one has a session.
\<close>

section \<open>Rows\<close>

definition lease_columns_ok :: "ingress_update \<Rightarrow> bool" where
  "lease_columns_ok r \<longleftrightarrow>
     (if u_status r = IProcessing then u_token r \<noteq> None \<and> u_expires r \<noteq> None \<and> u_session r = None
      else u_token r = None \<and> u_expires r = None)"

definition voice_columns_ok :: "ingress_update \<Rightarrow> bool" where
  "voice_columns_ok r \<longleftrightarrow>
     (u_voice_file r \<noteq> None \<or> u_voice_size r = None \<and> u_voice_mime r = None \<and> u_tr_started r = None) \<and>
     (case u_voice_size r of None \<Rightarrow> True | Some n \<Rightarrow> 0 < n) \<and>
     (u_transcript r = None \<or> u_voice_file r \<noteq> None \<and> u_transcript r \<noteq> Some [] \<and> u_tr_started r \<noteq> None) \<and>
     (u_transcript r = None \<longleftrightarrow> u_tr_done r = None)"

definition row_ok :: "ingress_update \<Rightarrow> bool" where
  "row_ok r \<longleftrightarrow>
     0 \<le> u_id r \<and> u_id r \<le> postgres_bigint_max \<and> u_key r \<noteq> [] \<and> is_record (u_payload r) \<and> 0 \<le> u_attempts r \<and>
     lease_columns_ok r \<and> voice_columns_ok r \<and>
     (u_err_code r = None \<longleftrightarrow> u_err_message r = None) \<and>
     (u_session r = None \<or> u_status r = ICompleted) \<and>
     (u_completed r \<noteq> None \<longleftrightarrow> u_status r = ICompleted \<or> u_status r = IFailed)"

text \<open>What no statement after the insert changes.\<close>

definition same_input :: "ingress_update \<Rightarrow> ingress_update \<Rightarrow> bool" where
  "same_input r s \<longleftrightarrow> u_id r = u_id s \<and> u_queue r = u_queue s \<and> u_key r = u_key s \<and>
     u_payload r = u_payload s \<and> u_voice_file r = u_voice_file s \<and> u_voice_size r = u_voice_size s \<and>
     u_voice_mime r = u_voice_mime s \<and> u_received r = u_received s"

text \<open>A statement that keeps the constraints of every row it matches, and the input columns.\<close>

definition keeps_rows :: "(ingress_update \<Rightarrow> bool) \<Rightarrow> (ingress_update \<Rightarrow> ingress_update) \<Rightarrow> bool" where
  "keeps_rows P f \<longleftrightarrow> (\<forall>r. same_input (f r) r) \<and> (\<forall>r. P r \<longrightarrow> row_ok r \<longrightarrow> row_ok (f r))"

lemmas row_defs = row_ok_def lease_columns_ok_def voice_columns_ok_def same_input_def keeps_rows_def
  holds_lease_def lease_where_def

lemma acquire_ok: "claimable now r \<Longrightarrow> row_ok r \<Longrightarrow> row_ok (u_acquire tok till r)"
  by (auto simp: row_defs u_acquire_def claimable_def split: if_splits)

lemma acquire_same_input [simp]: "same_input (u_acquire tok till r) r"
  by (simp add: same_input_def u_acquire_def)

lemma keeps_expire:
  "(\<And>r. P r \<Longrightarrow> u_status r = IProcessing) \<Longrightarrow> keeps_rows P (\<lambda>r. r\<lparr>u_expires := Some t\<rparr>)"
  by (auto simp: row_defs)

lemma keeps_renew: "keeps_rows (lease_where u tok now) (\<lambda>r. r\<lparr>u_expires := Some t\<rparr>)"
  by (rule keeps_expire) (simp add: lease_where_def holds_lease_def)

lemma keeps_complete: "keeps_rows (lease_where u tok now) (u_complete now')"
  by (auto simp: row_defs u_complete_def)

lemma keeps_complete_session: "keeps_rows (lease_where u tok now) (u_complete_session s now')"
  by (auto simp: row_defs u_complete_session_def u_complete_def)

lemma keeps_release: "keeps_rows (lease_where u tok now) (u_release f)"
  by (auto simp: row_defs u_release_def)

lemma keeps_release_undelivered: "keeps_rows (lease_where u tok now) (u_release_undelivered f)"
  by (auto simp: row_defs u_release_undelivered_def)

lemma keeps_fail: "keeps_rows (lease_where u tok now) (u_fail f now')"
  by (auto simp: row_defs u_fail_def)

lemma keeps_transcription_start:
  "keeps_rows (transcription_where u tok now) (\<lambda>r. r\<lparr>u_tr_started := Some t\<rparr>)"
  by (auto simp: row_defs transcription_where_def)

lemma keeps_save_transcript:
  "text \<noteq> [] \<Longrightarrow> keeps_rows (save_where u tok now) (u_save_transcript text t)"
  by (auto simp: row_defs save_where_def u_save_transcript_def coalesce_def split: option.split)

lemma keeps_dispatch: "keeps_rows P (\<lambda>r. r\<lparr>u_dispatch := t\<rparr>)"
  by (auto simp: row_defs)

lemma keeps_stall: "keeps_rows P (\<lambda>r. r\<lparr>u_stall := t\<rparr>)"
  by (auto simp: row_defs)

section \<open>The database\<close>

definition queues_ok :: "database \<Rightarrow> bool" where
  "queues_ok d \<longleftrightarrow> queue_rows.pk (queues d) \<and> distinct (map q_key (queues d)) \<and>
     (\<forall>q\<in>set (queues d). q_key q \<noteq> [] \<and> (q_key q, q_id q) \<in> set (aliases d) \<and> uuid_of (q_id q) = q_id q)"

definition aliases_ok :: "database \<Rightarrow> bool" where
  "aliases_ok d \<longleftrightarrow> alias_rows.pk (aliases d) \<and>
     (\<forall>a\<in>set (aliases d). \<exists>q\<in>set (queues d). q_id q = snd a)"

definition updates_ok :: "database \<Rightarrow> bool" where
  "updates_ok d \<longleftrightarrow> update_rows.pk (updates d) \<and>
     (\<forall>r\<in>set (updates d). row_ok r \<and> (u_key r, u_queue r) \<in> set (aliases d))"

definition ingress_inv :: "database \<Rightarrow> bool" where
  "ingress_inv d \<longleftrightarrow> queues_ok d \<and> aliases_ok d \<and> updates_ok d"

lemma empty_ingress_inv: "ingress_inv empty_database"
  by (simp add: ingress_inv_def queues_ok_def aliases_ok_def updates_ok_def empty_database_def
      queue_rows.pk_def alias_rows.pk_def update_rows.pk_def)

lemma updates_ok_update:
  assumes "updates_ok d" "\<And>r. same_input (f r) r"
    "\<And>r. r \<in> set (updates d) \<Longrightarrow> P r \<Longrightarrow> row_ok r \<Longrightarrow> row_ok (f r)"
  shows "updates_ok (d\<lparr>updates := update_where P f (updates d)\<rparr>)"
proof -
  have "update_rows.pk (update_where P f (updates d))"
    using assms(1,2) by (intro update_rows.pk_update) (auto simp: updates_ok_def same_input_def)
  moreover have "row_ok r \<and> (u_key r, u_queue r) \<in> set (aliases d)"
    if h: "r \<in> set (update_where P f (updates d))" for r
  proof -
    obtain s where s: "s \<in> set (updates d)" "r = (if P s then f s else s)"
      using h unfolding set_update_where by blast
    then have "same_input r s" using assms(2) by (simp add: same_input_def)
    with s assms(1,3) show ?thesis by (auto simp: updates_ok_def same_input_def)
  qed
  ultimately show ?thesis by (simp add: updates_ok_def)
qed

lemma inv_update_where:
  "ingress_inv d \<Longrightarrow> (\<And>r. same_input (f r) r) \<Longrightarrow>
     (\<And>r. r \<in> set (updates d) \<Longrightarrow> P r \<Longrightarrow> row_ok r \<Longrightarrow> row_ok (f r)) \<Longrightarrow>
     ingress_inv (d\<lparr>updates := update_where P f (updates d)\<rparr>)"
  using updates_ok_update [of d f P] by (simp add: ingress_inv_def queues_ok_def aliases_ok_def)

lemma inv_update:
  "ingress_inv d \<Longrightarrow> keeps_rows P f \<Longrightarrow> ingress_inv (d\<lparr>updates := update_where P f (updates d)\<rparr>)"
  by (rule inv_update_where) (auto simp: keeps_rows_def)

lemma inv_cursors [simp]: "ingress_inv (d\<lparr>cursors := cs\<rparr>) = ingress_inv d"
  by (simp add: ingress_inv_def queues_ok_def aliases_ok_def updates_ok_def)

lemma inv_ignored [simp]: "ingress_inv (d\<lparr>ignored := ig\<rparr>) = ingress_inv d"
  by (simp add: ingress_inv_def queues_ok_def aliases_ok_def updates_ok_def)

lemma inv_interjections [simp]: "ingress_inv (d\<lparr>interjections := is\<rparr>) = ingress_inv d"
  by (simp add: ingress_inv_def queues_ok_def aliases_ok_def updates_ok_def)

lemma inv_delete:
  "ingress_inv d \<Longrightarrow> ingress_inv (d\<lparr>updates := delete_where P (updates d)\<rparr>)"
  by (auto simp: ingress_inv_def queues_ok_def aliases_ok_def updates_ok_def update_rows.pk_delete)
    (auto simp: delete_where_def)

text \<open>The alias of a key, and the queue it names.\<close>

lemma alias_of_iff:
  assumes "aliases_ok d"
  shows "alias_of key d = Some queue \<longleftrightarrow> (key, queue) \<in> set (aliases d)"
proof
  assume "alias_of key d = Some queue"
  then show "(key, queue) \<in> set (aliases d)"
    by (auto simp: alias_of_def dest!: first_row_Some)
next
  assume "(key, queue) \<in> set (aliases d)"
  with assms have "first_row (\<lambda>a. fst a = fst (key, queue)) (aliases d) = Some (key, queue)"
    by (intro alias_rows.pk_first_row) (simp_all add: aliases_ok_def)
  then show "alias_of key d = Some queue" by (simp add: alias_of_def)
qed

lemma alias_of_None_iff: "alias_of key d = None \<longleftrightarrow> key \<notin> fst ` set (aliases d)"
  by (auto simp: alias_of_def first_row_None_iff)

section \<open>Every operation keeps the invariant\<close>

lemma inv_accept_media: "ingress_inv d \<Longrightarrow> ingress_inv (snd (accept_media input d))"
  by (auto simp: accept_media_def when_valid_def run_tx_def accept_media_body_def insert_ignored_media_def
      Let_def split: sum.split)

lemma inv_with_active_lease:
  "ingress_inv d \<Longrightarrow> keeps_rows (lease_where u tok now) f \<Longrightarrow>
     ingress_inv (snd (with_active_lease u tok now f d))"
  by (auto simp: with_active_lease_def when_valid_def Let_def inv_update split: sum.split)

lemma inv_release_stale: "ingress_inv d \<Longrightarrow> ingress_inv (snd (release_stale_leases now d))"
  by (auto simp: release_stale_leases_def Let_def intro!: inv_update keeps_expire)

lemma inv_renew: "ingress_inv d \<Longrightarrow> ingress_inv (snd (renew_lease u tok ms now d))"
  by (simp add: snd_renew_lease inv_with_active_lease keeps_renew split: sum.split)

lemma inv_complete: "ingress_inv d \<Longrightarrow> ingress_inv (snd (complete u tok now d))"
  by (simp add: complete_def inv_with_active_lease keeps_complete)

lemma inv_release: "ingress_inv d \<Longrightarrow> ingress_inv (snd (release u tok f now d))"
  by (simp add: release_def when_valid_def inv_with_active_lease keeps_release split: sum.split)

lemma inv_release_undelivered: "ingress_inv d \<Longrightarrow> ingress_inv (snd (release_undelivered u tok f now d))"
  by (simp add: release_undelivered_def when_valid_def inv_with_active_lease keeps_release_undelivered
      split: sum.split)

lemma inv_fail: "ingress_inv d \<Longrightarrow> ingress_inv (snd (fail_update u tok f now d))"
  by (simp add: fail_update_def when_valid_def inv_with_active_lease keeps_fail split: sum.split)

lemma inv_begin_transcription:
  "ingress_inv d \<Longrightarrow> ingress_inv (snd (begin_voice_transcription u tok now later d))"
  by (auto simp: begin_voice_transcription_def when_valid_def Let_def inv_update keeps_transcription_start
      split: sum.split option.split)

lemma inv_save_transcript:
  "ingress_inv d \<Longrightarrow> ingress_inv (snd (save_voice_transcript u tok text now d))"
  by (auto simp: save_voice_transcript_def when_valid_def Let_def require_non_empty_Inr res_bind_Inr_iff
      js_trim_nonempty intro!: inv_update keeps_save_transcript split: sum.split option.split)

lemma inv_begin_dispatch: "ingress_inv d \<Longrightarrow> ingress_inv (snd (begin_dispatch u tok now later d))"
  by (auto simp: begin_dispatch_def when_valid_def Let_def inv_update keeps_dispatch split: sum.split)

lemma inv_complete_with_session:
  "ingress_inv d \<Longrightarrow> ingress_inv (snd (complete_with_session u tok s next now d))"
  using inv_update [OF _ keeps_complete_session, of d u tok now s now]
  by (auto simp: complete_with_session_def when_valid_def run_tx_def complete_with_session_body_def Let_def
      split: sum.split option.split)

lemma inv_claim_stalled: "ingress_inv d \<Longrightarrow> ingress_inv (snd (claim_stalled_ingress n now d))"
  by (simp add: claim_stalled_ingress_def inv_update keeps_stall)

lemma inv_release_stalled: "ingress_inv d \<Longrightarrow> ingress_inv (release_stalled_ingress u d)"
  by (simp add: release_stalled_ingress_def inv_update keeps_stall)

lemma inv_purge: "ingress_inv d \<Longrightarrow> ingress_inv (snd (purge_completed_telegram_updates locked n now d))"
  using inv_delete [of d "\<lambda>r. u_id r \<in> u_id ` set (select_ordered (purge_where locked now)
    (\<lambda>r. the (u_completed r)) n (updates d))"]
  by (simp add: purge_completed_telegram_updates_def Let_def)

lemma pk_same: "ingress_inv d \<Longrightarrow> r \<in> set (updates d) \<Longrightarrow> r' \<in> set (updates d) \<Longrightarrow> u_id r = u_id r' \<Longrightarrow> r = r'"
  by (auto simp: ingress_inv_def updates_ok_def intro: update_rows.pk_unique)

lemma inv_claim_next: "ingress_inv d \<Longrightarrow> ingress_inv (snd (claim_next ms burst locked tok now d))"
proof -
  assume inv: "ingress_inv d"
  have "ingress_inv (d\<lparr>updates := update_where (\<lambda>r'. u_id r' = u_id r) (u_acquire tok till) (updates d)\<rparr>)"
    if "select_ordered (claim_candidate locked q w now d) u_id 1 (updates d) = r # rs" for r rs q w till
  proof -
    have r: "r \<in> set (updates d)" "claimable now r"
      using set_select_ordered [of r "claim_candidate locked q w now d" u_id 1 "updates d"] that
      by (auto simp: claim_candidate_def)
    show ?thesis
      using inv r by (intro inv_update_where) (auto dest: pk_same intro: acquire_ok)
  qed
  with inv show ?thesis
    by (auto simp: claim_next_def when_valid_def Let_def split: sum.split list.split option.split)
qed

lemma inv_claim_following:
  "ingress_inv d \<Longrightarrow> ingress_inv (snd (claim_following accept input toks now d))"
  by (auto simp: claim_following_def when_valid_def run_tx_def claim_following_body_def Let_def
      intro!: inv_update_where acquire_ok [of now] split: sum.split)
    (auto simp: same_input_def u_acquire_def claimable_def)

section \<open>Queues and aliases\<close>

lemma insert_queue_Inr:
  "insert_queue q d = Inr d' \<Longrightarrow>
     d' = d\<lparr>queues := queues d @ [q]\<rparr> \<and> q_key q \<noteq> [] \<and>
     (\<forall>q'\<in>set (queues d). q_id q' \<noteq> q_id q \<and> q_key q' \<noteq> q_key q)"
  by (auto simp: insert_queue_def split: if_splits)

lemma insert_alias_Inr:
  "insert_alias key queue d = Inr d' \<Longrightarrow>
     d' = d\<lparr>aliases := aliases d @ [(key, queue)]\<rparr> \<and> key \<noteq> [] \<and> key \<notin> fst ` set (aliases d) \<and>
     (\<exists>q\<in>set (queues d). q_id q = queue)"
  by (auto simp: insert_alias_def split: if_splits)

lemma inv_insert_alias:
  "ingress_inv d \<Longrightarrow> insert_alias key queue d = Inr d' \<Longrightarrow> ingress_inv d'"
  by (auto dest!: insert_alias_Inr simp: ingress_inv_def queues_ok_def aliases_ok_def updates_ok_def
      intro!: alias_rows.pk_insert) (force intro: alias_rows.pk_insert)+

text \<open>The queue of a key the database has not seen, together with its first alias.\<close>

lemma inv_insert_queue_alias:
  assumes "ingress_inv d" "insert_queue \<lparr>q_id = uuid, q_key = key\<rparr> d = Inr d1" "insert_alias key uuid d1 = Inr d2"
    "uuid_of uuid = uuid"
  shows "ingress_inv d2"
proof -
  define q where "q = \<lparr>q_id = uuid, q_key = key\<rparr>"
  have d2: "d2 = d\<lparr>queues := queues d @ [q], aliases := aliases d @ [(key, uuid)]\<rparr>"
    and key: "key \<noteq> []" "\<And>a. a \<in> set (aliases d) \<Longrightarrow> fst a \<noteq> key"
    and fresh: "\<And>q'. q' \<in> set (queues d) \<Longrightarrow> q_id q' \<noteq> uuid \<and> q_key q' \<noteq> key"
    using insert_queue_Inr [OF assms(2)] insert_alias_Inr [OF assms(3)] by (auto simp: q_def)
  have "queue_rows.pk (queues d @ [q])" "alias_rows.pk (aliases d @ [(key, uuid)])"
    using assms(1) key(2) fresh unfolding ingress_inv_def queues_ok_def aliases_ok_def
    by (auto simp: q_def intro!: queue_rows.pk_insert alias_rows.pk_insert)
  moreover have "distinct (map q_key (queues d @ [q]))"
    using assms(1) fresh by (auto simp: q_def ingress_inv_def queues_ok_def)
  ultimately show ?thesis
    using assms(1,4) key(1) unfolding d2 ingress_inv_def queues_ok_def aliases_ok_def updates_ok_def
    by (auto simp: q_def)
qed

lemma ensure_queue_frame:
  "ensure_queue uuid key d = Inr (queue, d') \<Longrightarrow> updates d' = updates d \<and> ignored d' = ignored d"
  by (auto simp: ensure_queue_def Let_def res_bind_Inr_iff dest!: insert_queue_Inr insert_alias_Inr split: option.splits)

lemma ensure_queue_Inr:
  assumes "ingress_inv d" "ensure_queue uuid key d = Inr (queue, d')"
  shows "ingress_inv d' \<and> (key, queue) \<in> set (aliases d')"
proof (cases "alias_of key d")
  case None
  with assms(2) obtain d1 where "insert_queue \<lparr>q_id = uuid_of uuid, q_key = key\<rparr> d = Inr d1"
    "insert_alias key (uuid_of uuid) d1 = Inr d'" "queue = uuid_of uuid"
    by (auto simp: ensure_queue_def Let_def res_bind_Inr_iff)
  then show ?thesis
    using inv_insert_queue_alias [OF assms(1)] insert_alias_Inr by fastforce
next
  case (Some q)
  with assms show ?thesis by (auto simp: ensure_queue_def ingress_inv_def alias_of_iff)
qed

lemma validate_enqueue_Inr:
  "validate_enqueue_input input = Inr () \<Longrightarrow>
     0 \<le> decimal_value (e_update input) \<and> decimal_value (e_update input) \<le> postgres_bigint_max \<and> e_key input \<noteq> [] \<and>
     (case e_voice input of None \<Rightarrow> True
      | Some v \<Rightarrow> (case v_size v of None \<Rightarrow> True | Some n \<Rightarrow> 0 < number_value n))"
  by (auto simp: validate_enqueue_input_def res_bind_Inr_iff require_non_empty_Inr validate_voice_def
      dest!: require_update_id_Inr js_trim_nonempty split: if_splits option.splits)

lemma row_ok_new_update:
  "validate_enqueue_input input = Inr () \<Longrightarrow> is_record (e_payload input) \<Longrightarrow> row_ok (new_update input queue now)"
  by (auto dest!: validate_enqueue_Inr simp: row_defs new_update_def voice_columns_def split: option.splits)

lemma inv_store_update:
  assumes "ingress_inv d" "(e_key input, queue) \<in> set (aliases d)" "validate_enqueue_input input = Inr ()"
  shows "ingress_inv (snd (end_tx (store_update input queue now d) d0)) \<or>
    snd (end_tx (store_update input queue now d) d0) = d0"
proof (cases "first_row (\<lambda>r. u_id r = decimal_value (e_update input)) (updates d)")
  case (Some r)
  with assms show ?thesis by (simp add: store_update_def)
next
  case None
  define r where "r = new_update input queue now"
  have new: "u_id r = decimal_value (e_update input)" "u_key r = e_key input" "u_queue r = queue"
    by (simp_all add: r_def new_update_def)
  show ?thesis
  proof (cases "is_record (e_payload input)")
    case True
    then have "row_ok r" using assms(3) by (simp add: r_def row_ok_new_update)
    moreover have "update_rows.pk (updates d @ [r])"
      using assms(1) None new by (intro update_rows.pk_insert)
        (auto simp: ingress_inv_def updates_ok_def first_row_None_iff)
    ultimately have "ingress_inv (d\<lparr>updates := updates d @ [r]\<rparr>)"
      using assms(1,2) new by (auto simp: ingress_inv_def queues_ok_def aliases_ok_def updates_ok_def)
    with None True show ?thesis by (simp add: store_update_def r_def)
  qed (simp add: store_update_def)
qed

lemma inv_enqueue: "ingress_inv d \<Longrightarrow> ingress_inv (snd (enqueue uuid input now d))"
proof (cases "validate_enqueue_input input")
  case (Inr u)
  assume inv: "ingress_inv d"
  show ?thesis
  proof (cases "ensure_queue uuid (e_key input) d")
    case (Inr qd)
    obtain queue d' where qd: "qd = (queue, d')" by fastforce
    with Inr inv have "ingress_inv d'" "(e_key input, queue) \<in> set (aliases d')"
      using ensure_queue_Inr by blast+
    then show ?thesis
      using inv_store_update [of d' input queue now d] inv \<open>validate_enqueue_input input = Inr u\<close> Inr qd
      by (auto simp: enqueue_def run_tx_def enqueue_body_def)
  qed (use inv Inr in \<open>simp add: enqueue_def run_tx_def enqueue_body_def\<close>)
qed (simp add: enqueue_def)

lemma rekey_body_cases:
  assumes "rekey_body input d = Commit u d'"
  obtains q d1 where "first_row (\<lambda>q. q_id q = uuid_of (rk_queue input)) (queues d) = Some q"
    "alias_of (rk_previous input) d = Some (rk_queue input)"
    "q_key q = rk_previous input \<or> q_key q = rk_next input"
    "if alias_of (rk_next input) d = None then insert_alias (rk_next input) (uuid_of (rk_queue input)) d = Inr d1
     else alias_of (rk_next input) d = Some (rk_queue input) \<and> d1 = d"
    "\<forall>q'\<in>set (queues d1). q_id q' \<noteq> uuid_of (rk_queue input) \<longrightarrow> q_key q' \<noteq> rk_next input"
    "d' = d1\<lparr>queues := update_where (\<lambda>q'. q_id q' = uuid_of (rk_queue input))
       (\<lambda>q'. q'\<lparr>q_key := rk_next input\<rparr>) (queues d1)\<rparr>"
  using assms by (auto simp: rekey_body_def Let_def split: option.splits sum.splits if_splits)

lemma inv_rename_queue:
  assumes "ingress_inv d" "(key, qid) \<in> set (aliases d)" "key \<noteq> []"
    and other: "\<And>q. q \<in> set (queues d) \<Longrightarrow> q_id q \<noteq> qid \<Longrightarrow> q_key q \<noteq> key"
  shows "ingress_inv (d\<lparr>queues := update_where (\<lambda>q. q_id q = qid) (\<lambda>q. q\<lparr>q_key := key\<rparr>) (queues d)\<rparr>)"
proof -
  define qs where "qs = update_where (\<lambda>q. q_id q = qid) (\<lambda>q. q\<lparr>q_key := key\<rparr>) (queues d)"
  have qs: "\<exists>q0\<in>set (queues d). q_id q0 = q_id q \<and> q_key q = (if q_id q = qid then key else q_key q0)"
    if h: "q \<in> set qs" for q
  proof -
    obtain q0 where "q0 \<in> set (queues d)" "q = (if q_id q0 = qid then q0\<lparr>q_key := key\<rparr> else q0)"
      using h unfolding qs_def set_update_where by blast
    then show ?thesis by (intro bexI [of _ q0]) simp_all
  qed
  have ids: "queue_rows.pk qs"
    using assms(1) unfolding qs_def ingress_inv_def queues_ok_def by (intro queue_rows.pk_update) auto
  have "inj_on q_key (set qs)"
  proof (rule inj_onI)
    fix q q' assume q: "q \<in> set qs" "q' \<in> set qs" "q_key q = q_key q'"
    obtain r r' where r: "r \<in> set (queues d)" "r' \<in> set (queues d)" "q_id r = q_id q" "q_id r' = q_id q'"
      "q_key q = (if q_id q = qid then key else q_key r)" "q_key q' = (if q_id q' = qid then key else q_key r')"
      using qs [OF q(1)] qs [OF q(2)] by blast
    have "r = r'" if "q_key r = q_key r'"
      using assms(1) r(1,2) that by (auto simp: ingress_inv_def queues_ok_def distinct_map inj_on_def)
    then have "q_id q = q_id q'"
      using r q(3) other by (metis (no_types))
    then show "q = q'" using ids q(1,2) by (blast intro: queue_rows.pk_unique)
  qed
  then have "distinct (map q_key qs)"
    using ids by (simp add: distinct_map queue_rows.pk_def)
  moreover have "q_key q \<noteq> [] \<and> (q_key q, q_id q) \<in> set (aliases d) \<and> uuid_of (q_id q) = q_id q" if "q \<in> set qs" for q
    using qs [OF that] assms(1-3) by (force simp: ingress_inv_def queues_ok_def split: if_splits)
  moreover have "\<exists>q\<in>set qs. q_id q = snd a" if a: "a \<in> set (aliases d)" for a
  proof -
    obtain q where "q \<in> set (queues d)" "q_id q = snd a"
      using assms(1) a by (auto simp: ingress_inv_def aliases_ok_def)
    have "(if q_id q = qid then q\<lparr>q_key := key\<rparr> else q) \<in> set qs"
      using \<open>q \<in> set (queues d)\<close> unfolding qs_def set_update_where by (rule imageI)
    with \<open>q_id q = snd a\<close> show ?thesis
      by (intro bexI [of _ "if q_id q = qid then q\<lparr>q_key := key\<rparr> else q"]) auto
  qed
  ultimately show ?thesis
    using assms(1) ids by (simp add: ingress_inv_def queues_ok_def aliases_ok_def updates_ok_def qs_def)
qed

lemma alias_target_canonical:
  "ingress_inv d \<Longrightarrow> alias_of key d = Some queue \<Longrightarrow> uuid_of queue = queue"
  by (force simp: ingress_inv_def alias_of_iff queues_ok_def aliases_ok_def)

lemma inv_rekey_body:
  assumes "ingress_inv d" "rekey_body input d = Commit u d'" "rk_next input \<noteq> []"
  shows "ingress_inv d'"
  using assms(2)
proof (cases rule: rekey_body_cases)
  case (1 q d1)
  let ?id = "uuid_of (rk_queue input)"
  have id: "?id = rk_queue input" using assms(1) 1(2) by (rule alias_target_canonical)
  have "ingress_inv d1 \<and> (rk_next input, ?id) \<in> set (aliases d1)"
  proof (cases "alias_of (rk_next input) d")
    case None
    with 1(4) have "insert_alias (rk_next input) ?id d = Inr d1" by simp
    then show ?thesis using assms(1) inv_insert_alias [of d] insert_alias_Inr by fastforce
  next
    case (Some queue)
    with 1(4) assms(1) show ?thesis by (auto simp: id ingress_inv_def alias_of_iff)
  qed
  then show ?thesis
    using assms(3) 1(5) unfolding 1(6) by (intro inv_rename_queue) auto
qed

lemma inv_rekey: "ingress_inv d \<Longrightarrow> ingress_inv (snd (rekey_queue input d))"
  by (cases "rekey_body input d")
    (auto simp: rekey_queue_def when_valid_def run_tx_def res_bind_Inr_iff require_non_empty_Inr
      intro: inv_rekey_body dest: js_trim_nonempty split: sum.split)

end
