(* ===== verification/Interjections.thy ===== *)
theory Interjections
  imports Ingress_Processing
begin

text \<open>
  agent/lib/turn-interjection/turn-interjection-repository.ts: messages shown to a running turn before
  their own ordinary processing. A row of \<open>telegram_turn_interjections\<close> is claimed for one tool call,
  returned with its result, and delivered once a later model step starts; otherwise it is freed.
\<close>

section \<open>Coordinates\<close>

record show_coordinate =
  sc_eve :: string
  sc_turn :: string
  sc_call :: string

definition require_coordinate :: "show_coordinate \<Rightarrow> unit result" where
  "require_coordinate c =
     res_bind (require_non_empty (sc_eve c) ''AGENT_TURN_INTERJECTION_SESSION_INVALID'') (\<lambda>_.
     res_bind (require_non_empty (sc_turn c) ''AGENT_TURN_INTERJECTION_TURN_INVALID'') (\<lambda>_.
     res_bind (require_non_empty (sc_call c) ''AGENT_TURN_INTERJECTION_CALL_INVALID'') (\<lambda>_. Inr ())))"

definition require_application_session_id :: "string \<Rightarrow> string result" where
  "require_application_session_id value = require_uuid value ''AGENT_TURN_INTERJECTION_CONTEXT_INVALID''"

fun require_update_ids :: "string list \<Rightarrow> unit result" where
  "require_update_ids [] = Inr ()"
| "require_update_ids (u # us) = res_bind (require_update_id u) (\<lambda>_. require_update_ids us)"

definition of_turn :: "string \<Rightarrow> string \<Rightarrow> interjection \<Rightarrow> bool" where
  "of_turn eve turn i \<longleftrightarrow> i_eve i = eve \<and> i_turn i = turn"

definition of_call :: "show_coordinate \<Rightarrow> interjection \<Rightarrow> bool" where
  "of_call c i \<longleftrightarrow> of_turn (sc_eve c) (sc_turn c) i \<and> i_call i = sc_call c"

section \<open>Candidates\<close>

record voice_file =
  vf_id :: string
  vf_size :: "int option"
  vf_mime :: "string option"

record interjection_candidate =
  ic_album :: nat
  ic_payload :: json
  ic_update :: string
  ic_voice :: "voice_file option"
  ic_transcript :: "string option"

record candidate_query =
  cq_coordinate :: show_coordinate
  cq_after :: "string option"
  cq_current :: string
  cq_limit :: nat
  cq_user :: string

text \<open>\<open>->>\<close>: the text of a member; a Telegram id is a whole number, a fraction never reads like one.\<close>

definition int_text :: "int \<Rightarrow> string" where
  "int_text n = (if n < 0 then CHR ''-'' # nat_text (nat (- n)) else nat_text (nat n))"

definition sender_is :: "string \<Rightarrow> json \<Rightarrow> bool" where
  "sender_is user payload \<longleftrightarrow>
     (case json_path [''message'', ''from'', ''id''] payload of
        Some (JNum n) \<Rightarrow> snd (quotient_of n) = 1 \<and> int_text (fst (quotient_of n)) = user
      | Some (JStr s) \<Rightarrow> s = user
      | Some (JBool b) \<Rightarrow> (if b then ''true'' else ''false'') = user
      | _ \<Rightarrow> False)"

text \<open>The claim of this message, if any, belongs to this call and has not reached the model.\<close>

definition free_for :: "show_coordinate \<Rightarrow> int \<Rightarrow> database \<Rightarrow> bool" where
  "free_for c uid d \<longleftrightarrow>
     (case first_row (\<lambda>i. i_update i = uid) (interjections d) of
        None \<Rightarrow> True
      | Some i \<Rightarrow> of_call c i \<and> i_delivered i = None)"

definition candidate_where :: "candidate_query \<Rightarrow> int \<Rightarrow> ingress_update \<Rightarrow> database \<Rightarrow> ingress_update \<Rightarrow> bool" where
  "candidate_where q after current d r \<longleftrightarrow>
     u_queue r = u_queue current \<and> max (u_id current) after < u_id r \<and> u_status r = IPending \<and>
     has_key (u_payload r) ''message'' \<and> sender_is (cq_user q) (u_payload r) \<and>
     free_for (cq_coordinate q) (u_id r) d"

definition to_candidate :: "ingress_update \<Rightarrow> interjection_candidate" where
  "to_candidate r =
     \<lparr>ic_album = 0, ic_payload = u_payload r, ic_update = int_text (u_id r),
      ic_voice = map_option (\<lambda>f. \<lparr>vf_id = f, vf_size = u_voice_size r, vf_mime = u_voice_mime r\<rparr>) (u_voice_file r),
      ic_transcript = u_transcript r\<rparr>"

definition list_candidates :: "candidate_query \<Rightarrow> database \<Rightarrow> interjection_candidate list result" where
  "list_candidates q d =
     res_bind (require_coordinate (cq_coordinate q)) (\<lambda>_.
     res_bind (require_non_empty (cq_user q) ''AGENT_TURN_INTERJECTION_ACTOR_INVALID'') (\<lambda>_.
     res_bind (require_update_id (cq_current q)) (\<lambda>current.
     res_bind (require_update_id (case cq_after q of None \<Rightarrow> cq_current q | Some a \<Rightarrow> a)) (\<lambda>after.
       case first_row (\<lambda>r. u_id r = decimal_value current) (updates d) of
         None \<Rightarrow> Inr []
       | Some c \<Rightarrow> Inr (map to_candidate
           (select_ordered (candidate_where q (decimal_value after) c d) u_id (cq_limit q) (updates d)))))))"

section \<open>Claims\<close>

definition new_interjection :: "show_coordinate \<Rightarrow> string \<Rightarrow> content_kind \<Rightarrow> int \<Rightarrow> interjection" where
  "new_interjection c app kind uid =
     \<lparr>i_update = uid, i_session = uuid_of app, i_eve = sc_eve c, i_turn = sc_turn c, i_call = sc_call c, i_kind = kind,
      i_returned = None, i_step = None, i_delivered = None\<rparr>"

text \<open>
  The \<open>INSERT ... ON CONFLICT\<close>, one joined row after the other; \<open>ids\<close> are those written so far, none
  of which the statement may meet again.
\<close>

fun insert_claims ::
  "show_coordinate \<Rightarrow> string \<Rightarrow> (content_kind \<times> int) list \<Rightarrow> int list \<Rightarrow> database \<Rightarrow> (int list \<times> database) result" where
  "insert_claims c app [] ids d = Inr (ids, d)"
| "insert_claims c app ((kind, uid) # ms) ids d =
     (if \<not> exists_row (\<lambda>r. u_id r = uid \<and> u_status r = IPending) (updates d) then insert_claims c app ms ids d
      else case first_row (\<lambda>i. i_update i = uid) (interjections d) of
        None \<Rightarrow>
          if \<not> exists_row (\<lambda>s. s_id s = uuid_of app) (sessions d) then Inl (PgError ''23503'')
          else insert_claims c app ms (ids @ [uid]) (d\<lparr>interjections := interjections d @ [new_interjection c app kind uid]\<rparr>)
      | Some i \<Rightarrow>
          if uid \<in> set ids then Inl (PgError ''21000'')
          else if of_call c i \<and> i_delivered i = None
          then insert_claims c app ms (ids @ [uid])
            (d\<lparr>interjections := update_where (\<lambda>i. i_update i = uid \<and> of_call c i \<and> i_delivered i = None)
                 (\<lambda>i. i\<lparr>i_kind := kind, i_returned := None\<rparr>) (interjections d)\<rparr>)
          else insert_claims c app ms ids d)"

definition claim_body ::
  "show_coordinate \<Rightarrow> string \<Rightarrow> (content_kind \<times> string) list \<Rightarrow> database \<Rightarrow> (string set, database) tx" where
  "claim_body c app messages d =
     (case insert_claims c app (map (\<lambda>m. (fst m, decimal_value (snd m))) messages) [] d of
        Inl e \<Rightarrow> Throw e
      | Inr (ids, d') \<Rightarrow> Commit (int_text ` set ids) d')"

definition claim ::
  "show_coordinate \<Rightarrow> string \<Rightarrow> (content_kind \<times> string) list \<Rightarrow> database \<Rightarrow> string set result \<times> database" where
  "claim c app messages =
     when_valid (require_coordinate c) (\<lambda>_.
       if messages = [] then (\<lambda>d. (Inr {}, d))
       else when_valid
         (res_bind (require_update_ids (map snd messages)) (\<lambda>_. require_application_session_id app))
         (\<lambda>app. run_tx (claim_body c app messages)))"

section \<open>Return, release\<close>

definition step_of :: "string \<Rightarrow> string \<Rightarrow> database \<Rightarrow> int option" where
  "step_of eve turn d = map_option ts_index (first_row (\<lambda>s. ts_eve s = eve \<and> ts_turn s = turn) (turn_steps d))"

definition returned_interjection :: "time \<Rightarrow> database \<Rightarrow> interjection \<Rightarrow> interjection" where
  "returned_interjection now d i =
     i\<lparr>i_returned := Some (coalesce (i_returned i) now),
       i_step := (case i_step i of None \<Rightarrow> step_of (i_eve i) (i_turn i) d | Some s \<Rightarrow> Some s)\<rparr>"

definition mark_returned :: "show_coordinate \<Rightarrow> string list \<Rightarrow> time \<Rightarrow> database \<Rightarrow> unit result \<times> database" where
  "mark_returned c ids now =
     when_valid (res_bind (require_coordinate c) (\<lambda>_. require_update_ids ids)) (\<lambda>_ d.
       (Inr (), d\<lparr>interjections := update_where (\<lambda>i. i_update i \<in> set (map decimal_value ids) \<and> of_call c i)
          (returned_interjection now d) (interjections d)\<rparr>))"

definition release_call :: "show_coordinate \<Rightarrow> database \<Rightarrow> unit result \<times> database" where
  "release_call c =
     when_valid (require_coordinate c) (\<lambda>_ d.
       (Inr (), d\<lparr>interjections := delete_where (\<lambda>i. of_call c i \<and> i_delivered i = None) (interjections d)\<rparr>))"

section \<open>Model steps and the end of a turn\<close>

definition record_step :: "string \<Rightarrow> string \<Rightarrow> int \<Rightarrow> time \<Rightarrow> database \<Rightarrow> database" where
  "record_step eve turn index now d =
     (let mine = (\<lambda>s. ts_eve s = eve \<and> ts_turn s = turn)
      in d\<lparr>turn_steps := if exists_row mine (turn_steps d)
             then update_where mine (\<lambda>s. s\<lparr>ts_index := index, ts_started := now\<rparr>) (turn_steps d)
             else turn_steps d @ [\<lparr>ts_eve = eve, ts_turn = turn, ts_index = index, ts_started = now\<rparr>]\<rparr>)"

text \<open>\<open>returned_at IS NOT NULL AND delivered_at IS NULL AND returned_step < step\<close>\<close>

definition seen_before :: "string \<Rightarrow> string \<Rightarrow> int \<Rightarrow> interjection \<Rightarrow> bool" where
  "seen_before eve turn step i \<longleftrightarrow>
     of_turn eve turn i \<and> i_returned i \<noteq> None \<and> i_delivered i = None \<and>
     (case i_step i of None \<Rightarrow> False | Some s \<Rightarrow> s < step)"

definition delivered_interjection :: "time \<Rightarrow> interjection \<Rightarrow> interjection" where
  "delivered_interjection now i = i\<lparr>i_delivered := Some now\<rparr>"

definition discarded :: "string \<Rightarrow> string \<Rightarrow> int \<Rightarrow> interjection \<Rightarrow> bool" where
  "discarded eve turn step i \<longleftrightarrow>
     of_turn eve turn i \<and> i_delivered i = None \<and>
     (i_returned i = None \<or> (case i_step i of None \<Rightarrow> True | Some s \<Rightarrow> step \<le> s))"

definition step_started_body :: "string \<Rightarrow> string \<Rightarrow> int \<Rightarrow> time \<Rightarrow> database \<Rightarrow> (nat, database) tx" where
  "step_started_body eve turn index now d =
     (if 2147483647 < index then Throw (PgError ''22003'')
      else (let d1 = record_step eve turn index now d;
                seen = seen_before eve turn index;
                rows = update_where seen (delivered_interjection now) (interjections d1)
            in Commit (row_count seen (interjections d1))
                 (d1\<lparr>interjections := delete_where (discarded eve turn index) rows\<rparr>)))"

definition step_started :: "string \<Rightarrow> string \<Rightarrow> js_number \<Rightarrow> time \<Rightarrow> database \<Rightarrow> nat result \<times> database" where
  "step_started eve turn index now =
     when_valid
       (res_bind (require_non_empty eve ''AGENT_TURN_INTERJECTION_SESSION_INVALID'') (\<lambda>_.
        res_bind (require_non_empty turn ''AGENT_TURN_INTERJECTION_TURN_INVALID'') (\<lambda>_.
        if \<not> is_integer index \<or> number_value index < 0 then Inl (AppError ''AGENT_TURN_INTERJECTION_STEP_INVALID'')
        else Inr ())))
       (\<lambda>_. run_tx (step_started_body eve turn (number_value index) now))"

definition two_days :: int where "two_days = 2 * 86400 * 1000000"

text \<open>One statement: every part of the \<open>WITH\<close> reads the rows as they were before it.\<close>

definition finish_turn :: "string \<Rightarrow> string \<Rightarrow> time \<Rightarrow> database \<Rightarrow> nat \<times> database" where
  "finish_turn eve turn now d =
     (let seen = (\<lambda>i. case step_of eve turn d of None \<Rightarrow> False | Some step \<Rightarrow> seen_before eve turn step i);
          freed = (\<lambda>i. of_turn eve turn i \<and> i_delivered i = None \<and> \<not> seen i)
      in (row_count seen (interjections d),
          d\<lparr>interjections := update_where seen (delivered_interjection now) (delete_where freed (interjections d)),
            turn_steps := delete_where (\<lambda>s. ts_eve s = eve \<and> ts_turn s = turn \<or> ts_started s < now - two_days)
              (turn_steps d)\<rparr>))"

section \<open>Early transcription\<close>

datatype early_transcription = Early_started | Early_transcribed string | Early_unavailable

definition early_where :: "string \<Rightarrow> ingress_update \<Rightarrow> bool" where
  "early_where update_id r \<longleftrightarrow>
     u_id r = decimal_value update_id \<and> u_status r = IPending \<and> u_voice_file r \<noteq> None \<and> u_tr_started r = None"

definition begin_early_voice_transcription :: "string \<Rightarrow> time \<Rightarrow> database \<Rightarrow> early_transcription result \<times> database" where
  "begin_early_voice_transcription update_id now =
     when_valid (require_update_id update_id) (\<lambda>_ d.
       (let hit = early_where update_id;
            d' = d\<lparr>updates := update_where hit (\<lambda>r. r\<lparr>u_tr_started := Some now\<rparr>) (updates d)\<rparr>
        in if row_count hit (updates d) = 1 then (Inr Early_started, d')
           else (case first_row (\<lambda>r. u_id r = decimal_value update_id) (updates d') of
                   None \<Rightarrow> (Inr Early_unavailable, d')
                 | Some r \<Rightarrow>
                     (case u_transcript r of
                        Some t \<Rightarrow> if t \<noteq> [] then (Inr (Early_transcribed t), d') else (Inr Early_unavailable, d')
                      | None \<Rightarrow> (Inr Early_unavailable, d')))))"

definition early_save_where :: "string \<Rightarrow> ingress_update \<Rightarrow> bool" where
  "early_save_where update_id r \<longleftrightarrow>
     u_id r = decimal_value update_id \<and> u_status r = IPending \<and> u_voice_file r \<noteq> None \<and> u_tr_started r \<noteq> None"

definition save_early_voice_transcript ::
  "string \<Rightarrow> string \<Rightarrow> time \<Rightarrow> database \<Rightarrow> string option result \<times> database" where
  "save_early_voice_transcript update_id transcript now =
     (let text = js_trim transcript in
      when_valid
        (res_bind (require_non_empty text ''AGENT_VOICE_TRANSCRIPT_EMPTY'') (\<lambda>_. require_update_id update_id))
        (\<lambda>_ d.
          (let hit = early_save_where update_id
           in (Inr (map_option (\<lambda>r. coalesce (u_transcript r) text) (first_row hit (updates d))),
               d\<lparr>updates := update_where hit (u_save_transcript text now) (updates d)\<rparr>))))"

section \<open>Lookups\<close>

definition route_session_id :: "string \<Rightarrow> database \<Rightarrow> string option" where
  "route_session_id token d =
     map_option snd (first_row (\<lambda>r. fst r = token \<and>
       exists_row (\<lambda>s. s_id s = snd r \<and> s_retired s = None) (sessions d)) (routes d))"

definition is_reply_to_pending_confirmation :: "string \<Rightarrow> string \<Rightarrow> string \<Rightarrow> database \<Rightarrow> bool result" where
  "is_reply_to_pending_confirmation reply_message token chat d =
     res_bind (require_update_id reply_message) (\<lambda>_. Inr (
       exists_row (\<lambda>a. a_chat a = chat \<and> a_message a = decimal_value reply_message) (approvals d) \<or>
       exists_row (\<lambda>r. fst r = token \<and> exists_row (\<lambda>s. s_id s = snd r \<and> s_pending s) (sessions d)) (routes d)))"

definition delivered_to :: "string \<Rightarrow> interjection \<Rightarrow> bool" where
  "delivered_to app i \<longleftrightarrow> i_session i = uuid_of app \<and> i_delivered i \<noteq> None"

definition find_delivered_content_kinds ::
  "string list \<Rightarrow> string \<Rightarrow> database \<Rightarrow> (string \<times> content_kind) list result" where
  "find_delivered_content_kinds ids app d =
     (if ids = [] then Inr []
      else res_bind (require_update_ids ids) (\<lambda>_. res_bind (require_application_session_id app) (\<lambda>app.
        Inr (map (\<lambda>i. (int_text (i_update i), i_kind i))
          (filter (\<lambda>i. i_update i \<in> set (map decimal_value ids) \<and> delivered_to app i) (interjections d))))))"

definition find_delivered_content_kind :: "string \<Rightarrow> string \<Rightarrow> database \<Rightarrow> content_kind option result" where
  "find_delivered_content_kind update_id app d =
     res_bind (require_update_id update_id) (\<lambda>_. res_bind (require_application_session_id app) (\<lambda>app.
       Inr (map_option i_kind
         (first_row (\<lambda>i. i_update i = decimal_value update_id \<and> delivered_to app i) (interjections d)))))"

end
