(* ===== verification/Ingress_Run.thy ===== *)
theory Ingress_Run
  imports Ingress_Invariant Interjections
begin

text \<open>
  The ingress as a state machine: every operation of the repository is a step, in any order and
  with any arguments, and every other component may change its own tables in between. What holds
  along every run is what concurrent workers, retries of Telegram and restarts can rely on.
\<close>

section \<open>Runs\<close>

datatype ingress_op =
    Op_accept_media media_input
  | Op_enqueue string enqueue_input
  | Op_claim_next js_number burst_policy "int \<Rightarrow> bool" string
  | Op_claim_following "json \<Rightarrow> bool" following_input "int \<Rightarrow> string"
  | Op_release_stale
  | Op_renew string string js_number
  | Op_complete string string
  | Op_complete_session string string string js_number
  | Op_release string string ingress_failure
  | Op_release_undelivered string string ingress_failure
  | Op_fail string string ingress_failure
  | Op_begin_transcription string string time
  | Op_save_transcript string string string
  | Op_begin_dispatch string string time
  | Op_early_begin string
  | Op_early_save string string
  | Op_rekey rekey_input
  | Op_claim_stalled int
  | Op_release_stalled string
  | Op_purge "int \<Rightarrow> bool" nat

text \<open>Whether the operation returned (rather than threw), and the next database.\<close>

definition done_with :: "'a result \<times> database \<Rightarrow> bool \<times> database" where
  "done_with rd = (is_ok (fst rd), snd rd)"

fun apply_op :: "ingress_op \<Rightarrow> time \<Rightarrow> database \<Rightarrow> bool \<times> database" where
  "apply_op (Op_accept_media i) now d = done_with (accept_media i d)"
| "apply_op (Op_enqueue uuid i) now d = done_with (enqueue uuid i now d)"
| "apply_op (Op_claim_next ms b locked t) now d = done_with (claim_next ms b locked t now d)"
| "apply_op (Op_claim_following acc i ts) now d = done_with (claim_following acc i ts now d)"
| "apply_op Op_release_stale now d = (True, snd (release_stale_leases now d))"
| "apply_op (Op_renew u t ms) now d = done_with (renew_lease u t ms now d)"
| "apply_op (Op_complete u t) now d = done_with (complete u t now d)"
| "apply_op (Op_complete_session u t s n) now d = done_with (complete_with_session u t s n now d)"
| "apply_op (Op_release u t f) now d = done_with (release u t f now d)"
| "apply_op (Op_release_undelivered u t f) now d = done_with (release_undelivered u t f now d)"
| "apply_op (Op_fail u t f) now d = done_with (fail_update u t f now d)"
| "apply_op (Op_begin_transcription u t later) now d = done_with (begin_voice_transcription u t now later d)"
| "apply_op (Op_save_transcript u t x) now d = done_with (save_voice_transcript u t x now d)"
| "apply_op (Op_begin_dispatch u t later) now d = done_with (begin_dispatch u t now later d)"
| "apply_op (Op_early_begin u) now d = done_with (begin_early_voice_transcription u now d)"
| "apply_op (Op_early_save u x) now d = done_with (save_early_voice_transcript u x now d)"
| "apply_op (Op_rekey i) now d = done_with (rekey_queue i d)"
| "apply_op (Op_claim_stalled n) now d = (True, snd (claim_stalled_ingress n now d))"
| "apply_op (Op_release_stalled u) now d = (True, release_stalled_ingress u d)"
| "apply_op (Op_purge locked n) now d = (True, snd (purge_completed_telegram_updates locked n now d))"

datatype ingress_event = Did ingress_op time bool | Elsewhere

inductive ingress_step :: "database \<Rightarrow> ingress_event \<Rightarrow> database \<Rightarrow> bool" where
  did: "apply_op opn now d = (ok, d') \<Longrightarrow> ingress_step d (Did opn now ok) d'"
| elsewhere: "queues d' = queues d \<Longrightarrow> aliases d' = aliases d \<Longrightarrow> updates d' = updates d \<Longrightarrow>
    ignored d' = ignored d \<Longrightarrow> cursors d' = cursors d \<Longrightarrow> ingress_step d Elsewhere d'"

inductive ingress_run :: "database \<Rightarrow> ingress_event list \<Rightarrow> database \<Rightarrow> bool" where
  run_nil: "ingress_run d [] d"
| run_cons: "ingress_step d e d1 \<Longrightarrow> ingress_run d1 es d2 \<Longrightarrow> ingress_run d (e # es) d2"

inductive_cases did_cases: "ingress_step d (Did opn now ok) d'"
inductive_cases elsewhere_cases: "ingress_step d Elsewhere d'"
inductive_simps run_cons_iff: "ingress_run d (e # es) d'"
inductive_simps run_nil_iff: "ingress_run d [] d'"

lemma run_append:
  "ingress_run d (es @ fs) d' \<longleftrightarrow> (\<exists>d1. ingress_run d es d1 \<and> ingress_run d1 fs d')"
proof (induction es arbitrary: d)
  case Nil
  then show ?case by (simp add: run_nil_iff)
next
  case (Cons e es)
  then show ?case by (auto simp: run_cons_iff)
qed

section \<open>The invariant along runs\<close>

lemma keeps_early_start: "keeps_rows (early_where u) (\<lambda>r. r\<lparr>u_tr_started := Some t\<rparr>)"
  by (auto simp: row_defs early_where_def)

lemma keeps_early_save: "text \<noteq> [] \<Longrightarrow> keeps_rows (early_save_where u) (u_save_transcript text t)"
  by (auto simp: row_defs early_save_where_def u_save_transcript_def coalesce_def split: option.split)

lemma inv_early_begin: "ingress_inv d \<Longrightarrow> ingress_inv (snd (begin_early_voice_transcription u now d))"
  by (auto simp: begin_early_voice_transcription_def when_valid_def Let_def inv_update keeps_early_start
      split: sum.split option.split)

lemma inv_early_save: "ingress_inv d \<Longrightarrow> ingress_inv (snd (save_early_voice_transcript u x now d))"
  by (auto simp: save_early_voice_transcript_def when_valid_def Let_def require_non_empty_Inr res_bind_Inr_iff
      js_trim_nonempty intro!: inv_update keeps_early_save split: sum.split)

lemma inv_apply_op: "ingress_inv d \<Longrightarrow> ingress_inv (snd (apply_op opn now d))"
  by (cases opn) (simp_all add: done_with_def inv_accept_media inv_enqueue inv_claim_next inv_claim_following
      inv_release_stale inv_renew inv_complete inv_complete_with_session inv_release inv_release_undelivered
      inv_fail inv_begin_transcription inv_save_transcript inv_begin_dispatch inv_early_begin inv_early_save inv_rekey inv_claim_stalled
      inv_release_stalled inv_purge)

lemma inv_step: "ingress_step d e d' \<Longrightarrow> ingress_inv d \<Longrightarrow> ingress_inv d'"
proof (induction rule: ingress_step.induct)
  case (did opn now d ok d')
  then show ?case using inv_apply_op [of d opn now] by simp
next
  case (elsewhere d' d)
  then show ?case by (simp add: ingress_inv_def queues_ok_def aliases_ok_def updates_ok_def)
qed

lemma inv_run: "ingress_run d es d' \<Longrightarrow> ingress_inv d \<Longrightarrow> ingress_inv d'"
  by (induction rule: ingress_run.induct) (auto intro: inv_step)

section \<open>What a step does to one row\<close>

text \<open>
  How a row may change in one step, apart from being purged: the input never; a stored transcript
  and the start of its transcription never; a finished row not at all; the dispatch marker goes
  away only when \<open>may_clear\<close>.
\<close>

definition row_step :: "bool \<Rightarrow> ingress_update \<Rightarrow> ingress_update \<Rightarrow> bool" where
  "row_step may_clear r s \<longleftrightarrow> same_input s r \<and>
     (u_transcript r = None \<or> u_transcript s = u_transcript r) \<and>
     (u_tr_started r = None \<or> u_tr_started s = u_tr_started r) \<and>
     (u_status r = ICompleted \<or> u_status r = IFailed \<longrightarrow> s = r) \<and>
     (u_dispatch r = None \<or> u_dispatch s = u_dispatch r \<or> may_clear) \<and>
     u_attempts r \<le> u_attempts s"

lemma row_step_refl [simp]: "row_step b r r"
  by (simp add: row_step_def same_input_def)

text \<open>Every row of \<open>d\<close> is still there, changed as above.\<close>

definition rows_step :: "(ingress_update \<Rightarrow> bool) \<Rightarrow> database \<Rightarrow> database \<Rightarrow> bool" where
  "rows_step may_clear d d' \<longleftrightarrow> (\<forall>r\<in>set (updates d). \<exists>s\<in>set (updates d'). row_step (may_clear r) r s)"

lemma rows_step_same: "updates d' = updates d \<Longrightarrow> rows_step c d d'"
  by (auto simp: rows_step_def intro: row_step_refl)

lemma rows_step_update:
  assumes "\<And>r. r \<in> set (updates d) \<Longrightarrow> P r \<Longrightarrow> row_step (c r) r (f r)"
  shows "rows_step c d (d\<lparr>updates := update_where P f (updates d)\<rparr>)"
  unfolding rows_step_def
proof
  fix r assume r: "r \<in> set (updates d)"
  have "(if P r then f r else r) \<in> set (update_where P f (updates d))"
    using r unfolding set_update_where by (rule imageI)
  moreover have "row_step (c r) r (if P r then f r else r)"
    using r assms by simp
  ultimately show "\<exists>s\<in>set (updates (d\<lparr>updates := update_where P f (updates d)\<rparr>)). row_step (c r) r s"
    by auto
qed

lemma rows_step_frame: "rows_step c d (d'\<lparr>cursors := cs\<rparr>) = rows_step c d d'"
  by (simp add: rows_step_def)

lemmas row_step_defs = row_step_def same_input_def lease_where_def holds_lease_def

lemma rows_with_active_lease:
  assumes "\<And>r. lease_where u t now r \<Longrightarrow> row_step (c r) r (f r)"
  shows "rows_step c d (snd (with_active_lease u t now f d))"
  using assms by (auto simp: with_active_lease_def when_valid_def Let_def rows_step_same
      intro!: rows_step_update split: sum.split)

lemma rows_claim_next:
  assumes "ingress_inv d"
  shows "rows_step c d (snd (claim_next ms burst locked tok now d))"
proof -
  have "rows_step c d (d\<lparr>updates := update_where (\<lambda>r'. u_id r' = u_id r) (u_acquire tok till) (updates d)\<rparr>)"
    if h: "select_ordered (claim_candidate locked q w now d) u_id 1 (updates d) = r # rs" for r rs q w till
  proof (rule rows_step_update)
    fix r' assume r': "r' \<in> set (updates d)" "u_id r' = u_id r"
    have "r \<in> set (updates d)" "claimable now r"
      using set_select_ordered [of r "claim_candidate locked q w now d" u_id 1 "updates d"] h
      by (auto simp: claim_candidate_def)
    with assms r' have "claimable now r'" by (metis pk_same)
    then show "row_step (c r') r' (u_acquire tok till r')"
      by (auto simp: row_step_defs u_acquire_def claimable_def)
  qed
  then show ?thesis
    by (auto simp: claim_next_def when_valid_def Let_def rows_step_same split: sum.split list.split option.split)
qed

lemma rows_claim_following: "rows_step c d (snd (claim_following accept input toks now d))"
  by (auto simp: claim_following_def when_valid_def run_tx_def claim_following_body_def Let_def rows_step_same
      row_step_defs u_acquire_def intro!: rows_step_update split: sum.split)

lemma rows_store_update:
  "rows_step c d (snd (end_tx (store_update input queue now d') d))" if "updates d' = updates d"
  using that by (auto simp: store_update_def rows_step_def split: option.split intro: row_step_refl)

lemma rows_enqueue: "rows_step c d (snd (enqueue uuid input now d))"
  using ensure_queue_frame [of uuid "e_key input" d]
  by (auto simp: enqueue_def when_valid_def run_tx_def enqueue_body_def rows_step_same
      intro!: rows_store_update split: sum.split prod.split)

lemma rows_accept_media: "rows_step c d (snd (accept_media input d))"
  by (auto simp: accept_media_def when_valid_def run_tx_def accept_media_body_def insert_ignored_media_def
      Let_def intro!: rows_step_same split: sum.split)

lemma rows_rekey: "rows_step c d (snd (rekey_queue input d))"
proof -
  have "updates d' = updates d" if "rekey_body input d = Commit u d'" for u d'
    using that by (cases rule: rekey_body_cases) (auto dest: insert_alias_Inr split: if_splits)
  then show ?thesis
    by (cases "rekey_body input d")
      (auto simp: rekey_queue_def when_valid_def run_tx_def intro!: rows_step_same split: sum.split)
qed

lemma rows_complete_with_session: "rows_step c d (snd (complete_with_session u t s n now d))"
proof -
  have "rows_step c d (d\<lparr>updates := update_where (lease_where u t now) (u_complete_session s now) (updates d)\<rparr>)"
    by (rule rows_step_update) (auto simp: row_step_defs u_complete_session_def u_complete_def)
  then show ?thesis
    by (auto simp: complete_with_session_def when_valid_def run_tx_def complete_with_session_body_def Let_def
        rows_step_same rows_step_frame split: sum.split option.split)
qed

lemma rows_begin_transcription: "rows_step c d (snd (begin_voice_transcription u t now later d))"
  by (auto simp: begin_voice_transcription_def when_valid_def Let_def rows_step_same row_step_defs
      transcription_where_def intro!: rows_step_update split: sum.split option.split)

lemma rows_save_transcript: "rows_step c d (snd (save_voice_transcript u t x now d))"
  by (auto simp: save_voice_transcript_def when_valid_def Let_def rows_step_same row_step_defs save_where_def
      u_save_transcript_def coalesce_def intro!: rows_step_update split: sum.split option.splits)

lemma rows_begin_dispatch: "rows_step c d (snd (begin_dispatch u t now later d))"
  by (auto simp: begin_dispatch_def when_valid_def Let_def rows_step_same row_step_defs dispatch_where_def
      intro!: rows_step_update split: sum.split)

lemma rows_early_begin: "rows_step c d (snd (begin_early_voice_transcription u now d))"
  by (auto simp: begin_early_voice_transcription_def when_valid_def Let_def rows_step_same row_step_defs early_where_def
      intro!: rows_step_update split: sum.split option.split)

lemma rows_early_save: "rows_step c d (snd (save_early_voice_transcript u x now d))"
  by (auto simp: save_early_voice_transcript_def when_valid_def Let_def rows_step_same row_step_defs early_save_where_def
      u_save_transcript_def coalesce_def intro!: rows_step_update split: sum.split option.splits)

lemma rows_renew: "rows_step c d (snd (renew_lease u t ms now d))"
  by (auto simp: snd_renew_lease row_step_defs intro!: rows_step_same rows_with_active_lease split: sum.split)

section \<open>Steps and rows\<close>

definition is_purge :: "ingress_event \<Rightarrow> bool" where
  "is_purge e = (case e of Did opn _ _ \<Rightarrow> (case opn of Op_purge _ _ \<Rightarrow> True | _ \<Rightarrow> False) | Elsewhere \<Rightarrow> False)"

text \<open>The event gives back, as provably undelivered, the update with this id.\<close>

definition gives_back :: "int \<Rightarrow> ingress_event \<Rightarrow> bool" where
  "gives_back uid e =
     (case e of Did opn _ ok \<Rightarrow> ok \<and>
        (case opn of Op_release_undelivered u _ _ \<Rightarrow> decimal_value u = uid | _ \<Rightarrow> False) | Elsewhere \<Rightarrow> False)"

text \<open>The event is a successful \<open>beginDispatch\<close> of the update with this id.\<close>

definition dispatches :: "int \<Rightarrow> ingress_event \<Rightarrow> bool" where
  "dispatches uid e =
     (case e of Did opn _ ok \<Rightarrow> ok \<and>
        (case opn of Op_begin_dispatch u _ _ \<Rightarrow> decimal_value u = uid | _ \<Rightarrow> False) | Elsewhere \<Rightarrow> False)"

lemma with_active_lease_Inl:
  "with_active_lease u t now f d = (Inl e, d') \<Longrightarrow> d' = d"
  by (auto simp: with_active_lease_def when_valid_def Let_def update_where_none split: sum.splits if_splits)

lemma rows_release_undelivered:
  "release_undelivered u t f now d = (r, d') \<Longrightarrow>
     rows_step (\<lambda>row. is_ok r \<and> u_id row = decimal_value u) d d'"
proof (cases "require_failure f")
  case (Inl e)
  moreover assume "release_undelivered u t f now d = (r, d')"
  ultimately show ?thesis by (simp add: release_undelivered_def rows_step_same)
next
  case (Inr g)
  assume eq: "release_undelivered u t f now d = (r, d')"
  have step: "rows_step (\<lambda>row. u_id row = decimal_value u) d d'"
    using rows_with_active_lease [of u t now "\<lambda>row. u_id row = decimal_value u" "u_release_undelivered g" d] eq Inr
    by (auto simp: release_undelivered_def row_step_defs u_release_undelivered_def)
  show ?thesis
  proof (cases r)
    case (Inl e)
    with eq Inr show ?thesis
      by (auto simp: release_undelivered_def rows_step_same dest: with_active_lease_Inl)
  next
    case (Inr y)
    with step show ?thesis by simp
  qed
qed

lemma rows_leased_ops:
  "rows_step c d (snd (complete u t now d))"
  "rows_step c d (snd (release u t f now d))"
  "rows_step c d (snd (fail_update u t f now d))"
  by (auto simp: complete_def release_def fail_update_def when_valid_def rows_step_same row_step_defs
      u_complete_def u_release_def u_fail_def intro!: rows_with_active_lease split: sum.split)

lemma rows_marker_ops:
  "rows_step c d (snd (release_stale_leases now d))"
  "rows_step c d (snd (claim_stalled_ingress n now d))"
  "rows_step c d (release_stalled_ingress u d)"
  by (auto simp: release_stale_leases_def claim_stalled_ingress_def release_stalled_ingress_def Let_def
      row_step_defs stalled_where_def intro!: rows_step_update)

lemma rows_apply_op:
  assumes "ingress_inv d" "\<not> is_purge (Did opn now ok)" "apply_op opn now d = (ok, d')"
  shows "rows_step (\<lambda>r. gives_back (u_id r) (Did opn now ok)) d d'"
proof (cases opn)
  case (Op_release_undelivered u t f)
  with assms(3) obtain r where r: "release_undelivered u t f now d = (r, d')" "ok = is_ok r"
    by (cases "release_undelivered u t f now d") (auto simp: done_with_def)
  have "(\<lambda>row :: ingress_update. gives_back (u_id row) (Did opn now ok)) = (\<lambda>row. is_ok r \<and> u_id row = decimal_value u)"
    using Op_release_undelivered r(2) by (auto simp: gives_back_def)
  then show ?thesis using rows_release_undelivered [OF r(1)] by (simp only:)
next
  case (Op_purge l n)
  with assms(2) show ?thesis by (simp add: is_purge_def)
qed (use assms(3) in \<open>auto simp: done_with_def rows_claim_next [OF assms(1)] rows_claim_following rows_enqueue
      rows_accept_media rows_rekey rows_complete_with_session rows_begin_transcription rows_save_transcript
      rows_begin_dispatch rows_early_begin rows_early_save rows_renew rows_leased_ops rows_marker_ops\<close>)

lemma rows_event:
  assumes "ingress_step d e d'" "ingress_inv d" "\<not> is_purge e"
  shows "rows_step (\<lambda>r. gives_back (u_id r) e) d d'"
proof (cases e)
  case (Did opn now ok)
  with assms show ?thesis by (auto elim!: did_cases intro: rows_apply_op)
next
  case Elsewhere
  with assms(1) show ?thesis by (auto elim!: elsewhere_cases intro: rows_step_same)
qed

text \<open>Along a run without a purge, every row keeps its input and what was settled about it.\<close>

lemma row_step_trans: "row_step b r s \<Longrightarrow> row_step b' s t \<Longrightarrow> row_step (b \<or> b') r t"
  unfolding row_step_def same_input_def by (intro conjI) (auto simp: eq_commute)

lemma rows_run:
  assumes "ingress_run d es d'" "ingress_inv d" "\<forall>e\<in>set es. \<not> is_purge e" "r \<in> set (updates d)"
  shows "\<exists>s\<in>set (updates d'). row_step (\<exists>e\<in>set es. gives_back (u_id r) e) r s"
  using assms
proof (induction arbitrary: r rule: ingress_run.induct)
  case (run_nil d)
  then show ?case by (auto intro: row_step_refl)
next
  case (run_cons d e d1 es d2)
  from run_cons.hyps(1) run_cons.prems have "rows_step (\<lambda>r. gives_back (u_id r) e) d d1"
    by (intro rows_event) auto
  then obtain s where s: "s \<in> set (updates d1)" "row_step (gives_back (u_id r) e) r s"
    using run_cons.prems(3) unfolding rows_step_def by blast
  have "\<exists>s'\<in>set (updates d2). row_step (\<exists>e\<in>set es. gives_back (u_id s) e) s s'"
    using run_cons.IH s(1) run_cons.prems run_cons.hyps(1) by (auto intro: inv_step)
  then obtain s' where s': "s' \<in> set (updates d2)" "row_step (\<exists>e\<in>set es. gives_back (u_id s) e) s s'" by blast
  have "u_id s = u_id r" using s(2) by (simp add: row_step_def same_input_def)
  with row_step_trans [OF s(2) s'(2)] s'(1) show ?case by (intro bexI [of _ s']) simp_all
qed

end
