(* ===== verification/Ingress_Properties.thy ===== *)
theory Ingress_Properties
  imports Ingress_Run
begin

text \<open>What the durable ingress promises, over the runs of \<open>Ingress_Run\<close>.\<close>

section \<open>Tools\<close>

text \<open>Running a list of operations computes a run, so concrete runs can be evaluated.\<close>

fun run_ops :: "(ingress_op \<times> time) list \<Rightarrow> database \<Rightarrow> ingress_event list \<times> database" where
  "run_ops [] d = ([], d)"
| "run_ops ((opn, now) # ops) d =
     (let (ok, d1) = apply_op opn now d; (es, d2) = run_ops ops d1 in (Did opn now ok # es, d2))"

lemma run_ops_run: "run_ops ops d = (es, d') \<Longrightarrow> ingress_run d es d'"
  by (induction ops d arbitrary: es rule: run_ops.induct)
    (auto simp: Let_def split: prod.splits intro: run_nil run_cons did)

lemma update_where_hit:
  "r \<in> set rows \<Longrightarrow> P r \<Longrightarrow> f r \<in> set (update_where P f rows)"
  unfolding set_update_where by force

lemma begin_dispatch_ok:
  assumes "begin_dispatch u t now later d = (Inr x, d')"
  shows "\<exists>r\<in>set (updates d). u_id r = decimal_value u \<and> u_dispatch r = None \<and>
    (\<exists>s\<in>set (updates d'). u_id s = decimal_value u \<and> u_dispatch s \<noteq> None)"
proof -
  have "row_count (dispatch_where u t now) (updates d) = 1"
    and d': "d' = d\<lparr>updates := update_where (dispatch_where u t now) (\<lambda>r. r\<lparr>u_dispatch := Some now\<rparr>) (updates d)\<rparr>"
    using assms by (auto simp: begin_dispatch_def when_valid_def Let_def split: sum.splits if_splits)
  then have "\<not> (\<forall>r\<in>set (updates d). \<not> dispatch_where u t now r)"
    unfolding row_count_0_iff [symmetric] by linarith
  then obtain r where r: "r \<in> set (updates d)" "dispatch_where u t now r" by blast
  have "r\<lparr>u_dispatch := Some now\<rparr> \<in> set (update_where (dispatch_where u t now) (\<lambda>r. r\<lparr>u_dispatch := Some now\<rparr>) (updates d))"
    using r by (rule update_where_hit)
  with r show ?thesis
    unfolding d' by (intro bexI [of _ r] conjI bexI [of _ "r\<lparr>u_dispatch := Some now\<rparr>"])
      (simp_all add: dispatch_where_def lease_where_def)
qed

lemma dispatches_step:
  assumes "ingress_step d e d'" "dispatches uid e"
  shows "\<exists>r\<in>set (updates d). u_id r = uid \<and> u_dispatch r = None \<and>
    (\<exists>s\<in>set (updates d'). u_id s = uid \<and> u_dispatch s \<noteq> None)"
proof -
  obtain u t later now where e: "e = Did (Op_begin_dispatch u t later) now True" "decimal_value u = uid"
    using assms(2) by (auto simp: dispatches_def split: ingress_event.splits ingress_op.splits)
  with assms(1) have "done_with (begin_dispatch u t now later d) = (True, d')"
    by (auto elim: did_cases)
  then obtain x where "begin_dispatch u t now later d = (Inr x, d')"
    by (cases "begin_dispatch u t now later d"; cases "fst (begin_dispatch u t now later d)")
      (auto simp: done_with_def)
  from begin_dispatch_ok [OF this] e(2) show ?thesis by simp
qed

text \<open>Tombstones and cursors: who may touch them.\<close>

definition side :: "database \<Rightarrow> (int \<times> string) list \<times> (string \<times> int) list" where
  "side d = (ignored d, cursors d)"

lemma side_frames [simp]:
  "side (d\<lparr>updates := us\<rparr>) = side d" "side (d\<lparr>queues := qs\<rparr>) = side d" "side (d\<lparr>aliases := al\<rparr>) = side d"
  "side (d\<lparr>updates := us, interjections := is\<rparr>) = side d"
  by (simp_all add: side_def)

lemma side_with_active_lease [simp]: "side (snd (with_active_lease u t now f d)) = side d"
  by (simp add: with_active_lease_def when_valid_def Let_def split: sum.split)

lemma side_ensure_queue: "ensure_queue uuid key d = Inr (queue, d') \<Longrightarrow> side d' = side d"
  by (auto simp: ensure_queue_def Let_def res_bind_Inr_iff dest!: insert_queue_Inr insert_alias_Inr
      split: option.splits)

lemma side_enqueue: "side (snd (enqueue uuid input now d)) = side d"
  by (auto simp: enqueue_def when_valid_def run_tx_def enqueue_body_def store_update_def
      dest: side_ensure_queue split: sum.split option.split)

lemma side_rekey_body: "rekey_body input d = Commit u d' \<Longrightarrow> side d' = side d"
  by (erule rekey_body_cases) (auto dest!: insert_alias_Inr split: if_splits)

lemma side_rekey: "side (snd (rekey_queue input d)) = side d"
  by (cases "rekey_body input d")
    (auto simp: rekey_queue_def when_valid_def run_tx_def dest: side_rekey_body split: sum.split)

lemma side_claims:
  "side (snd (claim_next ms b locked t now d)) = side d"
  "side (snd (claim_following acc i ts now d)) = side d"
  by (simp_all add: claim_next_def claim_following_def claim_following_body_def when_valid_def run_tx_def Let_def
      split: sum.split option.split list.split)

lemma side_leased:
  "side (snd (complete u t now d)) = side d" "side (snd (release u t f now d)) = side d"
  "side (snd (release_undelivered u t f now d)) = side d" "side (snd (fail_update u t f now d)) = side d"
  "side (snd (renew_lease u t ms now d)) = side d" "side (snd (release_stale_leases now d)) = side d"
  by (simp_all add: complete_def release_def release_undelivered_def fail_update_def when_valid_def
      snd_renew_lease release_stale_leases_def Let_def split: sum.split)

lemma side_markers:
  "side (snd (begin_dispatch u t now later d)) = side d"
  "side (snd (save_voice_transcript u t x now d)) = side d"
  "side (snd (begin_voice_transcription u t now later d)) = side d"
  "side (snd (begin_early_voice_transcription u now d)) = side d"
  "side (snd (save_early_voice_transcript u x now d)) = side d"
  by (simp_all add: begin_dispatch_def save_voice_transcript_def begin_voice_transcription_def
      begin_early_voice_transcription_def save_early_voice_transcript_def when_valid_def
      Let_def split: sum.split option.split)

lemma side_rest:
  "side (snd (claim_stalled_ingress n now d)) = side d" "side (release_stalled_ingress u d) = side d"
  "side (snd (purge_completed_telegram_updates l size_limit now d)) = side d"
  by (simp_all add: claim_stalled_ingress_def release_stalled_ingress_def purge_completed_telegram_updates_def
      Let_def)

lemma accept_media_side:
  "cursors (snd (accept_media input d)) = cursors d"
  "is_ignored uid d \<Longrightarrow> is_ignored uid (snd (accept_media input d))"
  by (auto simp: accept_media_def when_valid_def run_tx_def accept_media_body_def insert_ignored_media_def
      is_ignored_def Let_def split: sum.split)

lemma complete_session_ignored: "ignored (snd (complete_with_session u t s n now d)) = ignored d"
  by (simp add: complete_with_session_def complete_with_session_body_def when_valid_def run_tx_def Let_def
      split: sum.split option.split)

lemma complete_session_cursor:
  assumes "cursor_of s d = Some i"
  shows "\<exists>j\<ge>i. cursor_of s (snd (complete_with_session u t s' n now d)) = Some j"
proof -
  have first: "first_row (\<lambda>c. fst c = s) (xs @ [(s', k)]) =
      (case first_row (\<lambda>c. fst c = s) xs of None \<Rightarrow> if s' = s then Some (s', k) else None | Some c \<Rightarrow> Some c)"
    for xs :: "(string \<times> int) list" and k
    by (auto simp: first_row_def split: list.split)
  have upd: "map_option snd (first_row (\<lambda>c. fst c = s) (update_where (\<lambda>c. fst c = s') (\<lambda>c. (fst c, k)) xs)) =
      map_option (\<lambda>v. if s = s' then k else v) (map_option snd (first_row (\<lambda>c. fst c = s) xs))"
    for xs :: "(string \<times> int) list" and k
    by (induction xs) (auto simp: first_row_def update_where_def)
  have body: "\<exists>j\<ge>i. cursor_of s (snd (end_tx (complete_with_session_body u t s' k now d) d)) = Some j" for k
  proof (cases "complete_with_session_body u t s' k now d")
    case (Commit x d')
    show ?thesis
    proof (cases "cursor_of s' d")
      case None
      with Commit have "cursors d' = cursors d @ [(s', k)]"
        by (auto simp: complete_with_session_body_def Let_def cursor_of_def split: if_splits)
      with assms Commit show ?thesis by (auto simp: cursor_of_def first)
    next
      case (Some j)
      with Commit have "cursors d' = update_where (\<lambda>c. fst c = s') (\<lambda>c. (fst c, k)) (cursors d)" "j \<le> k"
        by (auto simp: complete_with_session_body_def Let_def cursor_of_def split: if_splits)
      then have "cursor_of s d' = Some (if s = s' then k else i)"
        using assms by (auto simp: cursor_of_def upd)
      with assms Commit Some \<open>j \<le> k\<close> show ?thesis by (cases "s = s'") auto
    qed
  qed (use assms in auto)
  with assms show ?thesis
    by (simp add: complete_with_session_def when_valid_def run_tx_def split: sum.split)
qed

lemma side_apply_op:
  assumes "\<not> (\<exists>i. opn = Op_accept_media i)" "\<not> (\<exists>u t s n. opn = Op_complete_session u t s n)"
  shows "side (snd (apply_op opn now d)) = side d"
  using assms by (cases opn) (simp_all add: done_with_def side_enqueue side_rekey side_claims side_leased
      side_markers side_rest)

lemma ignored_apply_op: "is_ignored uid d \<Longrightarrow> is_ignored uid (snd (apply_op opn now d))"
proof (cases opn)
  case (Op_accept_media i)
  moreover assume "is_ignored uid d"
  ultimately show ?thesis by (simp add: done_with_def accept_media_side)
qed (use side_apply_op [of opn now d] in
    \<open>simp_all add: side_def is_ignored_def done_with_def complete_session_ignored\<close>)

lemma ignored_run: "ingress_run d es d' \<Longrightarrow> is_ignored uid d \<Longrightarrow> is_ignored uid d'"
proof (induction rule: ingress_run.induct)
  case (run_cons d e d1 es d2)
  from run_cons.hyps(1) run_cons.prems have "is_ignored uid d1"
  proof (cases rule: ingress_step.cases)
    case (did opn now ok)
    then show ?thesis using ignored_apply_op [OF run_cons.prems, of opn now] by simp
  qed (simp add: is_ignored_def)
  then show ?case by (rule run_cons.IH)
qed simp

lemma cursor_apply_op:
  assumes "cursor_of s d = Some i"
  shows "\<exists>j\<ge>i. cursor_of s (snd (apply_op opn now d)) = Some j"
proof (cases "side (snd (apply_op opn now d)) = side d")
  case True
  then have "cursor_of s (snd (apply_op opn now d)) = cursor_of s d" by (simp add: side_def cursor_of_def)
  with assms show ?thesis by auto
next
  case False
  then consider i' where "opn = Op_accept_media i'" | u t s' n where "opn = Op_complete_session u t s' n"
    using side_apply_op [of opn now d] by blast
  then show ?thesis
  proof cases
    case 1
    then have "cursor_of s (snd (apply_op opn now d)) = cursor_of s d"
      by (simp add: done_with_def cursor_of_def accept_media_side)
    with assms show ?thesis by auto
  next
    case 2
    with complete_session_cursor [OF assms] show ?thesis by (simp add: done_with_def)
  qed
qed

section \<open>Claims\<close>

lemma claim_next_Some:
  assumes "claim_next lease burst locked token now d = (Inr (Some c), d')"
  obtains ms r q where "require_lease_milliseconds lease = Inr ms" "r \<in> set (updates d)"
    "claim_candidate locked (number_value (quiet_ms burst)) (number_value (max_wait_ms burst)) now d r"
    "q \<in> set (queues d)" "q_id q = u_queue r"
    "c = map_telegram_ingress_claim (u_acquire token (now + millis ms) r) (q_key q)"
    "d' = d\<lparr>updates := update_where (\<lambda>r'. u_id r' = u_id r) (u_acquire token (now + millis ms)) (updates d)\<rparr>"
proof -
  define P where "P = claim_candidate locked (number_value (quiet_ms burst)) (number_value (max_wait_ms burst)) now d"
  obtain ms where ms: "require_lease_milliseconds lease = Inr ms"
    using assms by (auto simp: claim_next_def when_valid_def res_bind_Inr_iff split: sum.splits)
  obtain r rs where r: "select_ordered P u_id 1 (updates d) = r # rs"
    using assms ms by (auto simp: claim_next_def when_valid_def res_bind_Inr_iff P_def split: sum.splits list.splits)
  then have r': "r \<in> set (updates d)" "P r"
    using set_select_ordered [of r P u_id 1 "updates d"] by auto
  obtain q where q: "first_row (\<lambda>q. q_id q = u_queue r) (queues d) = Some q"
    using assms ms r by (auto simp: claim_next_def when_valid_def res_bind_Inr_iff P_def Let_def
        split: sum.splits option.splits)
  then have q': "q \<in> set (queues d)" "q_id q = u_queue r" by (auto dest: first_row_Some)
  have "c = map_telegram_ingress_claim (u_acquire token (now + millis ms) r) (q_key q) \<and>
    d' = d\<lparr>updates := update_where (\<lambda>r'. u_id r' = u_id r) (u_acquire token (now + millis ms)) (updates d)\<rparr>"
    using assms ms r q unfolding P_def
    by (auto simp: claim_next_def when_valid_def res_bind_Inr_iff Let_def split: sum.splits)
  with that [OF ms r' [unfolded P_def] q'] show thesis by blast
qed

lemma claim_fields:
  "c_update (map_telegram_ingress_claim r k) = nat_text (nat (u_id r))"
  "c_queue (map_telegram_ingress_claim r k) = u_queue r"
  "c_token (map_telegram_ingress_claim (u_acquire token till r) k) = token"
  "c_expires (map_telegram_ingress_claim (u_acquire token till r) k) = till"
  by (simp_all add: map_telegram_ingress_claim_def u_acquire_def)

lemma u_acquire_fields [simp]:
  "u_id (u_acquire token till r) = u_id r" "u_queue (u_acquire token till r) = u_queue r"
  by (simp_all add: u_acquire_def)

lemma inv_row: "ingress_inv d \<Longrightarrow> r \<in> set (updates d) \<Longrightarrow> row_ok r"
  by (auto simp: ingress_inv_def updates_ok_def)

lemma row_id_text: "row_ok r \<Longrightarrow> decimal_value (nat_text (nat (u_id r))) = u_id r"
  by (simp add: row_ok_def)

lemma inv_queue_of:
  assumes "ingress_inv d" "r \<in> set (updates d)"
  shows "\<exists>q. first_row (\<lambda>q. q_id q = u_queue r) (queues d) = Some q \<and> q_id q = u_queue r"
proof -
  obtain q where "q \<in> set (queues d)" "q_id q = u_queue r"
    using assms by (fastforce simp: ingress_inv_def updates_ok_def aliases_ok_def)
  moreover have "queue_rows.pk (queues d)" using assms(1) by (simp add: ingress_inv_def queues_ok_def)
  ultimately show ?thesis using queue_rows.pk_first_row by metis
qed

text \<open>
  C1: The queue is first in, first out. When \<open>claimNext\<close> hands an update to a worker, every update of
  the same chat that Telegram numbered earlier is finished, whichever rows other workers have locked
  at that moment: a later message is never answered before an earlier one.
\<close>

theorem claim_next_is_fifo:
  assumes "ingress_inv d" "claim_next lease burst locked token now d = (Inr (Some c), d')"
    "e \<in> set (updates d)" "u_queue e = c_queue c" "u_id e < decimal_value (c_update c)"
  shows "u_status e = ICompleted \<or> u_status e = IFailed"
  using assms(2)
proof (cases rule: claim_next_Some)
  case r: (1 ms r q)
  have "decimal_value (c_update c) = u_id r"
    using row_id_text [OF inv_row [OF assms(1) r(2)]] by (simp add: r(6) claim_fields)
  then have "\<not> open_status e"
    using assms(3-5) r by (auto simp: claim_candidate_def behind_open_update_def claim_fields)
  then show ?thesis by (cases "u_status e") (auto simp: open_status_def)
qed

lemma claim_next_found:
  assumes "ingress_inv d" "require_lease_milliseconds lease = Inr ms" "require_private_burst_policy burst = Inr ()"
    "r \<in> set (updates d)"
    "claim_candidate locked (number_value (quiet_ms burst)) (number_value (max_wait_ms burst)) now d r"
  shows "\<exists>c d'. claim_next lease burst locked token now d = (Inr (Some c), d') \<and> decimal_value (c_update c) \<le> u_id r"
proof -
  define P where "P = claim_candidate locked (number_value (quiet_ms burst)) (number_value (max_wait_ms burst)) now d"
  have "select_ordered P u_id 1 (updates d) \<noteq> []"
    using assms(4,5) select_ordered_Nil_iff [of P u_id 0 "updates d"] by (auto simp: P_def)
  moreover have "length (select_ordered P u_id 1 (updates d)) \<le> 1" by simp
  ultimately obtain s where s: "select_ordered P u_id 1 (updates d) = [s]"
    by (cases "select_ordered P u_id 1 (updates d)") (auto simp del: length_select_ordered)
  then have s': "s \<in> set (updates d)" using set_select_ordered [of s P u_id 1 "updates d"] by auto
  have le: "u_id s \<le> u_id r"
    using select_ordered_one [of P u_id "updates d" s r] s assms(4,5) by (simp add: P_def)
  obtain q where q: "first_row (\<lambda>q. q_id q = u_queue s) (queues d) = Some q"
    using inv_queue_of [OF assms(1) s'] by blast
  show ?thesis
    using s q le assms(2,3) row_id_text [OF inv_row [OF assms(1) s']] unfolding P_def
    by (simp add: claim_next_def claim_fields Let_def)
qed

text \<open>
  C21: Work is never stuck behind a pause meant for a burst. If no deploy pause is on and the head of
  a chat (pending, or processing under an expired lease) has waited for the whole burst window, then
  \<open>claimNext\<close> claims an update, one numbered no later than that head.
\<close>

theorem claim_next_makes_progress:
  assumes "ingress_inv d" "require_lease_milliseconds lease = Inr ms" "require_private_burst_policy burst = Inr ()"
    "\<not> turn_start_paused now d" "r \<in> set (updates d)" "claimable now r" "\<not> locked (u_id r)"
    "\<forall>e\<in>set (updates d). u_queue e = u_queue r \<and> u_id e < u_id r \<longrightarrow> \<not> open_status e"
    "u_received r + millis (number_value (max_wait_ms burst)) \<le> now"
  shows "\<exists>c d'. claim_next lease burst locked token now d = (Inr (Some c), d') \<and> decimal_value (c_update c) \<le> u_id r"
  using assms(1-3,5)
proof (rule claim_next_found)
  show "claim_candidate locked (number_value (quiet_ms burst)) (number_value (max_wait_ms burst)) now d r"
    using assms(4,6-9) by (auto simp: claim_candidate_def behind_open_update_def burst_holds_def)
qed

definition lease_lost :: "'a result \<times> database \<Rightarrow> database \<Rightarrow> bool" where
  "lease_lost outcome d \<longleftrightarrow> fst outcome = Inl (AppError ''AGENT_TELEGRAM_LEASE_LOST'') \<and> snd outcome = d"

lemma stale_lease_where:
  assumes "ingress_inv d" "claim_next lease burst locked token now d = (Inr (Some c), d')" "uuid_of tok \<noteq> c_token c"
  shows "row_count (lease_where (c_update c) tok now') (updates d') = 0"
  using assms(2)
proof (cases rule: claim_next_Some)
  case r: (1 ms r q)
  have "lease_where (c_update c) tok now' = ingress_lease.guarded (u_id r) (uuid_of tok) now'"
    using row_id_text [OF inv_row [OF assms(1) r(2)]]
    by (auto simp: r(6) claim_fields lease_where_def ingress_lease.guarded_def)
  then show ?thesis
    using ingress_lease.stale_after_acquire [of "uuid_of tok" token] assms(3) by (simp add: r(6,7) claim_fields)
qed

lemma stale_with_active_lease:
  assumes "row_count (lease_where u tok now) (updates d) = 0" "valid_lease_args u tok = Inr x"
  shows "with_active_lease u tok now f d = (Inl (AppError ''AGENT_TELEGRAM_LEASE_LOST''), d)"
  using assms by (simp add: with_active_lease_def Let_def update_where_none)

lemma valid_lease_args_Inr:
  "valid_lease_args u tok = Inr x \<longleftrightarrow> x = tok \<and> require_update_id u = Inr u \<and> uuid_pattern tok \<and> js_trim tok \<noteq> []"
  by (auto simp: valid_lease_args_def res_bind_Inr_iff require_uuid_Inr require_non_empty_Inr require_update_id_def
      split: if_splits)

lemma row_count_mono: "(\<And>r. P r \<Longrightarrow> Q r) \<Longrightarrow> row_count Q rows = 0 \<Longrightarrow> row_count P rows = 0"
  by (auto simp: row_count_0_iff)

lemma stale_active_row:
  "row_count (lease_where u tok now) (updates d) = 0 \<Longrightarrow> active_row u tok now d = None"
  by (auto simp: active_row_def row_count_0_iff lease_where_def dest!: first_row_Some split: option.splits)

lemma js_trim_twice: "js_trim s \<noteq> [] \<Longrightarrow> js_trim (js_trim s) \<noteq> []"
proof -
  let ?t = "dropWhile js_space (rev (dropWhile js_space s))"
  assume "js_trim s \<noteq> []"
  then have "?t \<noteq> []" by (simp add: js_trim_def)
  then have "hd ?t \<in> set (js_trim s)" "\<not> js_space (hd ?t)" using hd_dropWhile [of js_space] by (simp_all add: js_trim_def)
  moreover have "js_trim x = [] \<Longrightarrow> \<forall>c\<in>set x. js_space c" for x
  proof -
    assume "js_trim x = []"
    then have "\<forall>c\<in>set (dropWhile js_space x). js_space c" by (simp add: js_trim_def dropWhile_eq_Nil_conv)
    then have "dropWhile js_space x = []" using hd_dropWhile [of js_space x] hd_in_set by blast
    then show ?thesis by (simp add: dropWhile_eq_Nil_conv)
  qed
  ultimately show ?thesis by blast
qed

text \<open>
  C12: A lease has one holder. After \<open>claimNext\<close> gave an update to a worker, no worker with another token
  can complete (with or without a session), release, give back, fail, renew or dispatch that update, nor begin its
  transcription or save a transcript: each call throws \<open>AGENT_TELEGRAM_LEASE_LOST\<close> and the database stays as
  the claim left it.
\<close>

theorem stale_worker_changes_nothing:
  assumes "ingress_inv d" "claim_next lease burst locked token now d = (Inr (Some c), d')"
    "valid_lease_args (c_update c) tok = Inr tok" "uuid_of tok \<noteq> c_token c"
    "require_failure f = Inr f" "require_lease_milliseconds ms = Inr n"
    "js_trim session \<noteq> []" "is_safe_integer index" "0 \<le> number_value index" "js_trim transcript \<noteq> []"
  shows "lease_lost (complete (c_update c) tok now' d') d' \<and>
    lease_lost (complete_with_session (c_update c) tok session index now' d') d' \<and>
    lease_lost (release (c_update c) tok f now' d') d' \<and>
    lease_lost (release_undelivered (c_update c) tok f now' d') d' \<and>
    lease_lost (fail_update (c_update c) tok f now' d') d' \<and>
    lease_lost (renew_lease (c_update c) tok ms now' d') d' \<and>
    lease_lost (begin_voice_transcription (c_update c) tok now' later d') d' \<and>
    lease_lost (save_voice_transcript (c_update c) tok transcript now' d') d' \<and>
    lease_lost (begin_dispatch (c_update c) tok now' later d') d'"
proof -
  have none: "row_count (lease_where (c_update c) tok t) (updates d') = 0" for t
    by (rule stale_lease_where [OF assms(1,2,4)])
  have marked: "row_count (dispatch_where (c_update c) tok now') (updates d') = 0"
      "row_count (transcription_where (c_update c) tok now') (updates d') = 0"
      "row_count (save_where (c_update c) tok now') (updates d') = 0"
    by (rule row_count_mono [OF _ none [of now']], simp add: dispatch_where_def transcription_where_def save_where_def)+
  have valid: "require_update_id (c_update c) = Inr (c_update c)" "uuid_pattern tok"
    using assms(3) by (simp_all add: valid_lease_args_Inr)
  have "lease_lost (begin_dispatch (c_update c) tok now' later d') d'"
    using marked(1) valid stale_active_row [OF none, of later]
    by (simp add: lease_lost_def begin_dispatch_def marker_args_def require_uuid_def update_where_none)
  moreover have "lease_lost (begin_voice_transcription (c_update c) tok now' later d') d'"
    using marked(2) valid stale_active_row [OF none, of later]
    by (simp add: lease_lost_def begin_voice_transcription_def marker_args_def require_uuid_def update_where_none)
  moreover have "first_row (save_where (c_update c) tok now') (updates d') = None"
    using marked(3) by (simp add: row_count_0_iff first_row_None_iff)
  then have "lease_lost (save_voice_transcript (c_update c) tok transcript now' d') d'"
    using marked(3) valid assms(10)
    by (simp add: lease_lost_def save_voice_transcript_def marker_args_def require_uuid_def require_non_empty_def
        update_where_none js_trim_twice Let_def)
  moreover have "lease_lost (complete_with_session (c_update c) tok session index now' d') d'"
    using none [of now'] valid assms(7-9)
    by (simp add: lease_lost_def complete_with_session_def complete_with_session_body_def require_uuid_def
        require_non_empty_def run_tx_def Let_def)
  ultimately show ?thesis
    using stale_with_active_lease [OF none assms(3)] assms(5,6)
    by (simp add: lease_lost_def complete_def release_def release_undelivered_def fail_update_def renew_lease_def)
qed

section \<open>Runs\<close>

text \<open>A second marker needs that the first one was given back, or its row purged.\<close>

lemma two_dispatches:
  assumes "ingress_inv d" "ingress_run d (e1 # es @ [e2]) d'" "dispatches uid e1" "dispatches uid e2"
  shows "\<exists>e\<in>set es. gives_back uid e \<or> is_purge e"
proof (rule ccontr)
  assume none: "\<not> ?thesis"
  obtain d1 d2 where run: "ingress_step d e1 d1" "ingress_run d1 es d2" "ingress_step d2 e2 d'"
    using assms(2) by (auto simp: run_cons_iff run_append run_nil_iff)
  have inv: "ingress_inv d1" "ingress_inv d2"
    using assms(1) run(1,2) by (blast intro: inv_step inv_run)+
  obtain s where s: "s \<in> set (updates d1)" "u_id s = uid" "u_dispatch s \<noteq> None"
    using dispatches_step [OF run(1) assms(3)] by blast
  obtain t where t: "t \<in> set (updates d2)" "row_step (\<exists>e\<in>set es. gives_back (u_id s) e) s t"
    using rows_run [OF run(2) inv(1) _ s(1)] none by blast
  with s none have "u_id t = uid" "u_dispatch t \<noteq> None"
    by (auto simp: row_step_def same_input_def)
  moreover obtain r where "r \<in> set (updates d2)" "u_id r = uid" "u_dispatch r = None"
    using dispatches_step [OF run(3) assms(4)] by blast
  ultimately show False using pk_same [OF inv(2) t(1)] by metis
qed

text \<open>
  C7: A message reaches Eve at most once. Between two successful \<open>beginDispatch\<close> of one update, in any
  run of the ingress (crashes, expired leases, retries by other workers included), lies a
  \<open>releaseUndelivered\<close> of that update, which the caller uses only when Eve provably did not get the
  message, or a retention purge.
\<close>

theorem dispatch_happens_once:
  assumes "ingress_inv d" "ingress_run d (e1 # es @ [e2]) d'" "dispatches uid e1" "dispatches uid e2"
  shows "\<exists>e\<in>set es. gives_back uid e \<or> is_purge e"
  by (rule two_dispatches [OF assms])

lemma settled_rows:
  assumes "ingress_inv d" "ingress_run d es d'" "\<forall>e\<in>set es. \<not> is_purge e" "r \<in> set (updates d)"
  shows "\<exists>s\<in>set (updates d'). same_input s r"
  using rows_run [OF assms(2,1,3,4)] by (auto simp: row_step_def)

text \<open>
  What was decided about an update stays decided. In every run without a purge the update keeps its
  queue, its payload and its voice note byte for byte, a stored transcript is never replaced, and a
  completed or failed update never changes again.
\<close>

theorem settled_updates_stay_settled:
  assumes "ingress_inv d" "ingress_run d es d'" "\<forall>e\<in>set es. \<not> is_purge e" "r \<in> set (updates d)"
  shows "\<exists>s\<in>set (updates d'). same_input s r \<and> (u_transcript r \<noteq> None \<longrightarrow> u_transcript s = u_transcript r) \<and>
    (u_status r = ICompleted \<or> u_status r = IFailed \<longrightarrow> s = r)"
proof -
  obtain s where s: "s \<in> set (updates d')" "row_step (\<exists>e\<in>set es. gives_back (u_id r) e) r s"
    using rows_run [OF assms(2,1,3,4)] by blast
  then show ?thesis by (intro bexI [of _ s]) (auto simp: row_step_def)
qed

lemma enqueue_settled:
  assumes "ingress_inv d" "enqueue uuid input now d = (Inr outcome, d1)"
  shows "is_ignored (decimal_value (e_update input)) d1 \<or>
    (\<exists>r\<in>set (updates d1). u_id r = decimal_value (e_update input) \<and> identical_update input (u_queue r) r)"
proof (cases "is_ignored (decimal_value (e_update input)) d")
  case True
  with assms(2) show ?thesis
    by (auto simp: enqueue_def when_valid_def run_tx_def enqueue_body_def split: sum.splits)
next
  case False
  obtain queue d0 where q: "ensure_queue uuid (e_key input) d = Inr (queue, d0)"
      "end_tx (store_update input queue now d0) d = (Inr outcome, d1)"
    using assms(2) False by (auto simp: enqueue_def when_valid_def run_tx_def enqueue_body_def split: sum.splits)
  show ?thesis
  proof (cases "first_row (\<lambda>r. u_id r = decimal_value (e_update input)) (updates d0)")
    case None
    with q(2) have "d1 = d0\<lparr>updates := updates d0 @ [new_update input queue now]\<rparr>"
      by (auto simp: store_update_def split: if_splits)
    then show ?thesis
      by (intro disjI2 bexI [of _ "new_update input queue now"])
        (simp_all add: new_update_def identical_update_def)
  next
    case (Some r)
    with q(2) have "identical_update input queue r" "d1 = d0"
      by (auto simp: store_update_def split: if_splits)
    moreover have "r \<in> set (updates d0)" "u_id r = decimal_value (e_update input)"
      using Some by (auto dest: first_row_Some)
    ultimately show ?thesis by (auto simp: identical_update_def)
  qed
qed

lemma enqueue_valid: "enqueue uuid input now d = (Inr outcome, d1) \<Longrightarrow> validate_enqueue_input input = Inr ()"
  by (auto simp: enqueue_def when_valid_def split: sum.splits)

lemma enqueue_record:
  "enqueue uuid input now d = (Inr outcome, d1) \<Longrightarrow>
     is_ignored (decimal_value (e_update input)) d \<or> is_record (e_payload input)"
  by (auto simp: enqueue_def when_valid_def run_tx_def enqueue_body_def store_update_def split: sum.splits if_splits)

lemma enqueue_again:
  assumes "ingress_inv d" "validate_enqueue_input input = Inr ()" "is_record (e_payload input)"
    "r \<in> set (updates d)" "u_id r = decimal_value (e_update input)" "identical_update input (u_queue r) r"
  shows "enqueue uuid input now d = (Inr Duplicate, d)"
proof -
  have "(e_key input, u_queue r) \<in> set (aliases d)"
    using assms(1,4,6) by (auto simp: ingress_inv_def updates_ok_def identical_update_def)
  then have "alias_of (e_key input) d = Some (u_queue r)"
    using assms(1) by (simp add: ingress_inv_def alias_of_iff)
  moreover have "first_row (\<lambda>r. u_id r = decimal_value (e_update input)) (updates d) = Some r"
    using update_rows.pk_first_row [of "updates d" r] assms(1,4,5) by (simp add: ingress_inv_def updates_ok_def)
  ultimately show ?thesis
    using assms(2,3,6) by (simp add: enqueue_def run_tx_def enqueue_body_def ensure_queue_def store_update_def)
qed

text \<open>
  Telegram may deliver an update again at any later time. Once \<open>enqueue\<close> accepted an update, the same
  input is recognised for ever (until the purge): it returns \<open>duplicate\<close> and changes nothing, whatever
  happened to the update and to its chat's continuation key since.
\<close>

theorem redelivery_is_duplicate:
  assumes "ingress_inv d" "enqueue uuid input now d = (Inr outcome, d1)"
    "ingress_run d1 es d2" "\<forall>e\<in>set es. \<not> is_purge e"
  shows "enqueue uuid' input now' d2 = (Inr Duplicate, d2)"
proof (cases "is_ignored (decimal_value (e_update input)) d1")
  case True
  then have "is_ignored (decimal_value (e_update input)) d2" using assms(3) by (blast intro: ignored_run)
  then show ?thesis using enqueue_valid [OF assms(2)] by (simp add: enqueue_def run_tx_def enqueue_body_def)
next
  case False
  have inv: "ingress_inv d1" using inv_enqueue [OF assms(1), of uuid input now] assms(2) by simp
  obtain r where r: "r \<in> set (updates d1)" "u_id r = decimal_value (e_update input)"
      "identical_update input (u_queue r) r"
    using enqueue_settled [OF assms(1,2)] False by blast
  have "\<not> is_ignored (decimal_value (e_update input)) d"
    using False side_enqueue [of uuid input now d] assms(2) by (simp add: side_def is_ignored_def)
  then have rec: "is_record (e_payload input)" using enqueue_record [OF assms(2)] by blast
  obtain s where s: "s \<in> set (updates d2)" "same_input s r"
    using settled_rows [OF inv assms(3,4) r(1)] by blast
  have "u_id s = decimal_value (e_update input)" "identical_update input (u_queue s) s"
    using s(2) r(2,3) by (auto simp: same_input_def identical_update_def)
  then show ?thesis
    using enqueue_again [OF inv_run [OF assms(3) inv] enqueue_valid [OF assms(2)] rec s(1)] by blast
qed

text \<open>
  A refused file stays refused. Once \<open>acceptMedia\<close> left its tombstone, no later registration of the
  group and no policy change makes the update acceptable: media is refused and the update is never
  queued.
\<close>

theorem refused_media_stays_refused:
  assumes "accept_media input d = (Inr False, d1)"
    "mi_chat_type input = Channel_chat \<or> \<not> mi_text_fallback input"
    "ingress_run d1 es d2" "mi_update input' = mi_update input" "js_trim (mi_chat input') \<noteq> []"
    "validate_enqueue_input e = Inr ()" "e_update e = mi_update input"
  shows "accept_media input' d2 = (Inr False, d2) \<and> enqueue uuid e now d2 = (Inr Duplicate, d2)"
proof -
  have valid: "require_update_id (mi_update input) = Inr (mi_update input)"
    using assms(1) by (auto simp: accept_media_def when_valid_def res_bind_Inr_iff require_update_id_def
        split: sum.splits if_splits)
  have "is_ignored (decimal_value (mi_update input)) d1"
    using assms(1,2) by (auto simp: accept_media_def when_valid_def run_tx_def accept_media_body_def Let_def
        insert_ignored_media_def is_ignored_def split: sum.splits if_splits)
  then have "is_ignored (decimal_value (mi_update input)) d2"
    using assms(3) by (blast intro: ignored_run)
  then show ?thesis
    using valid assms(4-7) by (simp add: accept_media_def run_tx_def accept_media_body_def enqueue_def
        enqueue_body_def require_non_empty_def)
qed

text \<open>
  Media of groups is refused by default. A new update with a file from a group is accepted only when
  the group is a registered family group, or an external group whose stored allowlist is well formed
  and grants the capability the kind of file needs.
\<close>

theorem media_needs_a_grant:
  assumes "accept_media input d = (Inr True, d')"
    "\<not> exists_row (\<lambda>r. u_id r = decimal_value (mi_update input)) (updates d)"
    "mi_chat_type input \<noteq> Private_chat"
  shows "\<exists>g\<in>set (groups d). g_chat_id g = mi_chat input \<and>
    (g_type g = Family_private \<or>
     distinct (g_allowlist g) \<and> set (g_allowlist g) \<subseteq> set external_group_tool_names \<and>
     (if mi_kind input = Text_document_candidate then ''import_telegram_attachment'' \<in> set (g_allowlist g)
      else mi_kind input \<noteq> Unsupported_media \<and> ''inspect_workspace_image'' \<in> set (g_allowlist g)))"
proof -
  have "group_accepts_media (mi_kind input) (first_row (\<lambda>g. g_chat_id g = mi_chat input) (groups d))"
    using assms by (auto simp: accept_media_def when_valid_def run_tx_def accept_media_body_def Let_def
        split: sum.splits if_splits)
  then obtain g where g: "first_row (\<lambda>g. g_chat_id g = mi_chat input) (groups d) = Some g"
      "group_accepts_media (mi_kind input) (Some g)"
    by (cases "first_row (\<lambda>g. g_chat_id g = mi_chat input) (groups d)") (auto simp: group_accepts_media_def)
  have "inj JStr" by (simp add: inj_def)
  then have names: "parse_external_group_tool_allowlist (Some (JArr (map JStr xs))) = Some ys \<Longrightarrow>
      ys = xs \<and> distinct xs \<and> set xs \<subseteq> set external_group_tool_names" for xs ys
    by (auto simp: parse_allowlist_Some_iff inj_map_eq_map)
  show ?thesis
    using g(2) first_row_Some [OF g(1)]
    by (intro bexI [of _ g]) (auto simp: group_accepts_media_def Let_def dest!: names split: option.splits)
qed

text \<open>The event cursor of an Eve session never moves back, in any run.\<close>

theorem session_cursor_is_monotone:
  assumes "ingress_run d es d'" "cursor_of session d = Some i"
  shows "\<exists>j\<ge>i. cursor_of session d' = Some j"
  using assms
proof (induction arbitrary: i rule: ingress_run.induct)
  case (run_nil d)
  then show ?case by auto
next
  case (run_cons d e d1 es d2)
  from run_cons.hyps(1) have "\<exists>j\<ge>i. cursor_of session d1 = Some j"
  proof (cases rule: ingress_step.cases)
    case (did opn now ok)
    then show ?thesis using cursor_apply_op [OF run_cons.prems, of opn now] by simp
  next
    case elsewhere
    with run_cons.prems show ?thesis by (auto simp: cursor_of_def)
  qed
  then show ?case using run_cons.IH by (meson order_trans)
qed

section \<open>Series, restarts, constraints\<close>

lemma sorted_key_unique:
  assumes "sorted (map key xs)" "sorted (map key ys)" "distinct (map key xs)" "distinct (map key ys)"
    "key ` set xs = key ` set ys"
  shows "map key xs = map key ys"
  using assms by (intro sorted_distinct_set_unique) simp_all

lemma sorted_take_prefix: "sorted (map key (take n (sort_key key xs)))"
  by (simp add: take_map [symmetric] sorted_wrt_take)

lemma sorted_takeWhile_map: "sorted (map key xs) \<Longrightarrow> sorted (map key (takeWhile P xs))"
  using sorted_wrt_take [of "(\<le>)" "map key xs" "length (takeWhile P xs)"]
  by (simp add: take_map takeWhile_eq_take [symmetric])

lemma distinct_map_prefix:
  assumes "distinct (map key xs)"
  shows "distinct (map key (takeWhile P (take n xs)))"
proof -
  have "map key (takeWhile P (take n xs)) = take (length (takeWhile P (take n xs))) (map key (take n xs))"
    by (simp only: take_map takeWhile_eq_take [symmetric])
  also have "\<dots> = take (length (takeWhile P (take n xs))) (take n (map key xs))"
    by (simp only: take_map)
  finally show ?thesis using assms by (simp add: distinct_take)
qed

lemma distinct_ids_sub:
  assumes "ingress_inv d"
  shows "distinct (map u_id (sort_key u_id (filter P (updates d))))"
proof -
  have "distinct (map u_id (filter P (updates d)))"
    using assms by (simp add: ingress_inv_def updates_ok_def update_rows.pk_def distinct_map_filter)
  then show ?thesis
    by (simp add: distinct_map)
qed

lemma claim_rows_ids:
  assumes "ingress_inv d" "\<And>r. r \<in> set rows \<Longrightarrow> \<exists>s\<in>set (updates d). u_queue s = u_queue r \<and> u_id s = u_id r"
  shows "map (decimal_value \<circ> c_update) (claim_rows d rows) = map u_id rows"
  using assms(2)
proof (induction rows)
  case Nil
  then show ?case by (simp add: claim_rows_def)
next
  case (Cons r rows)
  obtain s where s: "s \<in> set (updates d)" "u_queue s = u_queue r" "u_id s = u_id r"
    using Cons.prems by force
  then obtain q where "first_row (\<lambda>q. q_id q = u_queue r) (queues d) = Some q"
    using inv_queue_of [OF assms(1) s(1)] by auto
  moreover have "decimal_value (nat_text (nat (u_id r))) = u_id r"
    using row_id_text [OF inv_row [OF assms(1) s(1)]] s(3) by simp
  moreover have "map (decimal_value \<circ> c_update) (claim_rows d rows) = map u_id rows"
    by (rule Cons.IH) (simp add: Cons.prems)
  ultimately show ?case by (simp add: claim_rows_def claim_fields comp_def)
qed

text \<open>
  \<open>claimFollowing\<close> takes a series, in order and without a gap. With valid arguments it never fails: it
  leases exactly the longest prefix of the pending updates behind the given one (up to the limit)
  in which every update is without voice and accepted, in the order Telegram sent them, or nothing.
  The branch that throws \<open>AGENT_TELEGRAM_SERIES_CLAIM_FAILED\<close> is unreachable.
\<close>

theorem claim_following_takes_the_accepted_prefix:
  assumes "ingress_inv d" "require_lease_milliseconds (fo_lease input) = Inr ms"
    "require_update_id (fo_after input) = Inr u" "\<not> bad_limit (fo_limit input)"
  shows "\<exists>claims d'. claim_following accept input tokens now d = (Inr claims, d') \<and>
    map (decimal_value \<circ> c_update) claims =
      map u_id (takeWhile (\<lambda>r. u_voice_file r = None \<and> accept (u_payload r)) (following_candidates input d))"
proof -
  define P where "P = pending_after (fo_queue input) (decimal_value (fo_after input))"
  define cs where "cs = following_candidates input d"
  define acc where "acc = accepted_run accept cs"
  define hit where "hit = (\<lambda>r :: ingress_update. u_id r \<in> set acc \<and> u_status r = IPending)"
  define acq where "acq = (\<lambda>r :: ingress_update. u_acquire (tokens (u_id r)) (now + millis ms) r)"
  define rows where "rows = sort_key u_id (map acq (filter hit (updates d)))"
  have cs_eq: "cs = take (nat (number_value (fo_limit input))) (sort_key u_id (filter P (updates d)))"
    by (simp add: cs_def following_candidates_def select_ordered_def P_def)
  have cs_in: "r \<in> set (updates d) \<and> u_status r = IPending" if "r \<in> set cs" for r
    using in_set_takeD [OF that [unfolded cs_eq]] by (simp add: P_def pending_after_def)
  have acc_prefix: "acc = map u_id (takeWhile (\<lambda>r. u_voice_file r = None \<and> accept (u_payload r)) cs)"
    by (simp add: acc_def accepted_run_def)
  have "sorted acc"
    unfolding acc_prefix cs_eq by (intro sorted_takeWhile_map sorted_take_prefix)
  moreover have "distinct acc"
    unfolding acc_prefix cs_eq by (intro distinct_map_prefix distinct_ids_sub assms(1))
  moreover have "set (map u_id rows) = set acc"
  proof -
    have "u_id ` set rows = u_id ` {r \<in> set (updates d). hit r}"
      by (simp add: rows_def acq_def image_image)
    also have "\<dots> = set acc"
    proof
      show "u_id ` {r \<in> set (updates d). hit r} \<subseteq> set acc" by (auto simp: hit_def)
      show "set acc \<subseteq> u_id ` {r \<in> set (updates d). hit r}"
      proof
        fix i assume i: "i \<in> set acc"
        then obtain r where "r \<in> set cs" "i = u_id r" unfolding acc_prefix by (auto dest: set_takeWhileD)
        with i cs_in show "i \<in> u_id ` {r \<in> set (updates d). hit r}" by (auto simp: hit_def)
      qed
    qed
    finally show ?thesis by simp
  qed
  moreover have "sorted (map u_id rows)" by (simp add: rows_def)
  moreover have "distinct (map u_id rows)"
  proof -
    have "distinct (map u_id (map acq (filter hit (updates d))))"
      using assms(1) by (simp add: acq_def comp_def) (simp add: ingress_inv_def updates_ok_def update_rows.pk_def distinct_map_filter)
    then show ?thesis unfolding rows_def distinct_map [of u_id] by simp
  qed
  ultimately have rows_acc: "map u_id rows = acc"
    by (intro sorted_distinct_set_unique) auto
  have claims: "map (decimal_value \<circ> c_update) (claim_rows d rows) = acc"
    unfolding rows_acc [symmetric] by (rule claim_rows_ids [OF assms(1)]) (auto simp: rows_def acq_def)
  then have len: "length (claim_rows d rows) = length acc" by (metis length_map)
  have valid: "claim_following accept input tokens now d = run_tx (claim_following_body accept input ms tokens now) d"
    using assms(2-4) by (simp add: claim_following_def)
  show ?thesis
  proof (cases "acc = []")
    case True
    then show ?thesis
      by (simp add: valid run_tx_def claim_following_body_def Let_def flip: cs_def acc_def acc_prefix)
  next
    case False
    have "fst (claim_following accept input tokens now d) = Inr (claim_rows d rows)"
      using False len by (simp add: valid run_tx_def claim_following_body_def Let_def rows_def hit_def acq_def
          flip: cs_def acc_def)
    then show ?thesis
      using claims by (cases "claim_following accept input tokens now d") (simp flip: cs_def acc_prefix)
  qed
qed

text \<open>
  A restart frees what a dead process held. After \<open>releaseStaleLeases\<close> no lease of the predecessor
  is valid any more, every update it was processing can be claimed at once, and no other column of
  any update has changed.
\<close>

theorem restart_frees_every_lease:
  assumes "ingress_inv d" "release_stale_leases now d = (n, d')" "now \<le> later"
  shows "(\<forall>r\<in>set (updates d'). \<not> holds_lease r token later \<and> (u_status r = IProcessing \<longrightarrow> claimable later r)) \<and>
    map (u_expires_update (\<lambda>_. None)) (updates d') = map (u_expires_update (\<lambda>_. None)) (updates d)"
proof -
  have d': "updates d' = update_where (\<lambda>r. u_status r = IProcessing \<and>
      (case u_expires r of None \<Rightarrow> False | Some till \<Rightarrow> now < till)) (\<lambda>r. r\<lparr>u_expires := Some now\<rparr>) (updates d)"
    using assms(2) by (auto simp: release_stale_leases_def Let_def)
  have "\<not> holds_lease r token later \<and> (u_status r = IProcessing \<longrightarrow> claimable later r)"
    if h: "r \<in> set (updates d')" for r
  proof -
    obtain s where s: "s \<in> set (updates d)" "r = (if u_status s = IProcessing \<and>
        (case u_expires s of None \<Rightarrow> False | Some till \<Rightarrow> now < till) then s\<lparr>u_expires := Some now\<rparr> else s)"
      using h unfolding d' set_update_where by blast
    have "row_ok s" using assms(1) s(1) by (rule inv_row)
    then show ?thesis
      using s(2) assms(3) by (auto simp: holds_lease_def claimable_def lease_expired_def row_ok_def
          lease_columns_ok_def split: option.splits if_splits)
  qed
  moreover have "map (u_expires_update (\<lambda>_. None)) (updates d') = map (u_expires_update (\<lambda>_. None)) (updates d)"
    unfolding d' update_where_def by simp
  ultimately show ?thesis by blast
qed

lemma rekey_no_violation:
  assumes "ingress_inv d"
  shows "fst (rekey_queue rk d) \<noteq> Inl (PgError c)"
proof
  assume err: "fst (rekey_queue rk d) = Inl (PgError c)"
  let ?next = "rk_next rk" and ?id = "uuid_of (rk_queue rk)"
  have throw: "rekey_body rk d = Throw (PgError c)" and nonempty: "?next \<noteq> []"
    using err by (cases "rekey_body rk d"; auto simp: rekey_queue_def when_valid_def run_tx_def res_bind_Inl_iff
        res_bind_Inr_iff require_non_empty_def require_uuid_def split: sum.splits if_splits)+
  then obtain q where q: "first_row (\<lambda>q. q_id q = ?id) (queues d) = Some q"
      and prev: "alias_of (rk_previous rk) d = Some (rk_queue rk)"
    by (auto simp: rekey_body_def Let_def split: option.splits if_splits)
  have can: "?id = rk_queue rk" using assms prev by (rule alias_target_canonical)
  have own: "q' \<in> set (queues d) \<Longrightarrow> alias_of (q_key q') d = Some (q_id q')" for q'
    using assms by (auto simp: ingress_inv_def alias_of_iff queues_ok_def)
  show False
  proof (cases "alias_of ?next d")
    case None
    have "q \<in> set (queues d)" "q_id q = ?id" using q by (auto dest: first_row_Some)
    moreover have "\<forall>a\<in>set (aliases d). fst a \<noteq> ?next" using None by (force simp: alias_of_None_iff)
    ultimately have "insert_alias ?next ?id d = Inr (d\<lparr>aliases := aliases d @ [(?next, ?id)]\<rparr>)"
      using nonempty by (auto simp: insert_alias_def)
    moreover have "\<forall>q'\<in>set (queues d). q_key q' \<noteq> ?next" using own None by fastforce
    ultimately show False using throw q prev None by (auto simp: rekey_body_def Let_def split: if_splits)
  next
    case (Some queue)
    have "\<forall>q'\<in>set (queues d). q_key q' = ?next \<longrightarrow> q_id q' = queue" using own Some by fastforce
    then show False using throw q prev Some can by (auto simp: rekey_body_def Let_def split: if_splits)
  qed
qed

text \<open>
  The statements respect the table constraints. In a state the program can reach, no input with an
  object payload makes \<open>enqueue\<close> run into a violated constraint when the generated queue id is new,
  and \<open>rekeyQueue\<close> never does.
\<close>

theorem constraints_are_never_violated:
  assumes "ingress_inv d" "uuid_of uuid \<notin> q_id ` set (queues d)" "is_record (e_payload input)"
  shows "fst (enqueue uuid input now d) \<noteq> Inl (PgError c) \<and> fst (rekey_queue rk d) \<noteq> Inl (PgError c)"
proof -
  have valid_app: "v = Inl e \<Longrightarrow> v = validate_enqueue_input input \<Longrightarrow> \<exists>code. e = AppError code" for v e
    by (auto simp: validate_enqueue_input_def require_update_id_def require_non_empty_def validate_voice_def
        split: if_splits option.splits)
  have key_free: "q \<in> set (queues d) \<Longrightarrow> alias_of (q_key q) d = Some (q_id q)" for q
    using assms(1) by (auto simp: ingress_inv_def alias_of_iff queues_ok_def)
  have ensure: "\<exists>queue d0. ensure_queue uuid (e_key input) d = Inr (queue, d0) \<and> (\<exists>q\<in>set (queues d0). q_id q = queue)"
    if key: "e_key input \<noteq> []"
  proof (cases "alias_of (e_key input) d")
    case (Some queue)
    then have "(e_key input, queue) \<in> set (aliases d)"
      using assms(1) by (simp add: ingress_inv_def alias_of_iff)
    with assms(1) Some show ?thesis by (force simp: ensure_queue_def ingress_inv_def aliases_ok_def)
  next
    case None
    have "\<forall>q\<in>set (queues d). q_id q \<noteq> uuid_of uuid \<and> q_key q \<noteq> e_key input"
      using assms(2) key_free None by (metis imageI option.distinct(1))
    moreover have "\<forall>a\<in>set (aliases d). fst a \<noteq> e_key input"
      using None by (force simp: alias_of_None_iff)
    ultimately show ?thesis
      using None key by (simp add: ensure_queue_def Let_def insert_queue_def insert_alias_def)
  qed
  have "fst (enqueue uuid input now d) \<noteq> Inl (PgError c)"
  proof (cases "validate_enqueue_input input")
    case (Inl e)
    then show ?thesis using valid_app by (auto simp: enqueue_def)
  next
    case (Inr x)
    then have "e_key input \<noteq> []" using validate_enqueue_Inr by auto
    with ensure obtain queue d0 where "ensure_queue uuid (e_key input) d = Inr (queue, d0)"
      "\<exists>q\<in>set (queues d0). q_id q = queue" by blast
    with Inr assms(3) show ?thesis
      by (auto simp: enqueue_def run_tx_def enqueue_body_def store_update_def split: option.splits)
  qed
  moreover have "fst (rekey_queue rk d) \<noteq> Inl (PgError c)"
    by (rule rekey_no_violation [OF assms(1)])
  ultimately show ?thesis by blast
qed

lemma card_ids_le:
  assumes "ingress_inv d"
  shows "row_count (\<lambda>r. u_id r \<in> set ids) (updates d) \<le> length ids"
proof -
  have "distinct (map u_id (filter (\<lambda>r. u_id r \<in> set ids) (updates d)))"
    using assms by (simp add: ingress_inv_def updates_ok_def update_rows.pk_def distinct_map_filter)
  then have "row_count (\<lambda>r. u_id r \<in> set ids) (updates d) =
      card (set (map u_id (filter (\<lambda>r. u_id r \<in> set ids) (updates d))))"
    unfolding row_count_def by (metis distinct_card length_map)
  also have "\<dots> \<le> card (set ids)" by (intro card_mono) auto
  also have "\<dots> \<le> length ids" by (rule card_length)
  finally show ?thesis .
qed

text \<open>
  The retention purge deletes only what it may. A call removes at most one batch; every removed
  update is completed, at least thirty days old and not locked by a worker; failed and unfinished
  updates, and everything else in the table, stay as they are.
\<close>

theorem purge_takes_only_old_completed_updates:
  assumes "ingress_inv d" "purge_completed_telegram_updates locked batch now d = (n, d')"
  shows "n \<le> batch \<and> length (updates d') + n = length (updates d) \<and> set (updates d') \<subseteq> set (updates d) \<and>
    (\<forall>r\<in>set (updates d) - set (updates d').
       u_status r = ICompleted \<and> \<not> locked (u_id r) \<and> (\<exists>t. u_completed r = Some t \<and> t \<le> now - 30 * day))"
proof -
  define sel where "sel = select_ordered (purge_where locked now) (\<lambda>r. the (u_completed r)) batch (updates d)"
  have n: "n = row_count (\<lambda>r. u_id r \<in> set (map u_id sel)) (updates d)"
    and d': "updates d' = delete_where (\<lambda>r. u_id r \<in> set (map u_id sel)) (updates d)"
    using assms(2) by (auto simp: purge_completed_telegram_updates_def Let_def sel_def)
  have "n \<le> length (map u_id sel)" unfolding n by (rule card_ids_le [OF assms(1)])
  then have "n \<le> batch"
    using length_select_ordered [of "purge_where locked now" "\<lambda>r. the (u_completed r)" batch "updates d"]
    by (simp add: sel_def del: length_select_ordered)
  moreover have "length (updates d') + n = length (updates d)"
    unfolding n d' row_count_def delete_where_def using sum_length_filter_compl by (metis add.commute)
  moreover have "\<forall>r\<in>set (updates d) - set (updates d').
      u_status r = ICompleted \<and> \<not> locked (u_id r) \<and> (\<exists>t. u_completed r = Some t \<and> t \<le> now - 30 * day)"
  proof
    fix r assume r: "r \<in> set (updates d) - set (updates d')"
    obtain s where s: "s \<in> set sel" "u_id s = u_id r" using r unfolding d' by (auto simp: delete_where_def)
    then have "s \<in> set (updates d)" "purge_where locked now s"
      using set_select_ordered [of s "purge_where locked now"] by (auto simp: sel_def)
    with assms(1) r s(2) have "purge_where locked now r" by (metis Diff_iff pk_same)
    then show "u_status r = ICompleted \<and> \<not> locked (u_id r) \<and> (\<exists>t. u_completed r = Some t \<and> t \<le> now - 30 * day)"
      by (auto simp: purge_where_def ingress_retention_days_def split: option.splits)
  qed
  moreover have "set (updates d') \<subseteq> set (updates d)" unfolding d' by (auto simp: delete_where_def)
  ultimately show ?thesis by blast
qed

end
