(* ===== verification/Ingress_Drain.thy ===== *)
theory Ingress_Drain
  imports Message_Policy Ingress_Properties
begin

text \<open>
  agent/lib/telegram-durable-ingress.ts: the loop that leases updates from the queue, hands them to Eve and settles
  them. Every call of the repository happens at its own instant, after whatever other workers, webhooks and the
  heartbeats of this worker did since the last one (\<open>dw_others\<close>); the log keeps all of it in order. A lease that
  its heartbeat could not renew is seen through \<open>dw_heartbeat\<close>.
\<close>

section \<open>The world around the loop\<close>

text \<open>
  A session of Eve: its id, and for each index the types of the events that its stream delivers from there on with the
  error the stream ends in, if it does not just end.
\<close>

record eve_session =
  es_id :: string
  es_events :: "int \<Rightarrow> string list \<times> app_error option"

datatype drain_event =
    Ours ingress_op time bool
  | Theirs ingress_event
  | Leased ingress_claim
  | Dispatched string
  | Noticed string string

text \<open>
  \<open>dw_parse\<close> is Eve's parser and \<open>dw_answer\<close> its dispatcher; \<open>dw_located\<close>, \<open>dw_pending\<close>, \<open>dw_captionless\<close> and \<open>dw_wording\<close>
  are texts for people and the model; \<open>dw_software\<close>, \<open>dw_voice_allowed\<close> and \<open>dw_transcribe\<close> are the dependencies of
  the loop. What may answer differently each time has the number of the call as an argument.
\<close>

record drain_world =
  dw_burst :: burst_policy
  dw_lease :: js_number
  dw_bot :: string
  dw_named :: "string \<Rightarrow> bool"
  dw_nfkc :: "string \<Rightarrow> string"
  dw_clock :: "nat \<Rightarrow> time"
  dw_token :: "nat \<Rightarrow> string"
  dw_tokens :: "nat \<Rightarrow> int \<Rightarrow> string"
  dw_locked :: "nat \<Rightarrow> int \<Rightarrow> bool"
  dw_others :: "nat \<Rightarrow> database \<Rightarrow> ingress_event list \<times> database"
  dw_parse :: "json \<Rightarrow> inbound_update option"
  dw_located :: "inbound_update \<Rightarrow> inbound_update"
  dw_pending :: "(json \<times> time) list \<Rightarrow> json list"
  dw_captionless :: string
  dw_wording :: "string \<Rightarrow> string"
  dw_answer :: "nat \<Rightarrow> inbound_update \<Rightarrow> eve_session option result"
  dw_software :: "nat \<Rightarrow> callback_query \<Rightarrow> bool result"
  dw_voice_allowed :: "nat \<Rightarrow> inbound_message \<Rightarrow> bool result"
  dw_transcribe :: "nat \<Rightarrow> ingress_voice \<Rightarrow> string result"
  dw_heartbeat :: "nat \<Rightarrow> app_error option"

text \<open>\<open>dr_pending\<close> is the variable \<open>pending\<close>: the leased updates that are not settled yet, in queue order.\<close>

record drain_state =
  dr_db :: database
  dr_tick :: nat
  dr_log :: "drain_event list"
  dr_pending :: "ingress_claim list"
  dr_released :: bool

type_synonym 'a drained = "'a result \<times> drain_state"

definition drain_bind :: "'a drained \<Rightarrow> ('a \<Rightarrow> drain_state \<Rightarrow> 'b drained) \<Rightarrow> 'b drained" where
  "drain_bind m f = (case m of (Inl e, s) \<Rightarrow> (Inl e, s) | (Inr x, s) \<Rightarrow> f x s)"

definition others_act :: "drain_world \<Rightarrow> drain_state \<Rightarrow> drain_state" where
  "others_act w s =
     (case dw_others w (dr_tick s) (dr_db s) of
        (es, d) \<Rightarrow> s\<lparr>dr_db := d, dr_tick := Suc (dr_tick s), dr_log := dr_log s @ map Theirs es\<rparr>)"

text \<open>A call that changes the queue, a query, and a call of another dependency.\<close>

definition perform ::
  "drain_world \<Rightarrow> ingress_op \<Rightarrow> (time \<Rightarrow> database \<Rightarrow> 'a result \<times> database) \<Rightarrow> drain_state \<Rightarrow> 'a drained" where
  "perform w opn f s =
     (let s1 = others_act w s; now = dw_clock w (dr_tick s) in
      case f now (dr_db s1) of
        (r, d) \<Rightarrow> (r, s1\<lparr>dr_db := d, dr_log := dr_log s1 @ [Ours opn now (is_ok r)]\<rparr>))"

definition ask :: "drain_world \<Rightarrow> (time \<Rightarrow> database \<Rightarrow> 'a result) \<Rightarrow> drain_state \<Rightarrow> 'a drained" where
  "ask w f s = (let s1 = others_act w s in (f (dw_clock w (dr_tick s)) (dr_db s1), s1))"

definition outside :: "(nat \<Rightarrow> 'a result) \<Rightarrow> drain_state \<Rightarrow> 'a drained" where
  "outside f s = (f (dr_tick s), s\<lparr>dr_tick := Suc (dr_tick s)\<rparr>)"

definition lease_to :: "ingress_claim list \<Rightarrow> drain_state \<Rightarrow> drain_state" where
  "lease_to claims s = s\<lparr>dr_pending := dr_pending s @ claims, dr_log := dr_log s @ map Leased claims\<rparr>"

definition shift_pending :: "drain_state \<Rightarrow> drain_state" where
  "shift_pending s = s\<lparr>dr_pending := tl (dr_pending s)\<rparr>"

definition complete_claim :: "drain_world \<Rightarrow> ingress_claim \<Rightarrow> drain_state \<Rightarrow> unit drained" where
  "complete_claim w c = perform w (Op_complete (c_update c) (c_token c)) (complete (c_update c) (c_token c))"

section \<open>Telling the person\<close>

definition positive_id :: "json option \<Rightarrow> bool" where
  "positive_id v = (case v of
     Some (JNum n) \<Rightarrow> of_int \<lfloor>n\<rfloor> = n \<and> \<lfloor>n\<rfloor> \<le> max_safe_integer \<and> 0 < n | _ \<Rightarrow> False)"

definition has_whisper_marker :: "jobj \<Rightarrow> bool" where
  "has_whisper_marker raw =
     (case member_of raw ''osinara_whisper'' of
        Some (JObj marker) \<Rightarrow>
          positive_id (member_of marker ''ephemeralMessageId'') \<and> positive_id (member_of marker ''placeholderMessageId'') \<and>
          (case member_of marker ''receiverUserId'' of Some v \<Rightarrow> positive_id_text v | None \<Rightarrow> False)
      | _ \<Rightarrow> False)"

definition notify_failure :: "drain_world \<Rightarrow> ingress_claim \<Rightarrow> string \<Rightarrow> drain_state \<Rightarrow> drain_state" where
  "notify_failure w c code s =
     (if code = ''AGENT_TELEGRAM_LEASE_LOST'' then s
      else (case dw_parse w (c_payload c) of
          Some (Message_in m) \<Rightarrow>
            if im_chat_type m = Private_chat \<or> has_whisper_marker (im_raw m)
            then s\<lparr>dr_log := dr_log s @ [Noticed (c_update c) code]\<rparr> else s
        | _ \<Rightarrow> s))"

section \<open>Handing one update to Eve\<close>

text \<open>
  \<open>waitForSessionBoundary\<close>: reads events until the session waits, completes or fails, or until an answered prompt
  leaves others open. \<open>asks\<close> is the session whose prompts a pressed button may leave open.
\<close>

fun read_stream ::
  "drain_world \<Rightarrow> string option \<Rightarrow> app_error option \<Rightarrow> string list \<Rightarrow> int \<Rightarrow> drain_state \<Rightarrow> (int \<times> bool) drained" where
  "read_stream w asks stop [] i s =
     (Inl (case stop of Some e \<Rightarrow> e | None \<Rightarrow> AppError ''AGENT_TELEGRAM_SESSION_BOUNDARY_MISSING''), s)"
| "read_stream w asks stop (e # es) i s =
     (if e = ''session.waiting'' \<or> e = ''session.completed'' \<or> e = ''session.failed''
      then (Inr (i + 1, e = ''session.failed''), s)
      else if e = ''approval.settled'' then
        (case asks of
           Some session \<Rightarrow>
             drain_bind (ask w (\<lambda>_. has_pending_approvals session) s) (\<lambda>pending s.
               if pending then (Inr (i + 1, False), s) else read_stream w asks stop es (i + 1) s)
         | None \<Rightarrow> read_stream w asks stop es (i + 1) s)
      else read_stream w asks stop es (i + 1) s)"

definition wait_for_session_boundary ::
  "drain_world \<Rightarrow> eve_session \<Rightarrow> int \<Rightarrow> string option \<Rightarrow> drain_state \<Rightarrow> (int \<times> bool) drained" where
  "wait_for_session_boundary w session start asks s =
     (case es_events session start of (events, stop) \<Rightarrow> read_stream w asks stop events start s)"

definition with_captionless_attachment_text :: "string \<Rightarrow> inbound_update \<Rightarrow> inbound_update" where
  "with_captionless_attachment_text text update =
     (case update of
        Callback_in q \<Rightarrow> update
      | Message_in m \<Rightarrow>
          if im_attachments m = [] \<or> js_trim (im_text m) \<noteq> [] \<or> js_trim (im_caption m) \<noteq> [] then update
          else Message_in (m\<lparr>im_body := (im_body m)\<lparr>tm_text := text\<rparr>\<rparr>))"

text \<open>The update as Eve gets it: its own id, its place in the series, the messages that wait after it.\<close>

definition on_message :: "(inbound_message \<Rightarrow> inbound_message) \<Rightarrow> inbound_update \<Rightarrow> inbound_update" where
  "on_message f update = (case update of Message_in m \<Rightarrow> Message_in (f m) | Callback_in q \<Rightarrow> update)"

definition outbound_update ::
  "drain_world \<Rightarrow> ingress_claim \<Rightarrow> inbound_update \<Rightarrow> series_marker option \<Rightarrow> json list \<Rightarrow> inbound_update" where
  "outbound_update w c update marker later_messages =
     (let stamped = on_message (with_raw_member ''osinara_update_id'' (JStr (c_update c))) update;
          marked = (case marker of None \<Rightarrow> stamped | Some k \<Rightarrow> on_message (with_series_marker k) stamped)
      in if later_messages = [] then marked
         else on_message (with_raw_member ''osinara_pending'' (JArr later_messages)) marked)"

definition dispatch_update :: "drain_world \<Rightarrow> ingress_claim \<Rightarrow> inbound_update \<Rightarrow> drain_state \<Rightarrow> eve_session option drained" where
  "dispatch_update w c outbound s =
     (dw_answer w (dr_tick s) (with_captionless_attachment_text (dw_captionless w) outbound),
      s\<lparr>dr_tick := Suc (dr_tick s), dr_log := dr_log s @ [Dispatched (c_update c)]\<rparr>)"

definition follow_session ::
  "drain_world \<Rightarrow> ingress_claim \<Rightarrow> inbound_update \<Rightarrow> eve_session \<Rightarrow> drain_state \<Rightarrow> unit drained" where
  "follow_session w c update session s =
     drain_bind (ask w (\<lambda>_. session_event_stream_cursor (es_id session)) s) (\<lambda>cursor s.
     drain_bind (wait_for_session_boundary w session cursor
         (case update of Callback_in q \<Rightarrow> Some (es_id session) | Message_in m \<Rightarrow> None) s) (\<lambda>(next_index, failed) s.
     case dw_heartbeat w (dr_tick s) of
       Some e \<Rightarrow> (Inl e, s)
     | None \<Rightarrow>
         drain_bind (perform w (Op_complete_session (c_update c) (c_token c) (es_id session) (Int_num next_index))
             (complete_with_session (c_update c) (c_token c) (es_id session) (Int_num next_index)) s) (\<lambda>_ s.
         (Inr (), case update of
             Message_in m \<Rightarrow>
               if failed \<and> has_whisper_marker (im_raw m) then notify_failure w c ''AGENT_TELEGRAM_SESSION_FAILED'' s else s
           | Callback_in q \<Rightarrow> s))))"

definition dispatch_leased ::
  "drain_world \<Rightarrow> ingress_claim \<Rightarrow> inbound_update \<Rightarrow> series_marker option \<Rightarrow> json list \<Rightarrow> drain_state \<Rightarrow> unit drained" where
  "dispatch_leased w c update marker later_messages s =
     (let later = dw_clock w (Suc (dr_tick s)) in
      drain_bind (perform w (Op_begin_dispatch (c_update c) (c_token c) later)
          (\<lambda>now. begin_dispatch (c_update c) (c_token c) now later) s) (\<lambda>_ s.
      drain_bind (dispatch_update w c (outbound_update w c update marker later_messages) s) (\<lambda>session s.
      case session of
        None \<Rightarrow> complete_claim w c s
      | Some session \<Rightarrow> follow_session w c update session s)))"

section \<open>Preparing the claimed update\<close>

definition non_empty_parts :: "string list \<Rightarrow> string list" where
  "non_empty_parts = filter (\<lambda>s. s \<noteq> [])"

definition should_transcribe_voice :: "drain_world \<Rightarrow> inbound_message \<Rightarrow> bool" where
  "should_transcribe_voice w m =
     is_message_addressed_to_bot (dw_named w)
       (m\<lparr>im_body := (im_body m)\<lparr>tm_text := join_with [CHR 0x0A] (non_empty_parts [im_text m, im_caption m])\<rparr>\<rparr>) (dw_bot w)"

definition with_transcript :: "json \<Rightarrow> string \<Rightarrow> json result" where
  "with_transcript payload transcript =
     (case payload of
        JObj kvs \<Rightarrow>
          (case member_of kvs ''message'' of
             Some (JObj message) \<Rightarrow> Inr (JObj (set_member kvs ''message'' (JObj (set_member message ''text'' (JStr transcript)))))
           | _ \<Rightarrow> Inl (AppError ''AGENT_TELEGRAM_VOICE_INVALID''))
      | _ \<Rightarrow> Inl (AppError ''AGENT_TELEGRAM_VOICE_INVALID''))"

text \<open>A transcript the queue already has is used; an empty one counts as none but is not replaced.\<close>

definition no_transcript :: "ingress_claim \<Rightarrow> bool" where
  "no_transcript c \<longleftrightarrow> c_transcript c = None \<or> c_transcript c = Some []"

definition mark_transcription :: "drain_world \<Rightarrow> ingress_claim \<Rightarrow> drain_state \<Rightarrow> unit drained" where
  "mark_transcription w c s =
     (let later = dw_clock w (Suc (dr_tick s)) in
      if no_transcript c
      then drain_bind (perform w (Op_begin_transcription (c_update c) (c_token c) later)
        (\<lambda>now. begin_voice_transcription (c_update c) (c_token c) now later) s) (\<lambda>_ s. (Inr (), s))
      else (Inr (), s))"

definition spoken_text :: "drain_world \<Rightarrow> ingress_claim \<Rightarrow> ingress_voice \<Rightarrow> drain_state \<Rightarrow> string drained" where
  "spoken_text w c voice s =
     (case c_transcript c of
        Some t \<Rightarrow> (Inr t, s)
      | None \<Rightarrow> drain_bind (outside (\<lambda>n. dw_transcribe w n voice) s) (\<lambda>t s. (Inr (js_trim t), s)))"

definition keep_transcript :: "drain_world \<Rightarrow> ingress_claim \<Rightarrow> string \<Rightarrow> drain_state \<Rightarrow> string drained" where
  "keep_transcript w c t s =
     (if t = [] then (Inl (AppError ''AGENT_VOICE_TRANSCRIPT_EMPTY''), s)
      else if no_transcript c
        then drain_bind (perform w (Op_save_transcript (c_update c) (c_token c) t)
          (save_voice_transcript (c_update c) (c_token c) t) s) (\<lambda>_ s. (Inr t, s))
      else (Inr t, s))"

definition transcribed ::
  "drain_world \<Rightarrow> ingress_claim \<Rightarrow> ingress_voice \<Rightarrow> drain_state \<Rightarrow> string drained" where
  "transcribed w c voice s =
     drain_bind (mark_transcription w c s) (\<lambda>_ s.
     drain_bind (spoken_text w c voice s) (\<lambda>t s.
     keep_transcript w c t s))"

definition prepare_voice :: "drain_world \<Rightarrow> ingress_claim \<Rightarrow> inbound_update \<Rightarrow> drain_state \<Rightarrow> inbound_update drained" where
  "prepare_voice w c update s =
     (case (c_voice c, update) of
        (Some voice, Message_in m) \<Rightarrow>
          if \<not> should_transcribe_voice w m then (Inr update, s)
          else drain_bind (outside (\<lambda>n. dw_voice_allowed w n m) s) (\<lambda>allowed s.
            if \<not> allowed then (Inr update, s)
            else drain_bind (transcribed w c voice s) (\<lambda>t s.
              (res_bind (with_transcript (c_payload c) t) (\<lambda>payload.
                 case dw_parse w payload of
                   None \<Rightarrow> Inl (AppError ''AGENT_TELEGRAM_PAYLOAD_INVALID'')
                 | Some u \<Rightarrow> Inr (normalize_inbound u)), s)))
      | _ \<Rightarrow> (Inr update, s))"

definition prepared :: "drain_world \<Rightarrow> json \<Rightarrow> inbound_update option" where
  "prepared w payload = map_option (\<lambda>u. dw_located w (normalize_inbound u)) (dw_parse w payload)"

definition joins_series :: "drain_world \<Rightarrow> inbound_update \<Rightarrow> json \<Rightarrow> bool" where
  "joins_series w head payload =
     (case prepared w payload of None \<Rightarrow> False | Some candidate \<Rightarrow> continues_series (dw_nfkc w) head candidate (dw_bot w))"

fun all_prepared :: "drain_world \<Rightarrow> ingress_claim list \<Rightarrow> (ingress_claim \<times> inbound_update) list result" where
  "all_prepared w [] = Inr []"
| "all_prepared w (c # cs) =
     (case prepared w (c_payload c) of
        None \<Rightarrow> Inl (AppError ''AGENT_TELEGRAM_PAYLOAD_INVALID'')
      | Some u \<Rightarrow> res_bind (all_prepared w cs) (\<lambda>rest. Inr ((c, u) # rest)))"

text \<open>
  The followers are pushed to \<open>pending\<close> by the caller, one by one, right after they are returned: nothing can fail in
  between, so they are leased to this worker here.
\<close>

definition series_input :: "drain_world \<Rightarrow> ingress_claim \<Rightarrow> following_input" where
  "series_input w head =
     \<lparr>fo_after = c_update head, fo_lease = dw_lease w, fo_limit = Int_num (int (series_max_messages - 1)), fo_queue = c_queue head\<rparr>"

definition claim_series_followers ::
  "drain_world \<Rightarrow> ingress_claim \<Rightarrow> inbound_update \<Rightarrow> drain_state \<Rightarrow> (ingress_claim \<times> inbound_update) list drained" where
  "claim_series_followers w head update s =
     (case update of
        Callback_in q \<Rightarrow> (Inr [], s)
      | Message_in m \<Rightarrow>
          if \<not> is_series_eligible (dw_nfkc w) update (dw_bot w) then (Inr [], s)
          else drain_bind (ask w (\<lambda>_. has_pending_approvals_in_chat (im_chat m)) s) (\<lambda>waiting s.
            if waiting then (Inr [], s)
            else (let accept = joins_series w update; tokens = dw_tokens w (dr_tick s) in
              drain_bind (perform w (Op_claim_following accept (series_input w head) tokens)
                  (claim_following accept (series_input w head) tokens) s) (\<lambda>claims s.
              (all_prepared w claims, s\<lparr>dr_log := dr_log s @ map Leased claims\<rparr>)))))"

definition message_of :: "inbound_update \<Rightarrow> inbound_message list" where
  "message_of update = (case update of Message_in m \<Rightarrow> [m] | Callback_in q \<Rightarrow> [])"

definition series_marker_at ::
  "drain_world \<Rightarrow> (ingress_claim \<times> inbound_update) list \<Rightarrow> nat \<Rightarrow> series_marker option" where
  "series_marker_at w series index =
     (if length series = 1 then None
      else if index < length series - 1 then Some Series_context
      else (let messages = concat (map (message_of \<circ> snd) series) in
        Some (Series_current (list_ex (\<lambda>m. is_message_addressed_to_bot (dw_named w) m (dw_bot w)) messages)
          (map (c_update \<circ> fst) (butlast series)) (map im_id (butlast messages)))))"

definition waiting_after :: "drain_world \<Rightarrow> ingress_claim \<times> inbound_update \<Rightarrow> drain_state \<Rightarrow> json list drained" where
  "waiting_after w item s =
     (case snd item of
        Callback_in q \<Rightarrow> (Inr [], s)
      | Message_in m \<Rightarrow>
          drain_bind (ask w (\<lambda>_. list_pending_after (c_queue (fst item)) (c_update (fst item)) (Int_num 10)) s)
            (\<lambda>rows s. (Inr (dw_pending w rows), s)))"

fun dispatch_series ::
  "drain_world \<Rightarrow> (ingress_claim \<times> inbound_update) list \<Rightarrow> json list \<Rightarrow> (ingress_claim \<times> inbound_update) list \<Rightarrow> nat
     \<Rightarrow> drain_state \<Rightarrow> unit drained" where
  "dispatch_series w series later_messages [] index s = (Inr (), s)"
| "dispatch_series w series later_messages (item # rest) index s =
     drain_bind (dispatch_leased w (fst item) (snd item) (series_marker_at w series index)
         (if rest = [] then later_messages else []) s) (\<lambda>_ s.
       dispatch_series w series later_messages rest (Suc index) (shift_pending s))"

definition handled_by_application :: "drain_world \<Rightarrow> inbound_update \<Rightarrow> drain_state \<Rightarrow> bool drained" where
  "handled_by_application w update s =
     (case update of Callback_in q \<Rightarrow> outside (\<lambda>n. dw_software w n q) s | Message_in m \<Rightarrow> (Inr False, s))"

definition handle_claim :: "drain_world \<Rightarrow> ingress_claim \<Rightarrow> drain_state \<Rightarrow> unit drained" where
  "handle_claim w c s =
     (case prepared w (c_payload c) of
        None \<Rightarrow> drain_bind (complete_claim w c s) (\<lambda>_ s. (Inr (), shift_pending s))
      | Some update \<Rightarrow>
          drain_bind (handled_by_application w update s) (\<lambda>handled s.
          if handled then drain_bind (complete_claim w c s) (\<lambda>_ s. (Inr (), shift_pending s))
          else
            drain_bind (prepare_voice w c update s) (\<lambda>update s.
            drain_bind (claim_series_followers w c update s) (\<lambda>followers s.
              (let series = (c, update) # followers;
                   s = s\<lparr>dr_pending := dr_pending s @ map fst followers\<rparr> in
               drain_bind (waiting_after w (last series) s) (\<lambda>later_messages s.
                 dispatch_series w series later_messages series 0 s))))))"

section \<open>When the iteration fails\<close>

definition hook_missing :: "app_error \<Rightarrow> bool" where
  "hook_missing e \<longleftrightarrow> e = HostError ''HookNotFoundError''"

definition hook_missing_max_attempts :: int where "hook_missing_max_attempts = 10"

definition drain_failure_code :: "app_error \<Rightarrow> string" where
  "drain_failure_code e = (case e of AppError code \<Rightarrow> code | _ \<Rightarrow> ''AGENT_TELEGRAM_INGRESS_FAILED'')"

definition drain_failure :: "drain_world \<Rightarrow> string \<Rightarrow> ingress_failure" where
  "drain_failure w code = \<lparr>f_code = code, f_message = dw_wording w code\<rparr>"

fun release_each :: "drain_world \<Rightarrow> ingress_claim list \<Rightarrow> drain_state \<Rightarrow> unit drained" where
  "release_each w [] s = (Inr (), s)"
| "release_each w (c # cs) s =
     (let f = drain_failure w ''AGENT_TELEGRAM_SERIES_RETURNED'' in
      drain_bind (perform w (Op_release (c_update c) (c_token c) f) (release (c_update c) (c_token c) f) s)
        (\<lambda>_ s. release_each w cs s))"

definition settle_failed :: "drain_world \<Rightarrow> app_error \<Rightarrow> ingress_claim \<Rightarrow> bool \<Rightarrow> drain_state \<Rightarrow> unit drained" where
  "settle_failed w e c retry s =
     (if retry then
        (let f = drain_failure w ''AGENT_TELEGRAM_SESSION_HOOK_PENDING'' in
         perform w (Op_release_undelivered (c_update c) (c_token c) f) (release_undelivered (c_update c) (c_token c) f) s)
      else
        (let f = drain_failure w (drain_failure_code e) in
         drain_bind (perform w (Op_fail (c_update c) (c_token c) f) (fail_update (c_update c) (c_token c) f) s)
           (\<lambda>_ s. (Inr (), notify_failure w c (drain_failure_code e) s))))"

definition after_failure :: "drain_world \<Rightarrow> app_error \<Rightarrow> drain_state \<Rightarrow> unit drained" where
  "after_failure w e s =
     (case dr_pending s of
        [] \<Rightarrow> (Inl e, s)
      | failed # untouched \<Rightarrow>
          (let retry = hook_missing e \<and> c_attempts failed < hook_missing_max_attempts in
           drain_bind (settle_failed w e failed retry s) (\<lambda>_ s.
           drain_bind (release_each w untouched s) (\<lambda>_ s.
           if retry then (Inr (), s) else (Inl e, s)))))"

section \<open>The loop\<close>

datatype drain_turn = Drain_again | Drain_stop

definition drain_once :: "drain_world \<Rightarrow> drain_state \<Rightarrow> drain_turn drained" where
  "drain_once w s =
     (let locked = dw_locked w (dr_tick s); token = dw_token w (dr_tick s) in
      drain_bind (perform w (Op_claim_next (dw_lease w) (dw_burst w) locked token)
          (claim_next (dw_lease w) (dw_burst w) locked token) s) (\<lambda>claim s.
      case claim of
        None \<Rightarrow>
          drain_bind (ask w (held_private_chat_ready_in (dw_burst w)) s) (\<lambda>wait s.
            (Inr (case wait of
                Some ms \<Rightarrow> if ms \<le> number_value (max_wait_ms (dw_burst w)) then Drain_again else Drain_stop
              | None \<Rightarrow> Drain_stop), s))
      | Some c \<Rightarrow>
          (case handle_claim w c (lease_to [c] (s\<lparr>dr_pending := []\<rparr>)) of
             (Inr u, s) \<Rightarrow> (Inr Drain_again, s)
           | (Inl e, s) \<Rightarrow> drain_bind (after_failure w e s) (\<lambda>_ s. (Inr Drain_again, s)))))"

text \<open>\<open>while (true)\<close>: with \<open>n\<close> iterations, \<open>None\<close> when the loop still goes on after them.\<close>

fun drain_loop :: "nat \<Rightarrow> drain_world \<Rightarrow> drain_state \<Rightarrow> unit result option \<times> drain_state" where
  "drain_loop 0 w s = (None, s)"
| "drain_loop (Suc n) w s =
     (case drain_once w s of
        (Inl e, s) \<Rightarrow> (Some (Inl e), s)
      | (Inr Drain_stop, s) \<Rightarrow> (Some (Inr ()), s)
      | (Inr Drain_again, s) \<Rightarrow> drain_loop n w s)"

definition drain :: "nat \<Rightarrow> drain_world \<Rightarrow> drain_state \<Rightarrow> unit result option \<times> drain_state" where
  "drain n w s =
     (if dr_released s then drain_loop n w s
      else drain_loop n w (snd (perform w Op_release_stale (\<lambda>now d. map_prod Inr id (release_stale_leases now d))
        (s\<lparr>dr_released := True\<rparr>) :: nat drained)))"

end
