(* ===== verification/Ingress_Drain_Properties.thy ===== *)
theory Ingress_Drain_Properties
  imports Ingress_Drain
begin

text \<open>
  What the drain loop does to the queue: it is a run of the ingress machine, it hands an update to Eve only under a
  fresh marker and when all earlier leases are settled, and it settles what it leases.
\<close>

section \<open>Reading the log\<close>

definition ran :: "drain_event list \<Rightarrow> ingress_event list" where
  "ran evs = concat (map (\<lambda>e. case e of Ours opn now ok \<Rightarrow> [Did opn now ok] | Theirs ev \<Rightarrow> [ev] | _ \<Rightarrow> []) evs)"

text \<open>The lease an operation settles, by update and token.\<close>

fun settles :: "ingress_op \<Rightarrow> (string \<times> string) option" where
  "settles (Op_complete u t) = Some (u, t)"
| "settles (Op_complete_session u t s n) = Some (u, t)"
| "settles (Op_release u t f) = Some (u, t)"
| "settles (Op_release_undelivered u t f) = Some (u, t)"
| "settles (Op_fail u t f) = Some (u, t)"
| "settles _ = None"

abbreviation lease_key :: "ingress_claim \<Rightarrow> string \<times> string" where "lease_key c \<equiv> (c_update c, c_token c)"

definition leased :: "drain_event list \<Rightarrow> (string \<times> string) list" where
  "leased evs = concat (map (\<lambda>e. case e of Leased c \<Rightarrow> [lease_key c] | _ \<Rightarrow> []) evs)"

text \<open>Settled is what a call of this worker settled, not what it failed to settle.\<close>

definition settled :: "drain_event list \<Rightarrow> (string \<times> string) list" where
  "settled evs = concat (map (\<lambda>e. case e of
      Ours opn now ok \<Rightarrow> (case settles opn of None \<Rightarrow> [] | Some k \<Rightarrow> if ok then [k] else []) | _ \<Rightarrow> []) evs)"

text \<open>Every update that went to Eve was marked right before.\<close>

definition under_marker :: "drain_event list \<Rightarrow> bool" where
  "under_marker evs \<longleftrightarrow> (\<forall>xs u ys. evs = xs @ Dispatched u # ys \<longrightarrow>
     (\<exists>zs t later now. xs = zs @ [Ours (Op_begin_dispatch u t later) now True]))"

text \<open>
  With \<open>xs\<close> owed before: whenever an update goes to Eve, this worker has just marked it with the token of its lease, and of
  all it leased so far exactly what came before it is settled.
\<close>

definition in_turn :: "(string \<times> string) list \<Rightarrow> drain_event list \<Rightarrow> bool" where
  "in_turn xs evs \<longleftrightarrow> (\<forall>before u after. evs = before @ Dispatched u # after \<longrightarrow>
     (\<exists>t zs later now rest. before = zs @ [Ours (Op_begin_dispatch u t later) now True] \<and>
       xs @ leased before = settled before @ (u, t) # rest))"

text \<open>The others act on the queue through the operations of the repository, too.\<close>

definition others_run :: "drain_world \<Rightarrow> bool" where
  "others_run w \<longleftrightarrow> (\<forall>n d. ingress_run d (fst (dw_others w n d)) (snd (dw_others w n d)))"

lemma log_append [simp]:
  "ran (xs @ ys) = ran xs @ ran ys" "leased (xs @ ys) = leased xs @ leased ys"
  "settled (xs @ ys) = settled xs @ settled ys"
  by (simp_all add: ran_def leased_def settled_def)

lemma log_simps [simp]:
  "ran [] = []" "leased [] = []" "settled [] = []"
  "ran (map Theirs es) = es" "leased (map Theirs es) = []" "settled (map Theirs es) = []"
  "ran (map Leased cs) = []" "leased (map Leased cs) = map lease_key cs" "settled (map Leased cs) = []"
  "ran (Ours opn now ok # evs) = Did opn now ok # ran evs" "leased (Ours opn now ok # evs) = leased evs"
  "settled (Ours opn now ok # evs) = (case settles opn of None \<Rightarrow> [] | Some k \<Rightarrow> if ok then [k] else []) @ settled evs"
  "ran (Dispatched u # evs) = ran evs" "leased (Dispatched u # evs) = leased evs" "settled (Dispatched u # evs) = settled evs"
  "ran (Noticed u c # evs) = ran evs" "leased (Noticed u c # evs) = leased evs" "settled (Noticed u c # evs) = settled evs"
  by (simp_all add: ran_def leased_def settled_def comp_def)

lemma under_marker_append:
  assumes "under_marker xs" "under_marker ys"
  shows "under_marker (xs @ ys)"
  unfolding under_marker_def
proof (intro allI impI)
  fix as u bs assume "xs @ ys = as @ Dispatched u # bs"
  then consider us where "as = xs @ us" "ys = us @ Dispatched u # bs" | us where "xs = as @ Dispatched u # us"
    using assms(2) by (auto simp: append_eq_append_conv2 append_eq_Cons_conv under_marker_def)
  then show "\<exists>zs t later now. as = zs @ [Ours (Op_begin_dispatch u t later) now True]"
  proof cases
    case (1 us)
    then obtain zs t later now where "us = zs @ [Ours (Op_begin_dispatch u t later) now True]"
      using assms(2) unfolding under_marker_def by blast
    with 1 show ?thesis by (intro exI [of _ "xs @ zs"]) auto
  next
    case (2 us)
    then show ?thesis using assms(1) unfolding under_marker_def by blast
  qed
qed

lemma under_marker_free: "\<forall>u. Dispatched u \<notin> set evs \<Longrightarrow> under_marker evs"
  by (auto simp: under_marker_def)

lemma under_marker_pair: "under_marker [Ours (Op_begin_dispatch u t later) now True, Dispatched u]"
  by (auto simp: under_marker_def Cons_eq_append_conv)

lemma in_turn_append:
  assumes first: "in_turn xs l1" "xs @ leased l1 = settled l1 @ ys" and second: "in_turn ys l2"
  shows "in_turn xs (l1 @ l2)"
  unfolding in_turn_def
proof (intro allI impI)
  fix as u bs assume "l1 @ l2 = as @ Dispatched u # bs"
  then consider us where "as = l1 @ us" "l2 = us @ Dispatched u # bs" | us where "l1 = as @ Dispatched u # us"
    by (auto simp: append_eq_append_conv2 append_eq_Cons_conv)
  then show "\<exists>t zs later now rest. as = zs @ [Ours (Op_begin_dispatch u t later) now True] \<and>
      xs @ leased as = settled as @ (u, t) # rest"
  proof cases
    case (1 us)
    then obtain t zs later now rest where us: "us = zs @ [Ours (Op_begin_dispatch u t later) now True]"
        "ys @ leased us = settled us @ (u, t) # rest"
      using second unfolding in_turn_def by blast
    have "xs @ leased as = settled l1 @ ys @ leased us" unfolding 1(1) using first(2) by simp
    then have "xs @ leased as = settled as @ (u, t) # rest" unfolding us(2) 1(1) by simp
    moreover have "as = (l1 @ zs) @ [Ours (Op_begin_dispatch u t later) now True]" using 1(1) us(1) by simp
    ultimately show ?thesis by blast
  next
    case (2 us)
    then show ?thesis using first(1) unfolding in_turn_def by blast
  qed
qed

lemma in_turn_free: "\<forall>u. Dispatched u \<notin> set evs \<Longrightarrow> in_turn xs evs"
  by (auto simp: in_turn_def)

lemma in_turn_pair: "in_turn ((u, t) # xs) [Ours (Op_begin_dispatch u t later) now True, Dispatched u]"
  by (auto simp: in_turn_def Cons_eq_append_conv)

section \<open>Work\<close>

text \<open>
  From \<open>s\<close> to \<open>s'\<close> the loop worked: the log grew by a run of the ingress, updates went to Eve in turn under their markers,
  and what was owed before (\<open>xs\<close>) and leased in between was settled in order, up to what is owed after (\<open>ys\<close>).
\<close>

definition works :: "drain_state \<Rightarrow> drain_state \<Rightarrow> (string \<times> string) list \<Rightarrow> (string \<times> string) list \<Rightarrow> bool" where
  "works s s' xs ys \<longleftrightarrow> (\<exists>evs. dr_log s' = dr_log s @ evs \<and> ingress_run (dr_db s) (ran evs) (dr_db s') \<and> under_marker evs \<and>
     (ingress_inv (dr_db s) \<longrightarrow> in_turn xs evs \<and> xs @ leased evs = settled evs @ ys))"

lemma worksI:
  assumes "dr_log s' = dr_log s @ evs" "ingress_run (dr_db s) (ran evs) (dr_db s')" "\<forall>u. Dispatched u \<notin> set evs"
    "ingress_inv (dr_db s) \<Longrightarrow> xs @ leased evs = settled evs @ ys"
  shows "works s s' xs ys"
  using assms under_marker_free [OF assms(3)] in_turn_free [OF assms(3)] unfolding works_def by blast

lemma works_refl [simp]: "works s s xs xs"
  by (rule worksI [of _ _ "[]"]) (simp_all add: run_nil_iff)

lemma works_trans:
  assumes "works s s1 xs ys" "works s1 s2 ys zs"
  shows "works s s2 xs zs"
proof -
  obtain l1 where l1: "dr_log s1 = dr_log s @ l1" "ingress_run (dr_db s) (ran l1) (dr_db s1)" "under_marker l1"
      "ingress_inv (dr_db s) \<Longrightarrow> in_turn xs l1 \<and> xs @ leased l1 = settled l1 @ ys"
    using assms(1) unfolding works_def by blast
  obtain l2 where l2: "dr_log s2 = dr_log s1 @ l2" "ingress_run (dr_db s1) (ran l2) (dr_db s2)" "under_marker l2"
      "ingress_inv (dr_db s1) \<Longrightarrow> in_turn ys l2 \<and> ys @ leased l2 = settled l2 @ zs"
    using assms(2) unfolding works_def by blast
  have "in_turn xs (l1 @ l2) \<and> xs @ leased (l1 @ l2) = settled (l1 @ l2) @ zs" if inv: "ingress_inv (dr_db s)"
  proof -
    note first = l1(4) [OF inv] and second = l2(4) [OF inv_run [OF l1(2) inv]]
    have "in_turn xs (l1 @ l2)" using first second in_turn_append by blast
    moreover have "xs @ leased (l1 @ l2) = settled (l1 @ l2) @ zs" using first second by (metis append.assoc log_append(2,3))
    ultimately show ?thesis ..
  qed
  moreover have "dr_log s2 = dr_log s @ l1 @ l2" "ingress_run (dr_db s) (ran (l1 @ l2)) (dr_db s2)" "under_marker (l1 @ l2)"
    using l1 l2 by (auto simp: run_append intro: under_marker_append)
  ultimately show ?thesis unfolding works_def by blast
qed

text \<open>Work that leaves the variable \<open>pending\<close> alone.\<close>

definition calls :: "drain_state \<Rightarrow> drain_state \<Rightarrow> (string \<times> string) list \<Rightarrow> (string \<times> string) list \<Rightarrow> bool" where
  "calls s s' xs ys \<longleftrightarrow> works s s' xs ys \<and> dr_pending s' = dr_pending s"

lemma calls_refl [simp]: "calls s s xs xs"
  by (simp add: calls_def)

lemma calls_trans: "calls s s1 xs ys \<Longrightarrow> calls s1 s2 ys zs \<Longrightarrow> calls s s2 xs zs"
  by (auto simp: calls_def intro: works_trans)

lemma callsI:
  assumes "dr_log s' = dr_log s @ evs" "ingress_run (dr_db s) (ran evs) (dr_db s')" "\<forall>u. Dispatched u \<notin> set evs"
    "ingress_inv (dr_db s) \<Longrightarrow> xs @ leased evs = settled evs @ ys" "dr_pending s' = dr_pending s"
  shows "calls s s' xs ys"
  using worksI [OF assms(1-4)] assms(5) by (simp add: calls_def)

text \<open>A change of the bookkeeping only.\<close>

lemma calls_same: "dr_log s' = dr_log s \<Longrightarrow> dr_db s' = dr_db s \<Longrightarrow> dr_pending s' = dr_pending s \<Longrightarrow> calls s s' xs xs"
  by (rule callsI [of _ _ "[]"]) (simp_all add: run_nil_iff)

lemma drain_bindE [consumes 1, case_names fails goes]:
  assumes "drain_bind m f = (r, s')"
  obtains e where "m = (Inl e, s')" "r = Inl e" | x s1 where "m = (Inr x, s1)" "f x s1 = (r, s')"
  using assms by (cases m; cases "fst m") (auto simp: drain_bind_def)

section \<open>Single calls\<close>

lemma others_act_calls:
  assumes "others_run w"
  shows "\<exists>es. dr_log (others_act w s) = dr_log s @ map Theirs es \<and> ingress_run (dr_db s) es (dr_db (others_act w s)) \<and>
    dr_pending (others_act w s) = dr_pending s"
  using assms by (cases "dw_others w (dr_tick s) (dr_db s)")
    (auto simp: others_act_def others_run_def split: prod.split intro!: exI [of _ "fst (dw_others w (dr_tick s) (dr_db s))"], metis fst_conv snd_conv)

lemma perform_log:
  assumes "others_run w" "\<And>now d. apply_op opn now d = done_with (f now d)" "perform w opn f s = (r, s')"
  obtains es now where "dr_log s' = dr_log s @ map Theirs es @ [Ours opn now (is_ok r)]"
    "ingress_run (dr_db s) (es @ [Did opn now (is_ok r)]) (dr_db s')" "dr_pending s' = dr_pending s"
proof -
  let ?s1 = "others_act w s" let ?now = "dw_clock w (dr_tick s)"
  obtain es where es: "dr_log ?s1 = dr_log s @ map Theirs es" "ingress_run (dr_db s) es (dr_db ?s1)" "dr_pending ?s1 = dr_pending s"
    using others_act_calls [OF assms(1)] by blast
  obtain d where d: "f ?now (dr_db ?s1) = (r, d)" "s' = ?s1\<lparr>dr_db := d, dr_log := dr_log ?s1 @ [Ours opn ?now (is_ok r)]\<rparr>"
    using assms(3) by (auto simp: perform_def Let_def split: prod.splits)
  have "ingress_step (dr_db ?s1) (Did opn ?now (is_ok r)) d"
    by (rule did) (simp add: assms(2) d(1) done_with_def)
  then have "ingress_run (dr_db s) (es @ [Did opn ?now (is_ok r)]) d"
    using es(2) by (auto simp: run_append run_cons_iff run_nil_iff)
  then show ?thesis using that [of es ?now] d(2) es by simp
qed

lemma perform_quiet:
  assumes "others_run w" "\<And>now d. apply_op opn now d = done_with (f now d)" "perform w opn f s = (r, s')" "settles opn = None"
  shows "calls s s' xs xs"
proof -
  obtain es now where evs: "dr_log s' = dr_log s @ map Theirs es @ [Ours opn now (is_ok r)]"
      "ingress_run (dr_db s) (es @ [Did opn now (is_ok r)]) (dr_db s')" "dr_pending s' = dr_pending s"
    by (rule perform_log [OF assms(1-3)])
  show ?thesis
    by (rule callsI [of _ _ "map Theirs es @ [Ours opn now (is_ok r)]"])
      (use evs assms(4) in \<open>auto\<close>)
qed

text \<open>A settling call takes its lease off what is owed, or fails and leaves it.\<close>

definition stuck :: "string \<times> string \<Rightarrow> drain_state \<Rightarrow> bool" where
  "stuck k s \<longleftrightarrow> dr_log s \<noteq> [] \<and> (\<exists>opn now. settles opn = Some k \<and> last (dr_log s) = Ours opn now False)"

lemma perform_settles:
  assumes "others_run w" "\<And>now d. apply_op opn now d = done_with (f now d)" "perform w opn f s = (r, s')" "settles opn = Some k"
  shows "is_ok r \<Longrightarrow> calls s s' (k # xs) xs" "\<not> is_ok r \<Longrightarrow> calls s s' xs xs" "\<not> is_ok r \<Longrightarrow> stuck k s'"
proof -
  obtain es now where evs: "dr_log s' = dr_log s @ map Theirs es @ [Ours opn now (is_ok r)]"
      "ingress_run (dr_db s) (es @ [Did opn now (is_ok r)]) (dr_db s')" "dr_pending s' = dr_pending s"
    by (rule perform_log [OF assms(1-3)])
  show "is_ok r \<Longrightarrow> calls s s' (k # xs) xs"
    by (rule callsI [of _ _ "map Theirs es @ [Ours opn now (is_ok r)]"]) (use evs assms(4) in auto)
  show "\<not> is_ok r \<Longrightarrow> calls s s' xs xs"
    by (rule callsI [of _ _ "map Theirs es @ [Ours opn now (is_ok r)]"]) (use evs assms(4) in auto)
  show "\<not> is_ok r \<Longrightarrow> stuck k s'" using evs(1) assms(4) by (simp add: stuck_def)
qed

lemma ask_calls: "others_run w \<Longrightarrow> ask w f s = (r, s') \<Longrightarrow> calls s s' xs xs"
  using others_act_calls [of w s]
  by (auto simp: ask_def Let_def intro!: callsI)

lemma outside_calls: "outside f s = (r, s') \<Longrightarrow> calls s s' xs xs"
  by (auto simp: outside_def intro: calls_same)

lemma notify_calls: "calls s (notify_failure w c code s) xs xs"
  by (auto simp: notify_failure_def intro!: callsI [of _ _ "[Noticed (c_update c) code]"]
      simp: run_nil_iff split: option.split inbound_update.split)

lemma complete_calls:
  assumes "others_run w" "complete_claim w c s = (r, s')"
  shows "is_ok r \<Longrightarrow> calls s s' (lease_key c # xs) xs" "\<not> is_ok r \<Longrightarrow> calls s s' xs xs"
  by (rule perform_settles(1,2) [OF assms(1) _ assms(2) [unfolded complete_claim_def]], simp_all)+

section \<open>One update\<close>

lemma read_stream_calls:
  assumes others: "others_run w"
  shows "read_stream w asks stop es i s = (r, s') \<Longrightarrow> calls s s' xs xs"
proof (induction es arbitrary: i s)
  case Nil
  then show ?case by simp
next
  case (Cons e es)
  let ?ends = "e = ''session.waiting'' \<or> e = ''session.completed'' \<or> e = ''session.failed''"
  consider "?ends" | "\<not> ?ends" "e = ''approval.settled''" "asks \<noteq> None" | "\<not> ?ends" "read_stream w asks stop es (i + 1) s = (r, s')"
    using Cons.prems by (cases asks) (auto split: if_splits)
  then show ?case
  proof cases
    case 1
    with Cons.prems show ?thesis by auto
  next
    case 2
    then obtain session where "drain_bind (ask w (\<lambda>_. has_pending_approvals session) s) (\<lambda>pending s.
        if pending then (Inr (i + 1, False), s) else read_stream w asks stop es (i + 1) s) = (r, s')"
      using Cons.prems by auto
    then show ?thesis
    proof (cases rule: drain_bindE)
      case (fails x)
      then show ?thesis by (blast intro: ask_calls [OF others])
    next
      case (goes pending s1)
      have "calls s s1 xs xs" by (rule ask_calls [OF others goes(1)])
      moreover have "calls s1 s' xs xs" using goes(2) Cons.IH [of "i + 1" s1] by (cases pending) auto
      ultimately show ?thesis by (rule calls_trans)
    qed
  next
    case 3
    then show ?thesis by (blast intro: Cons.IH)
  qed
qed

lemma wait_calls: "others_run w \<Longrightarrow> wait_for_session_boundary w session start asks s = (r, s') \<Longrightarrow> calls s s' xs xs"
  by (auto simp: wait_for_session_boundary_def split: prod.splits intro: read_stream_calls)

text \<open>Following a session settles the lease of its update, or fails with it still owed.\<close>

lemma follow_session_calls:
  assumes others: "others_run w" and follow: "follow_session w c update session s = (r, s')"
  shows "is_ok r \<Longrightarrow> calls s s' (lease_key c # xs) xs" "\<not> is_ok r \<Longrightarrow> calls s s' xs xs"
proof -
  have "(is_ok r \<longrightarrow> calls s s' (lease_key c # xs) xs) \<and> (\<not> is_ok r \<longrightarrow> calls s s' xs xs)"
    using follow unfolding follow_session_def
  proof (cases rule: drain_bindE)
    case (fails e)
    then show ?thesis using ask_calls [OF others fails(1)] by simp
  next
    case (goes cursor s1)
    have c1: "calls s s1 ys ys" for ys by (rule ask_calls [OF others goes(1)])
    from goes(2) show ?thesis
    proof (cases rule: drain_bindE)
      case (fails e)
      then show ?thesis using calls_trans [OF c1 wait_calls [OF others fails(1)]] by simp
    next
      case (goes ended s2)
      obtain next_index failed where ended: "ended = (next_index, failed)" by fastforce
      have c2: "calls s s2 ys ys" for ys by (rule calls_trans [OF c1 wait_calls [OF others goes(1)]])
      show ?thesis
      proof (cases "dw_heartbeat w (dr_tick s2)")
        case (Some e)
        with goes(2) ended c2 show ?thesis by auto
      next
        case None
        with goes(2) ended have "drain_bind (perform w (Op_complete_session (c_update c) (c_token c) (es_id session) (Int_num next_index))
             (complete_with_session (c_update c) (c_token c) (es_id session) (Int_num next_index)) s2) (\<lambda>_ s.
         (Inr (), case update of
             Message_in m \<Rightarrow>
               if failed \<and> has_whisper_marker (im_raw m) then notify_failure w c ''AGENT_TELEGRAM_SESSION_FAILED'' s else s
           | Callback_in q \<Rightarrow> s)) = (r, s')" by simp
        then show ?thesis
        proof (cases rule: drain_bindE)
          case (fails e)
          have "calls s2 s' xs xs" by (rule perform_settles(2) [OF others _ fails(1)]) simp_all
          with fails(2) show ?thesis using calls_trans [OF c2] by simp
        next
          case (goes x s3)
          have c3: "calls s2 s3 (lease_key c # xs) xs" by (rule perform_settles(1) [OF others _ goes(1)]) simp_all
          have "calls s3 s' xs xs" using goes(2) by (auto intro: notify_calls split: inbound_update.splits)
          with goes(2) show ?thesis using calls_trans [OF c2 calls_trans [OF c3]] by auto
        qed
      qed
    qed
  qed
  then show "is_ok r \<Longrightarrow> calls s s' (lease_key c # xs) xs" "\<not> is_ok r \<Longrightarrow> calls s s' xs xs" by blast+
qed

text \<open>Marking and handing over.\<close>

lemma hand_over_calls:
  assumes others: "others_run w"
    and mark: "perform w (Op_begin_dispatch (c_update c) (c_token c) later) (\<lambda>now. begin_dispatch (c_update c) (c_token c) now later) s = (Inr u, s1)"
    and hand: "dispatch_update w c outbound s1 = (r, s2)"
  shows "calls s s2 (lease_key c # xs) (lease_key c # xs)"
proof -
  let ?mark = "\<lambda>now. Ours (Op_begin_dispatch (c_update c) (c_token c) later) now True"
  obtain es now where evs: "dr_log s1 = dr_log s @ map Theirs es @ [?mark now]"
      "ingress_run (dr_db s) (es @ [Did (Op_begin_dispatch (c_update c) (c_token c) later) now True]) (dr_db s1)"
      "dr_pending s1 = dr_pending s"
    by (rule perform_log [OF others _ mark]) simp_all
  have "under_marker (map Theirs es @ [?mark now, Dispatched (c_update c)])"
    by (rule under_marker_append [OF under_marker_free under_marker_pair]) auto
  moreover have "in_turn (lease_key c # xs) (map Theirs es @ [?mark now, Dispatched (c_update c)])"
    by (rule in_turn_append [OF in_turn_free _ in_turn_pair]) auto
  moreover have "dr_log s2 = dr_log s @ map Theirs es @ [?mark now, Dispatched (c_update c)]" "dr_db s2 = dr_db s1"
      "dr_pending s2 = dr_pending s"
    using hand evs(1,3) by (auto simp: dispatch_update_def)
  ultimately show ?thesis
    using evs(2) unfolding calls_def works_def by (intro conjI exI [of _ "map Theirs es @ [?mark now, Dispatched (c_update c)]"]) simp_all
qed

lemma dispatch_leased_calls:
  assumes others: "others_run w" and dispatch: "dispatch_leased w c update marker later_messages s = (r, s')"
  shows "is_ok r \<Longrightarrow> calls s s' (lease_key c # xs) xs" "\<not> is_ok r \<Longrightarrow> calls s s' (lease_key c # xs) (lease_key c # xs)"
proof -
  have "(is_ok r \<longrightarrow> calls s s' (lease_key c # xs) xs) \<and> (\<not> is_ok r \<longrightarrow> calls s s' (lease_key c # xs) (lease_key c # xs))"
    using dispatch unfolding dispatch_leased_def Let_def
  proof (cases rule: drain_bindE)
    case (fails e)
    have "calls s s' (lease_key c # xs) (lease_key c # xs)" by (rule perform_quiet [OF others _ fails(1)]) simp_all
    with fails(2) show ?thesis by simp
  next
    case mark: (goes x s1)
    from mark(2) show ?thesis
    proof (cases rule: drain_bindE)
      case (fails e)
      then show ?thesis using hand_over_calls [OF others mark(1) fails(1), of xs] by simp
    next
      case (goes session s2)
      have c2: "calls s s2 (lease_key c # xs) (lease_key c # xs)" by (rule hand_over_calls [OF others mark(1) goes(1)])
      show ?thesis
      proof (cases session)
        case None
        with goes(2) have "complete_claim w c s2 = (r, s')" by simp
        from complete_calls [OF others this] show ?thesis using calls_trans [OF c2] by blast
      next
        case (Some session)
        with goes(2) have "follow_session w c update session s2 = (r, s')" by simp
        from follow_session_calls [OF others this] show ?thesis using calls_trans [OF c2] by blast
      qed
    qed
  qed
  then show "is_ok r \<Longrightarrow> calls s s' (lease_key c # xs) xs" "\<not> is_ok r \<Longrightarrow> calls s s' (lease_key c # xs) (lease_key c # xs)" by blast+
qed

section \<open>One iteration\<close>

lemma drain_bind_calls:
  assumes "drain_bind m f = (r, s')" "\<And>x s1. m = (x, s1) \<Longrightarrow> calls s s1 xs xs"
    "\<And>x s1. m = (Inr x, s1) \<Longrightarrow> f x s1 = (r, s') \<Longrightarrow> calls s1 s' xs xs"
  shows "calls s s' xs xs"
  using assms(1)
proof (cases rule: drain_bindE)
  case (fails e)
  show ?thesis by (rule assms(2) [OF fails(1)])
next
  case (goes x s1)
  show ?thesis by (rule calls_trans [OF assms(2) [OF goes(1)] assms(3) [OF goes]])
qed

lemma mark_transcription_calls:
  assumes "others_run w" "mark_transcription w c s = (r, s')"
  shows "calls s s' xs xs"
proof (cases "no_transcript c")
  case True
  from assms(2) [unfolded mark_transcription_def Let_def if_P [OF True]] show ?thesis
    by (rule drain_bind_calls) (erule perform_quiet [OF assms(1), rotated 1] | simp)+
qed (use assms(2) in \<open>simp add: mark_transcription_def\<close>)

lemma spoken_text_calls:
  assumes "spoken_text w c voice s = (r, s')"
  shows "calls s s' xs xs"
proof (cases "c_transcript c")
  case None
  from assms [unfolded spoken_text_def None option.case] show ?thesis
    by (rule drain_bind_calls) (auto intro: outside_calls)
qed (use assms in \<open>simp add: spoken_text_def\<close>)

lemma keep_transcript_calls:
  assumes "others_run w" "keep_transcript w c t s = (r, s')"
  shows "calls s s' xs xs"
proof (cases "t \<noteq> [] \<and> no_transcript c")
  case True
  with assms(2) have "drain_bind (perform w (Op_save_transcript (c_update c) (c_token c) t)
      (save_voice_transcript (c_update c) (c_token c) t) s) (\<lambda>_ s. (Inr t, s)) = (r, s')"
    by (simp add: keep_transcript_def)
  then show ?thesis by (rule drain_bind_calls) (erule perform_quiet [OF assms(1), rotated 1] | simp)+
qed (use assms(2) in \<open>auto simp: keep_transcript_def split: if_splits\<close>)

lemma transcribed_calls:
  assumes "others_run w" "transcribed w c voice s = (r, s')"
  shows "calls s s' xs xs"
  using assms(2) unfolding transcribed_def
  by (rule drain_bind_calls)
    (auto intro: mark_transcription_calls [OF assms(1)] elim!: drain_bind_calls
      intro: spoken_text_calls keep_transcript_calls [OF assms(1)])

lemma prepare_voice_calls:
  assumes others: "others_run w" and prepare: "prepare_voice w c update s = (r, s')"
  shows "calls s s' xs xs"
proof (cases "\<exists>voice m. c_voice c = Some voice \<and> update = Message_in m \<and> should_transcribe_voice w m")
  case True
  then obtain voice m where c: "c_voice c = Some voice" "update = Message_in m" "should_transcribe_voice w m" by blast
  let ?read = "\<lambda>t. res_bind (with_transcript (c_payload c) t) (\<lambda>payload.
      case dw_parse w payload of None \<Rightarrow> Inl (AppError ''AGENT_TELEGRAM_PAYLOAD_INVALID'') | Some u \<Rightarrow> Inr (normalize_inbound u))"
  have "drain_bind (outside (\<lambda>n. dw_voice_allowed w n m) s) (\<lambda>allowed s.
      if \<not> allowed then (Inr (Message_in m), s) else drain_bind (transcribed w c voice s) (\<lambda>t s. (?read t, s))) = (r, s')"
    using prepare c(3) unfolding prepare_voice_def c(1,2) by simp
  then show ?thesis
  proof (rule drain_bind_calls)
    fix allowed s1
    assume go: "(if \<not> allowed then (Inr (Message_in m), s1) else drain_bind (transcribed w c voice s1) (\<lambda>t s. (?read t, s))) = (r, s')"
    show "calls s1 s' xs xs"
    proof (cases allowed)
      case True
      with go have "drain_bind (transcribed w c voice s1) (\<lambda>t s. (?read t, s)) = (r, s')" by simp
      then show ?thesis by (rule drain_bind_calls) (auto intro: transcribed_calls [OF others])
    qed (use go in simp)
  qed (rule outside_calls)
qed (use prepare in \<open>auto simp: prepare_voice_def split: option.splits inbound_update.splits if_splits\<close>)

text \<open>A claimed follower was accepted, hence parsed: reading it again cannot fail.\<close>

lemma claim_payload [simp]: "c_payload (map_telegram_ingress_claim r k) = u_payload r"
  by (simp add: map_telegram_ingress_claim_def)

lemma claim_rows_from: "x \<in> set (claim_rows d rows) \<Longrightarrow> \<exists>r\<in>set rows. c_payload x = u_payload r"
  by (force simp: claim_rows_def split: option.splits)

lemma claim_following_accepted:
  assumes inv: "ingress_inv d" and claim: "claim_following accept input tokens now d = (Inr claims, d')"
    and x: "x \<in> set claims"
  shows "accept (c_payload x)"
proof -
  let ?cs = "following_candidates input d"
  let ?hit = "\<lambda>r. u_id r \<in> set (accepted_run accept ?cs) \<and> u_status r = IPending"
  obtain ms where run: "run_tx (claim_following_body accept input ms tokens now) d = (Inr claims, d')"
    using claim x by (auto simp: claim_following_def when_valid_Inr split: if_splits)
  then have "claim_following_body accept input ms tokens now d = Commit claims d' \<or>
      claim_following_body accept input ms tokens now d = Rollback claims"
    by (cases "claim_following_body accept input ms tokens now d") (simp_all add: run_tx_def)
  then have "claims = claim_rows d (sort_key u_id (map (\<lambda>r. u_acquire (tokens (u_id r)) (now + millis ms) r) (filter ?hit (updates d))))"
    using x unfolding claim_following_body_def Let_def by (simp split: if_splits)
  from claim_rows_from [OF x [unfolded this]] obtain r where r: "r \<in> set (updates d)" "?hit r" "c_payload x = u_payload r"
    by (auto simp: u_acquire_def)
  then obtain c where c: "c \<in> set ?cs" "u_id c = u_id r" "accept (u_payload c)"
    by (auto simp: accepted_run_def dest: set_takeWhileD)
  have "c \<in> set (updates d)" using set_select_ordered [OF c(1) [unfolded following_candidates_def]] by blast
  then have "c = r" by (rule pk_same [OF inv _ r(1) c(2)])
  with c(3) r(3) show ?thesis by simp
qed

lemma all_prepared_accepted:
  "(\<And>x. x \<in> set claims \<Longrightarrow> joins_series w head (c_payload x)) \<Longrightarrow>
     \<exists>followers. all_prepared w claims = Inr followers"
  by (induction claims) (fastforce simp: joins_series_def split: option.splits)+

lemma all_prepared_claims: "all_prepared w claims = Inr followers \<Longrightarrow> map fst followers = claims"
  by (induction claims arbitrary: followers) (auto simp: res_bind_Inr_iff split: option.splits)

lemma series_claim_calls:
  assumes others: "others_run w"
    and claim: "perform w (Op_claim_following (joins_series w update) (series_input w head) tokens)
      (claim_following (joins_series w update) (series_input w head) tokens) s = (Inr claims, s1)"
    and r: "r = all_prepared w claims" "s' = s1\<lparr>dr_log := dr_log s1 @ map Leased claims\<rparr>"
  shows "calls s s' xs (xs @ (case r of Inr followers \<Rightarrow> map (lease_key \<circ> fst) followers | Inl e \<Rightarrow> []))"
proof -
  obtain es now where evs: "dr_log s1 = dr_log s @ map Theirs es @
        [Ours (Op_claim_following (joins_series w update) (series_input w head) tokens) now True]"
      "ingress_run (dr_db s) (es @ [Did (Op_claim_following (joins_series w update) (series_input w head) tokens) now True]) (dr_db s1)"
      "dr_pending s1 = dr_pending s"
    by (rule perform_log [OF others _ claim]) simp_all
  have read: "\<exists>followers. r = Inr followers \<and> map fst followers = claims" if inv: "ingress_inv (dr_db s)"
  proof -
    have "ingress_inv (dr_db (others_act w s))" using others_act_calls [OF others, of s] inv by (blast intro: inv_run)
    moreover obtain d where "claim_following (joins_series w update) (series_input w head) tokens (dw_clock w (dr_tick s))
        (dr_db (others_act w s)) = (Inr claims, d)"
      using claim by (auto simp: perform_def Let_def split: prod.splits)
    ultimately have "joins_series w update (c_payload x)" if "x \<in> set claims" for x
      using that by (rule claim_following_accepted)
    then show ?thesis using all_prepared_accepted [of claims w update] all_prepared_claims r(1) by metis
  qed
  show ?thesis
    by (rule callsI [of _ _ "map Theirs es @ [Ours (Op_claim_following (joins_series w update) (series_input w head) tokens) now True] @
        map Leased claims"])
      (use evs r(2) read in \<open>auto\<close>)
qed

lemma followers_calls:
  assumes others: "others_run w" and claim: "claim_series_followers w head update s = (r, s')"
  shows "calls s s' xs (xs @ (case r of Inr followers \<Rightarrow> map (lease_key \<circ> fst) followers | Inl e \<Rightarrow> []))"
proof (cases "\<exists>m. update = Message_in m \<and> is_series_eligible (dw_nfkc w) update (dw_bot w)")
  case True
  then obtain m where m: "update = Message_in m" "is_series_eligible (dw_nfkc w) update (dw_bot w)" by blast
  let ?tokens = "\<lambda>s. dw_tokens w (dr_tick s)"
  let ?claim = "\<lambda>s. perform w (Op_claim_following (joins_series w update) (series_input w head) (?tokens s))
      (claim_following (joins_series w update) (series_input w head) (?tokens s)) s"
  have "drain_bind (ask w (\<lambda>_. has_pending_approvals_in_chat (im_chat m)) s) (\<lambda>waiting s. if waiting then (Inr [], s)
      else drain_bind (?claim s) (\<lambda>claims s. (all_prepared w claims, s\<lparr>dr_log := dr_log s @ map Leased claims\<rparr>))) = (r, s')"
    using claim m(2) unfolding m(1) claim_series_followers_def Let_def by simp
  then show ?thesis
  proof (cases rule: drain_bindE)
    case (fails e)
    then show ?thesis using ask_calls [OF others fails(1)] by simp
  next
    case asked: (goes waiting s1)
    have c1: "calls s s1 xs xs" by (rule ask_calls [OF others asked(1)])
    show ?thesis
    proof (cases waiting)
      case True
      with asked(2) c1 show ?thesis by auto
    next
      case False
      with asked(2) have "drain_bind (?claim s1)
          (\<lambda>claims s. (all_prepared w claims, s\<lparr>dr_log := dr_log s @ map Leased claims\<rparr>)) = (r, s')" by simp
      then show ?thesis
      proof (cases rule: drain_bindE)
        case (fails e)
        have "calls s1 s' xs xs" by (rule perform_quiet [OF others _ fails(1)]) simp_all
        with fails(2) show ?thesis using calls_trans [OF c1] by simp
      next
        case (goes claims s2)
        show ?thesis
          by (rule calls_trans [OF c1 series_claim_calls [OF others goes(1)]]) (use goes(2) in auto)
      qed
    qed
  qed
qed (use claim in \<open>auto simp: claim_series_followers_def split: inbound_update.splits if_splits\<close>)

section \<open>A series\<close>

text \<open>What is owed is what \<open>pending\<close> holds: work under this reading.\<close>

abbreviation owed :: "drain_state \<Rightarrow> (string \<times> string) list" where "owed s \<equiv> map lease_key (dr_pending s)"

definition handles :: "drain_state \<Rightarrow> 'a result \<Rightarrow> drain_state \<Rightarrow> bool" where
  "handles s r s' \<longleftrightarrow> works s s' (owed s) (owed s') \<and> (is_ok r \<longrightarrow> dr_pending s' = [])"

lemma handlesI_fail: "calls s s' (owed s) (owed s) \<Longrightarrow> handles s (Inl e) s'"
  by (simp add: handles_def calls_def)

lemma handles_after: "calls s s1 (owed s) (owed s) \<Longrightarrow> handles s1 r s' \<Longrightarrow> handles s r s'"
  by (auto simp: handles_def calls_def intro: works_trans)

lemma works_shift:
  assumes "calls s s1 (lease_key c # xs) xs" "dr_pending s = c # cs"
  shows "works s (shift_pending s1) (lease_key c # xs) xs" "dr_pending (shift_pending s1) = cs"
proof -
  have "works s1 (shift_pending s1) xs xs"
    by (rule worksI [of _ _ "[]"]) (simp_all add: shift_pending_def run_nil_iff)
  then show "works s (shift_pending s1) (lease_key c # xs) xs" using assms(1) by (auto simp: calls_def intro: works_trans)
  show "dr_pending (shift_pending s1) = cs" using assms by (simp add: calls_def shift_pending_def)
qed

lemma dispatch_series_handles:
  assumes others: "others_run w"
  shows "dispatch_series w series later_messages rest index s = (r, s') \<Longrightarrow> dr_pending s = map fst rest \<Longrightarrow> handles s r s'"
proof (induction rest arbitrary: index s)
  case Nil
  then show ?case by (simp add: handles_def)
next
  case (Cons item rest)
  let ?xs = "map lease_key (map fst rest)"
  from Cons.prems(1) show ?case unfolding dispatch_series.simps
  proof (cases rule: drain_bindE)
    case (fails e)
    have "calls s s' (lease_key (fst item) # ?xs) (lease_key (fst item) # ?xs)"
      by (rule dispatch_leased_calls(2) [OF others fails(1)]) simp
    then have "calls s s' (owed s) (owed s)" using Cons.prems(2) by simp
    with fails(2) show ?thesis by (simp add: handlesI_fail)
  next
    case (goes x s1)
    have "calls s s1 (lease_key (fst item) # ?xs) ?xs" by (rule dispatch_leased_calls(1) [OF others goes(1)]) simp
    moreover have pending: "dr_pending s = fst item # map fst rest" using Cons.prems(2) by simp
    ultimately have shift: "works s (shift_pending s1) (lease_key (fst item) # ?xs) ?xs"
        "dr_pending (shift_pending s1) = map fst rest"
      by (rule works_shift)+
    have "handles (shift_pending s1) r s'" by (rule Cons.IH [OF goes(2) shift(2)])
    with shift pending show ?thesis by (auto simp: handles_def intro: works_trans)
  qed
qed

lemma waiting_after_calls: "others_run w \<Longrightarrow> waiting_after w item s = (r, s') \<Longrightarrow> calls s s' xs xs"
  unfolding waiting_after_def
  by (auto split: inbound_update.splits elim!: drain_bind_calls intro: ask_calls)

lemma complete_handles:
  assumes "others_run w" "drain_bind (complete_claim w c s) (\<lambda>_ s. (Inr (), shift_pending s)) = (r, s')" "dr_pending s = [c]"
  shows "handles s r s'"
  using assms(2)
proof (cases rule: drain_bindE)
  case (fails e)
  have "calls s s' (owed s) (owed s)" by (rule complete_calls(2) [OF assms(1) fails(1)]) simp
  with fails(2) show ?thesis by (simp add: handlesI_fail)
next
  case (goes x s1)
  have "calls s s1 (lease_key c # []) []" by (rule complete_calls(1) [OF assms(1) goes(1)]) simp
  from works_shift [OF this assms(3)] goes(2) assms(3) show ?thesis by (auto simp: handles_def)
qed

lemma series_handles:
  assumes others: "others_run w" and pending: "dr_pending s = [c]"
    and go: "drain_bind (claim_series_followers w c update s) (\<lambda>followers s.
      (let series = (c, update) # followers; s = s\<lparr>dr_pending := dr_pending s @ map fst followers\<rparr> in
       drain_bind (waiting_after w (last series) s) (\<lambda>later_messages s. dispatch_series w series later_messages series 0 s))) = (r, s')"
  shows "handles s r s'"
  using go
proof (cases rule: drain_bindE)
  case (fails e)
  then show ?thesis using followers_calls [OF others fails(1), of "owed s"] by (simp add: handlesI_fail)
next
  case claimed: (goes followers s1)
  let ?s = "s1\<lparr>dr_pending := dr_pending s1 @ map fst followers\<rparr>"
  have c1: "calls s s1 (owed s) (owed s @ map (lease_key \<circ> fst) followers)"
    using followers_calls [OF others claimed(1), of "owed s"] by simp
  then have pend: "dr_pending ?s = c # map fst followers" by (simp add: calls_def pending)
  have "works s1 ?s (owed ?s) (owed ?s)"
    by (rule worksI [of _ _ "[]"]) (simp_all add: run_nil_iff)
  then have c2: "works s ?s (owed s) (owed ?s)"
    using c1 by (auto simp: calls_def pending comp_def intro: works_trans)
  have "handles ?s r s'"
    using claimed(2) [unfolded Let_def]
  proof (cases rule: drain_bindE)
    case (fails e)
    then show ?thesis using waiting_after_calls [OF others fails(1)] by (simp add: handlesI_fail)
  next
    case (goes later_messages s2)
    have c3: "calls ?s s2 (owed ?s) (owed ?s)" by (rule waiting_after_calls [OF others goes(1)])
    have "handles s2 r s'" by (rule dispatch_series_handles [OF others goes(2)]) (use c3 pend in \<open>simp add: calls_def\<close>)
    with c3 show ?thesis by (rule handles_after)
  qed
  with c2 show ?thesis by (auto simp: handles_def intro: works_trans)
qed

lemma handle_claim_handles:
  assumes others: "others_run w" and handle: "handle_claim w c s = (r, s')" and pending: "dr_pending s = [c]"
  shows "handles s r s'"
proof (cases "prepared w (c_payload c)")
  case None
  with handle show ?thesis using complete_handles [OF others _ pending] by (simp add: handle_claim_def)
next
  case (Some update)
  from handle [unfolded handle_claim_def Some option.case] show ?thesis
  proof (cases rule: drain_bindE)
    case (fails e)
    have "calls s s' (owed s) (owed s)"
      using fails(1) by (auto simp: handled_by_application_def intro: outside_calls split: inbound_update.splits)
    with fails(2) show ?thesis by (simp add: handlesI_fail)
  next
    case handled: (goes handled s1)
    have c1: "calls s s1 (owed s) (owed s)"
      using handled(1) by (auto simp: handled_by_application_def intro: outside_calls split: inbound_update.splits)
    then have pending1: "dr_pending s1 = [c]" by (simp add: calls_def pending)
    show ?thesis
    proof (cases handled)
      case True
      with handled(2) have "drain_bind (complete_claim w c s1) (\<lambda>_ s. (Inr (), shift_pending s)) = (r, s')" by simp
      from handles_after [OF c1 complete_handles [OF others this pending1]] show ?thesis .
    next
      case False
      from handled(2) [unfolded if_not_P [OF False]] have "handles s1 r s'"
      proof (cases rule: drain_bindE)
        case (fails e)
        then show ?thesis using prepare_voice_calls [OF others fails(1)] by (simp add: handlesI_fail)
      next
        case (goes update s2)
        have c2: "calls s1 s2 (owed s1) (owed s1)" by (rule prepare_voice_calls [OF others goes(1)])
        have "handles s2 r s'" by (rule series_handles [OF others _ goes(2)]) (use c2 pending1 in \<open>simp add: calls_def\<close>)
        with c2 show ?thesis by (rule handles_after)
      qed
      with c1 show ?thesis by (rule handles_after)
    qed
  qed
qed

section \<open>After a failure\<close>

text \<open>Everything is settled, or the work ended in an error: the call that was to settle the first lease left failed.\<close>

definition settled_or_stuck :: "bool \<Rightarrow> drain_state \<Rightarrow> (string \<times> string) list \<Rightarrow> drain_state \<Rightarrow> bool" where
  "settled_or_stuck threw s xs s' \<longleftrightarrow> (\<exists>ys. works s s' xs ys \<and> (ys = [] \<or> threw \<and> stuck (hd ys) s'))"

lemma settled_or_stuckI: "works s s' xs [] \<Longrightarrow> settled_or_stuck threw s xs s'"
  unfolding settled_or_stuck_def by blast

lemma settled_or_stuck_after: "works s s1 xs ys \<Longrightarrow> settled_or_stuck threw s1 ys s' \<Longrightarrow> settled_or_stuck threw s xs s'"
  unfolding settled_or_stuck_def by (blast intro: works_trans)

lemma release_each_works:
  assumes others: "others_run w"
  shows "release_each w cs s = (r, s') \<Longrightarrow> settled_or_stuck (\<not> is_ok r) s (map lease_key cs) s'"
proof (induction cs arbitrary: s)
  case Nil
  then show ?case by (simp add: settled_or_stuckI)
next
  case (Cons c cs)
  from Cons.prems show ?case unfolding release_each.simps Let_def
  proof (cases rule: drain_bindE)
    case (fails e)
    have "calls s s' (map lease_key (c # cs)) (map lease_key (c # cs))"
      by (rule perform_settles(2) [OF others _ fails(1)]) simp_all
    moreover have "stuck (lease_key c) s'" by (rule perform_settles(3) [OF others _ fails(1)]) simp_all
    ultimately show ?thesis using fails(2)
      by (auto simp: calls_def settled_or_stuck_def intro!: exI [of _ "map lease_key (c # cs)"])
  next
    case (goes x s1)
    have "calls s s1 (lease_key c # map lease_key cs) (map lease_key cs)"
      by (rule perform_settles(1) [OF others _ goes(1)]) simp_all
    with Cons.IH [OF goes(2)] show ?thesis by (auto simp: calls_def intro: settled_or_stuck_after)
  qed
qed

lemma settle_failed_works:
  assumes others: "others_run w" and settle: "settle_failed w e c retry s = (r, s')"
  shows "is_ok r \<Longrightarrow> works s s' (lease_key c # xs) xs" "\<not> is_ok r \<Longrightarrow> works s s' xs xs \<and> stuck (lease_key c) s'"
proof -
  have "(is_ok r \<longrightarrow> works s s' (lease_key c # xs) xs) \<and> (\<not> is_ok r \<longrightarrow> works s s' xs xs \<and> stuck (lease_key c) s')"
  proof (cases retry)
    case True
    let ?f = "drain_failure w ''AGENT_TELEGRAM_SESSION_HOOK_PENDING''"
    have p: "perform w (Op_release_undelivered (c_update c) (c_token c) ?f) (release_undelivered (c_update c) (c_token c) ?f) s = (r, s')"
      using settle True by (simp add: settle_failed_def Let_def)
    have "is_ok r \<Longrightarrow> calls s s' (lease_key c # xs) xs" "\<not> is_ok r \<Longrightarrow> calls s s' xs xs" "\<not> is_ok r \<Longrightarrow> stuck (lease_key c) s'"
      by (rule perform_settles [OF others _ p]; simp)+
    then show ?thesis by (auto simp: calls_def)
  next
    case False
    let ?f = "drain_failure w (drain_failure_code e)"
    from settle [unfolded settle_failed_def if_not_P [OF False] Let_def] show ?thesis
    proof (cases rule: drain_bindE)
      case (fails x)
      have "calls s s' xs xs" by (rule perform_settles(2) [OF others _ fails(1)]) simp_all
      moreover have "stuck (lease_key c) s'" by (rule perform_settles(3) [OF others _ fails(1)]) simp_all
      ultimately show ?thesis using fails(2) by (simp add: calls_def)
    next
      case (goes x s1)
      have "calls s s1 (lease_key c # xs) xs" by (rule perform_settles(1) [OF others _ goes(1)]) simp_all
      moreover have "calls s1 s' xs xs" using goes(2) by (auto intro: notify_calls)
      ultimately show ?thesis using goes(2) by (auto simp: calls_def intro: works_trans)
    qed
  qed
  then show "is_ok r \<Longrightarrow> works s s' (lease_key c # xs) xs" "\<not> is_ok r \<Longrightarrow> works s s' xs xs \<and> stuck (lease_key c) s'" by blast+
qed

lemma after_failure_works:
  assumes others: "others_run w" and after: "after_failure w e s = (r, s')"
  shows "settled_or_stuck (\<not> is_ok r) s (owed s) s'"
proof (cases "dr_pending s")
  case Nil
  with after show ?thesis by (simp add: after_failure_def settled_or_stuckI)
next
  case (Cons c cs)
  from after [unfolded after_failure_def Cons list.case Let_def] show ?thesis
  proof (cases rule: drain_bindE)
    case (fails x)
    have "works s s' (owed s) (owed s) \<and> stuck (lease_key c) s'"
      by (rule settle_failed_works(2) [OF others fails(1)]) simp
    then show ?thesis unfolding settled_or_stuck_def using fails(2) Cons by (intro exI [of _ "owed s"]) simp
  next
    case settled: (goes x s1)
    have w1: "works s s1 (lease_key c # map lease_key cs) (map lease_key cs)"
      by (rule settle_failed_works(1) [OF others settled(1)]) simp
    from settled(2) have "settled_or_stuck (\<not> is_ok r) s1 (map lease_key cs) s'"
    proof (cases rule: drain_bindE)
      case (fails y)
      then show ?thesis using release_each_works [OF others fails(1)] by simp
    next
      case (goes y s2)
      then show ?thesis using release_each_works [OF others goes(1)]
        by (auto simp: settled_or_stuck_def split: if_splits)
    qed
    with w1 show ?thesis unfolding Cons by (auto intro: settled_or_stuck_after)
  qed
qed

lemma drain_once_works:
  assumes others: "others_run w" and once: "drain_once w s = (r, s')"
  shows "settled_or_stuck (\<not> is_ok r) s [] s'"
  using once unfolding drain_once_def Let_def
proof (cases rule: drain_bindE)
  case (fails e)
  have "calls s s' [] []" by (rule perform_quiet [OF others _ fails(1)]) simp_all
  then show ?thesis by (simp add: calls_def settled_or_stuckI)
next
  case claimed: (goes claim s1)
  have "calls s s1 [] []" by (rule perform_quiet [OF others _ claimed(1)]) simp_all
  then have w1: "works s s1 [] []" by (simp add: calls_def)
  have "settled_or_stuck (\<not> is_ok r) s1 [] s'"
  proof (cases claim)
    case None
    from claimed(2) [unfolded None option.case] have "calls s1 s' [] []"
      by (rule drain_bind_calls) (auto intro: ask_calls [OF others])
    then show ?thesis by (simp add: calls_def settled_or_stuckI)
  next
    case (Some c)
    let ?s = "lease_to [c] (s1\<lparr>dr_pending := []\<rparr>)"
    obtain r2 s2 where h: "handle_claim w c ?s = (r2, s2)" by fastforce
    have w2: "works s1 ?s [] (owed ?s)"
      by (rule worksI [of _ _ "map Leased [c]"]) (simp_all only: lease_to_def log_simps, simp_all add: run_nil_iff)
    have "handles ?s r2 s2" by (rule handle_claim_handles [OF others h]) (simp add: lease_to_def)
    then have w3: "works ?s s2 (owed ?s) (owed s2)" "is_ok r2 \<Longrightarrow> owed s2 = []" by (auto simp: handles_def)
    have "settled_or_stuck (\<not> is_ok r) s2 (owed s2) s'"
    proof (cases r2)
      case (Inl e)
      with claimed(2) Some h have "drain_bind (after_failure w e s2) (\<lambda>_ s. (Inr Drain_again, s)) = (r, s')" by simp
      then show ?thesis
      proof (cases rule: drain_bindE)
        case (fails x)
        then show ?thesis using after_failure_works [OF others fails(1)] by simp
      next
        case (goes x s3)
        then show ?thesis using after_failure_works [OF others goes(1)] by (auto simp: settled_or_stuck_def)
      qed
    next
      case (Inr x)
      with claimed(2) Some h w3(2) show ?thesis by (simp add: settled_or_stuckI)
    qed
    with w2 w3(1) show ?thesis by (blast intro: settled_or_stuck_after)
  qed
  with w1 show ?thesis by (rule settled_or_stuck_after)
qed

lemma drain_loop_works:
  "others_run w \<Longrightarrow> drain_loop n w s = (r, s') \<Longrightarrow> settled_or_stuck (\<exists>e. r = Some (Inl e)) s [] s'"
proof (induction n arbitrary: s)
  case 0
  then show ?case by (simp add: settled_or_stuckI)
next
  case (Suc n)
  obtain x s1 where once: "drain_once w s = (x, s1)" by fastforce
  note w1 = drain_once_works [OF Suc.prems(1) once]
  show ?case
  proof (cases x)
    case (Inl e)
    with once Suc.prems(2) w1 show ?thesis by auto
  next
    case (Inr turn)
    then have "works s s1 [] []" using w1 by (auto simp: settled_or_stuck_def)
    with once Suc Inr show ?thesis by (cases turn) (auto intro: settled_or_stuckI settled_or_stuck_after)
  qed
qed

lemma drain_works:
  assumes others: "others_run w" and drain: "drain n w s = (r, s')"
  shows "settled_or_stuck (\<exists>e. r = Some (Inl e)) s [] s'"
proof (cases "dr_released s")
  case True
  with drain drain_loop_works [OF others] show ?thesis by (simp add: drain_def)
next
  case False
  obtain x s1 where release: "perform w Op_release_stale (\<lambda>now d. map_prod Inr id (release_stale_leases now d))
      (s\<lparr>dr_released := True\<rparr>) = (x :: nat result, s1)" by fastforce
  have "calls (s\<lparr>dr_released := True\<rparr>) s1 [] []"
    by (rule perform_quiet [OF others _ release]) (simp_all add: done_with_def)
  moreover have "calls s (s\<lparr>dr_released := True\<rparr>) [] []" by (rule calls_same) simp_all
  ultimately have "works s s1 [] []" by (auto simp: calls_def intro: works_trans)
  moreover have "settled_or_stuck (\<exists>e. r = Some (Inl e)) s1 [] s'"
    using drain False release drain_loop_works [OF others] by (simp add: drain_def)
  ultimately show ?thesis by (rule settled_or_stuck_after)
qed

lemma drain_log:
  assumes "others_run w" "drain n w s = (r, s')" "dr_log s' = dr_log s @ evs"
  shows "ingress_run (dr_db s) (ran evs) (dr_db s')" "under_marker evs"
    "ingress_inv (dr_db s) \<Longrightarrow> in_turn [] evs \<and> (\<exists>rest. leased evs = settled evs @ rest \<and>
       (rest = [] \<or> (\<exists>e. r = Some (Inl e)) \<and> stuck (hd rest) s'))"
  using drain_works [OF assms(1,2)] assms(3) unfolding settled_or_stuck_def works_def by auto

section \<open>What the loop promises\<close>

text \<open>
  C10: Eve gets the updates in turn. Whenever the loop hands an update to Eve, in whatever iteration, this worker has just
  marked it with the token of its lease, and of all the leases it took since it was started exactly the earlier ones are
  settled: no update overtakes another of its series or is handed over with an earlier one still open, and the one
  that goes to Eve is still owed.
\<close>

theorem updates_reach_eve_in_turn:
  assumes "others_run w" "drain n w s = (r, s')" "ingress_inv (dr_db s)"
    and "dr_log s' = dr_log s @ before @ Dispatched u # after"
  shows "\<exists>t zs later now rest. before = zs @ [Ours (Op_begin_dispatch u t later) now True] \<and>
    leased before = settled before @ (u, t) # rest"
  using drain_log(3) [OF assms(1,2,4,3)] by (simp add: in_turn_def)

text \<open>
  C2: A message reaches Eve once. When the loop handed the same update to Eve twice, in one iteration or many, then in
  between somebody gave it back as provably undelivered, or its row was purged.
\<close>

theorem drain_delivers_once:
  assumes others: "others_run w" and drain: "drain n w s = (r, s')" and inv: "ingress_inv (dr_db s)"
    and twice: "dr_log s' = dr_log s @ before @ Dispatched u # between @ Dispatched v # after" "decimal_value u = decimal_value v"
  shows "\<exists>e\<in>set (ran between). gives_back (decimal_value u) e \<or> is_purge e"
proof -
  let ?evs = "before @ Dispatched u # between @ Dispatched v # after"
  note run = drain_log(1) [OF others drain twice(1)] and marked = drain_log(2) [OF others drain twice(1)]
  obtain b t later now where b: "before = b @ [Ours (Op_begin_dispatch u t later) now True]"
    using marked unfolding under_marker_def by blast
  have "?evs = (before @ Dispatched u # between) @ Dispatched v # after" by simp
  then obtain zs t' later' now' where "before @ Dispatched u # between = zs @ [Ours (Op_begin_dispatch v t' later') now' True]"
    using marked unfolding under_marker_def by blast
  then obtain m where m: "between = m @ [Ours (Op_begin_dispatch v t' later') now' True]"
    by (cases between rule: rev_cases) auto
  have split: "ran ?evs = ran b @ (Did (Op_begin_dispatch u t later) now True # ran m @ [Did (Op_begin_dispatch v t' later') now' True]) @ ran after"
    by (simp add: b m)
  then obtain d d1 where d: "ingress_run (dr_db s) (ran b) d"
      "ingress_run d (Did (Op_begin_dispatch u t later) now True # ran m @ [Did (Op_begin_dispatch v t' later') now' True]) d1"
    using run unfolding split run_append [of _ "ran b"] run_append [of _ "Did _ _ _ # _" "ran after"] by blast
  have "\<exists>e\<in>set (ran m). gives_back (decimal_value u) e \<or> is_purge e"
    by (rule two_dispatches [OF inv_run [OF d(1) inv] d(2)]) (simp_all add: dispatches_def twice(2))
  then show ?thesis by (auto simp: m)
qed

text \<open>
  C5: Every lease is settled, once and in order. Whatever fails, Eve, the transcription, a marker, the stream or a call that
  settles, the leases the loop took are those it settled, in the order of the queue: completed, failed, given back, or
  returned with the rest of the series. The loop leaves leases to expire only when it ends in an error because the
  call that was to settle the first of them failed last.
\<close>

theorem drain_settles_its_leases:
  assumes "others_run w" "ingress_inv (dr_db s)" "drain n w s = (r, s')" "dr_log s' = dr_log s @ evs"
  shows "\<exists>rest. leased evs = settled evs @ rest \<and>
    (rest = [] \<or> (\<exists>e. r = Some (Inl e)) \<and> (\<exists>opn now. settles opn = Some (hd rest) \<and> last (dr_log s') = Ours opn now False))"
  using drain_log(3) [OF assms(1,3,4,2)] unfolding stuck_def by blast

end
