(* ===== verification/Ingress_Webhook.thy ===== *)
theory Ingress_Webhook
  imports Ingress_Drain
begin

text \<open>
  The other half of agent/lib/telegram-durable-ingress.ts and whisper/telegram-whisper-ingress.ts: a verified update is
  stored before Telegram gets its acknowledgement, or refused for good. Eve's parser hands over the raw update and its
  parsed form; the route of a chat is Eve's continuation token. Noting that a chat can be reached never fails and touches
  no table of the queue.
\<close>

section \<open>Ids, routes and voice notes\<close>

definition natural :: "rat \<Rightarrow> bool" where
  "natural q \<longleftrightarrow> of_int \<lfloor>q\<rfloor> = q \<and> 0 \<le> q \<and> \<lfloor>q\<rfloor> \<le> max_safe_integer"

definition update_id_of :: "jobj \<Rightarrow> string result" where
  "update_id_of raw =
     (case member_of raw ''update_id'' of
        Some (JNum q) \<Rightarrow> if natural q then Inr (nat_text (nat \<lfloor>q\<rfloor>)) else Inl (AppError ''AGENT_TELEGRAM_UPDATE_ID_INVALID'')
      | Some (JStr s) \<Rightarrow>
          if s \<noteq> [] \<and> list_all ascii_digit s then Inr s else Inl (AppError ''AGENT_TELEGRAM_UPDATE_ID_INVALID'')
      | _ \<Rightarrow> Inl (AppError ''AGENT_TELEGRAM_UPDATE_ID_INVALID''))"

record webhook_world =
  wh_route :: "string \<Rightarrow> int option \<Rightarrow> string"
  wh_nfkc :: "string \<Rightarrow> string"
  wh_uuid :: string
  wh_clock :: time
  wh_others :: "nat \<Rightarrow> database \<Rightarrow> ingress_event list \<times> database"

definition queue_key :: "webhook_world \<Rightarrow> inbound_update \<Rightarrow> string" where
  "queue_key w update =
     (case update of
        Message_in m \<Rightarrow> wh_route w (im_chat m) (im_thread m)
      | Callback_in q \<Rightarrow>
          (case cq_message q of
             None \<Rightarrow> ''telegram:callback:'' @ cq_id q
           | Some (chat, thread) \<Rightarrow> wh_route w chat thread))"

text \<open>\<open>telegramVoiceSchema\<close>: an optional member is absent or well-formed, anything else is no voice note at all.\<close>

definition optional_member :: "jobj \<Rightarrow> string \<Rightarrow> (json \<Rightarrow> 'a option) \<Rightarrow> 'a option option" where
  "optional_member r k f = (case member_of r k of None \<Rightarrow> Some None | Some v \<Rightarrow> map_option Some (f v))"

definition non_empty_string :: "json \<Rightarrow> string option" where
  "non_empty_string v = (case v of JStr s \<Rightarrow> if s \<noteq> [] then Some s else None | _ \<Rightarrow> None)"

definition positive_integer :: "json \<Rightarrow> js_number option" where
  "positive_integer v = (case v of JNum q \<Rightarrow> if natural q \<and> 0 < q then Some (Int_num \<lfloor>q\<rfloor>) else None | _ \<Rightarrow> None)"

definition voice_metadata :: "jobj \<Rightarrow> ingress_voice option" where
  "voice_metadata raw =
     (case (update_id_of raw, opt_record (opt_member (opt_record (member_of raw ''message'')) ''voice'')) of
        (Inr _, Some voice) \<Rightarrow>
          (case (Option.bind (member_of voice ''file_id'') non_empty_string,
                 optional_member voice ''file_size'' positive_integer,
                 optional_member voice ''mime_type'' non_empty_string) of
             (Some file, Some bytes, Some mime) \<Rightarrow> Some \<lparr>v_file = file, v_size = bytes, v_mime = mime\<rparr>
           | _ \<Rightarrow> None)
      | _ \<Rightarrow> None)"

section \<open>Whispers\<close>

record whisper_marker =
  wm_ephemeral :: int
  wm_placeholder :: int
  wm_receiver :: string

text \<open>\<open>TelegramWhisperGate\<close>: what it answers when a whisper is opened, and when its placeholder is taken back.\<close>

record whisper_gate =
  wg_open :: "inbound_message \<Rightarrow> string \<Rightarrow> whisper_marker option result"
  wg_close :: "string \<Rightarrow> whisper_marker \<Rightarrow> unit result"

definition is_telegram_ephemeral_message :: "jobj \<Rightarrow> bool" where
  "is_telegram_ephemeral_message raw =
     (case member_of raw ''ephemeral_message_id'' of None \<Rightarrow> False | Some v \<Rightarrow> v \<noteq> JNull)"

definition whisper_marker_json :: "whisper_marker \<Rightarrow> json" where
  "whisper_marker_json k = JObj [(''ephemeralMessageId'', JNum (of_int (wm_ephemeral k))),
     (''placeholderMessageId'', JNum (of_int (wm_placeholder k))), (''receiverUserId'', JStr (wm_receiver k))]"

definition with_telegram_whisper_marker :: "jobj \<Rightarrow> whisper_marker \<Rightarrow> jobj" where
  "with_telegram_whisper_marker payload k =
     (let message = (case opt_record (member_of payload ''message'') of None \<Rightarrow> [] | Some m \<Rightarrow> m)
      in set_member payload ''message'' (JObj (set_member message ''osinara_whisper'' (whisper_marker_json k))))"

definition telegram_whisper_queue_key :: "string \<Rightarrow> string \<Rightarrow> string" where
  "telegram_whisper_queue_key chat user = ''telegram:whisper:'' @ chat @ '':'' @ user"

datatype whisper_outcome = Whisper_dropped | Whisper_queued

definition enqueue_after_others :: "webhook_world \<Rightarrow> enqueue_input \<Rightarrow> database \<Rightarrow> enqueue_outcome result \<times> database" where
  "enqueue_after_others w input d = enqueue (wh_uuid w) input (wh_clock w) (snd (wh_others w 1 d))"

definition accept_telegram_ephemeral_message ::
  "webhook_world \<Rightarrow> whisper_gate option \<Rightarrow> inbound_message \<Rightarrow> jobj \<Rightarrow> string \<Rightarrow> database
     \<Rightarrow> whisper_outcome result \<times> database" where
  "accept_telegram_ephemeral_message w gate m raw update_id d =
     (case gate of
        None \<Rightarrow> (Inr Whisper_dropped, d)
      | Some g \<Rightarrow>
          (case wg_open g m update_id of
             Inl e \<Rightarrow> (Inl e, d)
           | Inr None \<Rightarrow> (Inr Whisper_dropped, d)
           | Inr (Some k) \<Rightarrow>
               (case enqueue_after_others w
                    \<lparr>e_key = telegram_whisper_queue_key (im_chat m) (wm_receiver k),
                     e_payload = JObj (with_telegram_whisper_marker raw k), e_update = update_id, e_voice = None\<rparr> d of
                  (Inr Inserted, d1) \<Rightarrow> (Inr Whisper_queued, d1)
                | (r, d1) \<Rightarrow>
                    if (case r of Inl e \<Rightarrow> e \<noteq> AppError ''AGENT_TELEGRAM_UPDATE_CONFLICT'' | Inr x \<Rightarrow> False)
                    then (case r of Inl e \<Rightarrow> (Inl e, d1) | Inr x \<Rightarrow> (Inr Whisper_dropped, d1))
                    else (res_bind (wg_close g (im_chat m) k) (\<lambda>_. Inr Whisper_dropped), d1))))"

section \<open>A verified update\<close>

definition text_fallback :: "inbound_message \<Rightarrow> bool" where
  "text_fallback m \<longleftrightarrow> length (im_attachments m) = 1 \<and> \<not> has_telegram_raw_media_besides_lifted (im_raw m) \<and>
     rich_media_is_lifted (im_raw m) \<and> rich_message_plain_text (im_raw m) \<noteq> None"

text \<open>Whether the file of the message is refused: only messages with media are asked about.\<close>

definition media_refused ::
  "webhook_world \<Rightarrow> inbound_update \<Rightarrow> string \<Rightarrow> database \<Rightarrow> bool result \<times> database" where
  "media_refused w update update_id d =
     (case update of
        Callback_in q \<Rightarrow> (Inr False, d)
      | Message_in m \<Rightarrow>
          (case classify_telegram_inbound_media (wh_nfkc w) (im_body m) of
             None \<Rightarrow> (Inr False, d)
           | Some kind \<Rightarrow>
               (case accept_media \<lparr>mi_chat = im_chat m, mi_chat_type = im_chat_type m, mi_kind = kind,
                    mi_text_fallback = text_fallback m, mi_update = update_id\<rparr> (snd (wh_others w 0 d)) of
                  (r, d1) \<Rightarrow> (res_bind r (\<lambda>accepted. Inr (\<not> accepted)), d1))))"

definition stored_payload :: "webhook_world \<Rightarrow> inbound_update \<Rightarrow> bool \<Rightarrow> jobj \<Rightarrow> jobj" where
  "stored_payload w update refused raw =
     (let payload = if refused then without_rich_media_blocks raw else raw in
      case update of
        Message_in m \<Rightarrow>
          if classify_telegram_inbound_media (wh_nfkc w) (im_body m) = None then without_rich_media_blocks payload else payload
      | Callback_in q \<Rightarrow> payload)"

definition accept_update ::
  "webhook_world \<Rightarrow> jobj \<Rightarrow> inbound_update \<Rightarrow> string \<Rightarrow> database \<Rightarrow> bool result \<times> database" where
  "accept_update w raw update update_id d =
     (case media_refused w update update_id d of
        (Inl e, d1) \<Rightarrow> (Inl e, d1)
      | (Inr refused, d1) \<Rightarrow>
          if refused \<and> \<not> (case update of Message_in m \<Rightarrow> text_fallback m | Callback_in q \<Rightarrow> False) then (Inr False, d1)
          else
            (case enqueue_after_others w
                \<lparr>e_key = queue_key w update, e_payload = JObj (stored_payload w update refused raw),
                 e_update = update_id, e_voice = voice_metadata raw\<rparr> d1 of
               (r, d2) \<Rightarrow> (res_bind r (\<lambda>_. Inr True), d2)))"

text \<open>Answers whether a drain is scheduled; every answer is an acknowledgement to Telegram, an error is none.\<close>

definition handle_verified_update ::
  "webhook_world \<Rightarrow> whisper_gate option \<Rightarrow> jobj \<Rightarrow> inbound_update \<Rightarrow> database \<Rightarrow> bool result \<times> database" where
  "handle_verified_update w gate raw parsed d =
     (case update_id_of raw of
        Inl e \<Rightarrow> (Inl e, d)
      | Inr update_id \<Rightarrow>
          (let update = normalize_inbound parsed in
           case update of
             Callback_in q \<Rightarrow> accept_update w raw update update_id d
           | Message_in m \<Rightarrow>
               if is_telegram_ephemeral_message (im_raw m)
               then (case accept_telegram_ephemeral_message w gate m raw update_id d of
                   (r, d1) \<Rightarrow> (res_bind r (\<lambda>o'. Inr (o' = Whisper_queued)), d1))
               else accept_update w raw update update_id d))"

text \<open>\<open>scheduleDrain\<close>: the number of running loops after a trigger.\<close>

definition schedule_drain :: "nat \<Rightarrow> nat \<Rightarrow> nat" where
  "schedule_drain limit active = (if active < limit then Suc active else active)"

section \<open>What an acknowledgement means\<close>

definition is_kept :: "int \<Rightarrow> database \<Rightarrow> bool" where
  "is_kept uid d \<longleftrightarrow> exists_row (\<lambda>r. u_id r = uid) (updates d) \<or> is_ignored uid d"

lemma enqueue_keeps:
  assumes "enqueue uuid input now d = (Inr x, d')"
  shows "is_kept (decimal_value (e_update input)) d'"
proof -
  have "run_tx (enqueue_body uuid input now) d = (Inr x, d')"
    using assms by (auto simp: enqueue_def when_valid_def split: sum.splits)
  then show ?thesis
    by (auto simp: run_tx_def enqueue_body_def store_update_def is_kept_def new_update_def
        dest!: first_row_Some split: if_splits sum.splits option.splits)
qed

lemma refusal_keeps:
  assumes "accept_media input d = (Inr False, d')" "\<not> mi_text_fallback input"
  shows "is_kept (decimal_value (mi_update input)) d'"
  using assms by (auto simp: accept_media_def when_valid_def run_tx_def accept_media_body_def Let_def is_kept_def
      is_ignored_def insert_ignored_media_def split: sum.splits if_splits)

lemma accepted_update_kept:
  assumes "accept_update w raw update update_id d = (Inr b, d')"
  shows "is_kept (decimal_value update_id) d'"
proof -
  obtain refused d1 where refused: "media_refused w update update_id d = (Inr refused, d1)"
    using assms by (auto simp: accept_update_def split: prod.splits sum.splits)
  let ?fallback = "case update of Message_in m \<Rightarrow> text_fallback m | Callback_in q \<Rightarrow> False"
  show ?thesis
  proof (cases "refused \<and> \<not> ?fallback")
    case True
    then obtain m kind where m: "update = Message_in m" "classify_telegram_inbound_media (wh_nfkc w) (im_body m) = Some kind"
      using refused by (auto simp: media_refused_def split: inbound_update.splits option.splits)
    let ?input = "\<lparr>mi_chat = im_chat m, mi_chat_type = im_chat_type m, mi_kind = kind,
        mi_text_fallback = text_fallback m, mi_update = update_id\<rparr>"
    have "accept_media ?input (snd (wh_others w 0 d)) = (Inr False, d1)"
      using refused m True by (auto simp: media_refused_def res_bind_Inr_iff split: prod.splits)
    from refusal_keeps [OF this] show ?thesis using True m assms refused by (simp add: accept_update_def)
  next
    case False
    then obtain x where "enqueue_after_others w \<lparr>e_key = queue_key w update, e_payload = JObj (stored_payload w update refused raw),
        e_update = update_id, e_voice = voice_metadata raw\<rparr> d1 = (Inr x, d')"
      using assms refused by (auto simp: accept_update_def res_bind_Inr_iff split: prod.splits if_splits)
    from enqueue_keeps [OF this [unfolded enqueue_after_others_def]] show ?thesis by simp
  qed
qed

text \<open>
  C11: What Telegram gets acknowledged is not lost. When the webhook answers an update that is not ephemeral, the update is
  in the queue, or a tombstone says that its file was refused for good; on any error Telegram gets no
  acknowledgement and sends the update again.
\<close>

theorem acknowledged_updates_are_kept:
  assumes "handle_verified_update w gate raw parsed d = (Inr b, d')"
    and "\<forall>m. normalize_inbound parsed = Message_in m \<longrightarrow> \<not> is_telegram_ephemeral_message (im_raw m)"
  shows "\<exists>update_id. update_id_of raw = Inr update_id \<and> is_kept (decimal_value update_id) d'"
  using assms by (auto simp: handle_verified_update_def Let_def split: sum.splits inbound_update.splits
      intro: accepted_update_kept)

section \<open>Files the chat may not read\<close>

lemma other_member [simp]: "k \<noteq> f \<Longrightarrow> has_own (set_member r k v) f = has_own r f"
  by (simp add: has_own_def member_set_member)

lemma rich_media_other_member:
  "k \<noteq> ''rich_message'' \<Longrightarrow> rich_message_media (set_member r k v) = rich_message_media r"
  by (simp add: rich_message_media_def media_blocks_def member_set_member)

lemma conditional_other_member:
  "k \<noteq> f \<Longrightarrow> f \<noteq> ''rich_message'' \<Longrightarrow> conditional_field_is_media (set_member r k v) f = conditional_field_is_media r f"
  by (cases "member_of r f") (simp_all add: conditional_field_is_media_def member_set_member)

lemma with_text_raw:
  "\<exists>b'. with_rich_message_text (Message_update b) = Message_update b' \<and> tm_raw b' = tm_raw b \<and> tm_attachments b' = tm_attachments b"
  by (cases "rich_message_plain_text (tm_raw b)") (simp_all add: with_rich_message_text_def)

lemma lifted_document_id: "rich_message_media r = Some (Rich_document d) \<Longrightarrow> member_of d ''file_id'' \<noteq> None"
  by (auto simp: rich_message_media_def has_file_id_def split: option.splits list.splits json.splits if_splits)

text \<open>When the file is only in the blocks, normalizing lifts it into one member and touches no other.\<close>

lemma lifted_raw:
  assumes "normalize_inbound (Message_in m0) = Message_in m" "text_fallback m"
    and "\<not> has_own (im_raw m0) ''photo''" "\<not> has_own (im_raw m0) ''document''"
  obtains field v lifted where "im_raw m = set_member (im_raw m0) field v" "rich_message_media (im_raw m0) = Some lifted"
    "field = (case lifted of Rich_photo sizes \<Rightarrow> ''photo'' | Rich_document d \<Rightarrow> ''document'')"
proof -
  obtain b where b: "with_rich_message_text (Message_update (im_body m0)) = Message_update b"
      "tm_raw b = im_raw m0" "tm_attachments b = im_attachments m0"
    using with_text_raw by blast
  have lift: "rich_media_is_lifted (im_raw m)" using assms(2) by (simp add: text_fallback_def)
  have "\<not> rich_media_is_lifted (im_raw m0)"
    using assms(3,4) by (auto simp: rich_media_is_lifted_def has_own_def split: option.splits rich_media.splits
        dest!: lifted_document_id elim!: strict_equal.elims)
  with lift have "im_raw m \<noteq> im_raw m0" by metis
  then have "\<exists>lifted. rich_message_media (im_raw m0) = Some lifted \<and> im_raw m = (case lifted of
      Rich_photo sizes \<Rightarrow> set_member (im_raw m0) ''photo'' (JArr (map JObj sizes))
    | Rich_document d \<Rightarrow> set_member (im_raw m0) ''document'' (JObj d))"
    using assms(1,3,4) b
    by (auto simp: normalize_inbound_def normalize_rich_message_def has_own_def split: if_splits option.splits rich_media.splits)
  then obtain lifted where lifted: "rich_message_media (im_raw m0) = Some lifted" "im_raw m = (case lifted of
      Rich_photo sizes \<Rightarrow> set_member (im_raw m0) ''photo'' (JArr (map JObj sizes))
    | Rich_document d \<Rightarrow> set_member (im_raw m0) ''document'' (JObj d))" by blast
  show thesis
  proof (cases lifted)
    case (Rich_photo sizes)
    then show ?thesis using lifted by (intro that [of "''photo''" "JArr (map JObj sizes)" lifted]) simp_all
  next
    case (Rich_document d)
    then show ?thesis using lifted by (intro that [of "''document''" "JObj d" lifted]) simp_all
  qed
qed

text \<open>The blocks a stripped message still has: none of them, at any depth, is of a file type.\<close>

lemma stripped_blocks:
  assumes message: "payload_message (without_rich_media_blocks payload) = Some message"
    and blocks: "opt_member (opt_record (member_of message ''rich_message'')) ''blocks'' = Some (JArr bs)" "b \<in> set (all_blocks (JArr bs))"
  shows "block_type b \<notin> Some ` {''animation'', ''audio'', ''document'', ''photo'', ''video'', ''voice_note''}"
proof -
  have "\<exists>m r bs'. rich_blocks payload m r bs'"
  proof (rule ccontr)
    assume none: "\<nexists>m r bs'. rich_blocks payload m r bs'"
    then have "payload_message payload = Some message" using message by (simp add: without_rich_media_blocks_kept)
    with none blocks(1) show False
      by (auto simp: rich_blocks_def payload_message_def opt_record_Some_iff opt_member_def split: option.splits bind_splits)
  qed
  then obtain m r bs' where rich: "rich_blocks payload m r bs'" by blast
  have "bs = strip_media_blocks bs'"
    using message blocks(1)
    by (simp add: without_rich_media_blocks_stripped [OF rich] payload_message_def member_set_member)
      (auto simp: member_set_member opt_record_def)
  with blocks(2) have "\<not> is_media_block b" using strip_no_media [of bs'] by (auto simp: filter_empty_conv)
  then show ?thesis by (auto simp: is_media_block_def rich_media_blocks_def)
qed

text \<open>
  C39: The file of a refused post is not stored. When only the text of a rich post goes on and Telegram sent its file in the
  blocks alone, the stored message has no file left: no block of a file type at any depth, no media member, nothing to
  lift, and no file in any other member that can hold one.
\<close>

theorem refused_file_is_not_stored:
  assumes "normalize_inbound (Message_in m0) = Message_in m" "text_fallback m"
    and "member_of raw ''message'' = Some (JObj (im_raw m0))"
    and "\<not> has_own (im_raw m0) ''photo''" "\<not> has_own (im_raw m0) ''document''"
  shows "\<exists>message. payload_message (stored_payload w (Message_in m) True raw) = Some message \<and>
    (\<forall>bs b. opt_member (opt_record (member_of message ''rich_message'')) ''blocks'' = Some (JArr bs) \<and> b \<in> set (all_blocks (JArr bs)) \<longrightarrow>
       block_type b \<notin> Some ` {''animation'', ''audio'', ''document'', ''photo'', ''video'', ''voice_note''}) \<and>
    rich_message_media message = None \<and> list_all (\<lambda>f. \<not> has_own message f) inbound_media_fields \<and>
    list_all (\<lambda>f. f = ''rich_message'' \<or> \<not> conditional_field_is_media message f) conditional_media_fields"
proof -
  obtain field v lifted where lifted: "im_raw m = set_member (im_raw m0) field v" "rich_message_media (im_raw m0) = Some lifted"
      "field = (case lifted of Rich_photo sizes \<Rightarrow> ''photo'' | Rich_document d \<Rightarrow> ''document'')"
    by (rule lifted_raw [OF assms(1,2,4,5)])
  have rich: "field \<noteq> ''rich_message''" "field \<notin> set conditional_media_fields" "field = ''photo'' \<or> field = ''document''"
    using lifted(3) by (auto simp: conditional_media_fields_def split: rich_media.splits)
  have "rich_message_media (im_raw m) = Some lifted" using lifted(1,2) rich(1) by (simp add: rich_media_other_member)
  then have besides: "list_all (\<lambda>f. f = field \<or> \<not> has_own (im_raw m) f) inbound_media_fields"
      "list_all (\<lambda>f. f = ''rich_message'' \<or> \<not> conditional_field_is_media (im_raw m) f) conditional_media_fields"
    using assms(2) lifted(3)
    by (simp_all add: text_fallback_def has_telegram_raw_media_besides_lifted_def Let_def list_ex_iff list_all_iff)
  have media: "\<not> has_own (im_raw m0) f" if "f \<in> set inbound_media_fields" for f
    using besides(1) that rich(3) assms(4,5) lifted(1) by (cases "f = field") (auto simp: list_all_iff)
  have conditional: "\<not> conditional_field_is_media (im_raw m0) f" if "f \<in> set conditional_media_fields" "f \<noteq> ''rich_message''" for f
    using besides(2) that rich(2) lifted(1) conditional_other_member [of field f] by (auto simp: list_all_iff)
  have kind: "classify_telegram_inbound_media (wh_nfkc w) (im_body m) \<noteq> None"
    using assms(2) by (auto simp: text_fallback_def classify_telegram_inbound_media_def photo_kind_def document_kind_def Let_def
        split: option.splits json.splits list.splits)
  then have stored: "stored_payload w (Message_in m) True raw = without_rich_media_blocks raw"
    by (auto simp: stored_payload_def Let_def)
  have "payload_message raw = Some (im_raw m0)" by (simp add: payload_message_def assms(3))
  then have "\<exists>message. payload_message (without_rich_media_blocks raw) = Some message \<and>
      (message = im_raw m0 \<or> (\<exists>v. message = set_member (im_raw m0) ''rich_message'' v))"
    unfolding payload_message_without by (auto split: option.split json.split)
  then obtain message where message: "payload_message (without_rich_media_blocks raw) = Some message"
      "message = im_raw m0 \<or> (\<exists>v. message = set_member (im_raw m0) ''rich_message'' v)" by blast
  have other: "has_own message f = has_own (im_raw m0) f" if "f \<in> set inbound_media_fields" for f
    using message(2) that by (auto simp: inbound_media_fields_def)
  have "conditional_field_is_media message f = conditional_field_is_media (im_raw m0) f" if "f \<noteq> ''rich_message''" for f
    using message(2) that by (auto simp: conditional_other_member)
  then show ?thesis
    using stored message(1) stripped_payload_has_no_media [OF message(1)] media conditional other
    by (intro exI [of _ message] conjI allI impI) (auto simp: list_all_iff dest: stripped_blocks [OF message(1)])
qed

end
