(* ===== verification/Ingress_Witness.thy ===== *)
theory Ingress_Witness
  imports Ingress_Properties
begin

text \<open>One chat with one message, followed through the operations, for the witnesses.\<close>

definition sample_token :: string where
  "sample_token = ''11111111-1111-1111-8111-111111111111''"

definition other_token :: string where
  "other_token = ''22222222-2222-2222-8222-222222222222''"

definition sample_input :: enqueue_input where
  "sample_input = \<lparr>e_key = ''chat:1'', e_payload = JObj [], e_update = ''5'', e_voice = None\<rparr>"

definition sample_failure :: ingress_failure where
  "sample_failure = \<lparr>f_code = ''E'', f_message = ''m''\<rparr>"

lemma sample_uuids [simp]:
  "uuid_pattern sample_token" "uuid_pattern other_token"
  "uuid_of sample_token = sample_token" "uuid_of other_token = other_token"
  "sample_token \<noteq> other_token" "other_token \<noteq> sample_token"
  by (simp_all add: sample_token_def other_token_def uuid_pattern_def uuid_of_def uuid_shape_def hex_digit_def
      ascii_digit_def ascii_lower_def less_eq_char_def numeral_eq_Suc)

lemma sample_texts [simp]:
  "decimal_value ''5'' = 5" "js_trim ''chat:1'' = ''chat:1''" "js_trim sample_token = sample_token"
  "js_trim other_token = other_token" "js_trim ''E'' = ''E''" "js_trim ''m'' = ''m''"
  by (simp_all add: decimal_value_def digit_value_def js_trim_def js_space_def sample_token_def other_token_def)

lemma sample_token_Nil [simp]: "sample_token \<noteq> []" "other_token \<noteq> []"
  by (simp_all add: sample_token_def other_token_def)

lemma sample_valid [simp]:
  "require_update_id ''5'' = Inr ''5''"
  "validate_enqueue_input sample_input = Inr ()"
  "require_failure sample_failure = Inr sample_failure"
  "require_lease_milliseconds (Int_num 60000) = Inr 60000"
  "require_private_burst_policy no_private_burst = Inr ()"
  "valid_lease_args ''5'' sample_token = Inr sample_token"
  "valid_lease_args ''5'' other_token = Inr other_token"
  "marker_args ''5'' sample_token = Inr ''5''"
  "marker_args ''5'' other_token = Inr ''5''"
  by (simp_all add: require_update_id_def update_id_syntax_def ascii_digit_def less_eq_char_def postgres_bigint_max_def
      validate_enqueue_input_def sample_input_def require_non_empty_def require_failure_def sample_failure_def
      require_lease_milliseconds_def max_safe_integer_def require_private_burst_policy_def no_private_burst_def
      valid_lease_args_def marker_args_def require_uuid_def)

definition sample_row :: ingress_update where
  "sample_row = new_update sample_input sample_token 0"

definition sample_state :: "ingress_update \<Rightarrow> database" where
  "sample_state r = empty_database\<lparr>queues := [\<lparr>q_id = sample_token, q_key = ''chat:1''\<rparr>],
     aliases := [(''chat:1'', sample_token)], updates := [r]\<rparr>"

lemma sample_enqueue: "enqueue sample_token sample_input 0 empty_database = (Inr Inserted, sample_state sample_row)"
  by (simp add: enqueue_def run_tx_def enqueue_body_def is_ignored_def exists_row_def ensure_queue_def alias_of_def
      first_row_def insert_queue_def insert_alias_def store_update_def sample_state_def sample_row_def empty_database_def is_record_def)
    (simp add: sample_input_def is_record_def)

definition sample_claim :: "string \<Rightarrow> ingress_update \<Rightarrow> ingress_claim" where
  "sample_claim tok r = map_telegram_ingress_claim (u_acquire tok 60000001 r) ''chat:1''"

lemma sample_burst [simp]:
  "number_value (quiet_ms no_private_burst) = 0" "number_value (max_wait_ms no_private_burst) = 0"
  by (simp_all add: no_private_burst_def)

lemma sample_claim_next:
  assumes "u_status r = IPending" "u_queue r = sample_token" "u_id r = 5"
  shows "claim_next (Int_num 60000) no_private_burst (\<lambda>_. False) tok 1 (sample_state r) =
    (Inr (Some (sample_claim tok r)), sample_state (u_acquire tok 60000001 r))"
  using assms by (simp add: claim_next_def sample_state_def select_ordered_def claim_candidate_def claimable_def
      turn_start_paused_def exists_row_def empty_database_def behind_open_update_def burst_holds_def
      first_row_def update_where_def sample_claim_def millis_def Let_def)

lemma sample_begin_dispatch:
  assumes "u_id r = 5" "u_dispatch r = None" "tok = sample_token \<or> tok = other_token"
  shows "begin_dispatch ''5'' tok 2 2 (sample_state (u_acquire tok 60000001 r)) =
    (Inr (), sample_state ((u_acquire tok 60000001 r)\<lparr>u_dispatch := Some 2\<rparr>))"
  using assms by (auto simp: begin_dispatch_def sample_state_def u_acquire_def dispatch_where_def lease_where_def
      holds_lease_def row_count_def update_where_def)

definition dispatched_row :: ingress_update where
  "dispatched_row = (u_acquire sample_token 60000001 sample_row)\<lparr>u_dispatch := Some 2\<rparr>"

definition returned_row :: ingress_update where
  "returned_row = u_release_undelivered sample_failure dispatched_row"

lemma sample_return:
  "release_undelivered ''5'' sample_token sample_failure 3 (sample_state dispatched_row) =
    (Inr (), sample_state returned_row)"
  by (simp add: release_undelivered_def with_active_lease_def Let_def sample_state_def dispatched_row_def
      returned_row_def u_acquire_def sample_row_def new_update_def sample_input_def lease_where_def holds_lease_def
      row_count_def update_where_def)

lemma sample_row_fields [simp]:
  "u_id sample_row = 5" "u_status sample_row = IPending" "u_queue sample_row = sample_token"
  "u_dispatch sample_row = None" "u_id returned_row = 5" "u_status returned_row = IPending"
  "u_queue returned_row = sample_token" "u_dispatch returned_row = None"
  by (simp_all add: sample_row_def new_update_def sample_input_def returned_row_def u_release_undelivered_def
      dispatched_row_def u_acquire_def)

section \<open>A run in which a message is dispatched, provably lost, and dispatched again\<close>

definition dispatch_op :: "string \<Rightarrow> ingress_event" where
  "dispatch_op tok = Did (Op_begin_dispatch ''5'' tok 2) 2 True"

definition return_op :: ingress_event where
  "return_op = Did (Op_release_undelivered ''5'' sample_token sample_failure) 3 True"

definition claim_op :: "string \<Rightarrow> ingress_event" where
  "claim_op tok = Did (Op_claim_next (Int_num 60000) no_private_burst (\<lambda>_. False) tok) 1 True"

definition enqueue_op :: ingress_event where
  "enqueue_op = Did (Op_enqueue sample_token sample_input) 0 True"

lemma sample_steps:
  "ingress_step empty_database enqueue_op (sample_state sample_row)"
  "ingress_step (sample_state sample_row) (claim_op sample_token) (sample_state (u_acquire sample_token 60000001 sample_row))"
  "ingress_step (sample_state (u_acquire sample_token 60000001 sample_row)) (dispatch_op sample_token)
     (sample_state dispatched_row)"
  "ingress_step (sample_state dispatched_row) return_op (sample_state returned_row)"
  "ingress_step (sample_state returned_row) (claim_op other_token) (sample_state (u_acquire other_token 60000001 returned_row))"
  "\<exists>d. ingress_step (sample_state (u_acquire other_token 60000001 returned_row)) (dispatch_op other_token) d"
  unfolding enqueue_op_def claim_op_def dispatch_op_def return_op_def dispatched_row_def
  by (auto intro!: did exI simp: done_with_def sample_enqueue sample_claim_next sample_begin_dispatch
      sample_return [unfolded dispatched_row_def])

lemma sample_run_claimed:
  "ingress_run empty_database [enqueue_op, claim_op sample_token]
     (sample_state (u_acquire sample_token 60000001 sample_row))"
  by (intro run_cons [OF sample_steps(1)] run_cons [OF sample_steps(2)] run_nil)

lemma sample_inv:
  "ingress_inv (sample_state sample_row)" "ingress_inv (sample_state (u_acquire sample_token 60000001 sample_row))"
  using inv_step [OF sample_steps(1) empty_ingress_inv] inv_run [OF sample_run_claimed empty_ingress_inv]
  by simp_all

lemma dispatch_happens_once_witness:
  "\<exists>es d. ingress_run empty_database es d \<and>
     (\<exists>e\<in>set [return_op, claim_op other_token]. gives_back 5 e \<or> is_purge e)"
proof -
  obtain d where last: "ingress_step (sample_state (u_acquire other_token 60000001 returned_row)) (dispatch_op other_token) d"
    using sample_steps(6) by blast
  have run: "ingress_run (sample_state (u_acquire sample_token 60000001 sample_row))
      (dispatch_op sample_token # [return_op, claim_op other_token] @ [dispatch_op other_token]) d"
    using last by (auto intro!: run_cons [OF sample_steps(3)] run_cons [OF sample_steps(4)]
        run_cons [OF sample_steps(5)] run_cons run_nil)
  have "dispatches 5 (dispatch_op sample_token)" "dispatches 5 (dispatch_op other_token)"
    by (simp_all add: dispatches_def dispatch_op_def)
  from dispatch_happens_once [OF sample_inv(2) run this] show ?thesis
    using run_append [of empty_database "[enqueue_op, claim_op sample_token]"] sample_run_claimed run by blast
qed

text \<open>The same chat with an earlier, completed update in front.\<close>

definition done_row :: ingress_update where
  "done_row = (u_complete 0 sample_row)\<lparr>u_id := 4\<rparr>"

definition two_updates :: database where
  "two_updates = (sample_state sample_row)\<lparr>updates := [done_row, sample_row]\<rparr>"

lemma row_fields:
  "u_id done_row = 4" "u_status done_row = ICompleted" "u_queue done_row = sample_token"
  "u_key done_row = ''chat:1''" "u_completed done_row = Some 0" "u_token done_row = None" "u_expires done_row = None"
  by (simp_all add: done_row_def u_complete_def sample_row_def new_update_def sample_input_def)

lemma sample_row_ok: "row_ok sample_row"
  unfolding sample_row_def by (rule row_ok_new_update [OF sample_valid(2)]) (simp add: sample_input_def is_record_def)

lemma done_row_ok: "row_ok done_row"
  using sample_row_ok by (auto simp: row_ok_def lease_columns_ok_def voice_columns_ok_def done_row_def u_complete_def
      postgres_bigint_max_def sample_row_def new_update_def)

lemma two_updates_inv: "ingress_inv two_updates"
  using sample_inv(1) done_row_ok
  by (auto simp: ingress_inv_def queues_ok_def aliases_ok_def updates_ok_def two_updates_def update_rows.pk_def
      sample_state_def row_fields)

lemma two_updates_claim:
  "claim_next (Int_num 60000) no_private_burst (\<lambda>_. False) sample_token 1 two_updates =
    (Inr (Some (sample_claim sample_token sample_row)),
     two_updates\<lparr>updates := [done_row, u_acquire sample_token 60000001 sample_row]\<rparr>)"
  by (simp add: claim_next_def two_updates_def sample_state_def select_ordered_def claim_candidate_def claimable_def
      turn_start_paused_def exists_row_def empty_database_def behind_open_update_def burst_holds_def row_fields
      open_status_def first_row_def update_where_def sample_claim_def millis_def Let_def)

lemma nat_text_5: "nat_text 5 = ''5''"
  by (subst nat_text.simps) (simp add: digit_char_def char_of_def bit_simps)

lemma sample_claim_fields [simp]:
  "c_update (sample_claim tok sample_row) = ''5''" "c_queue (sample_claim tok sample_row) = sample_token"
  "c_token (sample_claim tok sample_row) = tok"
  by (simp_all add: sample_claim_def claim_fields nat_text_5)

lemma claim_next_is_fifo_witness:
  "\<exists>e\<in>set (updates two_updates). u_queue e = sample_token \<and> u_id e < 5 \<and>
     (u_status e = ICompleted \<or> u_status e = IFailed)"
proof (rule bexI [of _ done_row])
  show in_table: "done_row \<in> set (updates two_updates)" by (simp add: two_updates_def)
  show "u_queue done_row = sample_token \<and> u_id done_row < 5 \<and> (u_status done_row = ICompleted \<or> u_status done_row = IFailed)"
    using claim_next_is_fifo [OF two_updates_inv two_updates_claim in_table] by (simp add: row_fields)
qed

lemma claim_next_makes_progress_witness:
  "\<exists>c d'. claim_next (Int_num 60000) no_private_burst (\<lambda>_. False) sample_token 1 two_updates = (Inr (Some c), d') \<and>
     decimal_value (c_update c) \<le> 5"
proof -
  have "\<not> turn_start_paused 1 two_updates" "sample_row \<in> set (updates two_updates)" "claimable 1 sample_row"
      "\<not> (\<lambda>_. False) (u_id sample_row)"
    by (simp_all add: two_updates_def claimable_def turn_start_paused_def sample_state_def empty_database_def)
  moreover have "\<forall>e\<in>set (updates two_updates). u_queue e = u_queue sample_row \<and> u_id e < u_id sample_row \<longrightarrow> \<not> open_status e"
    by (simp add: two_updates_def row_fields open_status_def)
  moreover have "u_received sample_row + millis (number_value (max_wait_ms no_private_burst)) \<le> 1"
    by (simp add: sample_row_def new_update_def)
  ultimately show ?thesis
    using claim_next_makes_progress [OF two_updates_inv sample_valid(4,5), where r = sample_row and now = 1 and locked = "\<lambda>_. False"]
    unfolding sample_row_fields(1) by blast
qed

lemma stale_worker_changes_nothing_witness:
  "lease_lost (complete ''5'' other_token 2 (sample_state (u_acquire sample_token 60000001 sample_row)))
     (sample_state (u_acquire sample_token 60000001 sample_row))"
  using stale_worker_changes_nothing [OF sample_inv(1) sample_claim_next [of sample_row sample_token] _ _
      sample_valid(3,4), of other_token "''s''" "Int_num 3" "''hi''" 2 0]
  by (simp add: js_trim_def js_space_def max_safe_integer_def)

lemma settled_updates_stay_settled_witness: "done_row \<in> set (updates two_updates)"
  using settled_updates_stay_settled [OF two_updates_inv run_nil, of done_row]
  by (auto simp: two_updates_def row_fields)

lemma redelivery_is_duplicate_witness:
  "enqueue other_token sample_input 9 (sample_state (u_acquire sample_token 60000001 sample_row)) =
     (Inr Duplicate, sample_state (u_acquire sample_token 60000001 sample_row))"
proof -
  have run: "ingress_run (sample_state sample_row) [claim_op sample_token]
      (sample_state (u_acquire sample_token 60000001 sample_row))"
    by (rule run_cons [OF sample_steps(2) run_nil])
  have "\<forall>e\<in>set [claim_op sample_token]. \<not> is_purge e" by (simp add: claim_op_def is_purge_def)
  with redelivery_is_duplicate [OF empty_ingress_inv sample_enqueue run] show ?thesis by blast
qed

definition sample_media :: media_input where
  "sample_media = \<lparr>mi_chat = ''chat:1'', mi_chat_type = Group_chat, mi_kind = Native_photo,
     mi_text_fallback = False, mi_update = ''5''\<rparr>"

definition tombstone_state :: database where
  "tombstone_state = empty_database\<lparr>ignored := [(5, ignored_media_reason)]\<rparr>"

lemma sample_refusal: "accept_media sample_media empty_database = (Inr False, tombstone_state)"
  by (simp add: accept_media_def sample_media_def require_non_empty_def run_tx_def accept_media_body_def
      is_ignored_def exists_row_def empty_database_def first_row_def group_accepts_media_def insert_ignored_media_def
      tombstone_state_def)

lemma refused_media_stays_refused_witness:
  "accept_media sample_media tombstone_state = (Inr False, tombstone_state) \<and>
   enqueue other_token sample_input 9 tombstone_state = (Inr Duplicate, tombstone_state)"
  by (rule refused_media_stays_refused [OF sample_refusal _ run_nil])
    (simp_all add: sample_media_def, simp add: sample_input_def)

definition family_group :: telegram_group where
  "family_group = \<lparr>g_id = ''g'', g_family = ''f'', g_chat_id = ''chat:1'', g_chat_type = Some Group_chat,
     g_type = Family_private, g_mode = All_messages, g_allowlist = []\<rparr>"

lemma media_needs_a_grant_witness:
  "\<exists>g\<in>set [family_group]. g_chat_id g = ''chat:1'' \<and>
    (g_type g = Family_private \<or>
     distinct (g_allowlist g) \<and> set (g_allowlist g) \<subseteq> set external_group_tool_names \<and>
     ''inspect_workspace_image'' \<in> set (g_allowlist g))"
proof -
  define d where "d = empty_database\<lparr>groups := [family_group]\<rparr>"
  have "accept_media sample_media d = (Inr True, d)"
    by (simp add: accept_media_def sample_media_def require_non_empty_def run_tx_def accept_media_body_def
        is_ignored_def exists_row_def empty_database_def first_row_def group_accepts_media_def d_def family_group_def)
  from media_needs_a_grant [OF this] show ?thesis
    by (simp add: sample_media_def d_def exists_row_def empty_database_def)
qed

lemma session_cursor_is_monotone_witness:
  "\<exists>j\<ge>7. cursor_of ''s'' ((sample_state sample_row)\<lparr>cursors := [(''s'', 7)]\<rparr>) = Some j"
  by (rule session_cursor_is_monotone [OF run_nil]) (simp add: cursor_of_def first_row_def)

definition sample_following :: following_input where
  "sample_following = \<lparr>fo_after = ''5'', fo_lease = Int_num 60000, fo_limit = Int_num 3, fo_queue = sample_token\<rparr>"

lemma claim_following_takes_the_accepted_prefix_witness:
  "\<exists>claims d'. claim_following (\<lambda>_. True) sample_following (\<lambda>_. other_token) 1 two_updates = (Inr claims, d') \<and>
    map (decimal_value \<circ> c_update) claims =
      map u_id (takeWhile (\<lambda>r. u_voice_file r = None \<and> True) (following_candidates sample_following two_updates))"
  by (rule claim_following_takes_the_accepted_prefix [OF two_updates_inv])
    (simp_all add: sample_following_def bad_limit_def max_safe_integer_def)

definition freed_row :: ingress_update where
  "freed_row = (u_acquire sample_token 60000001 sample_row)\<lparr>u_expires := Some 2\<rparr>"

lemma restart_frees_every_lease_witness:
  "\<not> holds_lease freed_row sample_token 2 \<and> claimable 2 freed_row"
proof -
  have "release_stale_leases 2 (sample_state (u_acquire sample_token 60000001 sample_row)) = (1, sample_state freed_row)"
    by (simp add: release_stale_leases_def Let_def sample_state_def row_count_def update_where_def u_acquire_def
        freed_row_def)
  from restart_frees_every_lease [OF sample_inv(2) this, of 2 sample_token] show ?thesis
    by (simp add: sample_state_def freed_row_def u_acquire_def)
qed

lemma constraints_are_never_violated_witness:
  "\<forall>c. fst (enqueue other_token sample_input 9 two_updates) \<noteq> Inl (PgError c) \<and>
   fst (rekey_queue \<lparr>rk_next = ''chat:2'', rk_previous = ''chat:1'', rk_queue = sample_token\<rparr> two_updates) \<noteq> Inl (PgError c)"
  by (intro allI, rule constraints_are_never_violated [OF two_updates_inv])
    (simp_all add: two_updates_def sample_state_def sample_input_def is_record_def)

lemma purge_takes_only_old_completed_updates_witness:
  "\<exists>n d'. purge_completed_telegram_updates (\<lambda>_. False) 500 (31 * day) two_updates = (n, d') \<and>
    n \<le> 500 \<and> sample_row \<in> set (updates d') \<and> length (updates d') + n = 2"
proof -
  obtain n d' where p: "purge_completed_telegram_updates (\<lambda>_. False) 500 (31 * day) two_updates = (n, d')" by fastforce
  have "sample_row \<in> set (updates two_updates)" "u_status sample_row \<noteq> ICompleted" "length (updates two_updates) = 2"
    by (simp_all add: two_updates_def)
  moreover note purge_takes_only_old_completed_updates [OF two_updates_inv p]
  ultimately have "sample_row \<in> set (updates d') \<and> n \<le> 500 \<and> length (updates d') + n = 2" by (metis DiffI)
  with p show ?thesis by blast
qed

end
