(* ===== verification/Ingress_Drain_Witness.thy ===== *)
theory Ingress_Drain_Witness
  imports Ingress_Drain_Properties Ingress_Webhook Ingress_Witness
begin

text \<open>One chat with one message, drained while Eve's session is not ready yet, and a post with a refused photo.\<close>

definition talk_message :: inbound_message where
  "talk_message = \<lparr>im_body = \<lparr>tm_text = ''hi'', tm_attachments = [], tm_raw = []\<rparr>, im_caption = [], im_chat = ''chat:1'',
     im_chat_type = Private_chat, im_from = Some \<lparr>sn_id = ''7'', sn_bot = False, sn_username = None\<rparr>, im_id = ''3'',
     im_reply = None, im_thread = None\<rparr>"

definition talk_world :: "(nat \<Rightarrow> eve_session option result) \<Rightarrow> drain_world" where
  "talk_world answer = \<lparr>dw_burst = no_private_burst, dw_lease = Int_num 60000, dw_bot = ''mia'', dw_named = (\<lambda>_. False),
     dw_nfkc = (\<lambda>s. s), dw_clock = int, dw_token = (\<lambda>_. sample_token), dw_tokens = (\<lambda>_ _. other_token),
     dw_locked = (\<lambda>_ _. False), dw_others = (\<lambda>_ d. ([], d)), dw_parse = (\<lambda>_. Some (Message_in talk_message)),
     dw_located = (\<lambda>u. u), dw_pending = (\<lambda>_. []), dw_captionless = ''file'', dw_wording = (\<lambda>_. ''m''),
     dw_answer = (\<lambda>n _. answer n), dw_software = (\<lambda>_ _. Inr False), dw_voice_allowed = (\<lambda>_ _. Inr False),
     dw_transcribe = (\<lambda>_ _. Inr []), dw_heartbeat = (\<lambda>_. None)\<rparr>"

definition late_hook :: "nat \<Rightarrow> eve_session option result" where
  "late_hook n = (if n < 9 then Inl (HostError ''HookNotFoundError'') else Inr None)"

definition talk_start :: drain_state where
  "talk_start = \<lparr>dr_db = sample_state sample_row, dr_tick = 0, dr_log = [], dr_pending = [], dr_released = True\<rparr>"

definition dispatched_at :: "drain_event \<Rightarrow> string option" where
  "dispatched_at e = (case e of Dispatched u \<Rightarrow> Some u | _ \<Rightarrow> None)"

lemma log_splits: "map dispatched_at evs = xs @ Some u # ys \<Longrightarrow>
    \<exists>b a. evs = b @ Dispatched u # a \<and> map dispatched_at b = xs \<and> map dispatched_at a = ys"
  by (fastforce simp: map_eq_append_conv map_eq_Cons_conv dispatched_at_def split: drain_event.splits)

lemma talk_others: "others_run (talk_world answer)"
  by (simp add: others_run_def talk_world_def run_nil_iff)

lemma talk_inv: "ingress_inv (dr_db talk_start)"
  using sample_inv by (simp add: talk_start_def)

lemma talk_log: "map dispatched_at (dr_log (snd (drain 3 (talk_world late_hook) talk_start))) =
    [None, None, None, None, Some ''5'', None, None, None, None, None, Some ''5'', None, None]"
  by code_simp

definition broken_talk :: drain_world where
  "broken_talk = (talk_world late_hook)\<lparr>dw_clock := (\<lambda>n. if n < 4 then 1 else 70000001)\<rparr>"

lemma updates_reach_eve_in_turn_witness:
  "\<exists>before after t zs later now rest. dr_log (snd (drain 3 (talk_world late_hook) talk_start)) =
      dr_log talk_start @ before @ Dispatched ''5'' # after \<and>
     before = zs @ [Ours (Op_begin_dispatch ''5'' t later) now True] \<and> leased before = settled before @ (''5'', t) # rest"
proof -
  let ?evs = "dr_log (snd (drain 3 (talk_world late_hook) talk_start))"
  have "map dispatched_at ?evs = [None, None, None, None] @ Some ''5'' # [None, None, None, None, None, Some ''5'', None, None]"
    unfolding talk_log by simp
  from log_splits [OF this] obtain before after where "?evs = before @ Dispatched ''5'' # after" by blast
  then have evs: "?evs = dr_log talk_start @ before @ Dispatched ''5'' # after" by (simp add: talk_start_def)
  from updates_reach_eve_in_turn [OF talk_others prod.collapse [symmetric] talk_inv evs] evs show ?thesis by blast
qed

lemma drain_delivers_once_witness:
  "\<exists>before between after. dr_log (snd (drain 3 (talk_world late_hook) talk_start)) =
      dr_log talk_start @ before @ Dispatched ''5'' # between @ Dispatched ''5'' # after \<and>
     (\<exists>e\<in>set (ran between). gives_back (decimal_value ''5'') e \<or> is_purge e)"
proof -
  let ?evs = "dr_log (snd (drain 3 (talk_world late_hook) talk_start))"
  have "map dispatched_at ?evs = [None, None, None, None] @ Some ''5'' # [None, None, None, None, None] @ Some ''5'' # [None, None]"
    unfolding talk_log by simp
  from log_splits [OF this] obtain before rest where rest: "?evs = before @ Dispatched ''5'' # rest"
      "map dispatched_at rest = [None, None, None, None, None] @ Some ''5'' # [None, None]" by blast
  from log_splits [OF rest(2)] rest(1) obtain between after where "?evs = before @ Dispatched ''5'' # between @ Dispatched ''5'' # after"
    by blast
  then have evs: "?evs = dr_log talk_start @ before @ Dispatched ''5'' # between @ Dispatched ''5'' # after"
    by (simp add: talk_start_def)
  from drain_delivers_once [OF talk_others prod.collapse [symmetric] talk_inv evs] evs show ?thesis by blast
qed

text \<open>The lease runs out before the failed dispatch can be settled: the loop ends with the update still owed.\<close>

lemma broken_others: "others_run broken_talk"
  by (simp add: others_run_def broken_talk_def talk_world_def run_nil_iff)

lemma drain_settles_its_leases_witness:
  "leased (dr_log (snd (drain 3 broken_talk talk_start))) = [(''5'', sample_token)] \<and>
   settled (dr_log (snd (drain 3 broken_talk talk_start))) = [] \<and>
   (\<exists>opn now. settles opn = Some (''5'', sample_token) \<and> last (dr_log (snd (drain 3 broken_talk talk_start))) = Ours opn now False)"
proof -
  let ?evs = "dr_log (snd (drain 3 broken_talk talk_start))"
  have logs: "leased ?evs = [(''5'', sample_token)]" "settled ?evs = []" by code_simp+
  have "?evs = dr_log talk_start @ ?evs" by (simp add: talk_start_def)
  from drain_settles_its_leases [OF broken_others talk_inv prod.collapse [symmetric] this] logs show ?thesis by auto
qed

section \<open>At the webhook\<close>

definition plain_webhook :: webhook_world where
  "plain_webhook = \<lparr>wh_route = (\<lambda>chat thread. chat), wh_nfkc = (\<lambda>s. s), wh_uuid = sample_token, wh_clock = 0,
     wh_others = (\<lambda>_ d. ([], d))\<rparr>"

definition talk_raw :: jobj where
  "talk_raw = [(''update_id'', JStr ''7''), (''message'', JObj [])]"

lemma talk_acknowledged:
  "fst (handle_verified_update plain_webhook None talk_raw (Message_in talk_message) empty_database) = Inr True"
  by code_simp

lemma acknowledged_updates_are_kept_witness:
  "\<exists>update_id. update_id_of talk_raw = Inr update_id \<and> is_kept (decimal_value update_id)
     (snd (handle_verified_update plain_webhook None talk_raw (Message_in talk_message) empty_database))"
proof (rule acknowledged_updates_are_kept [where b = True])
  show "handle_verified_update plain_webhook None talk_raw (Message_in talk_message) empty_database =
      (Inr True, snd (handle_verified_update plain_webhook None talk_raw (Message_in talk_message) empty_database))"
    using talk_acknowledged by (metis prod.collapse)
  have "normalize_inbound (Message_in talk_message) = Message_in talk_message" by code_simp
  then show "\<forall>m. normalize_inbound (Message_in talk_message) = Message_in m \<longrightarrow> \<not> is_telegram_ephemeral_message (im_raw m)"
    by (auto simp: is_telegram_ephemeral_message_def talk_message_def member_of_def)
qed

text \<open>A post of a channel in an unregistered group: a paragraph and a photo.\<close>

definition post_message :: "jobj \<Rightarrow> attachment list \<Rightarrow> inbound_message" where
  "post_message raw files = talk_message\<lparr>im_body := \<lparr>tm_text = [], tm_attachments = files, tm_raw = raw\<rparr>,
     im_chat_type := Supergroup_chat\<rparr>"

definition post_raw :: jobj where
  "post_raw = [(''rich_message'', JObj [(''blocks'', JArr sample_blocks)])]"

definition post_update :: "jobj \<Rightarrow> jobj" where
  "post_update raw = [(''update_id'', JStr ''7''), (''message'', JObj raw)]"

definition normalized_post :: inbound_message where
  "normalized_post = (case normalize_inbound (Message_in (post_message post_raw [])) of Message_in m \<Rightarrow> m)"

lemma post_normalized: "normalize_inbound (Message_in (post_message post_raw [])) = Message_in normalized_post"
  by code_simp

lemma post_falls_back: "text_fallback normalized_post"
  by code_simp

lemma refused_file_is_not_stored_witness:
  "\<exists>message. payload_message (stored_payload plain_webhook (Message_in normalized_post) True (post_update post_raw)) = Some message \<and>
    (\<forall>bs b. opt_member (opt_record (member_of message ''rich_message'')) ''blocks'' = Some (JArr bs) \<and> b \<in> set (all_blocks (JArr bs)) \<longrightarrow>
       block_type b \<notin> Some ` {''animation'', ''audio'', ''document'', ''photo'', ''video'', ''voice_note''}) \<and>
    rich_message_media message = None \<and> list_all (\<lambda>f. \<not> has_own message f) inbound_media_fields \<and>
    list_all (\<lambda>f. f = ''rich_message'' \<or> \<not> conditional_field_is_media message f) conditional_media_fields"
  by (rule refused_file_is_not_stored [OF post_normalized post_falls_back])
    (simp_all add: post_message_def post_update_def post_raw_def has_own_def member_of_def)

text \<open>The same post, as Telegram sends it when the photo is a member of the message, too.\<close>

definition repeated_raw :: jobj where
  "repeated_raw = post_raw @ [(''photo'', JArr [JObj [(''file_id'', JStr ''F1'')]])]"

definition repeated_post :: inbound_message where
  "repeated_post = post_message repeated_raw [photo_attachment [(''file_id'', JStr ''F1'')]]"

text \<open>
  A repeated photo is stored. A group without the image grant, a post with a paragraph and a photo that Telegram also
  sends as a photo of the message: the photo is refused, the text goes on, and the stored update still has the
  photo as a member of its message, from which the next read takes it as an attachment.
\<close>

theorem repeated_photo_is_stored:
  "(case media_refused plain_webhook (Message_in repeated_post) ''7'' empty_database of (r, d) \<Rightarrow> r) = Inr True \<and>
   (case handle_verified_update plain_webhook None (post_update repeated_raw) (Message_in repeated_post) empty_database of (r, d) \<Rightarrow>
      r = Inr True \<and> list_ex (\<lambda>row. json_path [''message'', ''photo''] (u_payload row) \<noteq> None) (updates d))"
  by code_simp

end
