(* ===== verification/Interjection_History.thy ===== *)
theory Interjection_History
  imports Ingress_Properties
begin

text \<open>
  Messages shown to a running turn along runs: the operations of the repository in any order, in between
  whatever the other components do to their own tables, and the deletions that reach these rows through
  their foreign keys (\<open>telegram_turn_interjections\<close> references the update and the conversation session with
  ON DELETE CASCADE): the purge of delivered updates and the retention of old conversations.
\<close>

section \<open>Runs\<close>

datatype interjection_op =
    Op_claim_messages show_coordinate string "(content_kind \<times> string) list"
  | Op_mark_returned show_coordinate "string list"
  | Op_release_call show_coordinate
  | Op_step_started string string js_number
  | Op_finish_turn string string

fun apply_interjection_op :: "interjection_op \<Rightarrow> time \<Rightarrow> database \<Rightarrow> database" where
  "apply_interjection_op (Op_claim_messages c app ms) now d = snd (claim c app ms d)"
| "apply_interjection_op (Op_mark_returned c ids) now d = snd (mark_returned c ids now d)"
| "apply_interjection_op (Op_release_call c) now d = snd (release_call c d)"
| "apply_interjection_op (Op_step_started eve turn index) now d = snd (step_started eve turn index now d)"
| "apply_interjection_op (Op_finish_turn eve turn) now d = snd (finish_turn eve turn now d)"

datatype interjection_event = Shown interjection_op time | Elsewhere_shown | Cascaded "int set" "string set"

text \<open>The updates and the sessions that were deleted take their rows with them.\<close>

definition cascade_interjections :: "int set \<Rightarrow> string set \<Rightarrow> interjection list \<Rightarrow> interjection list" where
  "cascade_interjections us ss is = delete_where (\<lambda>i. i_update i \<in> us \<or> i_session i \<in> ss) is"

inductive interjection_step :: "database \<Rightarrow> interjection_event \<Rightarrow> database \<Rightarrow> bool" where
  shown: "interjection_step d (Shown opn now) (apply_interjection_op opn now d)"
| elsewhere_shown: "interjections d' = interjections d \<Longrightarrow> turn_steps d' = turn_steps d \<Longrightarrow>
    interjection_step d Elsewhere_shown d'"
| cascaded: "interjections d' = cascade_interjections us ss (interjections d) \<Longrightarrow> turn_steps d' = turn_steps d \<Longrightarrow>
    interjection_step d (Cascaded us ss) d'"

inductive interjection_run :: "database \<Rightarrow> interjection_event list \<Rightarrow> database \<Rightarrow> bool" for d0 where
  no_event: "interjection_run d0 [] d0"
| event: "interjection_run d0 es d1 \<Longrightarrow> interjection_step d1 e d2 \<Longrightarrow> interjection_run d0 (es @ [e]) d2"

inductive_cases shown_cases: "interjection_step d (Shown opn now) d'"
inductive_cases elsewhere_shown_cases: "interjection_step d Elsewhere_shown d'"
inductive_cases cascaded_cases: "interjection_step d (Cascaded us ss) d'"

text \<open>Every ingress operation but the purge, which is a cascade, is such a change elsewhere.\<close>

definition shown_tables :: "database \<Rightarrow> interjection list \<times> turn_step list" where
  "shown_tables d = (interjections d, turn_steps d)"

lemma shown_tables_simps [simp]:
  "shown_tables (d\<lparr>updates := us\<rparr>) = shown_tables d" "shown_tables (d\<lparr>queues := qs\<rparr>) = shown_tables d"
  "shown_tables (d\<lparr>aliases := as\<rparr>) = shown_tables d" "shown_tables (d\<lparr>ignored := ig\<rparr>) = shown_tables d"
  "shown_tables (d\<lparr>cursors := cs\<rparr>) = shown_tables d"
  by (simp_all add: shown_tables_def)

lemma ensure_queue_shown: "ensure_queue uuid key d = Inr (queue, d') \<Longrightarrow> shown_tables d' = shown_tables d"
  by (auto simp: ensure_queue_def Let_def res_bind_Inr_iff dest!: insert_queue_Inr insert_alias_Inr split: option.splits)

lemma enqueue_shown: "shown_tables (snd (enqueue uuid input now d)) = shown_tables d"
  by (auto simp: enqueue_def when_valid_def run_tx_def enqueue_body_def store_update_def
      dest: ensure_queue_shown split: sum.split prod.split option.split)

lemma rekey_shown: "shown_tables (snd (rekey_queue input d)) = shown_tables d"
proof -
  have "shown_tables d' = shown_tables d" if "rekey_body input d = Commit u d'" for u d'
    using that by (cases rule: rekey_body_cases) (auto dest: insert_alias_Inr split: if_splits)
  then show ?thesis
    by (cases "rekey_body input d") (auto simp: rekey_queue_def when_valid_def run_tx_def split: sum.split)
qed

lemma leased_shown: "shown_tables (snd (with_active_lease u t now f d)) = shown_tables d"
  by (simp add: with_active_lease_def when_valid_def Let_def split: sum.split)

lemma claims_shown:
  "shown_tables (snd (claim_next ms burst locked tok now d)) = shown_tables d"
  "shown_tables (snd (claim_following accept fi toks now d)) = shown_tables d"
  by (simp_all add: claim_next_def claim_following_def claim_following_body_def when_valid_def run_tx_def Let_def
      split: sum.split list.split option.split)

lemma sessions_shown: "shown_tables (snd (complete_with_session u t s n now d)) = shown_tables d"
  by (simp add: complete_with_session_def complete_with_session_body_def when_valid_def run_tx_def Let_def
      split: sum.split option.split)

lemma markers_shown:
  "shown_tables (snd (begin_dispatch u t now later d)) = shown_tables d"
  "shown_tables (snd (begin_voice_transcription u t now later d)) = shown_tables d"
  "shown_tables (snd (save_voice_transcript u t x now d)) = shown_tables d"
  "shown_tables (snd (begin_early_voice_transcription u now d)) = shown_tables d"
  "shown_tables (snd (save_early_voice_transcript u x now d)) = shown_tables d"
  "shown_tables (snd (accept_media i d)) = shown_tables d"
  by (simp_all add: begin_dispatch_def save_voice_transcript_def begin_voice_transcription_def accept_media_def
      accept_media_body_def insert_ignored_media_def run_tx_def
      begin_early_voice_transcription_def save_early_voice_transcript_def when_valid_def Let_def
      split: sum.split option.split)

lemma ingress_is_elsewhere:
  assumes "ingress_step d e d'" "\<not> is_purge e" "e \<noteq> Elsewhere"
  shows "interjection_step d Elsewhere_shown d'"
proof (cases e)
  case (Did opn now ok)
  have "shown_tables (snd (apply_op opn now d)) = shown_tables d"
    using assms(2) Did
    by (cases opn) (simp_all add: done_with_def is_purge_def enqueue_shown rekey_shown claims_shown sessions_shown
        markers_shown leased_shown snd_renew_lease complete_def release_def release_undelivered_def fail_update_def
        when_valid_def release_stale_leases_def claim_stalled_ingress_def release_stalled_ingress_def Let_def
        split: sum.split)
  with assms(1) Did show ?thesis
    by (auto elim!: did_cases simp: shown_tables_def intro!: elsewhere_shown)
qed (use assms(3) in simp)

section \<open>A row through one event\<close>

definition same_claim :: "interjection \<Rightarrow> interjection \<Rightarrow> bool" where
  "same_claim i j \<longleftrightarrow> i_update i = i_update j \<and> i_session i = i_session j \<and> i_eve i = i_eve j \<and> i_turn i = i_turn j \<and>
     i_call i = i_call j"

text \<open>The event returns this row in step \<open>s\<close>, or delivers it at a step later than its own.\<close>

definition returns_row :: "interjection_event \<Rightarrow> database \<Rightarrow> interjection \<Rightarrow> int \<Rightarrow> bool" where
  "returns_row e d i s \<longleftrightarrow>
     (\<exists>c ids now. e = Shown (Op_mark_returned c ids) now \<and> i_update i \<in> set (map decimal_value ids) \<and> of_call c i) \<and>
     step_of (i_eve i) (i_turn i) d = Some s"

definition delivers_row :: "interjection_event \<Rightarrow> database \<Rightarrow> interjection \<Rightarrow> int \<Rightarrow> bool" where
  "delivers_row e d i s \<longleftrightarrow>
     (\<exists>n now. e = Shown (Op_step_started (i_eve i) (i_turn i) (Int_num n)) now \<and> s < n) \<or>
     (\<exists>n now. e = Shown (Op_finish_turn (i_eve i) (i_turn i)) now \<and> step_of (i_eve i) (i_turn i) d = Some n \<and> s < n)"

inductive row_event :: "database \<Rightarrow> interjection_event \<Rightarrow> interjection \<Rightarrow> interjection \<Rightarrow> bool" for d e where
  kept: "row_event d e i i"
| reclaimed: "i_delivered i = None \<Longrightarrow> row_event d e i (i\<lparr>i_kind := k, i_returned := None\<rparr>)"
| returned: "i_step i = None \<Longrightarrow> returns_row e d i s \<Longrightarrow>
    row_event d e i (i\<lparr>i_returned := Some t, i_step := Some s\<rparr>)"
| returned_again: "row_event d e i (i\<lparr>i_returned := Some t\<rparr>)"
| delivered: "i_delivered i = None \<Longrightarrow> i_step i = Some s \<Longrightarrow> delivers_row e d i s \<Longrightarrow>
    row_event d e i (i\<lparr>i_delivered := Some t\<rparr>)"

definition fresh_row :: "interjection \<Rightarrow> bool" where
  "fresh_row i \<longleftrightarrow> i_step i = None \<and> i_delivered i = None"

abbreviation row_events :: "database \<Rightarrow> interjection_event \<Rightarrow> interjection \<Rightarrow> interjection \<Rightarrow> bool" where
  "row_events d e \<equiv> (row_event d e)\<^sup>*\<^sup>*"

definition rows_event :: "database \<Rightarrow> interjection_event \<Rightarrow> interjection list \<Rightarrow> interjection list \<Rightarrow> bool" where
  "rows_event d e is js \<longleftrightarrow> (\<forall>j\<in>set js. \<exists>i. (i \<in> set is \<or> fresh_row i) \<and> row_events d e i j)"

lemma rows_event_refl [simp]: "rows_event d e is is"
  by (auto simp: rows_event_def)

lemma rows_event_trans: "rows_event d e is js \<Longrightarrow> rows_event d e js ks \<Longrightarrow> rows_event d e is ks"
  unfolding rows_event_def by (meson rtranclp.rtrancl_refl rtranclp_trans)

lemma rows_event_update: "(\<And>i. P i \<Longrightarrow> row_event d e i (f i)) \<Longrightarrow> rows_event d e is (update_where P f is)"
  unfolding rows_event_def set_update_where by fastforce

lemma rows_event_delete: "rows_event d e is (delete_where P is)"
  by (auto simp: rows_event_def delete_where_def)

lemma rows_event_insert: "fresh_row i \<Longrightarrow> rows_event d e is (is @ [i])"
  by (auto simp: rows_event_def)

lemma reclaimed_rows:
  "rows_event d e is (update_where (\<lambda>i. i_update i = uid \<and> of_call c i \<and> i_delivered i = None)
     (\<lambda>i. i\<lparr>i_kind := kind, i_returned := None\<rparr>) is)"
  by (rule rows_event_update) (auto intro: reclaimed)

lemma insert_claims_rows:
  "insert_claims c app ms ids d1 = Inr (ids', d2) \<Longrightarrow>
     rows_event d e (interjections d1) (interjections d2) \<and> turn_steps d2 = turn_steps d1"
proof (induction c app ms ids d1 rule: insert_claims.induct)
  case (2 c app kind uid ms ids d1)
  have new: "rows_event d e (interjections d1) (interjections d1 @ [new_interjection c app kind uid])"
    by (rule rows_event_insert) (simp add: fresh_row_def new_interjection_def)
  note again = reclaimed_rows [of d e "interjections d1" uid c kind]
  from 2 show ?case
    by (auto simp del: exists_row_iff split: if_splits option.splits intro: rows_event_trans [OF new]
        rows_event_trans [OF again])
qed simp

lemma claim_rows: "rows_event d e (interjections d) (interjections (snd (claim c app ms d)))"
  by (auto simp: claim_def when_valid_def run_tx_def claim_body_def dest!: insert_claims_rows [of _ _ _ _ d]
      split: sum.split prod.split)

lemma mark_returned_rows:
  assumes "e = Shown (Op_mark_returned c ids) now"
  shows "rows_event d e (interjections d) (interjections (snd (mark_returned c ids now d)))"
proof -
  have "row_event d e i (returned_interjection now d i)"
    if i: "i_update i \<in> set (map decimal_value ids) \<and> of_call c i" for i
  proof (cases "i_step i")
    case (Some s)
    have "returned_interjection now d i = i\<lparr>i_returned := Some (coalesce (i_returned i) now)\<rparr>"
      by (simp add: returned_interjection_def Some)
    then show ?thesis by (simp add: returned_again)
  next
    case None
    show ?thesis
    proof (cases "step_of (i_eve i) (i_turn i) d")
      case None
      have "returned_interjection now d i = i\<lparr>i_returned := Some (coalesce (i_returned i) now)\<rparr>"
        by (simp add: returned_interjection_def \<open>i_step i = None\<close> None)
      then show ?thesis by (simp add: returned_again)
    next
      case (Some s)
      have "returned_interjection now d i = i\<lparr>i_returned := Some (coalesce (i_returned i) now), i_step := Some s\<rparr>"
        by (simp add: returned_interjection_def None Some)
      moreover have "returns_row e d i s" using i assms Some by (auto simp: returns_row_def)
      ultimately show ?thesis by (simp add: returned None)
    qed
  qed
  then show ?thesis
    by (auto simp: mark_returned_def when_valid_def intro!: rows_event_update split: sum.split)
qed

lemma release_rows: "rows_event d e (interjections d) (interjections (snd (release_call c d)))"
  by (auto simp: release_call_def when_valid_def rows_event_delete split: sum.split)

lemma seen_rows:
  assumes "\<And>i s. of_turn eve turn i \<Longrightarrow> s < n \<Longrightarrow> delivers_row e d i s"
  shows "rows_event d e is (update_where (seen_before eve turn n) (delivered_interjection now) is)"
proof (rule rows_event_update)
  fix i assume "seen_before eve turn n i"
  then obtain s where "of_turn eve turn i" "i_delivered i = None" "i_step i = Some s" "s < n"
    by (auto simp: seen_before_def split: option.splits)
  with assms show "row_event d e i (delivered_interjection now i)"
    by (auto simp: delivered_interjection_def intro: delivered)
qed

lemma step_started_rows:
  assumes "e = Shown (Op_step_started eve turn index) now"
  shows "rows_event d e (interjections d) (interjections (snd (step_started eve turn index now d)))"
proof (cases "is_integer index")
  case True
  then obtain n where n: "index = Int_num n" by (cases index) auto
  have "rows_event d e (interjections d) (update_where (seen_before eve turn n) (delivered_interjection now) (interjections d))"
    by (rule seen_rows) (auto simp: delivers_row_def of_turn_def assms n)
  then show ?thesis
    by (auto simp: step_started_def when_valid_def run_tx_def step_started_body_def record_step_def Let_def n
        intro: rows_event_trans rows_event_delete split: sum.split)
qed (simp add: step_started_def when_valid_def res_bind_def split: sum.split)

lemma finish_turn_rows:
  assumes "e = Shown (Op_finish_turn eve turn) now"
  shows "rows_event d e (interjections d) (interjections (snd (finish_turn eve turn now d)))"
proof (cases "step_of eve turn d")
  case None
  then show ?thesis by (simp add: finish_turn_def Let_def rows_event_delete update_where_def)
next
  case (Some n)
  have "rows_event d e is (update_where (seen_before eve turn n) (delivered_interjection now) is)" for "is"
    by (rule seen_rows) (use Some in \<open>auto simp: delivers_row_def of_turn_def assms\<close>)
  then show ?thesis
    by (auto simp: finish_turn_def Let_def Some intro: rows_event_trans [OF rows_event_delete])
qed

lemma event_rows: "interjection_step d e d' \<Longrightarrow> rows_event d e (interjections d) (interjections d')"
proof (induction rule: interjection_step.induct)
  case (shown d opn now)
  show ?case
    by (cases opn) (simp_all add: claim_rows mark_returned_rows release_rows step_started_rows finish_turn_rows)
qed (simp_all add: cascade_interjections_def rows_event_delete)

section \<open>Delivered means seen\<close>

text \<open>On the way from \<open>d0\<close> to \<open>d\<close> the row was returned in step \<open>s\<close>; and later a later step began.\<close>

definition returned_on :: "database \<Rightarrow> interjection_event list \<Rightarrow> database \<Rightarrow> interjection \<Rightarrow> int \<Rightarrow> bool" where
  "returned_on d0 es d i s \<longleftrightarrow>
     (\<exists>es1 e es2 d1 d2. es = es1 @ e # es2 \<and> interjection_run d0 es1 d1 \<and> interjection_step d1 e d2 \<and>
        interjection_run d2 es2 d \<and> returns_row e d1 i s)"

definition seen_on :: "database \<Rightarrow> interjection_event list \<Rightarrow> database \<Rightarrow> interjection \<Rightarrow> bool" where
  "seen_on d0 es d i \<longleftrightarrow>
     (\<exists>es1 e es2 d1 d2 s. es = es1 @ e # es2 \<and> returned_on d0 es1 d1 i s \<and> interjection_step d1 e d2 \<and>
        interjection_run d2 es2 d \<and> delivers_row e d1 i s)"

lemma returned_on_event:
  "returned_on d0 es d1 i s \<Longrightarrow> interjection_step d1 e d2 \<Longrightarrow> returned_on d0 (es @ [e]) d2 i s"
  unfolding returned_on_def by (metis append.assoc append_Cons event)

lemma seen_on_event: "seen_on d0 es d1 i \<Longrightarrow> interjection_step d1 e d2 \<Longrightarrow> seen_on d0 (es @ [e]) d2 i"
  unfolding seen_on_def by (metis append.assoc append_Cons event)

lemma same_claim_rows:
  "same_claim i j \<Longrightarrow> returns_row e d i s = returns_row e d j s" "same_claim i j \<Longrightarrow> delivers_row e d i s = delivers_row e d j s"
  "same_claim i j \<Longrightarrow> returned_on d0 es d i s = returned_on d0 es d j s" "same_claim i j \<Longrightarrow> seen_on d0 es d i = seen_on d0 es d j"
  by (simp_all add: same_claim_def returns_row_def delivers_row_def of_call_def of_turn_def returned_on_def seen_on_def)

lemma row_event_same_claim: "row_event d e i j \<Longrightarrow> same_claim j i"
  by (induction rule: row_event.induct) (simp_all add: same_claim_def)

lemma returned_now:
  assumes "interjection_run d0 es d1" "interjection_step d1 e d2" "returns_row e d1 i s"
  shows "returned_on d0 (es @ [e]) d2 i s"
  unfolding returned_on_def using assms no_event by blast

lemma seen_now:
  assumes "returned_on d0 es d1 i s" "interjection_step d1 e d2" "delivers_row e d1 i s"
  shows "seen_on d0 (es @ [e]) d2 i"
  unfolding seen_on_def using assms no_event by blast

lemma return_is_no_delivery: "returns_row e d i s \<Longrightarrow> \<not> delivers_row e d j t"
  by (auto simp: returns_row_def delivers_row_def)

text \<open>What the history \<open>es\<close>, ending in \<open>d1\<close> right before \<open>e\<close>, explains about a row.\<close>

definition explained :: "database \<Rightarrow> interjection_event list \<Rightarrow> database \<Rightarrow> interjection_event \<Rightarrow> database \<Rightarrow> interjection \<Rightarrow> bool" where
  "explained d0 es d1 e d2 i \<longleftrightarrow>
     (\<forall>s. i_step i = Some s \<longrightarrow> returned_on d0 es d1 i s \<or> returns_row e d1 i s) \<and>
     (i_delivered i \<noteq> None \<longrightarrow> seen_on d0 (es @ [e]) d2 i)"

lemma explained_event:
  assumes "row_event d1 e i j" "explained d0 es d1 e d2 i" "interjection_step d1 e d2"
  shows "explained d0 es d1 e d2 j"
proof -
  have same: "same_claim j i" using assms(1) by (rule row_event_same_claim)
  have j: "explained d0 es d1 e d2 j \<longleftrightarrow>
      (\<forall>s. i_step j = Some s \<longrightarrow> returned_on d0 es d1 i s \<or> returns_row e d1 i s) \<and>
      (i_delivered j \<noteq> None \<longrightarrow> seen_on d0 (es @ [e]) d2 i)"
    by (simp add: explained_def same_claim_rows [OF same])
  from assms(1) show ?thesis
    unfolding j
  proof cases
    case (delivered s t)
    have "returned_on d0 es d1 i s"
      using assms(2) delivered return_is_no_delivery unfolding explained_def by blast
    then have "seen_on d0 (es @ [e]) d2 i" using assms(3) delivered(4) by (rule seen_now)
    then show "(\<forall>s. i_step j = Some s \<longrightarrow> returned_on d0 es d1 i s \<or> returns_row e d1 i s) \<and>
      (i_delivered j \<noteq> None \<longrightarrow> seen_on d0 (es @ [e]) d2 i)"
      using assms(2) delivered unfolding explained_def by simp
  qed (use assms(2) in \<open>auto simp: explained_def\<close>)
qed

lemma history_explains:
  assumes "interjection_run d0 es d" "interjections d0 = []" "i \<in> set (interjections d)"
  shows "(\<forall>s. i_step i = Some s \<longrightarrow> returned_on d0 es d i s) \<and> (i_delivered i \<noteq> None \<longrightarrow> seen_on d0 es d i)"
  using assms
proof (induction arbitrary: i rule: interjection_run.induct)
  case (event es d1 e d2)
  obtain i0 where i0: "i0 \<in> set (interjections d1) \<or> fresh_row i0" "row_events d1 e i0 i"
    using event_rows [OF event.hyps(2)] event.prems unfolding rows_event_def by blast
  have "explained d0 es d1 e d2 i0"
    using i0(1) event.IH [OF event.prems(1)] seen_on_event [OF _ event.hyps(2)]
    by (auto simp: explained_def fresh_row_def)
  with i0(2) have "explained d0 es d1 e d2 i"
    by (induction rule: rtranclp_induct) (auto intro: explained_event [OF _ _ event.hyps(2)])
  then show ?case
    using returned_on_event [OF _ event.hyps(2)] returned_now [OF event.hyps] by (auto simp: explained_def)
qed simp

text \<open>
  C18: A message counts as seen only if it was. When the ordinary turn is told that a running turn already
  saw its message, then some call of that turn returned the message during one model step, and afterwards a
  later step of the same turn began, whose prompt carried the result; whatever the other calls, retried
  steps, ends of turns and components did in between.
\<close>

theorem delivered_was_in_a_prompt:
  assumes "interjections d0 = []" "interjection_run d0 es d" "find_delivered_content_kind u app d = Inr (Some k)"
  shows "\<exists>i\<in>set (interjections d). i_update i = decimal_value u \<and> i_session i = uuid_of app \<and> i_kind i = k \<and>
    seen_on d0 es d i"
proof -
  obtain i where "i \<in> set (interjections d)" "i_update i = decimal_value u" "delivered_to app i" "i_kind i = k"
    using assms(3) by (auto simp: find_delivered_content_kind_def res_bind_Inr_iff require_application_session_id_def
        require_uuid_def dest!: first_row_Some split: if_splits)
  then show ?thesis
    using history_explains [OF assms(2,1)] by (auto simp: delivered_to_def)
qed

section \<open>Seen means never shown again\<close>

text \<open>The rows of the update are there, delivered, and those of the conversation \<open>s\<close>.\<close>

definition all_seen :: "int \<Rightarrow> string \<Rightarrow> database \<Rightarrow> bool" where
  "all_seen uid s d \<longleftrightarrow>
     (\<exists>i\<in>set (interjections d). i_update i = uid) \<and>
     (\<forall>i\<in>set (interjections d). i_update i = uid \<longrightarrow> i_delivered i \<noteq> None \<and> i_session i = s)"

text \<open>The event deletes the update, or the conversation that saw it.\<close>

definition forgets :: "int \<Rightarrow> string \<Rightarrow> interjection_event \<Rightarrow> bool" where
  "forgets uid s e \<longleftrightarrow> (\<exists>us ss. e = Cascaded us ss \<and> (uid \<in> us \<or> s \<in> ss))"

lemma all_seen_update:
  assumes "all_seen uid s d" "\<And>i. i_update (f i) = i_update i \<and> i_session (f i) = i_session i"
    "\<And>i. i_delivered i \<noteq> None \<Longrightarrow> i_delivered (f i) \<noteq> None"
    "interjections d' = update_where P f (interjections d)"
  shows "all_seen uid s d'"
proof -
  obtain i where i: "i \<in> set (interjections d)" "i_update i = uid" using assms(1) by (auto simp: all_seen_def)
  then have "(if P i then f i else i) \<in> set (interjections d')" unfolding assms(4) set_update_where by blast
  moreover have "i_update (if P i then f i else i) = uid" using i(2) assms(2) by simp
  moreover have "\<forall>i\<in>set (interjections d'). i_update i = uid \<longrightarrow> i_delivered i \<noteq> None \<and> i_session i = s"
    using assms(1-3) unfolding all_seen_def assms(4) set_update_where by (auto split: if_splits)
  ultimately show ?thesis unfolding all_seen_def by blast
qed

lemma all_seen_delete:
  assumes "all_seen uid s d" "\<And>i. P i \<Longrightarrow> i_delivered i = None" "interjections d' = delete_where P (interjections d)"
  shows "all_seen uid s d'"
  using assms(1,2) unfolding all_seen_def assms(3) delete_where_def by fastforce

lemma insert_claims_seen:
  "insert_claims c app ms ids d = Inr (ids', d') \<Longrightarrow> all_seen uid s d \<Longrightarrow>
     all_seen uid s d' \<and> (uid \<notin> set ids \<longrightarrow> uid \<notin> set ids')"
proof (induction c app ms ids d rule: insert_claims.induct)
  case (2 c app kind u ms ids d)
  have new: "all_seen uid s (d\<lparr>interjections := interjections d @ [new_interjection c app kind u]\<rparr>) \<and> u \<noteq> uid"
    if "first_row (\<lambda>i. i_update i = u) (interjections d) = None"
    using that "2.prems"(2) by (auto simp: all_seen_def first_row_None_iff new_interjection_def)
  have again: "all_seen uid s (d\<lparr>interjections := update_where (\<lambda>i. i_update i = u \<and> of_call c i \<and> i_delivered i = None)
      (\<lambda>i. i\<lparr>i_kind := kind, i_returned := None\<rparr>) (interjections d)\<rparr>)"
    by (rule all_seen_update [OF "2.prems"(2), where f = "\<lambda>i. i\<lparr>i_kind := kind, i_returned := None\<rparr>"]) simp_all
  have other: "u \<noteq> uid" if "first_row (\<lambda>i. i_update i = u) (interjections d) = Some i" "i_delivered i = None" for i
    using that "2.prems"(2) by (auto simp: all_seen_def dest!: first_row_Some)
  show ?case
    using 2 new again other by (auto simp del: exists_row_iff split: if_splits option.splits)
qed simp

lemma all_seen_step: "interjection_step d e d' \<Longrightarrow> all_seen uid s d \<Longrightarrow> \<not> forgets uid s e \<Longrightarrow> all_seen uid s d'"
proof (induction rule: interjection_step.induct)
  case (shown d opn now)
  have seen: "all_seen uid s (d1\<lparr>interjections := update_where P (delivered_interjection t) (interjections d1)\<rparr>)"
    if "all_seen uid s d1" for d1 P t
    by (rule all_seen_update [OF that]) (simp_all add: delivered_interjection_def)
  show ?case
  proof (cases opn)
    case (Op_claim_messages c app ms)
    with shown show ?thesis
      by (auto simp: claim_def when_valid_def run_tx_def claim_body_def dest!: insert_claims_seen
          split: sum.split prod.split)
  next
    case (Op_mark_returned c ids)
    have "all_seen uid s (d\<lparr>interjections := update_where P (returned_interjection now d) (interjections d)\<rparr>)" for P
      by (rule all_seen_update [OF shown(1)]) (simp_all add: returned_interjection_def)
    with shown Op_mark_returned show ?thesis by (simp add: mark_returned_def when_valid_def split: sum.split)
  next
    case (Op_release_call c)
    have "all_seen uid s (d\<lparr>interjections := delete_where (\<lambda>i. of_call c i \<and> i_delivered i = None) (interjections d)\<rparr>)"
      by (rule all_seen_delete [OF shown(1)]) simp_all
    with shown Op_release_call show ?thesis by (simp add: release_call_def when_valid_def split: sum.split)
  next
    case (Op_step_started eve turn index)
    have "all_seen uid s (record_step eve turn n now d)" for n
      using shown by (simp add: all_seen_def record_step_def Let_def)
    from seen [OF this] have "all_seen uid s (record_step eve turn n now d\<lparr>interjections := delete_where (discarded eve turn m)
        (update_where P (delivered_interjection now) (interjections (record_step eve turn n now d)))\<rparr>)" for n m P
      by (rule all_seen_delete) (simp_all add: discarded_def)
    with shown Op_step_started show ?thesis
      by (simp add: step_started_def when_valid_def run_tx_def step_started_body_def Let_def split: sum.split)
  next
    case (Op_finish_turn eve turn)
    have "all_seen uid s (d\<lparr>interjections := update_where P (delivered_interjection now)
        (delete_where (\<lambda>i. Q i \<and> i_delivered i = None \<and> R i) (interjections d))\<rparr>)" for P Q R
    proof (rule all_seen_update)
      show "all_seen uid s (d\<lparr>interjections := delete_where (\<lambda>i. Q i \<and> i_delivered i = None \<and> R i) (interjections d)\<rparr>)"
        by (rule all_seen_delete [OF shown(1)]) simp_all
    qed (simp_all add: delivered_interjection_def)
    then show ?thesis
      by (simp add: Op_finish_turn finish_turn_def Let_def all_seen_def)
  qed
next
  case (elsewhere_shown d' d)
  then show ?case by (simp add: all_seen_def)
next
  case (cascaded d' us ss d)
  then show ?case by (auto simp: all_seen_def forgets_def cascade_interjections_def delete_where_def)
qed

lemma all_seen_run:
  "interjection_run d es d' \<Longrightarrow> all_seen uid s d \<Longrightarrow> \<forall>e\<in>set es. \<not> forgets uid s e \<Longrightarrow> all_seen uid s d'"
  by (induction rule: interjection_run.induct) (auto intro: all_seen_step)

lemma int_text_inj: "int_text a = int_text b \<longleftrightarrow> a = b"
proof
  have digits: "nat_text n \<noteq> CHR ''-'' # s" for n s
    using nat_text_digits [of n] by (auto simp: ascii_digit_def less_eq_char_def)
  have num: "nat_text m = nat_text n \<Longrightarrow> m = n" for m n
    by (metis decimal_value_nat_text of_nat_eq_iff)
  assume "int_text a = int_text b"
  then show "a = b"
    using digits digits [symmetric] num [of "nat a" "nat b"] num [of "nat (- a)" "nat (- b)"]
    by (auto simp: int_text_def split: if_splits)
qed simp

text \<open>
  C17: What a running turn has seen is not shown to a turn again. Once a message was delivered to a
  running turn of a conversation, no later call of any turn claims it and no list of candidates offers it, as
  long as neither its update is purged nor the conversation that saw it is deleted by retention: those two
  deletions take the row, and with it the memory of the delivery, through the foreign keys.
\<close>

theorem seen_message_is_never_shown_again:
  assumes "interjection_rows.pk (interjections d)" "find_delivered_content_kind u app d = Inr (Some k)"
    "interjection_run d es d'"
    "\<forall>e\<in>set es. \<not> forgets (decimal_value u) (uuid_of app) e"
  shows "(claim c app' messages d' = (Inr owned, d'') \<longrightarrow> int_text (decimal_value u) \<notin> owned) \<and>
    (list_candidates q d' = Inr found \<longrightarrow> int_text (decimal_value u) \<notin> ic_update ` set found)"
proof -
  obtain i where i: "i \<in> set (interjections d)" "i_update i = decimal_value u" "i_delivered i \<noteq> None" "i_session i = uuid_of app"
    using assms(2) by (auto simp: find_delivered_content_kind_def res_bind_Inr_iff delivered_to_def
        require_application_session_id_def require_uuid_def split: if_splits dest!: first_row_Some)
  have "all_seen (decimal_value u) (uuid_of app) d"
    using i interjection_rows.pk_unique [OF assms(1)] unfolding all_seen_def by metis
  then have seen: "all_seen (decimal_value u) (uuid_of app) d'" by (rule all_seen_run [OF assms(3) _ assms(4)])
  have "int_text (decimal_value u) \<notin> owned" if "claim c app' messages d' = (Inr owned, d'')"
    using that insert_claims_seen [OF _ seen]
    by (fastforce simp: claim_def when_valid_def run_tx_def claim_body_def int_text_inj
        split: sum.splits prod.splits if_splits)
  moreover have "int_text (decimal_value u) \<notin> ic_update ` set found" if "list_candidates q d' = Inr found"
  proof -
    have "\<not> candidate_where q a cur d' r" if "u_id r = decimal_value u" for r a cur
      using seen that by (auto simp: candidate_where_def free_for_def all_seen_def first_row_None_iff
          split: option.splits dest!: first_row_Some)
    then show ?thesis
      using that by (auto simp: list_candidates_def res_bind_Inr_iff to_candidate_def int_text_inj split: option.splits
          dest!: set_select_ordered)
  qed
  ultimately show ?thesis by blast
qed

section \<open>Steps and turns\<close>

text \<open>
  Nothing stays in between. When a model step is recorded, and when a turn ends, every message the turn
  still had claimed is either delivered or free for its ordinary processing; the messages of other turns are
  not touched.
\<close>

theorem step_leaves_no_open_claim:
  "(step_started eve turn index now d = (Inr n, d') \<longrightarrow>
      (\<forall>i\<in>set (interjections d'). of_turn eve turn i \<longrightarrow> i_delivered i \<noteq> None) \<and>
      filter (\<lambda>i. \<not> of_turn eve turn i) (interjections d') = filter (\<lambda>i. \<not> of_turn eve turn i) (interjections d)) \<and>
   (finish_turn eve turn now d = (m, d'') \<longrightarrow>
      (\<forall>i\<in>set (interjections d''). of_turn eve turn i \<longrightarrow> i_delivered i \<noteq> None) \<and>
      filter (\<lambda>i. \<not> of_turn eve turn i) (interjections d'') = filter (\<lambda>i. \<not> of_turn eve turn i) (interjections d))"
proof -
  have others: "filter (\<lambda>i. \<not> of_turn eve turn i) (update_where P (delivered_interjection now) is) =
      filter (\<lambda>i. \<not> of_turn eve turn i) is" if "\<And>i. P i \<Longrightarrow> of_turn eve turn i" for P "is"
    using that by (induction "is") (auto simp: update_where_def delivered_interjection_def of_turn_def)
  have kept: "filter (\<lambda>i. \<not> of_turn eve turn i) (delete_where P is) = filter (\<lambda>i. \<not> of_turn eve turn i) is"
    if "\<And>i. P i \<Longrightarrow> of_turn eve turn i" for P "is"
    using that by (induction "is") (auto simp: delete_where_def)
  have mine: "seen_before eve turn s i \<Longrightarrow> of_turn eve turn i" "discarded eve turn s i \<Longrightarrow> of_turn eve turn i" for s i
    by (simp_all add: seen_before_def discarded_def)
  have started: "(\<forall>i\<in>set (interjections d'). of_turn eve turn i \<longrightarrow> i_delivered i \<noteq> None) \<and>
      filter (\<lambda>i. \<not> of_turn eve turn i) (interjections d') = filter (\<lambda>i. \<not> of_turn eve turn i) (interjections d)"
    if "step_started eve turn index now d = (Inr n, d')"
  proof -
    have d: "interjections d' = delete_where (discarded eve turn (number_value index))
        (update_where (seen_before eve turn (number_value index)) (delivered_interjection now) (interjections d))"
      using that by (auto simp: step_started_def when_valid_def run_tx_def step_started_body_def record_step_def Let_def
          split: sum.splits if_splits)
    moreover have "seen_before eve turn (number_value index) i \<or> discarded eve turn (number_value index) i"
      if "of_turn eve turn i" "i_delivered i = None" for i
      using that by (auto simp: seen_before_def discarded_def split: option.splits)
    ultimately have "\<forall>i\<in>set (interjections d'). of_turn eve turn i \<longrightarrow> i_delivered i \<noteq> None"
      by (auto simp: delete_where_def set_update_where delivered_interjection_def split: if_splits)
    moreover have "filter (\<lambda>i. \<not> of_turn eve turn i) (interjections d') = filter (\<lambda>i. \<not> of_turn eve turn i) (interjections d)"
      unfolding d using mine others [of "seen_before eve turn (number_value index)"]
        kept [of "discarded eve turn (number_value index)"] by simp
    ultimately show ?thesis ..
  qed
  have finished: "(\<forall>i\<in>set (interjections d''). of_turn eve turn i \<longrightarrow> i_delivered i \<noteq> None) \<and>
      filter (\<lambda>i. \<not> of_turn eve turn i) (interjections d'') = filter (\<lambda>i. \<not> of_turn eve turn i) (interjections d)"
    if "finish_turn eve turn now d = (m, d'')"
  proof -
    define seen where "seen = (\<lambda>i. case step_of eve turn d of None \<Rightarrow> False | Some step \<Rightarrow> seen_before eve turn step i)"
    have d: "interjections d'' = update_where seen (delivered_interjection now)
        (delete_where (\<lambda>i. of_turn eve turn i \<and> i_delivered i = None \<and> \<not> seen i) (interjections d))"
      using that by (auto simp: finish_turn_def seen_def Let_def)
    have "seen i \<Longrightarrow> of_turn eve turn i" for i using mine by (auto simp: seen_def split: option.splits)
    then have "filter (\<lambda>i. \<not> of_turn eve turn i) (interjections d'') = filter (\<lambda>i. \<not> of_turn eve turn i) (interjections d)"
      using kept [of "\<lambda>i. of_turn eve turn i \<and> i_delivered i = None \<and> \<not> seen i" "interjections d"]
      unfolding d by (simp add: others)
    moreover have "\<forall>i\<in>set (interjections d''). of_turn eve turn i \<longrightarrow> i_delivered i \<noteq> None"
      unfolding d by (auto simp: set_update_where delete_where_def delivered_interjection_def split: if_splits)
    ultimately show ?thesis by blast
  qed
  show ?thesis using started finished by blast
qed

section \<open>Recordings\<close>

text \<open>A paid transcription of the update begins, early or in its ordinary turn.\<close>

definition pays_for :: "int \<Rightarrow> database \<Rightarrow> database \<Rightarrow> bool" where
  "pays_for uid d d' \<longleftrightarrow>
     (\<exists>u now. decimal_value u = uid \<and> begin_early_voice_transcription u now d = (Inr Early_started, d')) \<or>
     (\<exists>u t now later. decimal_value u = uid \<and> begin_voice_transcription u t now later d = (Inr Transcription_started, d'))"

lemma row_count_one: "row_count P rows = 1 \<Longrightarrow> \<exists>r\<in>set rows. P r"
  using row_count_0_iff [of P rows] by auto

lemma pays_for_marker:
  assumes "pays_for uid d d'"
  shows "(\<exists>r\<in>set (updates d). u_id r = uid \<and> u_tr_started r = None) \<and>
    (\<exists>r\<in>set (updates d'). u_id r = uid \<and> u_tr_started r \<noteq> None)"
proof -
  have marked: "(\<exists>r\<in>set (updates d). u_id r = uid \<and> u_tr_started r = None) \<and>
      (\<exists>r\<in>set (updates d'). u_id r = uid \<and> u_tr_started r \<noteq> None)"
    if "row_count P (updates d) = 1" "\<And>r. P r \<Longrightarrow> u_id r = uid \<and> u_tr_started r = None"
      "updates d' = update_where P (\<lambda>r. r\<lparr>u_tr_started := Some now\<rparr>) (updates d)" for P now
  proof -
    note hits = that
    obtain r where r: "r \<in> set (updates d)" "P r" using row_count_one [OF hits(1)] by blast
    then have "r\<lparr>u_tr_started := Some now\<rparr> \<in> set (updates d')"
      unfolding hits(3) set_update_where by force
    moreover have "u_id r = uid \<and> u_tr_started r = None" using hits(2) r(2) .
    ultimately show ?thesis using r(1) by (intro conjI bexI [of _ r] bexI [of _ "r\<lparr>u_tr_started := Some now\<rparr>"]) simp_all
  qed
  from assms show ?thesis
    unfolding pays_for_def
  proof (elim disjE exE conjE)
    fix u now
    assume u: "decimal_value u = uid" "begin_early_voice_transcription u now d = (Inr Early_started, d')"
    show ?thesis
      by (rule marked [of "early_where u" now])
        (use u in \<open>auto simp: begin_early_voice_transcription_def when_valid_def Let_def early_where_def
           split: sum.splits if_splits option.splits\<close>)
  next
    fix u t now later
    assume u: "decimal_value u = uid" "begin_voice_transcription u t now later d = (Inr Transcription_started, d')"
    show ?thesis
      by (rule marked [of "transcription_where u t now" now])
        (use u in \<open>auto simp: begin_voice_transcription_def when_valid_def Let_def transcription_where_def lease_where_def
           split: sum.splits if_splits option.splits\<close>)
  qed
qed

text \<open>
  A recording is paid for once. After a transcription of a voice message began, early for a running turn
  or in its own turn, no run of the ingress (other workers, lost leases, restarts) begins one again on either
  path, unless the update was purged.
\<close>

theorem recording_is_paid_for_once:
  assumes "ingress_inv d1" "pays_for uid d d1" "ingress_run d1 es d2" "\<forall>e\<in>set es. \<not> is_purge e"
  shows "\<not> pays_for uid d2 d3"
proof
  assume again: "pays_for uid d2 d3"
  obtain r where r: "r \<in> set (updates d1)" "u_id r = uid" "u_tr_started r \<noteq> None"
    using pays_for_marker [OF assms(2)] by blast
  obtain s where s: "s \<in> set (updates d2)" "u_id s = uid" "u_tr_started s \<noteq> None"
    using rows_run [OF assms(3,1,4) r(1)] r(2,3) by (auto simp: row_step_def same_input_def)
  obtain t where "t \<in> set (updates d2)" "u_id t = uid" "u_tr_started t = None"
    using pays_for_marker [OF again] by blast
  with s pk_same [OF inv_run [OF assms(3,1)], of s t] show False by auto
qed

end
