(* ===== verification/Interjection_Witness.thy ===== *)
theory Interjection_Witness
  imports Interjection_History Ingress_Witness
begin

text \<open>One message shown to a running turn, and one recording, for the witnesses.\<close>

definition talk_session :: conversation_session where
  "talk_session = \<lparr>s_id = sample_token, s_thread = ''t1'', s_family = ''f1'', s_owner = Some ''u1'', s_group = None,
     s_scope = Personal_scope, s_token = ''k1'', s_eve = Some ''e'', s_pending = False, s_pending_request = None,
     s_kind = Canonical_session, s_task = None, s_retired = None\<rparr>"

definition talk_state :: database where
  "talk_state = (sample_state sample_row)\<lparr>sessions := [talk_session]\<rparr>"

definition first_call :: show_coordinate where "first_call = \<lparr>sc_eve = ''e'', sc_turn = ''t'', sc_call = ''c''\<rparr>"

definition talk_ops :: "(interjection_op \<times> time) list" where
  "talk_ops = [(Op_step_started ''e'' ''t'' (Int_num 0), 1), (Op_claim_messages first_call sample_token [(Kind_text, ''5'')], 2),
     (Op_mark_returned first_call [''5''], 3), (Op_step_started ''e'' ''t'' (Int_num 1), 4)]"

definition after_ops :: "(interjection_op \<times> time) list \<Rightarrow> database \<Rightarrow> database" where
  "after_ops ops d = foldl (\<lambda>d p. apply_interjection_op (fst p) (snd p) d) d ops"

lemma after_ops_run: "interjection_run d (map (\<lambda>p. Shown (fst p) (snd p)) ops) (after_ops ops d)"
proof (induction ops rule: rev_induct)
  case (snoc p ops)
  from event [OF snoc shown] show ?case by (simp add: after_ops_def)
qed (simp add: after_ops_def no_event)

lemma talk_delivered: "find_delivered_content_kind ''5'' sample_token (after_ops talk_ops talk_state) = Inr (Some Kind_text)"
  by code_simp

lemma delivered_was_in_a_prompt_witness:
  "\<exists>i. i \<in> set (interjections (after_ops talk_ops talk_state)) \<and> i_update i = decimal_value ''5'' \<and>
     seen_on talk_state (map (\<lambda>p. Shown (fst p) (snd p)) talk_ops) (after_ops talk_ops talk_state) i"
proof -
  have "interjections talk_state = []" by (simp add: talk_state_def sample_state_def empty_database_def)
  from delivered_was_in_a_prompt [OF this after_ops_run talk_delivered] show ?thesis by blast
qed

lemma seen_message_is_never_shown_again_witness:
  "fst (claim (first_call\<lparr>sc_call := ''c2''\<rparr>) sample_token [(Kind_text, ''5'')] (after_ops talk_ops talk_state)) = Inr {} \<and>
   int_text (decimal_value ''5'') \<notin> ({} :: string set)"
proof -
  have pk: "interjection_rows.pk (interjections (after_ops talk_ops talk_state))"
  proof -
    have "map i_update (interjections (after_ops talk_ops talk_state)) = [5]" by code_simp
    then show ?thesis by (simp add: interjection_rows.pk_def)
  qed
  have "claim (first_call\<lparr>sc_call := ''c2''\<rparr>) sample_token [(Kind_text, ''5'')] (after_ops talk_ops talk_state) =
      (Inr {}, after_ops talk_ops talk_state)"
    by code_simp
  moreover have "interjection_run (after_ops talk_ops talk_state) ([] @ [Cascaded {6} {}]) (after_ops talk_ops talk_state)"
  proof (rule event [OF no_event cascaded])
    have "map i_update (interjections (after_ops talk_ops talk_state)) = [5]" by code_simp
    then show "interjections (after_ops talk_ops talk_state) =
        cascade_interjections {6} {} (interjections (after_ops talk_ops talk_state))"
      by (auto simp: cascade_interjections_def delete_where_def)
  qed simp
  moreover have "decimal_value ''5'' = 5" by code_simp
  ultimately show ?thesis
    using seen_message_is_never_shown_again [OF pk talk_delivered] by (fastforce simp: forgets_def)
qed

lemma step_leaves_no_open_claim_witness:
  "list_all (\<lambda>i. i_delivered i \<noteq> None)
     (filter (of_turn ''e'' ''t'') (interjections (snd (finish_turn ''e'' ''t'' 4 (after_ops (take 3 talk_ops) talk_state)))))"
  using step_leaves_no_open_claim [of "''e''" "''t''" "Int_num 1" 4 "after_ops (take 3 talk_ops) talk_state"]
  by (cases "finish_turn ''e'' ''t'' 4 (after_ops (take 3 talk_ops) talk_state)") (simp add: list_all_iff)

definition voice_row :: ingress_update where
  "voice_row = sample_row\<lparr>u_voice_file := Some ''v''\<rparr>"

definition paid_state :: database where
  "paid_state = sample_state (voice_row\<lparr>u_tr_started := Some 9\<rparr>)"

lemma voice_paid: "begin_early_voice_transcription ''5'' 9 (sample_state voice_row) = (Inr Early_started, paid_state)"
  by code_simp

lemma voice_inv: "ingress_inv paid_state"
proof -
  have "ingress_inv (sample_state sample_row)" using inv_enqueue [OF empty_ingress_inv, of sample_token sample_input 0]
    by (simp add: sample_enqueue)
  then show ?thesis
    by (auto simp: paid_state_def ingress_inv_def queues_ok_def aliases_ok_def updates_ok_def sample_state_def
        voice_row_def row_ok_def lease_columns_ok_def voice_columns_ok_def update_rows.pk_def sample_row_def
        new_update_def voice_columns_def sample_input_def split: option.splits)
qed

lemma recording_is_paid_for_once_witness: "\<not> pays_for 5 paid_state paid_state"
proof -
  have "pays_for 5 (sample_state voice_row) paid_state"
    unfolding pays_for_def using voice_paid sample_texts(1) by blast
  from recording_is_paid_for_once [OF voice_inv this run_nil] show ?thesis by simp
qed

end
