(* ===== verification/Approval_Auth.thy ===== *)
theory Approval_Auth
  imports Schema
begin

text \<open>
  agent/lib/telegram-hitl/approval-auth.ts: the identity a turn resumes with after a person answered
  a confirmation prompt. It is read from the database at that moment; the stored context of the
  requesting turn may only add what carries no authority.
\<close>

section \<open>The retained context\<close>

definition retained_turn_attributes :: "string list" where
  "retained_turn_attributes =
     [''memoryReviewBatchId'', ''memoryReviewMode'', ''memoryReviewSourceEntryIds'',
      ''proactiveDeliveryCursor'', ''sandboxSessionId'', ''telegramConversationId'',
      ''telegramForumTopicId'', ''telegramMessageThreadId'', ''telegramProfileMentionUserIds'',
      ''telegramProfileReplyTimelineSequence'', ''telegramProfileReplyUserId'',
      ''telegramReplyToMessageId'', ''telegramTimelineEntryId'', ''telegramTimelineOmittedBeforeSequence'',
      ''telegramTimelineSequence'', ''telegramTimelineVisibleEntryIds'', ''telegramTurnStartedAt'']"

definition retain_turn_attributes :: "jobj option \<Rightarrow> jobj" where
  "retain_turn_attributes attributes =
     concat (map (\<lambda>key. case opt_member attributes key of None \<Rightarrow> [] | Some v \<Rightarrow> [(key, v)])
       retained_turn_attributes)"

text \<open>\<open>{ ...base, ...more }\<close>\<close>

definition spread :: "jobj \<Rightarrow> jobj \<Rightarrow> jobj" where
  "spread base extra = foldl (\<lambda>r kv. set_member r (fst kv) (snd kv)) base extra"

text \<open>\<open>telegramMessageThreadId\<close> and the like: a member when the condition holds.\<close>

definition when_some :: "string \<Rightarrow> string option \<Rightarrow> jobj" where
  "when_some key v = (case v of None \<Rightarrow> [] | Some s \<Rightarrow> [(key, JStr s)])"

definition when_text :: "string \<Rightarrow> string option \<Rightarrow> jobj" where
  "when_text key v = (case v of None \<Rightarrow> [] | Some [] \<Rightarrow> [] | Some (c # cs) \<Rightarrow> [(key, JStr (c # cs))])"

definition restored_turn_attributes :: "approval \<Rightarrow> conversation_session \<Rightarrow> jobj" where
  "restored_turn_attributes a s =
     spread (when_text ''sandboxSessionId'' (Some (s_thread s)))
       (case Option.bind (a_attributes a) as_record of
          None \<Rightarrow> [] | Some kvs \<Rightarrow> retain_turn_attributes (Some kvs))"

section \<open>The current policy\<close>

fun role_text :: "family_role \<Rightarrow> string" where
  "role_text Member_role = ''member''"
| "role_text Owner_role = ''owner''"
| "role_text Recovery_owner_role = ''recovery_owner''"

fun chat_type_text :: "chat_type \<Rightarrow> string" where
  "chat_type_text Private_chat = ''private''"
| "chat_type_text Group_chat = ''group''"
| "chat_type_text Supergroup_chat = ''supergroup''"
| "chat_type_text Channel_chat = ''channel''"

fun group_type_text :: "group_type \<Rightarrow> string" where
  "group_type_text Family_private = ''family_private''"
| "group_type_text External_group = ''external''"

record auth_context =
  ac_attributes :: jobj
  ac_authenticator :: string
  ac_principal :: string
  ac_principal_type :: string

definition find_identity :: "database \<Rightarrow> string \<Rightarrow> string \<Rightarrow> membership option" where
  "find_identity d telegram_user family =
     first_row (\<lambda>m. m_family m = family \<and>
         exists_row (\<lambda>u. usr_telegram_id u = telegram_user \<and> usr_id u = m_user m) (app_users d))
       (memberships d)"

record fresh_policy =
  fp_scopes :: "string list"
  fp_role :: string
  fp_user :: "string option"
  fp_group :: "telegram_group option"

definition current_policy :: "database \<Rightarrow> approval \<Rightarrow> conversation_session \<Rightarrow> fresh_policy option" where
  "current_policy d a s =
     (let identity = find_identity d (a_user a) (s_family s) in
      if s_scope s = Personal_scope then
        (case identity of
           None \<Rightarrow> None
         | Some m \<Rightarrow>
             if Some (m_user m) \<noteq> s_owner s \<or> m_family m \<noteq> s_family s \<or> a_chat_type a \<noteq> Private_chat then None
             else Some \<lparr>fp_scopes = [''personal'', ''family''], fp_role = role_text (m_role m),
                        fp_user = Some (m_user m), fp_group = None\<rparr>)
      else
        (case first_row (\<lambda>g. Some (g_id g) = s_group s \<and> g_chat_id g = a_chat a) (groups d) of
           None \<Rightarrow> None
         | Some g \<Rightarrow>
             if g_family g \<noteq> s_family s \<or> a_chat_type a = Private_chat then None
             else
               (let family_identity = (case identity of None \<Rightarrow> None
                      | Some m \<Rightarrow> if m_family m = g_family g then Some m else None) in
                case g_type g of
                  Family_private \<Rightarrow>
                    (case family_identity of
                       None \<Rightarrow> None
                     | Some m \<Rightarrow>
                         if s_scope s \<noteq> Family_scope then None
                         else Some \<lparr>fp_scopes = [''family''], fp_role = role_text (m_role m),
                                    fp_user = Some (m_user m), fp_group = Some g\<rparr>)
                | External_group \<Rightarrow>
                    if s_scope s \<noteq> Group_scope then None
                    else if g_mode g = Owner_only \<and> map_option m_role family_identity \<noteq> Some Owner_role then None
                    else Some \<lparr>fp_scopes = [''group''],
                               fp_role = (case family_identity of None \<Rightarrow> ''external'' | Some m \<Rightarrow> role_text (m_role m)),
                               fp_user = map_option m_user family_identity, fp_group = Some g\<rparr>)))"

definition policy_attributes :: "approval \<Rightarrow> conversation_session \<Rightarrow> fresh_policy \<Rightarrow> jobj" where
  "policy_attributes a s p =
     [(''applicationSessionId'', JStr (s_id s)),
      (''familyId'', JStr (s_family s)),
      (''memoryScopes'', JArr (map JStr (fp_scopes p))),
      (''role'', JStr (fp_role p)),
      (''telegramChatId'', JStr (a_chat a)),
      (''telegramChatType'', JStr (chat_type_text (a_chat_type a))),
      (''telegramMessageId'', JStr (nat_text (nat (a_message a)))),
      (''telegramActorId'', JStr (a_user a)),
      (''telegramActorKind'', JStr ''telegram_user'')] @
     when_some ''telegramMessageThreadId'' (map_option (\<lambda>n. nat_text (nat n)) (a_thread a)) @
     when_text ''telegramConversationId'' (a_conversation a) @
     when_text ''telegramTimelineEntryId'' (a_timeline a) @
     [(''telegramUserId'', JStr (a_user a))] @
     (case fp_group p of
        None \<Rightarrow> []
      | Some g \<Rightarrow>
          [(''groupId'', JStr (g_id g)), (''groupType'', JStr (group_type_text (g_type g)))] @
          (if g_type g \<noteq> Family_private then [(''toolAllowlist'', JArr (map JStr (g_allowlist g)))] else []))"

definition resolve_current_approval_auth ::
  "database \<Rightarrow> approval \<Rightarrow> conversation_session \<Rightarrow> auth_context option" where
  "resolve_current_approval_auth d a s =
     (case current_policy d a s of
        None \<Rightarrow> None
      | Some p \<Rightarrow> Some
          \<lparr>ac_attributes = spread (restored_turn_attributes a s) (policy_attributes a s p),
           ac_authenticator = ''telegram'',
           ac_principal = (case fp_user p of Some u \<Rightarrow> u | None \<Rightarrow> ''telegram:'' @ a_user a),
           ac_principal_type = ''user''\<rparr>)"

section \<open>Facts\<close>

lemma member_spread:
  "member_of (spread base extra) k = (case map_of (rev extra) k of Some v \<Rightarrow> Some v | None \<Rightarrow> member_of base k)"
proof (induction extra arbitrary: base)
  case Nil
  then show ?case by (simp add: spread_def)
next
  case (Cons kv extra)
  have "spread base (kv # extra) = spread (set_member base (fst kv) (snd kv)) extra"
    by (simp add: spread_def)
  then show ?case
    by (cases kv) (auto simp: Cons.IH member_set_member map_add_def split: option.split)
qed

lemma map_of_rev_distinct: "distinct (map fst xs) \<Longrightarrow> map_of (rev xs) = map_of xs"
proof
  fix k
  assume "distinct (map fst xs)"
  moreover from this have "distinct (map fst (rev xs))" by (simp add: rev_map [symmetric])
  ultimately have "map_of (rev xs) k = Some v \<longleftrightarrow> map_of xs k = Some v" for v by simp
  then show "map_of (rev xs) k = map_of xs k"
    by (metis not_None_eq)
qed

lemma member_spread_distinct:
  "distinct (map fst extra) \<Longrightarrow>
     member_of (spread base extra) k = (case map_of extra k of Some v \<Rightarrow> Some v | None \<Rightarrow> member_of base k)"
  by (simp add: member_spread map_of_rev_distinct)

lemma retain_member:
  "member_of (retain_turn_attributes attrs) k =
     (if k \<in> set retained_turn_attributes then opt_member attrs k else None)"
proof -
  have "map_of (concat (map (\<lambda>key. case opt_member attrs key of None \<Rightarrow> [] | Some v \<Rightarrow> [(key, v)]) keys)) k =
      (if k \<in> set keys then opt_member attrs k else None)" for keys
    by (induction keys) (auto simp: map_add_def split: option.split)
  then show ?thesis by (simp add: retain_turn_attributes_def member_of_def)
qed

lemma retain_keys: "set (map fst (retain_turn_attributes attrs)) \<subseteq> set retained_turn_attributes"
  by (auto simp: retain_turn_attributes_def split: option.splits)

lemma when_text_eq: "when_text k v = (if v = None \<or> v = Some [] then [] else [(k, JStr (the v))])"
  by (auto simp: when_text_def split: option.split list.split)

lemma when_some_eq: "when_some k v = (if v = None then [] else [(k, JStr (the v))])"
  by (auto simp: when_some_def split: option.split)

lemma keys_when [simp]:
  "map fst (when_some k v) = (if v = None then [] else [k])"
  "map fst (when_text k v) = (if v = None \<or> v = Some [] then [] else [k])"
  "fst ` set (when_some k v) = (if v = None then {} else {k})"
  "fst ` set (when_text k v) = (if v = None \<or> v = Some [] then {} else {k})"
  "k' \<noteq> k \<Longrightarrow> map_of (when_some k v) k' = None"
  "k' \<noteq> k \<Longrightarrow> map_of (when_text k v) k' = None"
  unfolding when_some_eq when_text_eq by simp_all

lemma policy_attributes_distinct: "distinct (map fst (policy_attributes a s p))"
  by (cases "fp_group p") (simp_all add: policy_attributes_def)

text \<open>The attributes that decide what a turn may do and see.\<close>

definition authority_attributes :: "string list" where
  "authority_attributes =
     [''applicationSessionId'', ''familyId'', ''memoryScopes'', ''role'', ''telegramChatId'',
      ''telegramChatType'', ''telegramMessageId'', ''telegramActorId'', ''telegramActorKind'',
      ''telegramUserId'', ''groupId'', ''groupType'', ''toolAllowlist'']"

lemma authority_not_retained: "set authority_attributes \<inter> set retained_turn_attributes = {}"
  by (simp add: authority_attributes_def retained_turn_attributes_def)

lemma member_restored:
  assumes "k \<notin> set retained_turn_attributes"
  shows "member_of (restored_turn_attributes a s) k = None"
proof -
  define stored where "stored = (case Option.bind (a_attributes a) as_record of
     None \<Rightarrow> [] | Some kvs \<Rightarrow> retain_turn_attributes (Some kvs))"
  have "k \<notin> fst ` set stored"
    using retain_keys assms by (auto simp: stored_def split: option.splits)
  then have "map_of (rev stored) k = None" by (simp add: map_of_eq_None_iff)
  moreover have "member_of (when_text ''sandboxSessionId'' (Some (s_thread s))) k = None"
    using assms by (auto simp: member_of_def retained_turn_attributes_def intro!: keys_when(6))
  ultimately show ?thesis
    unfolding restored_turn_attributes_def stored_def [symmetric] by (simp add: member_spread)
qed

lemma resolved_member:
  assumes "resolve_current_approval_auth d a s = Some auth" "k \<in> set authority_attributes"
  shows "\<exists>p. current_policy d a s = Some p \<and> member_of (ac_attributes auth) k = map_of (policy_attributes a s p) k"
proof -
  obtain p where p: "current_policy d a s = Some p"
      "auth = \<lparr>ac_attributes = spread (restored_turn_attributes a s) (policy_attributes a s p),
         ac_authenticator = ''telegram'',
         ac_principal = (case fp_user p of Some u \<Rightarrow> u | None \<Rightarrow> ''telegram:'' @ a_user a),
         ac_principal_type = ''user''\<rparr>"
    using assms(1) by (auto simp: resolve_current_approval_auth_def split: option.splits)
  have "k \<notin> set retained_turn_attributes" using assms(2) authority_not_retained by blast
  then show ?thesis
    using p by (simp add: member_spread_distinct policy_attributes_distinct member_restored split: option.split)
qed

text \<open>
  C19: What a resumed turn may do never comes from the stored context. Two prompts that differ only in
  the stored attributes of the requesting turn, however these were forged, resolve to identities with
  the same principal and the same value of every attribute that carries authority: session, family,
  memory scopes, role, chat, user, group and allowlist.
\<close>

theorem stored_context_carries_no_authority:
  assumes "k \<in> set authority_attributes"
  shows "map_option (\<lambda>auth. (ac_principal auth, member_of (ac_attributes auth) k))
      (resolve_current_approval_auth d (a\<lparr>a_attributes := x\<rparr>) s) =
    map_option (\<lambda>auth. (ac_principal auth, member_of (ac_attributes auth) k))
      (resolve_current_approval_auth d (a\<lparr>a_attributes := y\<rparr>) s)"
proof -
  have fields: "a_chat (a\<lparr>a_attributes := z\<rparr>) = a_chat a" "a_user (a\<lparr>a_attributes := z\<rparr>) = a_user a"
    "a_chat_type (a\<lparr>a_attributes := z\<rparr>) = a_chat_type a" for z by simp_all
  have policy: "current_policy d (a\<lparr>a_attributes := z\<rparr>) s = current_policy d a s" for z
    unfolding current_policy_def fields ..
  have attrs: "policy_attributes (a\<lparr>a_attributes := z\<rparr>) s p = policy_attributes a s p" for z p
    by (simp add: policy_attributes_def)
  have "k \<notin> set retained_turn_attributes" using assms authority_not_retained by blast
  then show ?thesis
    by (simp add: resolve_current_approval_auth_def policy attrs member_spread_distinct policy_attributes_distinct
        member_restored split: option.split)
qed

definition is_member :: "database \<Rightarrow> string \<Rightarrow> string \<Rightarrow> membership \<Rightarrow> bool" where
  "is_member d telegram_user family m \<longleftrightarrow> m \<in> set (memberships d) \<and> m_family m = family \<and>
     (\<exists>u\<in>set (app_users d). usr_telegram_id u = telegram_user \<and> usr_id u = m_user m)"

definition entitled :: "database \<Rightarrow> approval \<Rightarrow> conversation_session \<Rightarrow> auth_context \<Rightarrow> bool" where
  "entitled d a s auth \<longleftrightarrow>
     (case s_scope s of
        Personal_scope \<Rightarrow>
          a_chat_type a = Private_chat \<and>
          (\<exists>m. is_member d (a_user a) (s_family s) m \<and> s_owner s = Some (m_user m) \<and> ac_principal auth = m_user m)
      | Family_scope \<Rightarrow>
          (\<exists>g\<in>set (groups d). s_group s = Some (g_id g) \<and> g_chat_id g = a_chat a \<and> g_family g = s_family s \<and>
             g_type g = Family_private) \<and>
          (\<exists>m. is_member d (a_user a) (s_family s) m \<and> ac_principal auth = m_user m)
      | Group_scope \<Rightarrow>
          (\<exists>g\<in>set (groups d). s_group s = Some (g_id g) \<and> g_chat_id g = a_chat a \<and> g_family g = s_family s \<and>
             g_type g = External_group \<and>
             member_of (ac_attributes auth) ''toolAllowlist'' = Some (JArr (map JStr (g_allowlist g))) \<and>
             (g_mode g = Owner_only \<longrightarrow>
                (\<exists>m. is_member d (a_user a) (s_family s) m \<and> m_role m = Owner_role))))"

lemma find_identity_Some: "find_identity d u f = Some m \<Longrightarrow> is_member d u f m"
  by (auto simp: find_identity_def is_member_def dest!: first_row_Some)

lemma current_policy_cases:
  assumes "current_policy d a s = Some p"
  obtains (personal) m where "s_scope s = Personal_scope" "is_member d (a_user a) (s_family s) m"
      "s_owner s = Some (m_user m)" "a_chat_type a = Private_chat" "fp_user p = Some (m_user m)" "fp_group p = None"
  | (family) g m where "s_scope s = Family_scope" "g \<in> set (groups d)" "s_group s = Some (g_id g)"
      "g_chat_id g = a_chat a" "g_family g = s_family s" "g_type g = Family_private"
      "is_member d (a_user a) (s_family s) m" "fp_user p = Some (m_user m)" "fp_group p = Some g"
  | (external) g where "s_scope s = Group_scope" "g \<in> set (groups d)" "s_group s = Some (g_id g)"
      "g_chat_id g = a_chat a" "g_family g = s_family s" "g_type g = External_group"
      "g_mode g = Owner_only \<longrightarrow> (\<exists>m. is_member d (a_user a) (s_family s) m \<and> m_role m = Owner_role)"
      "fp_group p = Some g"
proof (cases "s_scope s = Personal_scope")
  case True
  with assms obtain m where "find_identity d (a_user a) (s_family s) = Some m" "s_owner s = Some (m_user m)"
    "a_chat_type a = Private_chat" "fp_user p = Some (m_user m)" "fp_group p = None"
    by (auto simp: current_policy_def Let_def split: option.splits if_splits)
  with True show thesis by (intro personal) (auto dest: find_identity_Some)
next
  case False
  with assms obtain g where g: "first_row (\<lambda>g. Some (g_id g) = s_group s \<and> g_chat_id g = a_chat a) (groups d) = Some g"
    "g_family g = s_family s"
    by (auto simp: current_policy_def Let_def split: option.splits if_splits)
  then have in_db: "g \<in> set (groups d)" "s_group s = Some (g_id g)" "g_chat_id g = a_chat a"
    by (auto dest!: first_row_Some)
  show thesis
  proof (cases "g_type g")
    case Family_private
    with assms False g obtain m where "find_identity d (a_user a) (s_family s) = Some m" "s_scope s = Family_scope"
      "fp_user p = Some (m_user m)" "fp_group p = Some g"
      by (auto simp: current_policy_def Let_def split: option.splits if_splits)
    with g in_db Family_private show thesis by (intro family) (auto dest: find_identity_Some)
  next
    case External_group
    with assms False g have "s_scope s = Group_scope" "fp_group p = Some g"
      "g_mode g = Owner_only \<longrightarrow> (\<exists>m. find_identity d (a_user a) (s_family s) = Some m \<and> m_role m = Owner_role)"
      by (auto simp: current_policy_def Let_def split: option.splits if_splits)
    with g in_db External_group show thesis by (intro external) (auto dest: find_identity_Some)
  qed
qed

text \<open>
  A resumed turn is refused unless the approver is entitled now. If an identity is resolved, then in a
  private session the approver is the session's owner and a current member of its family, in a family
  group a current member of the family that registered the group, and in an external group the policy
  is the group's current one (and the approver a current owner, when the group listens to owners only).
\<close>

theorem resumed_identity_is_entitled:
  assumes "resolve_current_approval_auth d a s = Some auth"
  shows "entitled d a s auth"
proof -
  obtain p where p: "current_policy d a s = Some p"
      "ac_principal auth = (case fp_user p of Some u \<Rightarrow> u | None \<Rightarrow> ''telegram:'' @ a_user a)"
    using assms by (auto simp: resolve_current_approval_auth_def split: option.splits)
  have allowlist: "member_of (ac_attributes auth) ''toolAllowlist'' = map_of (policy_attributes a s p) ''toolAllowlist''"
    using resolved_member [OF assms, of "''toolAllowlist''"] p(1) by (auto simp: authority_attributes_def)
  from p(1) show ?thesis
  proof (cases rule: current_policy_cases)
    case (personal m)
    then show ?thesis using p(2) by (auto simp: entitled_def)
  next
    case (family g m)
    then show ?thesis using p(2) by (auto simp: entitled_def)
  next
    case (external g)
    then have "map_of (policy_attributes a s p) ''toolAllowlist'' = Some (JArr (map JStr (g_allowlist g)))"
      by (simp add: policy_attributes_def map_add_def)
    with external allowlist show ?thesis by (auto simp: entitled_def)
  qed
qed

end
