(* ===== verification/Approvals.thy ===== *)
theory Approvals
  imports Approval_Auth Input_Validation
begin

text \<open>
  agent/lib/telegram-hitl: the durable confirmation prompts. A prompt is registered with the exact
  action it is about (approval-repository.ts), answered by a button or a text reply of the person it
  was shown to, and is the evidence the tool call needs at the moment it runs (approval-evidence.ts).
  Session, conversation and timeline ids are UUIDs the database itself returned.
\<close>

section \<open>Registration\<close>

record register_input =
  ri_session :: string
  ri_kind :: request_kind
  ri_callbacks :: "string list"
  ri_options :: "callback_option list"
  ri_eve :: string
  ri_request :: string
  ri_prompt :: string
  ri_chat :: string
  ri_chat_type :: chat_type
  ri_conversation :: "string option"
  ri_message :: string
  ri_thread :: "string option"
  ri_timeline :: "string option"
  ri_user :: string
  ri_call :: string
  ri_hash :: string
  ri_tool :: string
  ri_attributes :: "jobj option"

definition new_approval :: "string \<Rightarrow> register_input \<Rightarrow> time \<Rightarrow> approval" where
  "new_approval uuid i now =
     \<lparr>a_id = uuid, a_session = ri_session i, a_eve = ri_eve i, a_request = ri_request i,
      a_kind = Some (ri_kind i), a_chat = ri_chat i, a_chat_type = ri_chat_type i,
      a_message = decimal_value (ri_message i), a_thread = map_option decimal_value (ri_thread i),
      a_user = ri_user i, a_callbacks = ri_callbacks i,
      a_options = JArr (map json_of_option (ri_options i)), a_prompt = Some (ri_prompt i),
      a_call = Some (ri_call i), a_tool = Some (ri_tool i), a_hash = Some (ri_hash i),
      a_conversation = ri_conversation i, a_timeline = ri_timeline i,
      a_attributes = map_option JObj (ri_attributes i), a_created = now, a_consumed = None,
      a_timed_out = None, a_lease = None, a_lease_until = None, a_attempts = 0, a_selected = None\<rparr>"

text \<open>\<open>ON CONFLICT ... DO UPDATE\<close>: id and creation time of the existing row stay.\<close>

definition reopened :: "approval \<Rightarrow> approval \<Rightarrow> approval" where
  "reopened old excluded = excluded\<lparr>a_id := a_id old, a_created := a_created old\<rparr>"

definition sha256_hex :: "string \<Rightarrow> bool" where
  "sha256_hex s \<longleftrightarrow> length s = 64 \<and> list_all hex_digit s"

definition approval_checks :: "approval \<Rightarrow> bool" where
  "approval_checks a \<longleftrightarrow>
     0 < a_message a \<and> (case a_thread a of None \<Rightarrow> True | Some n \<Rightarrow> 0 < n) \<and> a_prompt a \<noteq> Some [] \<and>
     a_call a \<noteq> Some [] \<and> a_tool a \<noteq> Some [] \<and> (case a_hash a of None \<Rightarrow> True | Some h \<Rightarrow> sha256_hex h)"

definition same_request :: "approval \<Rightarrow> approval \<Rightarrow> bool" where
  "same_request a b \<longleftrightarrow> a_session a = a_session b \<and> a_eve a = a_eve b \<and> a_request a = a_request b"

definition same_slot :: "approval \<Rightarrow> approval \<Rightarrow> bool" where
  "same_slot a b \<longleftrightarrow> a_chat a = a_chat b \<and> a_message a = a_message b \<and> a_request a = a_request b"

definition register :: "string \<Rightarrow> register_input \<Rightarrow> time \<Rightarrow> database \<Rightarrow> unit result \<times> database" where
  "register uuid i now d =
     (let row = new_approval uuid i now in
      if \<not> approval_checks row then (Inl (PgError ''23514''), d)
      else (case first_row (same_request row) (approvals d) of
              Some old \<Rightarrow>
                if exists_row (\<lambda>a. a_id a \<noteq> a_id old \<and> same_slot row a) (approvals d)
                then (Inl (PgError ''23505''), d)
                else (Inr (), d\<lparr>approvals :=
                  update_where (\<lambda>a. a_id a = a_id old) (\<lambda>a. reopened a row) (approvals d)\<rparr>)
            | None \<Rightarrow>
                if \<not> exists_row (\<lambda>s. s_id s = ri_session i) (sessions d) then (Inl (PgError ''23503''), d)
                else if exists_row (\<lambda>a. a_id a = uuid \<or> same_slot row a) (approvals d)
                then (Inl (PgError ''23505''), d)
                else (Inr (), d\<lparr>approvals := approvals d @ [row]\<rparr>)))"

section \<open>Reading a prompt\<close>

text \<open>One message may carry every request of a step, so a prompt is a list of rows.\<close>

definition lock_approvals :: "string \<Rightarrow> string \<Rightarrow> database \<Rightarrow> (approval \<times> conversation_session) list" where
  "lock_approvals chat message d =
     concat (map (\<lambda>a. case first_row (\<lambda>s. s_id s = a_session a) (sessions d) of
         None \<Rightarrow> [] | Some s \<Rightarrow> [(a, s)])
       (sort_key (\<lambda>a. (a_created a, a_id a))
         (filter (\<lambda>a. a_chat a = chat \<and> a_message a = decimal_value message) (approvals d))))"

fun is_pending_approval :: "approval \<times> conversation_session \<Rightarrow> bool" where
  "is_pending_approval (a, s) \<longleftrightarrow>
     a_consumed a = None \<and> s_pending s \<and> s_retired s = None \<and> s_eve s = Some (a_eve a)"

definition option_matches :: "string \<Rightarrow> json \<Rightarrow> (string \<times> string) option" where
  "option_matches callback_data opt =
     (case as_record opt of
        None \<Rightarrow> None
      | Some value \<Rightarrow>
          if member_of value ''callbackData'' \<noteq> Some (JStr callback_data) then None
          else (case (member_of value ''label'', member_of value ''optionId'') of
                  (Some (JStr label), Some (JStr option_id)) \<Rightarrow>
                    if label \<noteq> [] \<and> option_id \<noteq> [] then Some (option_id, label) else None
                | _ \<Rightarrow> None))"

fun first_option :: "string \<Rightarrow> json list \<Rightarrow> (string \<times> string) option" where
  "first_option callback_data [] = None"
| "first_option callback_data (opt # opts) =
     (case option_matches callback_data opt of Some x \<Rightarrow> Some x | None \<Rightarrow> first_option callback_data opts)"

text \<open>The option id and the label of the pressed button.\<close>

definition selected_callback_option :: "approval \<Rightarrow> string \<Rightarrow> (string \<times> string) option" where
  "selected_callback_option a callback_data =
     (case a_options a of JArr opts \<Rightarrow> first_option callback_data opts | _ \<Rightarrow> None)"

definition route_belongs_to_session :: "string \<Rightarrow> string \<Rightarrow> database \<Rightarrow> bool" where
  "route_belongs_to_session token session d = exists_row (\<lambda>r. r = (token, session)) (routes d)"

definition route_has_pending_operation :: "string \<Rightarrow> database \<Rightarrow> bool" where
  "route_has_pending_operation token d =
     exists_row (\<lambda>r. fst r = token \<and>
       exists_row (\<lambda>s. s_id s = snd r \<and> s_pending s \<and> s_retired s = None) (sessions d)) (routes d)"

section \<open>Settling the session\<close>

definition unanswered :: "string \<Rightarrow> string \<Rightarrow> database \<Rightarrow> bool" where
  "unanswered session eve d =
     exists_row (\<lambda>a. a_session a = session \<and> a_eve a = eve \<and> a_consumed a = None) (approvals d)"

definition settled_session :: "bool \<Rightarrow> conversation_session \<Rightarrow> conversation_session" where
  "settled_session pending s =
     s\<lparr>s_pending := pending,
       s_pending_request := (if pending then s_pending_request s else None),
       s_task := (if s_kind s = Task_session \<and> \<not> pending then Some Task_running else s_task s)\<rparr>"

definition settle_sessions ::
  "(conversation_session \<Rightarrow> bool) \<Rightarrow> string \<Rightarrow> string \<Rightarrow> database \<Rightarrow> database" where
  "settle_sessions guard session eve d =
     d\<lparr>sessions := update_where (\<lambda>s. s_id s = session \<and> guard s)
         (settled_session (unanswered session eve d)) (sessions d)\<rparr>"

section \<open>A button press\<close>

record callback_input =
  ci_base :: string
  ci_data :: string
  ci_chat :: string
  ci_message :: string
  ci_user :: string

record authorized_claim =
  cl_auth :: auth_context
  cl_token :: string
  cl_prompt :: string
  cl_requests :: "string list"
  cl_option :: string
  cl_label :: string

datatype callback_claim = Claim_authorized authorized_claim | Claim_expired | Claim_forbidden

definition missing_text :: "string option \<Rightarrow> bool" where
  "missing_text t \<longleftrightarrow> t = None \<or> t = Some []"

definition consume :: "time \<Rightarrow> (string \<times> string) option \<Rightarrow> approval \<Rightarrow> approval" where
  "consume now selected a = a\<lparr>a_consumed := Some now, a_selected := selected\<rparr>"

definition consume_rows ::
  "time \<Rightarrow> string \<times> string \<Rightarrow> (approval \<times> conversation_session) list \<Rightarrow> database \<Rightarrow> nat \<times> database" where
  "consume_rows now opt rows d =
     (let hit = (\<lambda>a. a_id a \<in> set (map (a_id \<circ> fst) rows) \<and> a_consumed a = None)
      in (row_count hit (approvals d),
          d\<lparr>approvals := update_where hit (consume now (Some opt)) (approvals d)\<rparr>))"

definition claim_callback_body :: "callback_input \<Rightarrow> time \<Rightarrow> database \<Rightarrow> (callback_claim, database) tx" where
  "claim_callback_body i now d =
     (let rows = lock_approvals (ci_chat i) (ci_message i) d in
      case rows of
        [] \<Rightarrow> Rollback Claim_expired
      | (a, s) # _ \<Rightarrow>
          (case selected_callback_option a (ci_data i) of
             None \<Rightarrow> Rollback Claim_expired
           | Some opt \<Rightarrow>
               if list_ex (\<lambda>r. \<not> is_pending_approval r \<or> ci_data i \<notin> set (a_callbacks (fst r)) \<or>
                    missing_text (a_prompt (fst r))) rows
               then Rollback Claim_expired
               else if list_ex (\<lambda>r. a_user (fst r) \<noteq> ci_user i) rows then Rollback Claim_forbidden
               else if \<not> route_belongs_to_session (ci_base i) (a_session a) d then Rollback Claim_expired
               else (case resolve_current_approval_auth d a s of
                       None \<Rightarrow> Rollback Claim_forbidden
                     | Some auth \<Rightarrow>
                         (case consume_rows now opt rows d of
                            (n, d1) \<Rightarrow>
                              if n \<noteq> length rows then Rollback Claim_expired
                              else Commit (Claim_authorized
                                     \<lparr>cl_auth = auth, cl_token = s_token s, cl_prompt = the (a_prompt a),
                                      cl_requests = map (a_request \<circ> fst) rows,
                                      cl_option = fst opt, cl_label = snd opt\<rparr>)
                                   (settle_sessions (\<lambda>_. True) (a_session a) (a_eve a) d1)))))"

definition claim_callback :: "callback_input \<Rightarrow> time \<Rightarrow> database \<Rightarrow> callback_claim result \<times> database" where
  "claim_callback i now = run_tx (claim_callback_body i now)"

section \<open>A text reply\<close>

record reply_input =
  ar_base :: string
  ar_chat :: string
  ar_message :: string
  ar_user :: string

datatype reply_authorization = Reply_authorized | Reply_expired | Reply_forbidden | Reply_not_applicable

definition authorize_reply_body :: "reply_input \<Rightarrow> time \<Rightarrow> database \<Rightarrow> (reply_authorization, database) tx" where
  "authorize_reply_body i now d =
     (case lock_approvals (ar_chat i) (ar_message i) d of
        [] \<Rightarrow> Rollback (if route_has_pending_operation (ar_base i) d then Reply_expired else Reply_not_applicable)
      | (a, s) # _ \<Rightarrow>
          if \<not> is_pending_approval (a, s)
          then Commit Reply_not_applicable
                 (d\<lparr>routes := delete_where (\<lambda>r. r = (ar_base i, a_session a)) (routes d)\<rparr>)
          else if \<not> route_belongs_to_session (ar_base i) (a_session a) d then Rollback Reply_expired
          else if a_kind a \<noteq> Some Question_request then Rollback Reply_not_applicable
          else if a_user a \<noteq> ar_user i then Rollback Reply_forbidden
          else
            (let hit = (\<lambda>x. a_id x = a_id a \<and> a_consumed x = None);
                 d1 = d\<lparr>approvals := update_where hit (\<lambda>x. x\<lparr>a_consumed := Some now\<rparr>) (approvals d)\<rparr>
             in if row_count hit (approvals d) \<noteq> 1 then Rollback Reply_expired
                else Commit Reply_authorized (settle_sessions (\<lambda>_. True) (a_session a) (a_eve a) d1)))"

definition authorize_reply :: "reply_input \<Rightarrow> time \<Rightarrow> database \<Rightarrow> reply_authorization result \<times> database" where
  "authorize_reply i now = run_tx (authorize_reply_body i now)"

section \<open>The rest of the repository\<close>

definition clear_for_eve_session :: "string \<Rightarrow> string \<Rightarrow> database \<Rightarrow> database" where
  "clear_for_eve_session session eve d =
     d\<lparr>approvals := delete_where (\<lambda>a. a_session a = session \<and> a_eve a = eve) (approvals d)\<rparr>"

definition has_pending_for_session :: "string \<Rightarrow> string \<Rightarrow> database \<Rightarrow> bool" where
  "has_pending_for_session session eve d =
     exists_row (\<lambda>a. a_session a = session \<and> a_eve a = eve \<and> a_consumed a = None \<and>
       exists_row (\<lambda>s. s_id s = a_session a \<and> s_pending s \<and> s_retired s = None \<and> s_eve s = Some (a_eve a))
         (sessions d)) (approvals d)"

record evidence_input =
  ev_session :: string
  ev_eve :: string
  ev_user :: string
  ev_call :: string
  ev_hash :: string
  ev_tool :: string

definition is_evidence :: "evidence_input \<Rightarrow> approval \<Rightarrow> bool" where
  "is_evidence i a \<longleftrightarrow>
     a_session a = ev_session i \<and> a_eve a = ev_eve i \<and> a_user a = ev_user i \<and>
     a_call a = Some (ev_call i) \<and> a_tool a = Some (ev_tool i) \<and> a_hash a = Some (ev_hash i) \<and>
     a_consumed a \<noteq> None \<and> a_timed_out a = None \<and>
     (case a_selected a of None \<Rightarrow> True | Some sel \<Rightarrow> fst sel = ''approve'')"

definition require_tool_execution_approval_evidence :: "evidence_input \<Rightarrow> database \<Rightarrow> unit result" where
  "require_tool_execution_approval_evidence i d =
     (if exists_row (\<lambda>a. is_evidence i a \<and>
           exists_row (\<lambda>s. s_id s = a_session a \<and> s_eve s = Some (a_eve a) \<and> s_retired s = None) (sessions d))
         (approvals d)
      then Inr () else Inl (AppError ''AGENT_TOOL_APPROVAL_EVIDENCE_INVALID''))"

end
