(* ===== verification/Approval_Timeout.thy ===== *)
theory Approval_Timeout
  imports Approvals Lease
begin

text \<open>
  agent/lib/telegram-hitl/approval-timeout-repository.ts and approval-timeout.ts: the minute sweep
  that cancels prompts nobody answered. A sweep leases the prompts, answers Eve, then settles them.
  Eve's answer is a parameter; log lines and the rewriting of the Telegram message are left out,
  except for which messages are rewritten.
\<close>

definition approval_timeout_ms :: int where "approval_timeout_ms = 5 * 60 * 1000"

definition timeout_lease_ms :: int where "timeout_lease_ms = 15 * 60 * 1000"

definition sweep_batch_size :: nat where "sweep_batch_size = 5"

record timeout_claim =
  tc_session :: string
  tc_auth :: auth_context
  tc_eve :: string
  tc_id :: string
  tc_kind :: request_kind
  tc_token :: string
  tc_prompt :: string
  tc_request :: string
  tc_chat :: string
  tc_message :: string
  tc_tool :: "string option"

section \<open>Claiming expired prompts\<close>

definition parked_session :: "approval \<Rightarrow> conversation_session \<Rightarrow> bool" where
  "parked_session a s \<longleftrightarrow>
     s_id s = a_session a \<and> s_eve s = Some (a_eve a) \<and> s_retired s = None \<and> s_pending s"

definition expired_prompt :: "(string \<Rightarrow> bool) \<Rightarrow> time \<Rightarrow> int \<Rightarrow> database \<Rightarrow> approval \<Rightarrow> bool" where
  "expired_prompt locked now timeout d a \<longleftrightarrow>
     a_consumed a = None \<and> (a_kind a = Some Question_request \<or> a_kind a = Some Tool_approval_request) \<and>
     a_created a \<le> now - millis timeout \<and>
     (case a_lease_until a of None \<Rightarrow> True | Some till \<Rightarrow> till \<le> now) \<and>
     exists_row (parked_session a) (sessions d) \<and> \<not> locked (a_id a)"

definition a_acquire :: "string \<Rightarrow> time \<Rightarrow> approval \<Rightarrow> approval" where
  "a_acquire token till a = a\<lparr>a_lease := Some token, a_lease_until := Some till\<rparr>"

definition a_give_back :: "approval \<Rightarrow> approval" where
  "a_give_back a = a\<lparr>a_lease := None, a_lease_until := None, a_attempts := a_attempts a + 1\<rparr>"

definition lease_of :: "string \<Rightarrow> string \<Rightarrow> approval \<Rightarrow> bool" where
  "lease_of aid token a \<longleftrightarrow> a_id a = aid \<and> a_lease a = Some token"

definition release_timeout_lease :: "string \<Rightarrow> string \<Rightarrow> database \<Rightarrow> database" where
  "release_timeout_lease aid token d =
     d\<lparr>approvals := update_where (lease_of aid token) a_give_back (approvals d)\<rparr>"

definition to_claim :: "approval \<Rightarrow> auth_context \<Rightarrow> timeout_claim result" where
  "to_claim a auth =
     (case a_prompt a of
        None \<Rightarrow> Inl (AppError ''AGENT_APPROVAL_TIMEOUT_PROMPT_MISSING'')
      | Some prompt \<Rightarrow>
          if prompt = [] then Inl (AppError ''AGENT_APPROVAL_TIMEOUT_PROMPT_MISSING'')
          else Inr \<lparr>tc_session = a_session a, tc_auth = auth, tc_eve = a_eve a, tc_id = a_id a,
                    tc_kind = the (a_kind a), tc_token = the (a_lease a), tc_prompt = prompt,
                    tc_request = a_request a, tc_chat = a_chat a,
                    tc_message = nat_text (nat (a_message a)), tc_tool = a_tool a\<rparr>)"

text \<open>\<open>RETURNING\<close> has no order of its own; the rows are taken in the order of the candidates.\<close>

definition leased_rows_of :: "approval list \<Rightarrow> database \<Rightarrow> (approval \<times> conversation_session) list" where
  "leased_rows_of rows d =
     concat (map (\<lambda>a. case first_row (\<lambda>s. s_id s = a_session a) (sessions d) of
         None \<Rightarrow> [] | Some s \<Rightarrow> [(a, s)]) rows)"

fun collect_claims ::
  "(approval \<times> conversation_session) list \<Rightarrow> timeout_claim list \<Rightarrow> database \<Rightarrow> (timeout_claim list, database) tx"
  where
  "collect_claims [] claims d = Commit claims d"
| "collect_claims ((a, s) # rows) claims d =
     (case resolve_current_approval_auth d a s of
        None \<Rightarrow> collect_claims rows claims (release_timeout_lease (a_id a) (the (a_lease a)) d)
      | Some auth \<Rightarrow>
          (case to_claim a auth of
             Inl e \<Rightarrow> Throw e
           | Inr claim \<Rightarrow> collect_claims rows (claims @ [claim]) d))"

definition claim_expired_body ::
  "(string \<Rightarrow> bool) \<Rightarrow> (string \<Rightarrow> string) \<Rightarrow> time \<Rightarrow> int \<Rightarrow> database \<Rightarrow> (timeout_claim list, database) tx" where
  "claim_expired_body locked tokens now timeout d =
     (let candidates = select_ordered (expired_prompt locked now timeout d)
            (\<lambda>a. (a_attempts a, a_created a, a_id a)) sweep_batch_size (approvals d);
          acquire = (\<lambda>a. a_acquire (tokens (a_id a)) (now + millis timeout_lease_ms) a);
          d1 = d\<lparr>approvals := update_where (\<lambda>a. a_id a \<in> set (map a_id candidates)) acquire (approvals d)\<rparr>
      in collect_claims (leased_rows_of (map acquire candidates) d1) [] d1)"

definition claim_expired ::
  "(string \<Rightarrow> bool) \<Rightarrow> (string \<Rightarrow> string) \<Rightarrow> time \<Rightarrow> int \<Rightarrow> database \<Rightarrow> timeout_claim list result \<times> database" where
  "claim_expired locked tokens now timeout = run_tx (claim_expired_body locked tokens now timeout)"

section \<open>Settling\<close>

definition a_time_out :: "time \<Rightarrow> approval \<Rightarrow> approval" where
  "a_time_out now a =
     a\<lparr>a_consumed := Some now, a_timed_out := Some now, a_lease := None, a_lease_until := None\<rparr>"

definition complete_timeout_body :: "timeout_claim \<Rightarrow> time \<Rightarrow> database \<Rightarrow> (bool, database) tx" where
  "complete_timeout_body claim now d =
     (let hit = (\<lambda>a. lease_of (tc_id claim) (tc_token claim) a \<and> a_consumed a = None)
      in if row_count hit (approvals d) \<noteq> 1 then Rollback False
         else Commit True
           (settle_sessions (\<lambda>s. s_retired s = None \<and> s_eve s = Some (tc_eve claim))
              (tc_session claim) (tc_eve claim)
              (d\<lparr>approvals := update_where hit (a_time_out now) (approvals d)\<rparr>)))"

definition complete_timeout :: "timeout_claim \<Rightarrow> time \<Rightarrow> database \<Rightarrow> bool result \<times> database" where
  "complete_timeout claim now = run_tx (complete_timeout_body claim now)"

definition fail_timeout :: "timeout_claim \<Rightarrow> database \<Rightarrow> database" where
  "fail_timeout claim d = release_timeout_lease (tc_id claim) (tc_token claim) d"

section \<open>The sweep\<close>

datatype timeout_response = Question_timed_out string | Option_cancelled string

text \<open>The request id answered with the fixed text of a question, or with the option \<open>cancel\<close>.\<close>

definition timeout_input_response :: "timeout_claim \<Rightarrow> timeout_response" where
  "timeout_input_response claim =
     (if tc_kind claim = Question_request then Question_timed_out (tc_request claim)
      else Option_cancelled (tc_request claim))"

fun add_to_groups :: "timeout_claim \<Rightarrow> (string \<times> timeout_claim list) list \<Rightarrow> (string \<times> timeout_claim list) list" where
  "add_to_groups c [] = [(tc_eve c, [c])]"
| "add_to_groups c ((k, cs) # gs) =
     (if k = tc_eve c then (k, cs @ [c]) # gs else (k, cs) # add_to_groups c gs)"

definition group_by_session :: "timeout_claim list \<Rightarrow> timeout_claim list list" where
  "group_by_session claims = map snd (foldl (\<lambda>gs c. add_to_groups c gs) [] claims)"

text \<open>What Eve does with a response: it accepts it, the session is gone, or the call fails.\<close>

datatype eve_answer = Eve_accepted | Eve_inactive | Eve_failed

record sweep_state =
  sw_db :: database
  sw_sent :: "(string \<times> timeout_response list) list"
  sw_finalized :: "(string \<times> string) list"

definition send_response :: "string \<Rightarrow> timeout_claim list \<Rightarrow> sweep_state \<Rightarrow> sweep_state" where
  "send_response eve claims w =
     w\<lparr>sw_sent := sw_sent w @ [(eve, map timeout_input_response claims)]\<rparr>"

fun settle_claims ::
  "bool \<Rightarrow> time \<Rightarrow> timeout_claim list \<Rightarrow> (string \<times> string) set \<Rightarrow> nat \<Rightarrow> sweep_state \<Rightarrow> nat \<times> sweep_state" where
  "settle_claims active now [] done_prompts n w = (n, w)"
| "settle_claims active now (claim # claims) done_prompts n w =
     (case complete_timeout claim now (sw_db w) of
        (Inl e, d) \<Rightarrow> settle_claims active now claims done_prompts n (w\<lparr>sw_db := d\<rparr>)
      | (Inr settled, d) \<Rightarrow>
          if \<not> settled then settle_claims active now claims done_prompts n (w\<lparr>sw_db := d\<rparr>)
          else
            (let n' = (if active then Suc n else n);
                 prompt = (tc_chat claim, tc_message claim)
             in if prompt \<in> done_prompts
                then settle_claims active now claims done_prompts n' (w\<lparr>sw_db := d\<rparr>)
                else settle_claims active now claims (insert prompt done_prompts) n'
                       (w\<lparr>sw_db := d, sw_finalized := sw_finalized w @ [prompt]\<rparr>)))"

definition resolve_session ::
  "(string \<Rightarrow> timeout_response list \<Rightarrow> eve_answer) \<Rightarrow> time \<Rightarrow> timeout_claim list \<Rightarrow> sweep_state \<Rightarrow> nat \<times> sweep_state" where
  "resolve_session respond now claims w =
     (case claims of
        [] \<Rightarrow> (0, w)
      | first # _ \<Rightarrow>
          (let w1 = send_response (tc_eve first) claims w in
           case respond (tc_eve first) (map timeout_input_response claims) of
             Eve_failed \<Rightarrow> (0, w1\<lparr>sw_db := foldl (\<lambda>d c. fail_timeout c d) (sw_db w1) claims\<rparr>)
           | answer \<Rightarrow> settle_claims (answer = Eve_accepted) now claims {} 0 w1))"

fun resolve_groups ::
  "(string \<Rightarrow> timeout_response list \<Rightarrow> eve_answer) \<Rightarrow> time \<Rightarrow> timeout_claim list list \<Rightarrow> nat \<Rightarrow> sweep_state \<Rightarrow> nat \<times> sweep_state" where
  "resolve_groups respond now [] n w = (n, w)"
| "resolve_groups respond now (g # gs) n w =
     (case resolve_session respond now g w of (m, w') \<Rightarrow> resolve_groups respond now gs (n + m) w')"

definition resolve_timed_out_approvals ::
  "(string \<Rightarrow> timeout_response list \<Rightarrow> eve_answer) \<Rightarrow> (string \<Rightarrow> bool) \<Rightarrow> (string \<Rightarrow> string) \<Rightarrow> time
     \<Rightarrow> database \<Rightarrow> nat result \<times> sweep_state" where
  "resolve_timed_out_approvals respond locked tokens now d =
     (case claim_expired locked tokens now approval_timeout_ms d of
        (Inl e, d1) \<Rightarrow> (Inl e, \<lparr>sw_db = d1, sw_sent = [], sw_finalized = []\<rparr>)
      | (Inr claims, d1) \<Rightarrow>
          (case resolve_groups respond now (group_by_session claims) 0
                  \<lparr>sw_db = d1, sw_sent = [], sw_finalized = []\<rparr> of
             (n, w) \<Rightarrow> (Inr n, w)))"

section \<open>The lease\<close>

definition holds_timeout_lease :: "approval \<Rightarrow> string \<Rightarrow> time \<Rightarrow> bool" where
  "holds_timeout_lease a token now \<longleftrightarrow> a_lease a = Some token \<and> a_consumed a = None"

interpretation timeout_lease: leased_rows a_id holds_timeout_lease a_acquire a_give_back
  by unfold_locales (auto simp: holds_timeout_lease_def a_acquire_def a_give_back_def)

end
