(* ===== verification/Approval_Properties.thy ===== *)
theory Approval_Properties
  imports Approval_Timeout
begin

text \<open>What the confirmation prompts promise: who can answer, once, and what an answer proves.\<close>

section \<open>Tools\<close>

lemma lock_approvals_iff:
  "(a, s) \<in> set (lock_approvals chat message d) \<longleftrightarrow>
     a \<in> set (approvals d) \<and> a_chat a = chat \<and> a_message a = decimal_value message \<and>
     first_row (\<lambda>s. s_id s = a_session a) (sessions d) = Some s"
  by (auto simp: lock_approvals_def split: option.splits)

lemma settle_sessions_approvals [simp]: "approvals (settle_sessions g session eve d) = approvals d"
  by (simp add: settle_sessions_def)

lemma settled_session_fields [simp]:
  "s_id (settled_session b s) = s_id s" "s_retired (settled_session b s) = s_retired s"
  "s_eve (settled_session b s) = s_eve s" "s_pending (settled_session b s) = b"
  by (simp_all add: settled_session_def)

lemma first_row_settled:
  "first_row (\<lambda>s. s_id s = k) (update_where P (settled_session b) rows) =
     map_option (\<lambda>s. if P s then settled_session b s else s) (first_row (\<lambda>s. s_id s = k) rows)"
proof (induction rows)
  case (Cons s rows)
  then show ?case by (cases "P s"; cases "s_id s = k") (simp_all add: first_row_def update_where_def)
qed (simp add: first_row_def update_where_def)

lemma first_row_settle_None:
  "first_row (\<lambda>s. s_id s = k) (sessions (settle_sessions g session eve d)) = None \<longleftrightarrow>
     first_row (\<lambda>s. s_id s = k) (sessions d) = None"
  by (simp add: settle_sessions_def first_row_settled)

definition answerable :: "callback_input \<Rightarrow> approval \<times> conversation_session \<Rightarrow> bool" where
  "answerable i r \<longleftrightarrow> is_pending_approval r \<and> ci_data i \<in> set (a_callbacks (fst r)) \<and> \<not> missing_text (a_prompt (fst r))"

lemma claim_callback_body_answerable:
  "claim_callback_body i now d =
     (let rows = lock_approvals (ci_chat i) (ci_message i) d in
      case rows of
        [] \<Rightarrow> Rollback Claim_expired
      | (a, s) # _ \<Rightarrow>
          (case selected_callback_option a (ci_data i) of
             None \<Rightarrow> Rollback Claim_expired
           | Some opt \<Rightarrow>
               if \<not> list_all (answerable i) rows then Rollback Claim_expired
               else if \<not> list_all (\<lambda>r. a_user (fst r) = ci_user i) rows then Rollback Claim_forbidden
               else if \<not> route_belongs_to_session (ci_base i) (a_session a) d then Rollback Claim_expired
               else (case resolve_current_approval_auth d a s of
                       None \<Rightarrow> Rollback Claim_forbidden
                     | Some auth \<Rightarrow>
                         (case consume_rows now opt rows d of
                            (n, d1) \<Rightarrow>
                              if n \<noteq> length rows then Rollback Claim_expired
                              else Commit (Claim_authorized
                                     \<lparr>cl_auth = auth, cl_token = s_token s, cl_prompt = the (a_prompt a),
                                      cl_requests = map (a_request \<circ> fst) rows,
                                      cl_option = fst opt, cl_label = snd opt\<rparr>)
                                   (settle_sessions (\<lambda>_. True) (a_session a) (a_eve a) d1)))))"
proof -
  have eq: "list_ex (\<lambda>r. \<not> is_pending_approval r \<or> ci_data i \<notin> set (a_callbacks (fst r)) \<or>
      missing_text (a_prompt (fst r))) rs \<longleftrightarrow> \<not> list_all (answerable i) rs"
    "list_ex (\<lambda>r. a_user (fst r) \<noteq> ci_user i) rs \<longleftrightarrow> \<not> list_all (\<lambda>r. a_user (fst r) = ci_user i) rs" for rs
    by (auto simp: list_ex_iff list_all_iff answerable_def)
  show ?thesis unfolding claim_callback_body_def eq ..
qed

lemma two_refusals:
  "t = (if \<not> A then Rollback x else if \<not> B then Rollback y else if \<not> C then Rollback x else Rollback y) \<Longrightarrow>
     t = Rollback x \<or> t = Rollback y"
  by simp

lemma four_refusals:
  "t = (if \<not> A then Rollback x else if \<not> B then Rollback y else if \<not> C then Rollback x
        else if n \<noteq> m then Rollback x else Commit v d) \<Longrightarrow>
     \<not> (A \<and> B \<and> C \<and> n = m) \<Longrightarrow> t = Rollback x \<or> t = Rollback y"
  by (cases A; cases B; cases C) simp_all

lemma claim_callback_body_cases:
  obtains (refused) x where "claim_callback_body i now d = Rollback x" "x = Claim_expired \<or> x = Claim_forbidden"
  | (authorized) a s rest opt auth n d1 where "lock_approvals (ci_chat i) (ci_message i) d = (a, s) # rest"
      "selected_callback_option a (ci_data i) = Some opt"
      "list_all (answerable i) ((a, s) # rest)" "list_all (\<lambda>r. a_user (fst r) = ci_user i) ((a, s) # rest)"
      "resolve_current_approval_auth d a s = Some auth" "consume_rows now opt ((a, s) # rest) d = (n, d1)"
      "claim_callback_body i now d = Commit (Claim_authorized
         \<lparr>cl_auth = auth, cl_token = s_token s, cl_prompt = the (a_prompt a),
          cl_requests = map (a_request \<circ> fst) ((a, s) # rest), cl_option = fst opt, cl_label = snd opt\<rparr>)
         (settle_sessions (\<lambda>_. True) (a_session a) (a_eve a) d1)"
proof (cases "lock_approvals (ci_chat i) (ci_message i) d")
  case Nil
  then show thesis using refused [of Claim_expired] by (simp add: claim_callback_body_answerable)
next
  case (Cons r rest)
  obtain a s where r: "r = (a, s)" by fastforce
  note rows = Cons [unfolded r]
  note body = claim_callback_body_answerable [of i now d, unfolded rows Let_def list.case prod.case]
  let ?rows = "(a, s) # rest"
  show thesis
  proof (cases "selected_callback_option a (ci_data i)")
    case None
    show thesis by (rule refused [OF body [unfolded None option.case]]) simp
  next
    case (Some opt)
    note body = body [unfolded Some option.case]
    obtain n d1 where n: "consume_rows now opt ?rows d = (n, d1)" by fastforce
    note body = body [unfolded n prod.case]
    show thesis
    proof (cases "resolve_current_approval_auth d a s")
      case None
      show thesis
        using two_refusals [OF body [unfolded None option.case]] refused by blast
    next
      case (Some auth)
      note body = body [unfolded Some option.case]
      show thesis
      proof (cases "list_all (answerable i) ?rows \<and> list_all (\<lambda>r. a_user (fst r) = ci_user i) ?rows \<and>
          route_belongs_to_session (ci_base i) (a_session a) d \<and> n = length ?rows")
        case True
        then show thesis
          using authorized [OF rows \<open>selected_callback_option a (ci_data i) = Some opt\<close> _ _ Some n] body
          by (simp only: simp_thms if_False if_True)
      next
        case False
        then show thesis
          using four_refusals [OF body] refused by blast
      qed
    qed
  qed
qed

lemma claim_callback_authorized:
  assumes "claim_callback i now d = (Inr (Claim_authorized c), d')"
  obtains a s opt rest where "lock_approvals (ci_chat i) (ci_message i) d = (a, s) # rest"
    "selected_callback_option a (ci_data i) = Some opt"
    "\<And>r. r \<in> set ((a, s) # rest) \<Longrightarrow> is_pending_approval r \<and> a_user (fst r) = ci_user i"
    "resolve_current_approval_auth d a s = Some (cl_auth c)" "cl_option c = fst opt"
    "cl_requests c = map (a_request \<circ> fst) ((a, s) # rest)"
    "d' = settle_sessions (\<lambda>_. True) (a_session a) (a_eve a) (snd (consume_rows now opt ((a, s) # rest) d))"
proof (cases i now d rule: claim_callback_body_cases)
  case (refused x)
  with assms show thesis by (auto simp: claim_callback_def run_tx_def)
next
  case (authorized a s rest opt auth n d1)
  have "is_pending_approval r \<and> a_user (fst r) = ci_user i" if "r \<in> set ((a, s) # rest)" for r
    using authorized(3,4) that unfolding list_all_iff answerable_def by blast
  moreover have "cl_auth c = auth" "cl_option c = fst opt" "cl_requests c = map (a_request \<circ> fst) ((a, s) # rest)"
    "d' = settle_sessions (\<lambda>_. True) (a_session a) (a_eve a) d1"
    using assms authorized(7) by (auto simp: claim_callback_def run_tx_def)
  ultimately show thesis using that authorized(1,2,5,6) by auto
qed

lemma consume_rows_approvals:
  "approvals (snd (consume_rows now opt rows d)) =
     update_where (\<lambda>a. a_id a \<in> set (map (a_id \<circ> fst) rows) \<and> a_consumed a = None) (consume now (Some opt)) (approvals d)"
  "sessions (snd (consume_rows now opt rows d)) = sessions d"
  by (simp_all add: consume_rows_def Let_def)

lemma consume_fields [simp]:
  "a_id (consume now sel a) = a_id a" "a_chat (consume now sel a) = a_chat a"
  "a_message (consume now sel a) = a_message a" "a_session (consume now sel a) = a_session a"
  "a_eve (consume now sel a) = a_eve a" "a_user (consume now sel a) = a_user a"
  "a_consumed (consume now sel a) = Some now" "a_selected (consume now sel a) = sel"
  "a_timed_out (consume now sel a) = a_timed_out a" "a_lease (consume now sel a) = a_lease a"
  by (simp_all add: consume_def)

text \<open>A prompt none of whose rows is pending cannot be answered by a button.\<close>

lemma callback_expired:
  assumes "\<And>r. r \<in> set (lock_approvals (ci_chat i) (ci_message i) d) \<Longrightarrow> \<not> is_pending_approval r"
  shows "claim_callback i now d = (Inr Claim_expired, d)"
proof (cases "lock_approvals (ci_chat i) (ci_message i) d")
  case Nil
  then show ?thesis by (simp add: claim_callback_def run_tx_def claim_callback_body_def)
next
  case (Cons r rest)
  obtain a s where r: "r = (a, s)" by fastforce
  with assms Cons have "\<not> is_pending_approval (a, s)" by (metis list.set_intros(1))
  then have "\<not> answerable i (a, s)" unfolding answerable_def by blast
  with Cons r show ?thesis
    by (simp add: claim_callback_def run_tx_def claim_callback_body_answerable Let_def split: option.split)
qed

section \<open>Single use\<close>

text \<open>
  C8: A prompt is answered once. After an authorized button press no second press on the same message, by
  anyone and with any button, is authorized: it reports the prompt expired and changes nothing.
\<close>

theorem prompt_is_single_use:
  assumes "claim_callback i now d = (Inr (Claim_authorized c), d')"
    "ci_chat i' = ci_chat i" "decimal_value (ci_message i') = decimal_value (ci_message i)"
  shows "claim_callback i' now' d' = (Inr Claim_expired, d')"
  using assms(1)
proof (cases rule: claim_callback_authorized)
  case h: (1 a s opt rest)
  show ?thesis
  proof (rule callback_expired)
    fix r assume r: "r \<in> set (lock_approvals (ci_chat i') (ci_message i') d')"
    obtain x sx where x: "r = (x, sx)" by fastforce
    have "x \<in> set (approvals d')" "a_chat x = ci_chat i" "a_message x = decimal_value (ci_message i)"
      "first_row (\<lambda>s. s_id s = a_session x) (sessions d') \<noteq> None"
      using r assms(2,3) unfolding x lock_approvals_iff by auto
    then obtain y where y: "y \<in> set (approvals d)" "x = (if a_id y \<in> set (map (a_id \<circ> fst) ((a, s) # rest)) \<and>
        a_consumed y = None then consume now (Some opt) y else y)"
      unfolding h(7) settle_sessions_approvals consume_rows_approvals set_update_where by blast
    then have same: "a_chat y = ci_chat i" "a_message y = decimal_value (ci_message i)" "a_session y = a_session x"
      using \<open>a_chat x = ci_chat i\<close> \<open>a_message x = decimal_value (ci_message i)\<close> by (auto split: if_splits)
    have "first_row (\<lambda>s. s_id s = a_session y) (sessions d) \<noteq> None"
      using \<open>first_row (\<lambda>s. s_id s = a_session x) (sessions d') \<noteq> None\<close>
      unfolding h(7) same(3) first_row_settle_None consume_rows_approvals(2) .
    then obtain sy where sy: "(y, sy) \<in> set (lock_approvals (ci_chat i) (ci_message i) d)"
      using y(1) same unfolding lock_approvals_iff by blast
    then have "(y, sy) \<in> set ((a, s) # rest)" unfolding h(1) .
    then have "a_id y \<in> set (map (a_id \<circ> fst) ((a, s) # rest))" by force
    with y(2) have "a_consumed x \<noteq> None" by (cases "a_consumed y = None") simp_all
    then show "\<not> is_pending_approval r" unfolding x by simp
  qed
qed

text \<open>
  A refused press has no effect. Unless the press is authorized, the database stays as it was.
\<close>

theorem refused_press_changes_nothing:
  assumes "claim_callback i now d = (outcome, d')" "\<And>c. outcome \<noteq> Inr (Claim_authorized c)"
  shows "d' = d \<and> (outcome = Inr Claim_expired \<or> outcome = Inr Claim_forbidden)"
proof (cases i now d rule: claim_callback_body_cases)
  case (refused x)
  with assms(1) show ?thesis by (auto simp: claim_callback_def run_tx_def)
next
  case (authorized a s rest opt auth n d1)
  with assms show ?thesis by (auto simp: claim_callback_def run_tx_def)
qed

end
