(* ===== verification/Approval_History.thy ===== *)
theory Approval_History
  imports Approval_Properties
begin

text \<open>
  The approval operations as one step function, and what a history of them can establish: evidence
  for a tool call, the race of a press against the minute sweep, and the state of the session.
\<close>

section \<open>Operations\<close>

datatype approval_op =
    Op_register string register_input time
  | Op_press callback_input time
  | Op_reply reply_input time
  | Op_claim_expired "string list" "(string \<times> string) list" time int
  | Op_complete_timeout timeout_claim time
  | Op_fail_timeout timeout_claim
  | Op_clear string string

text \<open>Locked rows and the tokens of a sweep are finite tables.\<close>

definition token_of :: "(string \<times> string) list \<Rightarrow> string \<Rightarrow> string" where
  "token_of tokens aid = (case map_of tokens aid of None \<Rightarrow> [] | Some t \<Rightarrow> t)"

fun apply_approval_op :: "approval_op \<Rightarrow> database \<Rightarrow> database" where
  "apply_approval_op (Op_register uuid i now) d = snd (register uuid i now d)"
| "apply_approval_op (Op_press i now) d = snd (claim_callback i now d)"
| "apply_approval_op (Op_reply i now) d = snd (authorize_reply i now d)"
| "apply_approval_op (Op_claim_expired locked tokens now timeout) d =
     snd (claim_expired (\<lambda>a. a \<in> set locked) (token_of tokens) now timeout d)"
| "apply_approval_op (Op_complete_timeout claim now) d = snd (complete_timeout claim now d)"
| "apply_approval_op (Op_fail_timeout claim) d = fail_timeout claim d"
| "apply_approval_op (Op_clear session eve) d = clear_for_eve_session session eve d"

definition run_approval_ops :: "approval_op list \<Rightarrow> database \<Rightarrow> database" where
  "run_approval_ops ops d = foldl (\<lambda>d op. apply_approval_op op d) d ops"

definition has_evidence :: "evidence_input \<Rightarrow> database \<Rightarrow> bool" where
  "has_evidence i d \<longleftrightarrow> require_tool_execution_approval_evidence i d = Inr ()"

text \<open>The one kind of step that may create evidence: the asked person's own answer.\<close>

fun gives_evidence :: "evidence_input \<Rightarrow> approval_op \<Rightarrow> database \<Rightarrow> bool" where
  "gives_evidence e (Op_press i now) d =
     (ci_user i = ev_user e \<and>
      (case fst (claim_callback i now d) of
         Inr (Claim_authorized c) \<Rightarrow> cl_option c = ''approve'' | _ \<Rightarrow> False))"
| "gives_evidence e (Op_reply i now) d =
     (ar_user i = ev_user e \<and> fst (authorize_reply i now d) = Inr Reply_authorized)"
| "gives_evidence e _ d = False"

section \<open>Rows and sessions under each operation\<close>

definition live_sessions :: "database \<Rightarrow> (string \<times> string option \<times> time option) list" where
  "live_sessions d = map (\<lambda>s. (s_id s, s_eve s, s_retired s)) (sessions d)"

definition evidence_rows :: "evidence_input \<Rightarrow> database \<Rightarrow> approval list" where
  "evidence_rows e d = filter (is_evidence e) (approvals d)"

lemma has_evidence_iff:
  "has_evidence e d \<longleftrightarrow>
     (\<exists>a\<in>set (approvals d). is_evidence e a \<and> (a_session a, Some (a_eve a), None) \<in> set (live_sessions d))"
proof -
  have eq: "(a_session a, Some (a_eve a), None) \<in> set (live_sessions d) \<longleftrightarrow>
      exists_row (\<lambda>s. s_id s = a_session a \<and> s_eve s = Some (a_eve a) \<and> s_retired s = None) (sessions d)" for a
    unfolding live_sessions_def exists_row_iff set_map image_iff prod.inject by metis
  then show ?thesis
    unfolding has_evidence_def require_tool_execution_approval_evidence_def eq by (simp del: exists_row_iff) simp
qed

lemma has_evidence_fields:
  "is_evidence e a \<Longrightarrow> a_session a = ev_session e \<and> a_eve a = ev_eve e"
  by (simp add: is_evidence_def)

lemma has_evidence_iff':
  "has_evidence e d \<longleftrightarrow>
     (\<exists>a\<in>set (approvals d). is_evidence e a) \<and> (ev_session e, Some (ev_eve e), None) \<in> set (live_sessions d)"
proof -
  have "is_evidence e a \<Longrightarrow> (a_session a, Some (a_eve a), None) = (ev_session e, Some (ev_eve e), None)" for a
    by (simp add: has_evidence_fields)
  then show ?thesis unfolding has_evidence_iff by metis
qed

lemma live_settle [simp]: "live_sessions (settle_sessions g session eve d) = live_sessions d"
  by (simp add: live_sessions_def settle_sessions_def update_where_def)

lemma live_more [simp]:
  "live_sessions (d\<lparr>approvals := x\<rparr>) = live_sessions d" "live_sessions (d\<lparr>routes := y\<rparr>) = live_sessions d"
  by (simp_all add: live_sessions_def)

lemma is_evidence_lease [simp]:
  "is_evidence e (a_acquire t till a) \<longleftrightarrow> is_evidence e a"
  "is_evidence e (a_give_back a) \<longleftrightarrow> is_evidence e a"
  "\<not> is_evidence e (a_time_out now a)"
  by (simp_all add: is_evidence_def a_acquire_def a_give_back_def a_time_out_def)

lemma evidence_update:
  assumes "\<exists>a\<in>set (update_where P f rows). is_evidence e a" "\<And>a. is_evidence e (f a) \<Longrightarrow> is_evidence e a"
  shows "\<exists>a\<in>set rows. is_evidence e a"
  using assms by (auto simp: set_update_where split: if_splits)

lemma evidence_updated_row:
  assumes "a \<in> set (update_where P f rows)" "is_evidence e a" "\<And>a. is_evidence e (f a) \<Longrightarrow> is_evidence e a"
  shows "\<exists>a\<in>set rows. is_evidence e a"
  using evidence_update assms by metis

lemma release_timeout_lease_evidence:
  "(\<exists>a\<in>set (approvals (release_timeout_lease aid token d)). is_evidence e a) \<Longrightarrow>
     \<exists>a\<in>set (approvals d). is_evidence e a"
  "live_sessions (release_timeout_lease aid token d) = live_sessions d"
  by (simp_all add: release_timeout_lease_def) (metis evidence_update is_evidence_lease(2))

lemma collect_claims_evidence:
  assumes "collect_claims rows claims d = Commit claims' d'"
  shows "live_sessions d' = live_sessions d \<and>
    ((\<exists>a\<in>set (approvals d'). is_evidence e a) \<longrightarrow> (\<exists>a\<in>set (approvals d). is_evidence e a))"
  using assms
proof (induction rows claims d rule: collect_claims.induct)
  case (2 a s rows claims d)
  show ?case
  proof (cases "resolve_current_approval_auth d a s")
    case None
    with 2 show ?thesis using release_timeout_lease_evidence by force
  next
    case (Some auth)
    with 2 show ?thesis by (cases "to_claim a auth") auto
  qed
qed simp

lemma claim_expired_evidence:
  "live_sessions (snd (claim_expired locked tokens now timeout d)) = live_sessions d \<and>
   ((\<exists>a\<in>set (approvals (snd (claim_expired locked tokens now timeout d))). is_evidence e a) \<longrightarrow>
    (\<exists>a\<in>set (approvals d). is_evidence e a))"
proof (cases "claim_expired_body locked tokens now timeout d")
  case (Commit claims d')
  then show ?thesis
    unfolding claim_expired_def run_tx_def claim_expired_body_def Let_def
    by (auto dest!: collect_claims_evidence [where e = e]) (erule (1) evidence_updated_row, simp)
qed (simp_all add: claim_expired_def run_tx_def)

lemma complete_timeout_evidence:
  "live_sessions (snd (complete_timeout claim now d)) = live_sessions d \<and>
   ((\<exists>a\<in>set (approvals (snd (complete_timeout claim now d))). is_evidence e a) \<longrightarrow>
    (\<exists>a\<in>set (approvals d). is_evidence e a))"
  by (auto simp: complete_timeout_def run_tx_def complete_timeout_body_def Let_def dest: evidence_updated_row)

lemma register_evidence:
  "live_sessions (snd (register uuid i now d)) = live_sessions d \<and>
   ((\<exists>a\<in>set (approvals (snd (register uuid i now d))). is_evidence e a) \<longrightarrow>
    (\<exists>a\<in>set (approvals d). is_evidence e a))"
proof -
  have unused: "\<not> is_evidence e (new_approval uuid i now)"
    "\<not> is_evidence e (reopened old (new_approval uuid i now))" for old
    by (simp_all add: is_evidence_def new_approval_def reopened_def)
  show ?thesis
    unfolding register_def Let_def using unused
    by (auto split: option.split simp del: exists_row_iff dest: evidence_updated_row)
qed

lemma claim_callback_evidence:
  assumes "\<exists>a\<in>set (approvals (snd (claim_callback i now d))). is_evidence e a"
    "\<not> (\<exists>a\<in>set (approvals d). is_evidence e a)" "approval_rows.pk (approvals d)"
  shows "gives_evidence e (Op_press i now) d"
proof (cases i now d rule: claim_callback_body_cases)
  case (refused x)
  then show ?thesis using assms by (simp add: claim_callback_def run_tx_def)
next
  case (authorized a s rest opt auth n d1)
  let ?rows = "(a, s) # rest"
  have d1: "approvals d1 = update_where (\<lambda>x. a_id x \<in> set (map (a_id \<circ> fst) ?rows) \<and> a_consumed x = None)
      (consume now (Some opt)) (approvals d)"
    using consume_rows_approvals(1) [of now opt ?rows d] authorized(6) by simp
  obtain x where x: "x \<in> set (approvals d1)" "is_evidence e x"
    using assms(1) authorized(7) by (auto simp: claim_callback_def run_tx_def)
  then obtain y where y: "y \<in> set (approvals d)" "x = consume now (Some opt) y"
      "a_id y \<in> set (map (a_id \<circ> fst) ?rows)"
    using assms(2) unfolding d1 set_update_where by auto
  obtain y' sy where r: "(y', sy) \<in> set ?rows" "a_id y' = a_id y"
    using y(3) unfolding set_map image_iff by force
  then have "y' \<in> set (approvals d)"
    using authorized(1) lock_approvals_iff by metis
  then have "y' = y" using approval_rows.pk_unique [OF assms(3)] y(1) r(2) by metis
  moreover have "a_user y' = ci_user i" using authorized(4) r(1) unfolding list_all_iff by auto
  ultimately have "ci_user i = ev_user e \<and> fst opt = ''approve''"
    using x(2) unfolding y(2) by (simp add: is_evidence_def)
  then show ?thesis using authorized(7) by (simp add: claim_callback_def run_tx_def)
qed

lemma authorize_reply_evidence:
  assumes "\<exists>a\<in>set (approvals (snd (authorize_reply i now d))). is_evidence e a"
    "\<not> (\<exists>a\<in>set (approvals d). is_evidence e a)" "approval_rows.pk (approvals d)"
  shows "gives_evidence e (Op_reply i now) d"
proof (cases "lock_approvals (ar_chat i) (ar_message i) d")
  case Nil
  then show ?thesis using assms by (simp add: authorize_reply_def run_tx_def authorize_reply_body_def)
next
  case (Cons r rest)
  obtain a s where r: "r = (a, s)" by fastforce
  have a: "a \<in> set (approvals d)" using Cons r lock_approvals_iff by (metis list.set_intros(1))
  let ?hit = "\<lambda>x. a_id x = a_id a \<and> a_consumed x = None"
  have "fst (authorize_reply i now d) = Inr Reply_authorized \<and> a_user a = ar_user i \<and>
      approvals (snd (authorize_reply i now d)) = update_where ?hit (\<lambda>x. x\<lparr>a_consumed := Some now\<rparr>) (approvals d)"
    using assms(1,2) Cons r
    by (auto simp: authorize_reply_def run_tx_def authorize_reply_body_def Let_def simp del: is_pending_approval.simps
        split: if_splits)
  note result = this
  then obtain y where "y \<in> set (approvals d)" "a_id y = a_id a" "is_evidence e (y\<lparr>a_consumed := Some now\<rparr>)"
    using assms(1,2) by (auto simp: set_update_where split: if_splits)
  moreover from this have "y = a" using approval_rows.pk_unique [OF assms(3) _ a] by blast
  ultimately have "a_user a = ev_user e" by (simp add: is_evidence_def)
  with result show ?thesis by simp
qed


section \<open>Keys\<close>

lemma pk_updates:
  "approval_rows.pk rows \<Longrightarrow> approval_rows.pk (update_where P (a_acquire t till) rows)"
  "approval_rows.pk rows \<Longrightarrow> approval_rows.pk (update_where P (\<lambda>a. a_acquire (tok a) till a) rows)"
  "approval_rows.pk rows \<Longrightarrow> approval_rows.pk (update_where P a_give_back rows)"
  "approval_rows.pk rows \<Longrightarrow> approval_rows.pk (update_where P (a_time_out now) rows)"
  "approval_rows.pk rows \<Longrightarrow> approval_rows.pk (update_where P (consume now sel) rows)"
  "approval_rows.pk rows \<Longrightarrow> approval_rows.pk (update_where P (\<lambda>a. a\<lparr>a_consumed := c\<rparr>) rows)"
  "approval_rows.pk rows \<Longrightarrow> approval_rows.pk (update_where P (\<lambda>a. reopened a row) rows)"
  by (auto intro!: approval_rows.pk_update simp: a_acquire_def a_give_back_def a_time_out_def reopened_def)

lemma collect_claims_pk:
  "collect_claims rows claims d = Commit claims' d' \<Longrightarrow> approval_rows.pk (approvals d) \<Longrightarrow> approval_rows.pk (approvals d')"
proof (induction rows claims d rule: collect_claims.induct)
  case (2 a s rows claims d)
  show ?case
  proof (cases "resolve_current_approval_auth d a s")
    case None
    with 2 show ?thesis by (simp add: release_timeout_lease_def pk_updates)
  next
    case (Some auth)
    with 2 show ?thesis by (cases "to_claim a auth") auto
  qed
qed simp

lemma claim_expired_pk:
  assumes "approval_rows.pk (approvals d)"
  shows "approval_rows.pk (approvals (snd (claim_expired locked tokens now timeout d)))"
proof (cases "claim_expired_body locked tokens now timeout d")
  case (Commit claims d')
  then have "approval_rows.pk (approvals d')"
    unfolding claim_expired_body_def Let_def
    by (rule collect_claims_pk) (simp add: pk_updates assms)
  with Commit show ?thesis by (simp add: claim_expired_def run_tx_def)
qed (simp_all add: claim_expired_def run_tx_def assms)

lemma register_pk:
  assumes "approval_rows.pk (approvals d)"
  shows "approval_rows.pk (approvals (snd (register uuid i now d)))"
proof -
  have "approval_rows.pk (approvals d @ [new_approval uuid i now])"
    if "\<not> exists_row (\<lambda>a. a_id a = uuid \<or> same_slot (new_approval uuid i now) a) (approvals d)"
    using that by (intro approval_rows.pk_insert assms) (auto simp: new_approval_def)
  then show ?thesis
    using assms by (auto simp: register_def Let_def pk_updates simp del: exists_row_iff split: option.split)
qed

lemma claim_callback_pk:
  assumes "approval_rows.pk (approvals d)"
  shows "approval_rows.pk (approvals (snd (claim_callback i now d)))"
proof (cases i now d rule: claim_callback_body_cases)
  case (refused x)
  then show ?thesis using assms by (simp add: claim_callback_def run_tx_def)
next
  case (authorized a s rest opt auth n d1)
  then have "approvals d1 = approvals (snd (consume_rows now opt ((a, s) # rest) d))" by simp
  with authorized(7) assms show ?thesis
    by (simp add: claim_callback_def run_tx_def consume_rows_approvals pk_updates)
qed

lemma authorize_reply_pk:
  assumes "approval_rows.pk (approvals d)"
  shows "approval_rows.pk (approvals (snd (authorize_reply i now d)))"
  using assms
  by (auto simp: authorize_reply_def run_tx_def authorize_reply_body_def Let_def pk_updates
      simp del: is_pending_approval.simps split: list.split)

lemma complete_timeout_pk:
  "approval_rows.pk (approvals d) \<Longrightarrow> approval_rows.pk (approvals (snd (complete_timeout claim now d)))"
  by (simp add: complete_timeout_def run_tx_def complete_timeout_body_def Let_def pk_updates)

lemma apply_approval_op_pk:
  assumes "approval_rows.pk (approvals d)"
  shows "approval_rows.pk (approvals (apply_approval_op op d))"
proof (cases op)
  case (Op_clear session eve)
  with assms show ?thesis by (simp add: clear_for_eve_session_def approval_rows.pk_delete)
next
  case (Op_fail_timeout claim)
  with assms show ?thesis by (simp add: fail_timeout_def release_timeout_lease_def pk_updates)
qed (simp_all add: register_pk claim_callback_pk authorize_reply_pk claim_expired_pk complete_timeout_pk assms)

section \<open>What evidence proves\<close>

lemma claim_callback_live: "live_sessions (snd (claim_callback i now d)) = live_sessions d"
proof (cases i now d rule: claim_callback_body_cases)
  case (refused x)
  then show ?thesis by (simp add: claim_callback_def run_tx_def)
next
  case (authorized a s rest opt auth n d1)
  then have "sessions d1 = sessions d"
    using consume_rows_approvals(2) [of now opt "(a, s) # rest" d] by simp
  with authorized(7) show ?thesis
    by (simp add: claim_callback_def run_tx_def live_sessions_def)
      (metis live_sessions_def live_settle)
qed

lemma authorize_reply_live: "live_sessions (snd (authorize_reply i now d)) = live_sessions d"
  by (auto simp: authorize_reply_def run_tx_def authorize_reply_body_def Let_def
      simp del: is_pending_approval.simps split: list.split)

lemma op_gives_evidence:
  assumes "has_evidence e (apply_approval_op op d)" "\<not> has_evidence e d" "approval_rows.pk (approvals d)"
  shows "gives_evidence e op d"
proof (cases op)
  case (Op_press i now)
  with assms claim_callback_evidence show ?thesis
    unfolding has_evidence_iff' by (metis apply_approval_op.simps(2) claim_callback_live)
next
  case (Op_reply i now)
  with assms authorize_reply_evidence show ?thesis
    unfolding has_evidence_iff' by (metis apply_approval_op.simps(3) authorize_reply_live)
next
  case (Op_register uuid i now)
  then show ?thesis using assms(1,2) register_evidence [of uuid i now d e] unfolding has_evidence_iff' by simp
next
  case (Op_claim_expired locked tokens now timeout)
  then show ?thesis
    using assms(1,2) claim_expired_evidence [of "\<lambda>a. a \<in> set locked" "token_of tokens" now timeout d e]
    unfolding has_evidence_iff' by simp
next
  case (Op_complete_timeout claim now)
  then show ?thesis using assms(1,2) complete_timeout_evidence [of claim now d e] unfolding has_evidence_iff' by simp
next
  case (Op_fail_timeout claim)
  then show ?thesis
    using assms(1,2) release_timeout_lease_evidence(1) [of "tc_id claim" "tc_token claim" d e]
    unfolding has_evidence_iff' by (auto simp: fail_timeout_def release_timeout_lease_evidence(2))
next
  case (Op_clear session eve)
  then show ?thesis
    using assms(1,2) unfolding has_evidence_iff'
    by (auto simp: clear_for_eve_session_def delete_where_def)
qed

text \<open>
  C4: A tool call runs only on the approver's own answer. Take any history of registrations, presses,
  replies, sweeps and clean-ups, from a database without evidence for an action. If the check of the tool
  call passes afterwards, then at some step of the history the very person the evidence is required of
  either pressed the button \<open>approve\<close> of a prompt that authorized him then, or answered a question by text.
\<close>

theorem evidence_is_an_answer:
  assumes "approval_rows.pk (approvals d)" "\<not> has_evidence e d" "has_evidence e (run_approval_ops ops d)"
  shows "\<exists>pre op post. ops = pre @ op # post \<and> gives_evidence e op (run_approval_ops pre d)"
  using assms
proof (induction ops rule: rev_induct)
  case Nil
  then show ?case by (simp add: run_approval_ops_def)
next
  case (snoc op ops)
  have run: "run_approval_ops (ops @ [op]) d = apply_approval_op op (run_approval_ops ops d)"
    by (simp add: run_approval_ops_def)
  have pk: "approval_rows.pk (approvals (run_approval_ops ops d))"
    using snoc.prems(1) unfolding run_approval_ops_def
    by (induction ops rule: rev_induct) (simp_all add: apply_approval_op_pk)
  show ?case
  proof (cases "has_evidence e (run_approval_ops ops d)")
    case True
    with snoc.IH snoc.prems(1,2) show ?thesis by fastforce
  next
    case False
    with op_gives_evidence pk snoc.prems(3) show ?thesis unfolding run by blast
  qed
qed


section \<open>The press and the sweep\<close>

lemma settled_prompt_refuses:
  assumes "a \<in> set (approvals d)" "a_chat a = ci_chat i" "a_message a = decimal_value (ci_message i)"
    "a_consumed a \<noteq> None" "first_row (\<lambda>s. s_id s = a_session a) (sessions d) = Some s"
  shows "claim_callback i now d = (Inr Claim_expired, d)"
proof -
  have in_rows: "(a, s) \<in> set (lock_approvals (ci_chat i) (ci_message i) d)"
    using assms unfolding lock_approvals_iff by simp
  have "\<not> answerable i (a, s)" using assms(4) unfolding answerable_def is_pending_approval.simps by blast
  with in_rows have "\<not> list_all (answerable i) (lock_approvals (ci_chat i) (ci_message i) d)"
    unfolding list_all_iff by blast
  then show ?thesis
    using in_rows
    by (cases "lock_approvals (ci_chat i) (ci_message i) d")
      (auto simp: claim_callback_def run_tx_def claim_callback_body_answerable Let_def
        simp del: is_pending_approval.simps split: option.split)
qed

lemma press_rows:
  assumes "claim_callback i now d = (Inr (Claim_authorized c), d')" "x \<in> set (approvals d')"
  obtains y opt where "y \<in> set (approvals d)" "x = y \<or> x = consume now (Some opt) y"
  using assms(1)
proof (cases rule: claim_callback_authorized)
  case h: (1 a s opt rest)
  from assms(2) that [of _ opt] show thesis
    unfolding h(7) settle_sessions_approvals consume_rows_approvals set_update_where by (auto split: if_splits)
qed

lemma press_consumes:
  assumes "claim_callback i now d = (Inr (Claim_authorized c), d')" "x \<in> set (approvals d')"
    "a_chat x = ci_chat i" "a_message x = decimal_value (ci_message i)"
    "first_row (\<lambda>s. s_id s = a_session x) (sessions d) \<noteq> None"
  shows "a_consumed x \<noteq> None"
  using assms(1)
proof (cases rule: claim_callback_authorized)
  case h: (1 a s opt rest)
  obtain y where y: "y \<in> set (approvals d)" "x = (if a_id y \<in> set (map (a_id \<circ> fst) ((a, s) # rest)) \<and>
      a_consumed y = None then consume now (Some opt) y else y)"
    using assms(2) unfolding h(7) settle_sessions_approvals consume_rows_approvals set_update_where by blast
  then have "a_chat y = ci_chat i" "a_message y = decimal_value (ci_message i)" "a_session y = a_session x"
    using assms(3,4) by (auto split: if_splits)
  then obtain sy where "(y, sy) \<in> set ((a, s) # rest)"
    using y(1) assms(5) h(1) unfolding lock_approvals_iff [symmetric] by (metis lock_approvals_iff not_None_eq)
  then have "a_id y \<in> set (map (a_id \<circ> fst) ((a, s) # rest))" by force
  with y(2) show ?thesis by (cases "a_consumed y = None") simp_all
qed

lemma complete_timeout_settled:
  assumes "\<And>a. a \<in> set (approvals d) \<Longrightarrow> a_id a = tc_id claim \<Longrightarrow> a_consumed a \<noteq> None"
  shows "complete_timeout claim now d = (Inr False, d)"
proof -
  have "row_count (\<lambda>a. lease_of (tc_id claim) (tc_token claim) a \<and> a_consumed a = None) (approvals d) = 0"
    using assms by (auto simp: row_count_0_iff lease_of_def)
  then show ?thesis by (simp add: complete_timeout_def run_tx_def complete_timeout_body_def Let_def)
qed

text \<open>
  C22: A prompt is settled by exactly one of the press and the sweep. Take a prompt whose session exists.
  If a press of its message was authorized, the sweep that claimed the prompt before cannot time it out
  any more and changes nothing; and once the sweep timed it out, every press of the message is expired.
\<close>

theorem press_and_timeout_exclude_each_other:
  assumes "approval_rows.pk (approvals d)" "a \<in> set (approvals d)" "a_id a = tc_id claim" "a_chat a = ci_chat i"
    "a_message a = decimal_value (ci_message i)" "first_row (\<lambda>s. s_id s = a_session a) (sessions d) = Some s"
  shows "(claim_callback i now d = (Inr (Claim_authorized c), d1) \<longrightarrow> complete_timeout claim now' d1 = (Inr False, d1)) \<and>
    (complete_timeout claim now d = (Inr True, d2) \<longrightarrow> claim_callback i now' d2 = (Inr Claim_expired, d2))"
proof (intro conjI impI)
  assume press: "claim_callback i now d = (Inr (Claim_authorized c), d1)"
  show "complete_timeout claim now' d1 = (Inr False, d1)"
  proof (rule complete_timeout_settled)
    fix x assume x: "x \<in> set (approvals d1)" "a_id x = tc_id claim"
    obtain y opt where y: "y \<in> set (approvals d)" "x = y \<or> x = consume now (Some opt) y"
      using press_rows [OF press x(1)] .
    then have "a_id y = a_id a" using x(2) assms(3) by auto
    then have "y = a" using approval_rows.pk_unique [OF assms(1) y(1) assms(2)] by blast
    with y(2) assms(4-6) have "a_chat x = ci_chat i" "a_message x = decimal_value (ci_message i)" "a_session x = a_session a"
      by auto
    with press_consumes [OF press x(1)] assms(6) show "a_consumed x \<noteq> None" by simp
  qed
next
  assume sweep: "complete_timeout claim now d = (Inr True, d2)"
  let ?hit = "\<lambda>a. lease_of (tc_id claim) (tc_token claim) a \<and> a_consumed a = None"
  have d2: "approvals d2 = update_where ?hit (a_time_out now) (approvals d)"
      "first_row (\<lambda>s. s_id s = a_session a) (sessions d2) \<noteq> None" "row_count ?hit (approvals d) = 1"
    using sweep assms(6)
    by (auto simp: complete_timeout_def run_tx_def complete_timeout_body_def Let_def settle_sessions_def
        first_row_settled split: if_splits)
  then obtain s2 where s2: "first_row (\<lambda>s. s_id s = a_session a) (sessions d2) = Some s2" by blast
  obtain y where y: "y \<in> set (approvals d)" "?hit y"
    using d2(3) row_count_0_iff [of ?hit "approvals d"] by auto
  then have "y = a" using approval_rows.pk_unique [OF assms(1) y(1) assms(2)] assms(3) by (simp add: lease_of_def)
  with y have "a_time_out now a \<in> set (approvals d2)" unfolding d2(1) set_update_where by force
  then show "claim_callback i now' d2 = (Inr Claim_expired, d2)"
    by (rule settled_prompt_refuses) (simp_all add: a_time_out_def assms(4,5) s2)
qed

section \<open>What a sweep takes\<close>

lemma collect_claims_of:
  "collect_claims rows claims d = Commit claims' d' \<Longrightarrow>
     \<exists>new. claims' = claims @ new \<and> length new \<le> length rows \<and> set (map tc_id new) \<subseteq> set (map (a_id \<circ> fst) rows)"
proof (induction rows claims d rule: collect_claims.induct)
  case (2 a s rows claims d)
  show ?case
  proof (cases "resolve_current_approval_auth d a s")
    case None
    then have "collect_claims rows claims (release_timeout_lease (a_id a) (the (a_lease a)) d) = Commit claims' d'"
      using "2.prems" by simp
    from "2.IH"(1) [OF None this] obtain new where "claims' = claims @ new" "length new \<le> length rows"
        "set (map tc_id new) \<subseteq> set (map (a_id \<circ> fst) rows)" by blast
    then show ?thesis by (intro exI [of _ new]) auto
  next
    case (Some auth)
    show ?thesis
    proof (cases "to_claim a auth")
      case (Inl e)
      with 2 Some show ?thesis by simp
    next
      case (Inr c)
      then have "tc_id c = a_id a" by (auto simp: to_claim_def split: option.splits if_splits)
      moreover obtain new where "claims' = (claims @ [c]) @ new" "length new \<le> length rows"
          "set (map tc_id new) \<subseteq> set (map (a_id \<circ> fst) rows)"
        using "2.IH"(2) [OF Some Inr] "2.prems" Some Inr by auto
      ultimately show ?thesis by (intro exI [of _ "c # new"]) auto
    qed
  qed
qed simp

lemma leased_rows_of_bound:
  "length (leased_rows_of rows d) \<le> length rows" "set (map (a_id \<circ> fst) (leased_rows_of rows d)) \<subseteq> a_id ` set rows"
proof -
  show "length (leased_rows_of rows d) \<le> length rows"
    by (induction rows) (auto simp: leased_rows_of_def split: option.split)
  show "set (map (a_id \<circ> fst) (leased_rows_of rows d)) \<subseteq> a_id ` set rows"
    by (auto simp: leased_rows_of_def split: option.splits)
qed

text \<open>
  The minute sweep takes at most five prompts, and each of them is unanswered, older than the given
  time, not leased by another sweep, not locked, and still the one its live session is parked on.
\<close>

theorem sweep_takes_only_expired_prompts:
  assumes "claim_expired locked tokens now timeout d = (Inr claims, d')"
  shows "length claims \<le> 5 \<and>
    (\<forall>c\<in>set claims. \<exists>a\<in>set (approvals d). a_id a = tc_id c \<and> expired_prompt locked now timeout d a)"
proof -
  define candidates where "candidates = select_ordered (expired_prompt locked now timeout d)
      (\<lambda>a. (a_attempts a, a_created a, a_id a)) sweep_batch_size (approvals d)"
  define acquire where "acquire = (\<lambda>a. a_acquire (tokens (a_id a)) (now + millis timeout_lease_ms) a)"
  have ids: "a_id (acquire a) = a_id a" for a by (simp add: acquire_def a_acquire_def)
  have no_rollback: "collect_claims rows acc e \<noteq> Rollback x" for rows acc e x
    by (induction rows acc e rule: collect_claims.induct) (auto split: option.split sum.split)
  define d1 where "d1 = d\<lparr>approvals := update_where (\<lambda>a. a_id a \<in> set (map a_id candidates)) acquire (approvals d)\<rparr>"
  have body: "claim_expired_body locked tokens now timeout d =
      collect_claims (leased_rows_of (map acquire candidates) d1) [] d1"
    unfolding claim_expired_body_def Let_def candidates_def acquire_def d1_def ..
  have "collect_claims (leased_rows_of (map acquire candidates) d1) [] d1 = Commit claims d'"
    using assms no_rollback [of "leased_rows_of (map acquire candidates) d1" "[]" d1 claims]
    unfolding claim_expired_def run_tx_def body
    by (cases "collect_claims (leased_rows_of (map acquire candidates) d1) [] d1") simp_all
  from collect_claims_of [OF this] have "length claims \<le> length (leased_rows_of (map acquire candidates) d1)"
      "set (map tc_id claims) \<subseteq> set (map (a_id \<circ> fst) (leased_rows_of (map acquire candidates) d1))"
    by simp_all
  moreover have "a_id ` set (map acquire candidates) = a_id ` set candidates" by (simp add: image_image ids)
  ultimately have taken: "length claims \<le> length candidates" "set (map tc_id claims) \<subseteq> a_id ` set candidates"
    using leased_rows_of_bound [of "map acquire candidates" d1] by (simp, metis subset_trans)
  have "length candidates \<le> 5"
    using length_select_ordered [where n = sweep_batch_size] unfolding candidates_def sweep_batch_size_def .
  then have "length claims \<le> 5" using taken(1) by linarith
  moreover have "\<exists>a\<in>set (approvals d). a_id a = tc_id c \<and> expired_prompt locked now timeout d a" if "c \<in> set claims" for c
  proof -
    have "tc_id c \<in> a_id ` set candidates" using taken(2) that by auto
    then obtain a where a: "a \<in> set candidates" "a_id a = tc_id c" by auto
    have "a \<in> set (approvals d) \<and> expired_prompt locked now timeout d a"
      using a(1) unfolding candidates_def by (rule set_select_ordered)
    with a(2) show ?thesis by blast
  qed
  ultimately show ?thesis by blast
qed

text \<open>Grouping keeps the claims of a session together, in their order.\<close>

lemma add_to_groups_spec:
  "map fst (add_to_groups c gs) = (if tc_eve c \<in> set (map fst gs) then map fst gs else map fst gs @ [tc_eve c])"
  "distinct (map fst gs) \<Longrightarrow> map_of (add_to_groups c gs) k =
     (if k = tc_eve c then Some (case map_of gs k of None \<Rightarrow> [c] | Some cs \<Rightarrow> cs @ [c]) else map_of gs k)"
  by (induction c gs rule: add_to_groups.induct) (auto split: option.splits)

definition groups_so_far :: "timeout_claim list \<Rightarrow> (string \<times> timeout_claim list) list" where
  "groups_so_far claims = foldl (\<lambda>gs c. add_to_groups c gs) [] claims"

lemma groups_so_far_spec:
  "distinct (map fst (groups_so_far claims)) \<and>
   set (map fst (groups_so_far claims)) = set (map tc_eve claims) \<and>
   (\<forall>k. map_of (groups_so_far claims) k =
     (if k \<in> set (map tc_eve claims) then Some (filter (\<lambda>c. tc_eve c = k) claims) else None))"
proof (induction claims rule: rev_induct)
  case Nil
  then show ?case by (simp add: groups_so_far_def)
next
  case (snoc c claims)
  have step: "groups_so_far (claims @ [c]) = add_to_groups c (groups_so_far claims)" by (simp add: groups_so_far_def)
  have keys: "set (map fst (groups_so_far claims)) = set (map tc_eve claims)" using snoc.IH by blast
  have "distinct (map fst (groups_so_far (claims @ [c])))"
    using snoc.IH unfolding step add_to_groups_spec(1) by simp
  moreover have "set (map fst (groups_so_far (claims @ [c]))) = set (map tc_eve (claims @ [c]))"
    unfolding step add_to_groups_spec(1) using keys by auto
  moreover have "map_of (groups_so_far (claims @ [c])) k = (if k \<in> set (map tc_eve (claims @ [c]))
      then Some (filter (\<lambda>c. tc_eve c = k) (claims @ [c])) else None)" for k
    using snoc.IH unfolding step by (auto simp: add_to_groups_spec(2) filter_empty_conv image_iff)
  ultimately show ?case by blast
qed

text \<open>
  The sweep answers each Eve session once, with all of its prompts. The groups are, for some
  repetition-free list of the sessions of the claims, the claims of each session in the order they were taken.
\<close>

theorem groups_are_the_sessions:
  "\<exists>keys. distinct keys \<and> set keys = tc_eve ` set claims \<and>
     group_by_session claims = map (\<lambda>k. filter (\<lambda>c. tc_eve c = k) claims) keys"
proof -
  let ?gs = "groups_so_far claims"
  note spec = groups_so_far_spec [of claims]
  have "snd g = filter (\<lambda>c. tc_eve c = fst g) claims" if "g \<in> set ?gs" for g
  proof -
    have "map_of ?gs (fst g) = Some (snd g)" using that spec by (intro map_of_is_SomeI) auto
    then show ?thesis using spec by (metis option.distinct(1) option.inject)
  qed
  then have "group_by_session claims = map (\<lambda>k. filter (\<lambda>c. tc_eve c = k) claims) (map fst ?gs)"
    unfolding group_by_session_def groups_so_far_def [symmetric] by (simp add: comp_def)
  with spec show ?thesis by (intro exI [of _ "map fst ?gs"]) auto
qed

section \<open>A replayed request\<close>

text \<open>
  C23: Registering a request again re-opens its prompt: the row keeps its id, is unanswered, not timed
  out, not leased and counts no attempt, whatever happened to it before. Its creation time, which the
  sweep measures the confirmation window from, stays the one of the first registration.
\<close>

theorem replay_reopens_the_prompt:
  assumes "register uuid i now d = (Inr (), d')" "approval_rows.pk (approvals d)"
    "first_row (same_request (new_approval uuid i now)) (approvals d) = Some old"
  shows "\<exists>row. first_row (\<lambda>a. a_id a = a_id old) (approvals d') = Some row \<and> a_consumed row = None \<and>
    a_timed_out row = None \<and> a_lease row = None \<and> a_lease_until row = None \<and> a_attempts row = 0 \<and>
    a_selected row = None \<and> a_hash row = Some (ri_hash i) \<and> a_created row = a_created old \<and>
    length (approvals d') = length (approvals d)"
proof -
  let ?row = "reopened old (new_approval uuid i now)"
  let ?reopen = "\<lambda>a. reopened a (new_approval uuid i now)"
  have d': "approvals d' = update_where (\<lambda>a. a_id a = a_id old) ?reopen (approvals d)"
    using assms(1,3) by (auto simp: register_def Let_def simp del: exists_row_iff split: if_splits)
  have old: "old \<in> set (approvals d)" using first_row_Some [OF assms(3)] by blast
  have id: "a_id (reopened a row) = a_id a" for a row by (simp add: reopened_def)
  have "?row \<in> set (approvals d')" using old unfolding d' set_update_where by force
  moreover have "approval_rows.pk (approvals d')" unfolding d' by (rule pk_updates(7) [OF assms(2)])
  ultimately have "first_row (\<lambda>a. a_id a = a_id old) (approvals d') = Some ?row"
    using approval_rows.pk_first_row [of "approvals d'" ?row] by (simp add: id)
  then show ?thesis by (simp add: d') (simp add: reopened_def new_approval_def)
qed

end
