(* ===== verification/Approval_Witness.thy ===== *)
theory Approval_Witness
  imports Approval_History
begin

text \<open>One family chat with one confirmation prompt, for the witnesses.\<close>

definition sample_button :: callback_option where
  "sample_button = \<lparr>o_data = ''d1'', o_label = ''Yes'', o_id = ''approve''\<rparr>"

definition sample_approval :: approval where
  "sample_approval =
     \<lparr>a_id = ''a1'', a_session = ''s1'', a_eve = ''e1'', a_request = ''r1'', a_kind = Some Tool_approval_request,
      a_chat = ''7'', a_chat_type = Private_chat, a_message = 12, a_thread = None, a_user = ''7'',
      a_callbacks = [''d1''], a_options = JArr [json_of_option sample_button], a_prompt = Some ''Pay?'',
      a_call = Some ''c1'', a_tool = Some ''pay'', a_hash = Some ''h'', a_conversation = None, a_timeline = None,
      a_attributes = None, a_created = 0, a_consumed = None, a_timed_out = None, a_lease = None,
      a_lease_until = None, a_attempts = 0, a_selected = None\<rparr>"

definition sample_session :: conversation_session where
  "sample_session =
     \<lparr>s_id = ''s1'', s_thread = ''t1'', s_family = ''f1'', s_owner = Some ''u1'', s_group = None,
      s_scope = Personal_scope, s_token = ''k1'', s_eve = Some ''e1'', s_pending = True,
      s_pending_request = Some ''r1'', s_kind = Canonical_session, s_task = None, s_retired = None\<rparr>"

definition prompt_state :: "approval \<Rightarrow> conversation_session \<Rightarrow> database" where
  "prompt_state a s = empty_database\<lparr>
     app_users := [\<lparr>usr_id = ''u1'', usr_telegram_id = ''7''\<rparr>],
     memberships := [\<lparr>m_family = ''f1'', m_user = ''u1'', m_role = Owner_role\<rparr>],
     sessions := [s], routes := [(''b1'', ''s1'')], approvals := [a]\<rparr>"

definition prompt_base :: database where
  "prompt_base = prompt_state sample_approval sample_session"

definition sample_press :: callback_input where
  "sample_press = \<lparr>ci_base = ''b1'', ci_data = ''d1'', ci_chat = ''7'', ci_message = ''12'', ci_user = ''7''\<rparr>"

definition sample_auth :: auth_context where
  "sample_auth = the (resolve_current_approval_auth prompt_base sample_approval sample_session)"

definition sample_claim_result :: authorized_claim where
  "sample_claim_result =
     \<lparr>cl_auth = sample_auth, cl_token = ''k1'', cl_prompt = ''Pay?'', cl_requests = [''r1''],
      cl_option = ''approve'', cl_label = ''Yes''\<rparr>"

definition pressed_state :: database where
  "pressed_state = prompt_state (consume 5 (Some (''approve'', ''Yes'')) sample_approval)
     (settled_session False sample_session)"

lemma sample_number [simp]: "decimal_value ''12'' = 12" "decimal_value ''13'' = 13"
  by (simp_all add: decimal_value_def digit_value_def)

lemma sample_resolves: "resolve_current_approval_auth prompt_base sample_approval sample_session = Some sample_auth"
  by (simp add: sample_auth_def resolve_current_approval_auth_def current_policy_def prompt_base_def prompt_state_def
      empty_database_def sample_approval_def sample_session_def find_identity_def first_row_def Let_def)

lemma sample_pressed:
  "claim_callback sample_press 5 prompt_base = (Inr (Claim_authorized sample_claim_result), pressed_state)"
proof -
  have rows: "lock_approvals ''7'' ''12'' prompt_base = [(sample_approval, sample_session)]"
    by (simp add: lock_approvals_def prompt_base_def prompt_state_def empty_database_def first_row_def)
      (simp add: sample_approval_def sample_session_def)
  have opt: "selected_callback_option sample_approval ''d1'' = Some (''approve'', ''Yes'')"
    by (simp add: selected_callback_option_def sample_approval_def json_of_option_def sample_button_def
        option_matches_def as_record_def member_of_def)
  have pending: "is_pending_approval (sample_approval, sample_session)" "''d1'' \<in> set (a_callbacks sample_approval)"
    "a_prompt sample_approval = Some ''Pay?''" "a_user sample_approval = ''7''" "a_session sample_approval = ''s1''"
    "a_eve sample_approval = ''e1''" "a_id sample_approval = ''a1''" "a_consumed sample_approval = None"
    "a_request sample_approval = ''r1''" "s_token sample_session = ''k1''" "s_id sample_session = ''s1''"
    by (simp_all add: sample_approval_def sample_session_def)
  have route: "route_belongs_to_session ''b1'' ''s1'' prompt_base"
    by (simp add: route_belongs_to_session_def prompt_base_def prompt_state_def)
  have consumed: "consume_rows 5 (''approve'', ''Yes'') [(sample_approval, sample_session)] prompt_base =
      (1, prompt_state (consume 5 (Some (''approve'', ''Yes'')) sample_approval) sample_session)"
    by (simp add: consume_rows_def prompt_base_def prompt_state_def empty_database_def row_count_def update_where_def
        pending)
  have settled: "settle_sessions (\<lambda>_. True) ''s1'' ''e1''
      (prompt_state (consume 5 (Some (''approve'', ''Yes'')) sample_approval) sample_session) = pressed_state"
    by (simp add: settle_sessions_def unanswered_def pressed_state_def prompt_state_def empty_database_def
        update_where_def pending)
  show ?thesis
    by (simp add: claim_callback_def run_tx_def claim_callback_body_def sample_press_def rows opt pending
        missing_text_def route sample_resolves consumed settled sample_claim_result_def del: is_pending_approval.simps)
qed

lemma stored_context_carries_no_authority_witness:
  "''role'' \<in> set authority_attributes \<and>
   map_option (\<lambda>auth. (ac_principal auth, member_of (ac_attributes auth) ''role''))
      (resolve_current_approval_auth prompt_base (sample_approval\<lparr>a_attributes := Some (JObj [(''role'', JStr ''owner'')])\<rparr>)
        sample_session) =
    map_option (\<lambda>auth. (ac_principal auth, member_of (ac_attributes auth) ''role''))
      (resolve_current_approval_auth prompt_base (sample_approval\<lparr>a_attributes := None\<rparr>) sample_session)"
proof -
  have k: "''role'' \<in> set authority_attributes" by (simp add: authority_attributes_def)
  from k stored_context_carries_no_authority [OF k] show ?thesis by blast
qed

lemma resumed_identity_is_entitled_witness: "entitled prompt_base sample_approval sample_session sample_auth"
  by (rule resumed_identity_is_entitled [OF sample_resolves])

lemma prompt_is_single_use_witness:
  "claim_callback sample_press 9 pressed_state = (Inr Claim_expired, pressed_state)"
  by (rule prompt_is_single_use [OF sample_pressed]) simp_all

definition stranger_press :: callback_input where
  "stranger_press = sample_press\<lparr>ci_message := ''13''\<rparr>"

lemma stranger_pressed: "claim_callback stranger_press 5 prompt_base = (Inr Claim_expired, prompt_base)"
proof (rule callback_expired)
  have "lock_approvals ''7'' ''13'' prompt_base = []"
    by (simp add: lock_approvals_def prompt_base_def prompt_state_def sample_approval_def)
  then show "\<not> is_pending_approval r"
    if "r \<in> set (lock_approvals (ci_chat stranger_press) (ci_message stranger_press) prompt_base)" for r
    using that by (simp add: stranger_press_def sample_press_def)
qed

lemma refused_press_changes_nothing_witness:
  "prompt_base = prompt_base \<and>
   ((Inr Claim_expired :: callback_claim result) = Inr Claim_expired \<or> (Inr Claim_expired :: callback_claim result) = Inr Claim_forbidden)"
  by (rule refused_press_changes_nothing [OF stranger_pressed]) simp

definition sample_evidence :: evidence_input where
  "sample_evidence = \<lparr>ev_session = ''s1'', ev_eve = ''e1'', ev_user = ''7'', ev_call = ''c1'', ev_hash = ''h'', ev_tool = ''pay''\<rparr>"

lemma sample_evidence_facts:
  "\<not> has_evidence sample_evidence prompt_base" "has_evidence sample_evidence pressed_state"
  "approval_rows.pk (approvals prompt_base)"
  by (simp_all add: has_evidence_def require_tool_execution_approval_evidence_def prompt_base_def pressed_state_def
      prompt_state_def is_evidence_def sample_approval_def consume_def sample_session_def settled_session_def
      sample_evidence_def approval_rows.pk_def)

lemma evidence_is_an_answer_witness:
  "\<exists>pre op post. [Op_press sample_press 5] = pre @ op # post \<and>
     gives_evidence sample_evidence op (run_approval_ops pre prompt_base)"
  by (rule evidence_is_an_answer [OF sample_evidence_facts(3,1)])
    (simp add: run_approval_ops_def sample_pressed sample_evidence_facts(2))

definition sample_timeout :: timeout_claim where
  "sample_timeout = \<lparr>tc_session = ''s1'', tc_auth = sample_auth, tc_eve = ''e1'', tc_id = ''a1'',
     tc_kind = Tool_approval_request, tc_token = ''z'', tc_prompt = ''Pay?'', tc_request = ''r1'', tc_chat = ''7'',
     tc_message = ''12'', tc_tool = Some ''pay''\<rparr>"

lemma press_and_timeout_exclude_each_other_witness:
  "complete_timeout sample_timeout 9 pressed_state = (Inr False, pressed_state)"
proof -
  have "first_row (\<lambda>s. s_id s = a_session sample_approval) (sessions prompt_base) = Some sample_session"
    by (simp add: prompt_base_def prompt_state_def sample_approval_def first_row_def) (simp add: sample_session_def)
  note race = press_and_timeout_exclude_each_other [OF sample_evidence_facts(3) _ _ _ _ this,
      of sample_timeout sample_press 5 sample_claim_result pressed_state 9]
  have "sample_approval \<in> set (approvals prompt_base)" "a_id sample_approval = tc_id sample_timeout"
    "a_chat sample_approval = ci_chat sample_press" "a_message sample_approval = decimal_value (ci_message sample_press)"
    by (simp_all add: prompt_base_def prompt_state_def sample_approval_def sample_timeout_def sample_press_def)
  from race [OF this] sample_pressed show ?thesis by blast
qed

lemma sweep_takes_only_expired_prompts_witness:
  "length [sample_timeout] \<le> 5 \<and> list_all (\<lambda>c. exists_row (\<lambda>a. a_id a = tc_id c \<and>
     expired_prompt (\<lambda>_. False) 300000000 300000 prompt_base a) (approvals prompt_base)) [sample_timeout]"
proof -
  have hit: "expired_prompt (\<lambda>_. False) 300000000 300000 prompt_base sample_approval"
    by (simp add: expired_prompt_def sample_approval_def millis_def prompt_base_def prompt_state_def parked_session_def
        sample_session_def)
  let ?a = "a_acquire ''z'' (300000000 + millis timeout_lease_ms) sample_approval"
  let ?d = "prompt_state ?a sample_session"
  have policy: "resolve_current_approval_auth ?d ?a sample_session = Some sample_auth"
  proof -
    have same: "a_chat ?a = a_chat sample_approval" "a_user ?a = a_user sample_approval"
      "a_chat_type ?a = a_chat_type sample_approval" "groups ?d = groups prompt_base"
      "memberships ?d = memberships prompt_base" "app_users ?d = app_users prompt_base"
      by (simp_all add: a_acquire_def prompt_base_def prompt_state_def)
    have "current_policy ?d ?a sample_session = current_policy prompt_base sample_approval sample_session"
      unfolding current_policy_def find_identity_def same ..
    note policy = this
    have attributes: "policy_attributes ?a sample_session p = policy_attributes sample_approval sample_session p" for p
      by (simp add: policy_attributes_def a_acquire_def)
    have restored: "restored_turn_attributes ?a sample_session = restored_turn_attributes sample_approval sample_session"
      by (simp add: restored_turn_attributes_def a_acquire_def)
    show ?thesis
      using sample_resolves unfolding resolve_current_approval_auth_def policy attributes restored same(2) .
  qed
  have claim: "to_claim ?a sample_auth = Inr sample_timeout"
    by (simp add: to_claim_def a_acquire_def sample_approval_def sample_timeout_def nat_text.simps digit_char_def char_of_def bit_0)
  have "claim_expired (\<lambda>_. False) (\<lambda>_. ''z'') 300000000 300000 prompt_base = (Inr [sample_timeout], ?d)"
  proof -
    have "select_ordered (expired_prompt (\<lambda>_. False) 300000000 300000 prompt_base)
        (\<lambda>a. (a_attempts a, a_created a, a_id a)) sweep_batch_size (approvals prompt_base) = [sample_approval]"
      using hit by (simp add: select_ordered_def sweep_batch_size_def prompt_base_def prompt_state_def)
    moreover have "prompt_base\<lparr>approvals := update_where (\<lambda>a. a_id a = ''a1'')
        (\<lambda>a. a_acquire ''z'' (300000000 + millis timeout_lease_ms) a) (approvals prompt_base)\<rparr> = ?d"
      by (simp add: prompt_base_def prompt_state_def update_where_def) (simp add: sample_approval_def)
    moreover have "leased_rows_of [?a] ?d = [(?a, sample_session)]"
      by (simp add: leased_rows_of_def prompt_state_def first_row_def)
        (simp add: sample_approval_def a_acquire_def sample_session_def)
    moreover have "a_id sample_approval = ''a1''" by (simp add: sample_approval_def)
    ultimately show ?thesis
      using policy claim by (simp add: claim_expired_def run_tx_def claim_expired_body_def Let_def)
  qed
  from sweep_takes_only_expired_prompts [OF this] show ?thesis
    by (simp only: list_all_iff exists_row_iff) simp
qed

definition sample_register :: register_input where
  "sample_register = \<lparr>ri_session = ''s1'', ri_kind = Tool_approval_request, ri_callbacks = [''d1''],
     ri_options = [sample_button], ri_eve = ''e1'', ri_request = ''r1'', ri_prompt = ''Pay?'', ri_chat = ''7'',
     ri_chat_type = Private_chat, ri_conversation = None, ri_message = ''12'', ri_thread = None, ri_timeline = None,
     ri_user = ''7'', ri_call = ''c1'', ri_hash = replicate 64 CHR ''0'', ri_tool = ''pay'', ri_attributes = None\<rparr>"

lemma replay_reopens_the_prompt_witness:
  "\<exists>row. first_row (\<lambda>a. a_id a = ''a1'') (approvals (snd (register ''a2'' sample_register 900 pressed_state))) = Some row \<and>
     a_consumed row = None \<and> a_timed_out row = None \<and> a_lease row = None \<and> a_lease_until row = None \<and>
     a_attempts row = 0 \<and> a_selected row = None \<and> a_hash row = Some (ri_hash sample_register) \<and>
     a_created row = 0 \<and> length (approvals (snd (register ''a2'' sample_register 900 pressed_state))) = 1"
proof -
  define old where "old = consume 5 (Some (''approve'', ''Yes'')) sample_approval"
  let ?new = "new_approval ''a2'' sample_register 900"
  have state: "approvals pressed_state = [old]" by (simp add: pressed_state_def prompt_state_def old_def)
  have found: "first_row (same_request ?new) (approvals pressed_state) = Some old"
    unfolding state by (simp add: first_row_def same_request_def old_def new_approval_def sample_register_def
        consume_def sample_approval_def)
  have checks: "approval_checks ?new"
    by (simp add: approval_checks_def new_approval_def sample_register_def sha256_hex_def hex_digit_def ascii_digit_def
        list_all_iff less_eq_char_def)
  have ids: "a_id old = ''a1''" "a_created old = 0" by (simp_all add: old_def consume_def sample_approval_def)
  have "register ''a2'' sample_register 900 pressed_state = (Inr (), snd (register ''a2'' sample_register 900 pressed_state))"
    using found checks by (simp add: register_def Let_def state exists_row_def)
  from replay_reopens_the_prompt [OF this _ found] show ?thesis
    unfolding ids by (simp add: state approval_rows.pk_def)
qed

end
