(* ===== verification/Recurrence.thy ===== *)
theory Recurrence
  imports Prelude
begin

text \<open>
  agent/lib/scheduling/next-occurrence.ts: the next occurrence of a repeated reminder or schedule,
  computed by one query from the anchor. PostgreSQL's calendar (time zones, years, months) is the
  parameter \<open>pg_calendar\<close>; what the query relies on is stated as \<open>calendar_laws\<close>. Local
  timestamps are microseconds since 1970-01-01 00:00 of the wall clock.
\<close>

record pg_calendar =
  cal_local :: "string \<Rightarrow> time \<Rightarrow> int"
  cal_instant :: "string \<Rightarrow> int \<Rightarrow> time"
  cal_known :: "string \<Rightarrow> bool"
  cal_year :: "int \<Rightarrow> int"
  cal_month :: "int \<Rightarrow> int"
  cal_add_months :: "int \<Rightarrow> int \<Rightarrow> int"

definition one_day :: int where "one_day = 86400000000"

definition local_date :: "int \<Rightarrow> int" where "local_date l = l div one_day"

definition time_of_day :: "int \<Rightarrow> int" where "time_of_day l = l mod one_day"

datatype recurrence_unit = Daily | Weekly | Monthly | Minutely | Hourly | Yearly

text \<open>The labels of the two enum types in the database.\<close>

fun unit_text :: "recurrence_unit \<Rightarrow> string" where
  "unit_text Daily = ''daily''"
| "unit_text Weekly = ''weekly''"
| "unit_text Monthly = ''monthly''"
| "unit_text Minutely = ''minutely''"
| "unit_text Hourly = ''hourly''"
| "unit_text Yearly = ''yearly''"

record recurrence_source =
  rs_unit :: "recurrence_unit option"
  rs_every :: "int option"
  rs_anchor_local :: int
  rs_anchor_at :: "time option"
  rs_timezone :: string
  rs_index :: int

datatype occurrence = Occurrence int time

section \<open>The query\<close>

text \<open>\<open>estimate\<close>: the current period, or NULL; \<open>make_interval\<close> of 60 and 3600 seconds.\<close>

fun unit_seconds :: "recurrence_unit \<Rightarrow> int" where
  "unit_seconds Minutely = 60"
| "unit_seconds Hourly = 3600"
| "unit_seconds _ = 0"

definition month_index :: "pg_calendar \<Rightarrow> int \<Rightarrow> int" where
  "month_index cal l = 12 * cal_year cal l + cal_month cal l"

definition fixed_estimate :: "int \<Rightarrow> int \<Rightarrow> time \<Rightarrow> time option \<Rightarrow> int option" where
  "fixed_estimate seconds every after anchor_at =
     map_option (\<lambda>a. (after - a) div (seconds * 1000000 * every) + 1) anchor_at"

definition estimated_index :: "pg_calendar \<Rightarrow> recurrence_source \<Rightarrow> time \<Rightarrow> int option" where
  "estimated_index cal r after =
     (case (rs_unit r, rs_every r) of
        (Some u, Some every) \<Rightarrow>
          (let after_local = cal_local cal (rs_timezone r) after;
               days = local_date after_local - local_date (rs_anchor_local r) in
           case u of
             Minutely \<Rightarrow> fixed_estimate 60 every after (rs_anchor_at r)
           | Hourly \<Rightarrow> fixed_estimate 3600 every after (rs_anchor_at r)
           | Daily \<Rightarrow> Some (days div every)
           | Weekly \<Rightarrow> Some (days div (7 * every))
           | Monthly \<Rightarrow> Some ((month_index cal after_local - month_index cal (rs_anchor_local r)) div every)
           | Yearly \<Rightarrow> Some ((cal_year cal after_local - cal_year cal (rs_anchor_local r)) div every))
      | _ \<Rightarrow> None)"

definition occurrence_at :: "pg_calendar \<Rightarrow> recurrence_source \<Rightarrow> int \<Rightarrow> time option" where
  "occurrence_at cal r n =
     (case (rs_unit r, rs_every r) of
        (Some u, Some every) \<Rightarrow>
          (let local = (\<lambda>l. Some (cal_instant cal (rs_timezone r) l)); anchor = rs_anchor_local r in
           case u of
             Minutely \<Rightarrow> map_option (\<lambda>a. a + 60 * 1000000 * every * n) (rs_anchor_at r)
           | Hourly \<Rightarrow> map_option (\<lambda>a. a + 3600 * 1000000 * every * n) (rs_anchor_at r)
           | Daily \<Rightarrow> local (anchor + one_day * (every * n))
           | Weekly \<Rightarrow> local (anchor + one_day * (7 * every * n))
           | Monthly \<Rightarrow> local (cal_add_months cal anchor (every * n))
           | Yearly \<Rightarrow> local (cal_add_months cal anchor (12 * (every * n))))
      | _ \<Rightarrow> None)"

definition later_occurrence :: "pg_calendar \<Rightarrow> recurrence_source \<Rightarrow> time \<Rightarrow> int \<Rightarrow> occurrence option" where
  "later_occurrence cal r after n =
     (case occurrence_at cal r n of
        None \<Rightarrow> None
      | Some t \<Rightarrow> if after < t then Some (Occurrence n t) else None)"

definition next_anchored_occurrence :: "pg_calendar \<Rightarrow> recurrence_source \<Rightarrow> time \<Rightarrow> occurrence result" where
  "next_anchored_occurrence cal r after =
     (case estimated_index cal r after of
        None \<Rightarrow> Inl (AppError ''AGENT_RECURRENCE_NEXT_TIME_INVALID'')
      | Some e \<Rightarrow>
          (let first = max (rs_index r + 1) e in
           case later_occurrence cal r after first of
             Some x \<Rightarrow> Inr x
           | None \<Rightarrow>
               (case later_occurrence cal r after (first + 1) of
                  Some x \<Rightarrow> Inr x
                | None \<Rightarrow> Inl (AppError ''AGENT_RECURRENCE_NEXT_TIME_INVALID''))))"

section \<open>What the query relies on\<close>

text \<open>
  Time zones: a wall clock time later than the wall clock at \<open>now\<close> is later than \<open>now\<close>, and one
  that lies a whole day back is not (a clock change moves the wall clock by less than a day). Months:
  adding \<open>n\<close> months moves the month by \<open>n\<close>, twelve of them the year by one, a later month is later, and
  a month of an earlier date lies at least a day back or in the same month.
\<close>

definition zone_laws :: "pg_calendar \<Rightarrow> bool" where
  "zone_laws cal \<longleftrightarrow>
     (\<forall>tz now l. cal_local cal tz now < l \<longrightarrow> now < cal_instant cal tz l) \<and>
     (\<forall>tz now l. local_date l < local_date (cal_local cal tz now) \<longrightarrow> cal_instant cal tz l \<le> now)"

definition month_laws :: "pg_calendar \<Rightarrow> bool" where
  "month_laws cal \<longleftrightarrow>
     (\<forall>l n. month_index cal (cal_add_months cal l n) = month_index cal l + n) \<and>
     (\<forall>l n. cal_year cal (cal_add_months cal l (12 * n)) = cal_year cal l + n) \<and>
     (\<forall>l l'. month_index cal l < month_index cal l' \<longrightarrow> local_date l < local_date l') \<and>
     (\<forall>l l'. cal_year cal l < cal_year cal l' \<longrightarrow> local_date l < local_date l')"

definition calendar_laws :: "pg_calendar \<Rightarrow> bool" where
  "calendar_laws cal \<longleftrightarrow> zone_laws cal \<and> month_laws cal"

text \<open>What the table constraints say of a repeated row.\<close>

definition repeats :: "recurrence_source \<Rightarrow> bool" where
  "repeats r \<longleftrightarrow> rs_unit r \<noteq> None \<and> (\<exists>every. rs_every r = Some every \<and> 0 < every) \<and>
     (rs_unit r = Some Minutely \<or> rs_unit r = Some Hourly \<longrightarrow> rs_anchor_at r \<noteq> None)"

section \<open>The estimate is good\<close>

text \<open>
  The two facts that make two candidates enough: the occurrence after the estimated one is in the
  future, and none before the estimated one is.
\<close>

lemma div_next: "0 < (w::int) \<Longrightarrow> x < w * (x div w + 1)"
  using mult_div_mod_eq [of w x] pos_mod_bound [of w x] unfolding distrib_left by linarith

lemma div_after: "0 < (w::int) \<Longrightarrow> x div w < n \<Longrightarrow> x < w * n"
proof -
  assume w: "0 < w" "x div w < n"
  then have "w * (x div w + 1) \<le> w * n" by (intro mult_left_mono) auto
  with div_next [OF w(1), of x] show ?thesis by linarith
qed

lemma div_before: "0 < (w::int) \<Longrightarrow> n < x div w \<Longrightarrow> w * n + w \<le> x"
proof -
  assume w: "0 < w" "n < x div w"
  then have "w * (n + 1) \<le> w * (x div w)" by (intro mult_left_mono) auto
  also have "\<dots> \<le> x" using mult_div_mod_eq [of w x] pos_mod_sign [of w x] w by linarith
  finally show ?thesis by (simp add: algebra_simps)
qed

definition estimate_good :: "pg_calendar \<Rightarrow> recurrence_source \<Rightarrow> time \<Rightarrow> int \<Rightarrow> bool" where
  "estimate_good cal r after e \<longleftrightarrow>
     (\<forall>n. e < n \<longrightarrow> (\<exists>t. occurrence_at cal r n = Some t \<and> after < t)) \<and>
     (\<forall>n t. n < e \<longrightarrow> occurrence_at cal r n = Some t \<longrightarrow> t \<le> after) \<and>
     (\<exists>t. occurrence_at cal r e = Some t)"

lemma fixed_good:
  fixes w :: int
  assumes "0 < w" "e = (after - a) div w + 1"
  shows "(\<forall>n. e < n \<longrightarrow> after < a + w * n) \<and> (\<forall>n. n < e \<longrightarrow> a + w * n \<le> after) \<and> after < a + w * e"
proof (intro conjI allI impI)
  fix n assume "e < n"
  then have "after - a < w * n" using assms by (intro div_after) auto
  then show "after < a + w * n" by simp
next
  fix n assume "n < e"
  then have "w * n \<le> w * ((after - a) div w)" using assms by (intro mult_left_mono) auto
  also have "\<dots> \<le> after - a"
    using mult_div_mod_eq [of w "after - a"] pos_mod_sign [of w "after - a"] assms(1) by linarith
  finally show "a + w * n \<le> after" by simp
next
  have "after - a < w * e" using assms by (intro div_after) auto
  then show "after < a + w * e" by simp
qed

lemma zone_future:
  assumes "zone_laws cal" "local_date (cal_local cal tz now) < local_date l"
  shows "now < cal_instant cal tz l"
proof -
  have "cal_local cal tz now < l"
  proof (rule ccontr)
    assume "\<not> cal_local cal tz now < l"
    then have "local_date l \<le> local_date (cal_local cal tz now)"
      unfolding local_date_def one_day_def by (intro zdiv_mono1) auto
    with assms(2) show False by simp
  qed
  with assms(1) show ?thesis by (simp add: zone_laws_def)
qed

lemma zone_past: "zone_laws cal \<Longrightarrow> local_date l < local_date (cal_local cal tz now) \<Longrightarrow> cal_instant cal tz l \<le> now"
  by (simp add: zone_laws_def)

lemma local_date_add: "local_date (l + one_day * n) = local_date l + n"
  by (simp add: local_date_def one_day_def)

text \<open>A calendar period \<open>p\<close> (day, month, year) whose \<open>n\<close>th repetition lies \<open>w * n\<close> periods after the anchor.\<close>

lemma periods_good:
  fixes p :: "int \<Rightarrow> int"
  assumes laws: "zone_laws cal" and w: "0 < w"
    and e: "e = (p (cal_local cal tz after) - p anchor) div w"
    and step: "\<And>n. p (at n) = p anchor + w * n"
    and order: "\<And>l l'. p l < p l' \<Longrightarrow> local_date l < local_date l'"
  shows "(\<forall>n. e < n \<longrightarrow> after < cal_instant cal tz (at n)) \<and>
    (\<forall>n. n < e \<longrightarrow> cal_instant cal tz (at n) \<le> after)"
proof (intro conjI allI impI)
  fix n assume "e < n"
  then have "p (cal_local cal tz after) - p anchor < w * n" using w e by (intro div_after) auto
  then show "after < cal_instant cal tz (at n)"
    by (intro zone_future [OF laws] order) (simp add: step)
next
  fix n assume "n < e"
  with div_before [OF w, of n "p (cal_local cal tz after) - p anchor"] e w
  have "w * n < p (cal_local cal tz after) - p anchor" by linarith
  then show "cal_instant cal tz (at n) \<le> after"
    by (intro zone_past [OF laws] order) (simp add: step)
qed

lemma estimate_is_good:
  assumes laws: "calendar_laws cal" and r: "repeats r" and e: "estimated_index cal r after = Some e"
  shows "estimate_good cal r after e"
proof -
  obtain u every where u: "rs_unit r = Some u" "rs_every r = Some every" "0 < every"
    using r by (auto simp: repeats_def)
  have zone: "zone_laws cal"
    and month: "\<And>l n. month_index cal (cal_add_months cal l n) = month_index cal l + n"
      "\<And>l l'. month_index cal l < month_index cal l' \<Longrightarrow> local_date l < local_date l'"
    and year: "\<And>l n. cal_year cal (cal_add_months cal l (12 * n)) = cal_year cal l + n"
      "\<And>l l'. cal_year cal l < cal_year cal l' \<Longrightarrow> local_date l < local_date l'"
    using laws by (auto simp: calendar_laws_def month_laws_def)
  note good = periods_good [OF zone, where tz = "rs_timezone r" and anchor = "rs_anchor_local r" and after = after and e = e]
  show ?thesis
  proof (cases u)
    case Daily
    with e u have "e = (local_date (cal_local cal (rs_timezone r) after) - local_date (rs_anchor_local r)) div every"
      by (simp add: estimated_index_def Let_def)
    from good [OF u(3) this, of "\<lambda>n. rs_anchor_local r + one_day * (every * n)"] u Daily show ?thesis
      by (simp add: estimate_good_def occurrence_at_def local_date_add)
  next
    case Weekly
    with e u have "e = (local_date (cal_local cal (rs_timezone r) after) - local_date (rs_anchor_local r)) div (7 * every)"
      by (simp add: estimated_index_def Let_def)
    from good [OF _ this, of "\<lambda>n. rs_anchor_local r + one_day * (7 * every * n)"] u Weekly show ?thesis
      by (simp add: estimate_good_def occurrence_at_def local_date_add)
  next
    case Monthly
    with e u have "e = (month_index cal (cal_local cal (rs_timezone r) after) - month_index cal (rs_anchor_local r)) div every"
      by (simp add: estimated_index_def Let_def)
    from good [OF u(3) this, of "\<lambda>n. cal_add_months cal (rs_anchor_local r) (every * n)"] month u Monthly show ?thesis
      by (simp add: estimate_good_def occurrence_at_def)
  next
    case Yearly
    with e u have "e = (cal_year cal (cal_local cal (rs_timezone r) after) - cal_year cal (rs_anchor_local r)) div every"
      by (simp add: estimated_index_def Let_def)
    from good [OF u(3) this, of "\<lambda>n. cal_add_months cal (rs_anchor_local r) (12 * (every * n))"] year u Yearly show ?thesis
      by (simp add: estimate_good_def occurrence_at_def)
  next
    case Minutely
    then obtain a where a: "rs_anchor_at r = Some a" using r u by (auto simp: repeats_def)
    with e u Minutely have "e = (after - a) div (60 * 1000000 * every) + 1"
      by (simp add: estimated_index_def fixed_estimate_def Let_def)
    from fixed_good [OF _ this] u a Minutely show ?thesis
      by (simp add: estimate_good_def occurrence_at_def)
  next
    case Hourly
    then obtain a where a: "rs_anchor_at r = Some a" using r u by (auto simp: repeats_def)
    with e u Hourly have "e = (after - a) div (3600 * 1000000 * every) + 1"
      by (simp add: estimated_index_def fixed_estimate_def Let_def)
    from fixed_good [OF _ this] u a Hourly show ?thesis
      by (simp add: estimate_good_def occurrence_at_def)
  qed
qed

lemma estimate_exists: "repeats r \<Longrightarrow> \<exists>e. estimated_index cal r after = Some e"
  by (cases "the (rs_unit r)") (auto simp: repeats_def estimated_index_def fixed_estimate_def Let_def)

text \<open>
  C25: The next occurrence is the first one still to come. For a repeated row, on a calendar that obeys
  the laws above, the query always finds an occurrence; its index is beyond the current one, its time
  is in the future, and no index between the two lies in the future: missed periods are skipped, not replayed.
\<close>

theorem next_occurrence_is_the_first_to_come:
  assumes "calendar_laws cal" "repeats r"
  shows "\<exists>n t. next_anchored_occurrence cal r after = Inr (Occurrence n t) \<and> rs_index r < n \<and> after < t \<and>
    occurrence_at cal r n = Some t \<and>
    (\<forall>m t'. rs_index r < m \<longrightarrow> m < n \<longrightarrow> occurrence_at cal r m = Some t' \<longrightarrow> t' \<le> after)"
proof -
  obtain e where e: "estimated_index cal r after = Some e" using estimate_exists [OF assms(2)] by blast
  note good = estimate_is_good [OF assms e, unfolded estimate_good_def]
  let ?f = "max (rs_index r + 1) e"
  have before: "t' \<le> after" if "rs_index r < m" "m < ?f" "occurrence_at cal r m = Some t'" for m t'
    using good that by (metis less_max_iff_disj not_less_iff_gr_or_eq zle_add1_eq_le linorder_not_le)
  obtain t0 where t0: "occurrence_at cal r ?f = Some t0"
  proof (cases "e < ?f")
    case True
    with good that show thesis by blast
  next
    case False
    then have "?f = e" by simp
    with good that show thesis by auto
  qed
  have "e < ?f + 1" by simp
  then obtain t1 where t1: "occurrence_at cal r (?f + 1) = Some t1" "after < t1" using good by blast
  show ?thesis
  proof (cases "after < t0")
    case True
    then have "next_anchored_occurrence cal r after = Inr (Occurrence ?f t0)"
      using e t0 by (simp add: next_anchored_occurrence_def later_occurrence_def)
    with True t0 before show ?thesis by (intro exI [of _ ?f] exI [of _ t0]) auto
  next
    case False
    then have "next_anchored_occurrence cal r after = Inr (Occurrence (?f + 1) t1)"
      using e t0 t1 by (simp add: next_anchored_occurrence_def later_occurrence_def)
    moreover have "t' \<le> after" if "rs_index r < m" "m < ?f + 1" "occurrence_at cal r m = Some t'" for m t'
      using that before t0 False by (cases "m = ?f") auto
    ultimately show ?thesis using t1 by (intro exI [of _ "?f + 1"] exI [of _ t1]) auto
  qed
qed

text \<open>A calendar in UTC with months of thirty days, for the witness.\<close>

definition plain_calendar :: pg_calendar where
  "plain_calendar = \<lparr>cal_local = (\<lambda>_ t. t), cal_instant = (\<lambda>_ l. l), cal_known = (\<lambda>tz. tz = ''UTC''),
     cal_year = (\<lambda>l. l div (360 * one_day)), cal_month = (\<lambda>l. l div (30 * one_day) mod 12),
     cal_add_months = (\<lambda>l n. l + 30 * one_day * n)\<rparr>"

lemma plain_month_index: "month_index plain_calendar l = l div (30 * one_day)"
proof -
  have "l div (360 * one_day) = l div (30 * one_day) div 12"
    by (simp add: one_day_def zdiv_zmult2_eq [symmetric])
  then show ?thesis by (simp add: month_index_def plain_calendar_def)
qed

lemma div_less_div: "0 < (k::int) \<Longrightarrow> x div (k * w) < y div (k * w) \<Longrightarrow> 0 < w \<Longrightarrow> x div w < y div w"
proof -
  assume a: "0 < k" "x div (k * w) < y div (k * w)" "0 < w"
  have eq: "z div (k * w) = z div w div k" for z
    using zdiv_zmult2_eq [of k z w] a(1) by (simp only: mult.commute [of k w])
  show ?thesis
  proof (rule ccontr)
    assume "\<not> x div w < y div w"
    then have "y div w \<le> x div w" by simp
    then have "y div w div k \<le> x div w div k" using a(1) by (rule zdiv_mono1)
    with a(2) show False by (simp add: eq)
  qed
qed

lemma plain_calendar_laws: "calendar_laws plain_calendar"
  unfolding calendar_laws_def zone_laws_def month_laws_def plain_month_index local_date_def
proof (intro conjI allI impI)
  fix tz now l
  show "cal_local plain_calendar tz now < l \<Longrightarrow> now < cal_instant plain_calendar tz l"
    by (simp add: plain_calendar_def)
  show "l div one_day < cal_local plain_calendar tz now div one_day \<Longrightarrow> cal_instant plain_calendar tz l \<le> now"
    by (simp add: plain_calendar_def) (metis linorder_not_le less_imp_le not_less one_day_def zdiv_mono1 zero_less_numeral)
next
  fix l n :: int
  show "cal_add_months plain_calendar l n div (30 * one_day) = l div (30 * one_day) + n"
    by (simp add: plain_calendar_def one_day_def)
  show "cal_year plain_calendar (cal_add_months plain_calendar l (12 * n)) = cal_year plain_calendar l + n"
    by (simp add: plain_calendar_def one_day_def)
next
  fix l l' :: int
  show "l div (30 * one_day) < l' div (30 * one_day) \<Longrightarrow> l div one_day < l' div one_day"
    by (rule div_less_div [of 30]) (simp_all add: one_day_def)
  show "cal_year plain_calendar l < cal_year plain_calendar l' \<Longrightarrow> l div one_day < l' div one_day"
    by (rule div_less_div [of 360]) (simp_all add: one_day_def plain_calendar_def)
qed

definition sample_recurrence :: recurrence_source where
  "sample_recurrence = \<lparr>rs_unit = Some Monthly, rs_every = Some 2, rs_anchor_local = 5, rs_anchor_at = None,
     rs_timezone = ''UTC'', rs_index = 3\<rparr>"

lemma next_occurrence_is_the_first_to_come_witness:
  "\<exists>n t. next_anchored_occurrence plain_calendar sample_recurrence 99999999999999 = Inr (Occurrence n t) \<and> 3 < n \<and>
     99999999999999 < t"
proof -
  have "repeats sample_recurrence" by (simp add: repeats_def sample_recurrence_def)
  from next_occurrence_is_the_first_to_come [OF plain_calendar_laws this, of 99999999999999] show ?thesis
    by (auto simp: sample_recurrence_def)
qed

end
