(* ===== verification/Keyset_Pagination.thy ===== *)
theory Keyset_Pagination
  imports Input_Validation
begin

text \<open>
  agent/lib/keyset-pagination.ts: the opaque cursors of the paginated lists. The three codecs share
  their shape, two fields and an optional digest of the filters, joined by a bar; the interface
  \<open>cursor_codec\<close> states what a pair of field checks must provide and proves the round trip once.
  \<open>Date.toISOString\<close> and the \<open>Date\<close> parser of the host are the parameter \<open>date_codec\<close>, in milliseconds.
\<close>

section \<open>Splitting and patterns\<close>

fun split_bar :: "string \<Rightarrow> string list" where
  "split_bar [] = [[]]"
| "split_bar (c # cs) =
     (if c = CHR ''|'' then [] # split_bar cs
      else (case split_bar cs of [] \<Rightarrow> [[c]] | p # ps \<Rightarrow> (c # p) # ps))"

definition positive_bigint_pattern :: "string \<Rightarrow> bool" where
  "positive_bigint_pattern s \<longleftrightarrow>
     (case s of [] \<Rightarrow> False | c # cs \<Rightarrow> CHR ''1'' \<le> c \<and> c \<le> CHR ''9'' \<and> list_all ascii_digit cs)"

definition filter_digest_pattern :: "string \<Rightarrow> bool" where
  "filter_digest_pattern s \<longleftrightarrow> length s = 32 \<and> list_all hex_digit s"

text \<open>\<open>sha256Json(values).slice(0, 32)\<close>, the hash being a parameter.\<close>

definition pagination_filter_digest :: "(string option list \<Rightarrow> string) \<Rightarrow> string option list \<Rightarrow> string" where
  "pagination_filter_digest sha256_json values = take 32 (sha256_json values)"

section \<open>Binding to the filters\<close>

definition require_binding :: "string option \<Rightarrow> string option \<Rightarrow> string \<Rightarrow> unit result" where
  "require_binding actual expected code =
     (if actual \<noteq> expected \<or> (case actual of None \<Rightarrow> False | Some b \<Rightarrow> \<not> filter_digest_pattern b)
      then Inl (AppError code) else Inr ())"

section \<open>The codecs\<close>

record date_codec =
  dc_iso :: "int \<Rightarrow> string"
  dc_parse :: "string \<Rightarrow> int option"

text \<open>\<open>const [first, second, binding, extra] = value.split("|")\<close>\<close>

definition destructure4 ::
  "string list \<Rightarrow> string \<times> string option \<times> string option \<times> string option" where
  "destructure4 ps = (ps ! 0, (if 1 < length ps then Some (ps ! 1) else None),
     (if 2 < length ps then Some (ps ! 2) else None), (if 3 < length ps then Some (ps ! 3) else None))"

definition cursor_binding :: "string option \<Rightarrow> string" where
  "cursor_binding binding = (case binding of None \<Rightarrow> [] | Some b \<Rightarrow> CHR ''|'' # b)"

definition decode_date_uuid_cursor ::
  "date_codec \<Rightarrow> string option \<Rightarrow> string \<Rightarrow> string option \<Rightarrow> (string \<times> int) option result" where
  "decode_date_uuid_cursor dc value code binding =
     (case value of
        None \<Rightarrow> Inr None
      | Some v \<Rightarrow>
          (case destructure4 (split_bar v) of
             (raw, id', bound, extra) \<Rightarrow>
               if extra \<noteq> None \<or> (case id' of None \<Rightarrow> True | Some i \<Rightarrow> i = [] \<or> \<not> uuid_pattern i) \<or> dc_parse dc raw = None
               then Inl (AppError code)
               else res_bind (require_binding bound binding code)
                 (\<lambda>_. Inr (Some (the id', the (dc_parse dc raw))))))"

definition encode_date_uuid_cursor :: "date_codec \<Rightarrow> int \<Rightarrow> string \<Rightarrow> string option \<Rightarrow> string" where
  "encode_date_uuid_cursor dc timestamp id' binding =
     dc_iso dc timestamp @ CHR ''|'' # id' @ cursor_binding binding"

definition decode_date_bigint_cursor ::
  "date_codec \<Rightarrow> string option \<Rightarrow> string \<Rightarrow> string option \<Rightarrow> (string \<times> int) option result" where
  "decode_date_bigint_cursor dc value code binding =
     (case value of
        None \<Rightarrow> Inr None
      | Some v \<Rightarrow>
          (case destructure4 (split_bar v) of
             (raw, id', bound, extra) \<Rightarrow>
               if extra \<noteq> None \<or> (case id' of None \<Rightarrow> True | Some i \<Rightarrow> i = [] \<or> \<not> positive_bigint_pattern i) \<or> dc_parse dc raw = None
               then Inl (AppError code)
               else res_bind (require_binding bound binding code)
                 (\<lambda>_. Inr (Some (the id', the (dc_parse dc raw))))))"

definition encode_date_bigint_cursor :: "date_codec \<Rightarrow> int \<Rightarrow> string \<Rightarrow> string option \<Rightarrow> string" where
  "encode_date_bigint_cursor dc timestamp id' binding =
     dc_iso dc timestamp @ CHR ''|'' # id' @ cursor_binding binding"

definition decode_bigint_uuid_cursor ::
  "string option \<Rightarrow> string \<Rightarrow> string option \<Rightarrow> (string \<times> string) option result" where
  "decode_bigint_uuid_cursor value code binding =
     (case value of
        None \<Rightarrow> Inr None
      | Some v \<Rightarrow>
          (case destructure4 (split_bar v) of
             (sequence, id', bound, extra) \<Rightarrow>
               if extra \<noteq> None \<or> sequence = [] \<or> \<not> positive_bigint_pattern sequence \<or>
                  (case id' of None \<Rightarrow> True | Some i \<Rightarrow> i = [] \<or> \<not> uuid_pattern i)
               then Inl (AppError code)
               else res_bind (require_binding bound binding code) (\<lambda>_. Inr (Some (the id', sequence)))))"

definition encode_bigint_uuid_cursor :: "string \<Rightarrow> string \<Rightarrow> string option \<Rightarrow> string" where
  "encode_bigint_uuid_cursor sequence id' binding = sequence @ CHR ''|'' # id' @ cursor_binding binding"

section \<open>Characters of the fields\<close>

abbreviation bar_free :: "string \<Rightarrow> bool" where
  "bar_free s \<equiv> CHR ''|'' \<notin> set s"

lemma split_bar_free: "bar_free s \<Longrightarrow> split_bar s = [s]"
  by (induction s) auto

lemma split_bar_append: "bar_free s \<Longrightarrow> split_bar (s @ CHR ''|'' # t) = s # split_bar t"
  by (induction s) auto

lemma hex_digit_not_bar: "\<not> hex_digit CHR ''|''"
  by (simp add: hex_digit_def ascii_digit_def less_eq_char_def)

lemma filter_digest_bar_free: "filter_digest_pattern b \<Longrightarrow> bar_free b"
  using hex_digit_not_bar by (auto simp: filter_digest_pattern_def list_all_iff)

lemma bigint_bar_free: "positive_bigint_pattern s \<Longrightarrow> bar_free s \<and> s \<noteq> []"
proof -
  assume "positive_bigint_pattern s"
  then obtain c cs where s: "s = c # cs" "CHR ''1'' \<le> c" "c \<le> CHR ''9''" "list_all ascii_digit cs"
    by (cases s) (auto simp: positive_bigint_pattern_def)
  have "c \<noteq> CHR ''|''" using s(3) by (auto simp: less_eq_char_def)
  moreover have "\<not> ascii_digit CHR ''|''" by (simp add: ascii_digit_def less_eq_char_def)
  ultimately show ?thesis using s by (auto simp: list_all_iff)
qed

lemma uuid_bar_free:
  assumes "uuid_pattern s"
  shows "bar_free s \<and> s \<noteq> []"
proof
  have "p c \<Longrightarrow> c \<noteq> CHR ''|''" if "p \<in> set uuid_shape" for p c
    using that hex_digit_not_bar
    by (auto simp: uuid_shape_def less_eq_char_def in_set_replicate split: if_splits)
  moreover have "ascii_lower CHR ''|'' = CHR ''|''" by (simp add: ascii_lower_def less_eq_char_def)
  ultimately show "bar_free s"
    using assms unfolding uuid_pattern_def list_all2_conv_all_nth by (metis in_set_conv_nth nth_mem)
  show "s \<noteq> []" using uuid_pattern_length [OF assms] by auto
qed

lemma cursor_parts:
  assumes "bar_free x" "bar_free y" "case b of None \<Rightarrow> True | Some d \<Rightarrow> bar_free d"
  shows "destructure4 (split_bar (x @ CHR ''|'' # y @ cursor_binding b)) = (x, Some y, b, None)"
  using assms by (cases b) (simp_all add: cursor_binding_def split_bar_append split_bar_free destructure4_def)

section \<open>The interface of a codec\<close>

text \<open>
  A codec writes two bar-free texts and a binding, and accepts what it can read back. The round trip and
  the refusal of foreign filters follow for each of the three.
\<close>

locale cursor_codec =
  fixes text1 :: "'a \<Rightarrow> string"
    and text2 :: "'a \<Rightarrow> string"
    and valid :: "'a \<Rightarrow> bool"
    and encode :: "'a \<Rightarrow> string option \<Rightarrow> string"
    and decode :: "string option \<Rightarrow> string \<Rightarrow> string option \<Rightarrow> 'a option result"
  assumes bar_free1: "valid x \<Longrightarrow> bar_free (text1 x)"
    and bar_free2: "valid x \<Longrightarrow> bar_free (text2 x)"
    and encode_eq: "encode x b = text1 x @ CHR ''|'' # text2 x @ cursor_binding b"
    and decode_eq: "valid x \<Longrightarrow> destructure4 (split_bar v) = (text1 x, Some (text2 x), bound, None) \<Longrightarrow>
      decode (Some v) code b = res_bind (require_binding bound b code) (\<lambda>_. Inr (Some x))"
begin

definition bindable :: "string option \<Rightarrow> bool" where
  "bindable b \<longleftrightarrow> (case b of None \<Rightarrow> True | Some d \<Rightarrow> filter_digest_pattern d)"

lemma parts:
  assumes "valid x" "bindable b"
  shows "destructure4 (split_bar (encode x b)) = (text1 x, Some (text2 x), b, None)"
  unfolding encode_eq using assms bar_free1 bar_free2 filter_digest_bar_free
  by (intro cursor_parts) (auto simp: bindable_def split: option.splits)

lemma round_trip: "valid x \<Longrightarrow> bindable b \<Longrightarrow> decode (Some (encode x b)) code b = Inr (Some x)"
  using decode_eq [OF _ parts] by (auto simp: require_binding_def bindable_def split: option.splits)

lemma foreign_filters:
  "valid x \<Longrightarrow> bindable b \<Longrightarrow> b' \<noteq> b \<Longrightarrow> decode (Some (encode x b)) code b' = Inl (AppError code)"
  using decode_eq [OF _ parts] by (auto simp: require_binding_def)

end

definition date_laws :: "date_codec \<Rightarrow> bool" where
  "date_laws dc \<longleftrightarrow> (\<forall>t. dc_parse dc (dc_iso dc t) = Some t \<and> bar_free (dc_iso dc t))"

interpretation bigint_uuid: cursor_codec snd fst
    "\<lambda>x. positive_bigint_pattern (snd x) \<and> uuid_pattern (fst x)"
    "\<lambda>x. encode_bigint_uuid_cursor (snd x) (fst x)" decode_bigint_uuid_cursor
  by unfold_locales
    (auto simp: encode_bigint_uuid_cursor_def decode_bigint_uuid_cursor_def bigint_bar_free uuid_bar_free
      dest: bigint_bar_free uuid_bar_free)

interpretation date_uuid: cursor_codec "dc_iso dc \<circ> snd" fst "\<lambda>x. date_laws dc \<and> uuid_pattern (fst x)"
    "\<lambda>x. encode_date_uuid_cursor dc (snd x) (fst x)" "decode_date_uuid_cursor dc" for dc
  by unfold_locales
    (auto simp: encode_date_uuid_cursor_def decode_date_uuid_cursor_def date_laws_def dest: uuid_bar_free)

interpretation date_bigint: cursor_codec "dc_iso dc \<circ> snd" fst "\<lambda>x. date_laws dc \<and> positive_bigint_pattern (fst x)"
    "\<lambda>x. encode_date_bigint_cursor dc (snd x) (fst x)" "decode_date_bigint_cursor dc" for dc
  by unfold_locales
    (auto simp: encode_date_bigint_cursor_def decode_date_bigint_cursor_def date_laws_def dest: bigint_bar_free)

text \<open>
  A cursor survives the round trip through the model, and only with its own filters. What each of
  the three codecs encodes decodes to the same two fields; presented with any other filter digest the
  cursor is refused with the code of the list.
\<close>

theorem cursors_round_trip:
  assumes "date_laws dc" "uuid_pattern u" "positive_bigint_pattern n"
    "case b of None \<Rightarrow> True | Some d \<Rightarrow> filter_digest_pattern d" "b' \<noteq> b"
  shows "decode_date_uuid_cursor dc (Some (encode_date_uuid_cursor dc t u b)) code b = Inr (Some (u, t)) \<and>
    decode_date_bigint_cursor dc (Some (encode_date_bigint_cursor dc t n b)) code b = Inr (Some (n, t)) \<and>
    decode_bigint_uuid_cursor (Some (encode_bigint_uuid_cursor n u b)) code b = Inr (Some (u, n)) \<and>
    decode_date_uuid_cursor dc (Some (encode_date_uuid_cursor dc t u b)) code b' = Inl (AppError code) \<and>
    decode_date_bigint_cursor dc (Some (encode_date_bigint_cursor dc t n b)) code b' = Inl (AppError code) \<and>
    decode_bigint_uuid_cursor (Some (encode_bigint_uuid_cursor n u b)) code b' = Inl (AppError code)"
  using assms date_uuid.round_trip [of dc "(u, t)" b] date_bigint.round_trip [of dc "(n, t)" b]
    bigint_uuid.round_trip [of "(u, n)" b] date_uuid.foreign_filters [of dc "(u, t)" b b']
    date_bigint.foreign_filters [of dc "(n, t)" b b'] bigint_uuid.foreign_filters [of "(u, n)" b b']
  by (simp add: date_uuid.bindable_def date_bigint.bindable_def bigint_uuid.bindable_def)

section \<open>Following the cursors\<close>

text \<open>A client that asks for page after page, and the cursor a list stands at after some of its entries.\<close>

fun follow_pages ::
  "(string option \<Rightarrow> ('a list \<times> string option) result) \<Rightarrow> nat \<Rightarrow> string option \<Rightarrow> 'a list result" where
  "follow_pages page 0 cursor = Inr []"
| "follow_pages page (Suc fuel) cursor =
     res_bind (page cursor) (\<lambda>(items, next').
       case next' of
         None \<Rightarrow> Inr items
       | Some c \<Rightarrow> res_bind (follow_pages page fuel (Some c)) (\<lambda>rest. Inr (items @ rest)))"

definition cursor_at :: "('r \<Rightarrow> string) \<Rightarrow> 'r list \<Rightarrow> string option" where
  "cursor_at cursor xs = (if xs = [] then None else Some (cursor (last xs)))"

lemma cursor_at_Nil [simp]: "cursor_at cursor [] = None"
  by (simp add: cursor_at_def)

lemma follow_pages_complete:
  assumes page: "\<And>xs ys. entries = xs @ ys \<Longrightarrow> page (cursor_at cursor xs) =
      Inr (map shown (take n ys), if n < length ys then Some (cursor (last (take n ys))) else None)"
    and n: "0 < n" and split: "entries = xs @ ys" and fuel: "length ys < fuel"
  shows "follow_pages page fuel (cursor_at cursor xs) = Inr (map shown ys)"
  using split fuel
proof (induction fuel arbitrary: xs ys)
  case (Suc fuel)
  show ?case
  proof (cases "n < length ys")
    case True
    then have some: "take n ys \<noteq> []" "length (drop n ys) < fuel" using n Suc.prems(2) by auto
    have "follow_pages page fuel (cursor_at cursor (xs @ take n ys)) = Inr (map shown (drop n ys))"
      by (rule Suc.IH) (use Suc.prems(1) some in simp_all)
    then have "follow_pages page fuel (Some (cursor (last (take n ys)))) = Inr (map shown (drop n ys))"
      using some(1) by (simp add: cursor_at_def)
    then show ?thesis using True by (simp add: page [OF Suc.prems(1)] map_append [symmetric] del: map_append)
  qed (simp add: page [OF Suc.prems(1)])
qed simp

text \<open>In a strictly descending list the entries below one are those behind it.\<close>

lemma filter_below:
  fixes key :: "'r \<Rightarrow> 'k::linorder"
  assumes "sorted_wrt (\<lambda>r r'. key r' < key r) (xs @ x # ys)"
  shows "filter (\<lambda>r. key r < key x) (xs @ x # ys) = ys"
proof -
  have "\<not> key r < key x" if "r \<in> set xs" for r
    using assms that by (auto simp: sorted_wrt_append)
  moreover have "key r < key x" if "r \<in> set ys" for r
    using assms that by (auto simp: sorted_wrt_append)
  ultimately show ?thesis by (simp add: filter_empty_conv [symmetric] filter_id_conv)
qed

text \<open>A date codec in unary, for the witness.\<close>

definition unary_dates :: date_codec where
  "unary_dates = \<lparr>dc_iso = (\<lambda>t. (if 0 \<le> t then CHR ''+'' else CHR ''-'') # replicate (nat \<bar>t\<bar>) CHR ''1''),
     dc_parse = (\<lambda>s. case s of [] \<Rightarrow> None | c # cs \<Rightarrow>
        Some (if c = CHR ''+'' then int (length cs) else - int (length cs)))\<rparr>"

lemma unary_dates_laws: "date_laws unary_dates"
  by (auto simp: date_laws_def unary_dates_def)

lemma cursors_round_trip_witness:
  "decode_bigint_uuid_cursor
     (Some (encode_bigint_uuid_cursor ''12'' ''11111111-1111-1111-8111-111111111111'' None)) ''E'' None =
   Inr (Some (''11111111-1111-1111-8111-111111111111'', ''12''))"
proof -
  have "uuid_pattern ''11111111-1111-1111-8111-111111111111''"
    by (simp add: uuid_pattern_def uuid_shape_def hex_digit_def ascii_digit_def ascii_lower_def less_eq_char_def
        numeral_eq_Suc)
  moreover have "positive_bigint_pattern ''12''"
    by (simp add: positive_bigint_pattern_def ascii_digit_def less_eq_char_def)
  ultimately show ?thesis using cursors_round_trip [OF unary_dates_laws, where b = None and b' = "Some []"] by simp
qed

end
