(* ===== verification/Proactive_Deliveries.thy ===== *)
theory Proactive_Deliveries
  imports Keyset_Pagination Schema
begin

text \<open>
  agent/lib/proactive-deliveries/proactive-delivery-repository.ts and the table
  \<open>proactive_deliveries\<close> (migrations 030, 063, 140): the journal of messages the assistant sent on its
  own. Reminders and agent schedules write to it inside the transaction that settles their row. An
  identifier of a topic is its number; dates are milliseconds, \<open>None\<close> for an invalid one.
\<close>

section \<open>The journal\<close>

datatype delivery_kind = Schedule_source | Order_watch_source | Reminder_source

record proactive_delivery =
  pd_id :: int
  pd_kind :: delivery_kind
  pd_source :: string
  pd_message :: int
  pd_title :: "string option"
  pd_family :: string
  pd_owner :: "string option"
  pd_group :: "string option"
  pd_scope :: memory_scope
  pd_content :: string
  pd_scheduled :: time
  pd_delivered :: time
  pd_chat :: string
  pd_thread :: "int option"

text \<open>The identity column counts up whether or not the row is kept.\<close>

record delivery_journal =
  jn_rows :: "proactive_delivery list"
  jn_last :: int

definition empty_journal :: delivery_journal where
  "empty_journal = \<lparr>jn_rows = [], jn_last = 0\<rparr>"

interpretation delivery_rows: keyed_table pd_id .

text \<open>The \<open>CHECK\<close> constraints of the table.\<close>

definition delivery_checks :: "proactive_delivery \<Rightarrow> bool" where
  "delivery_checks p \<longleftrightarrow>
     (case pd_title p of None \<Rightarrow> True | Some t \<Rightarrow> 1 \<le> length t \<and> length t \<le> 120) \<and>
     1 \<le> length (pd_content p) \<and> length (pd_content p) \<le> 100000 \<and> pd_chat p \<noteq> [] \<and>
     (case pd_thread p of None \<Rightarrow> True | Some n \<Rightarrow> 0 < n) \<and> 0 < pd_message p \<and>
     (case pd_scope p of
        Personal_scope \<Rightarrow> pd_owner p \<noteq> None \<and> pd_group p = None \<and> pd_thread p = None
      | Family_scope \<Rightarrow> pd_owner p = None \<and> pd_group p \<noteq> None
      | Group_scope \<Rightarrow> pd_owner p = None \<and> pd_group p \<noteq> None \<and> pd_thread p = None)"

section \<open>Validation\<close>

record delivery_zone =
  dz_family :: string
  dz_group :: "string option"
  dz_thread :: "int option"
  dz_owner :: "string option"
  dz_scope :: memory_scope
  dz_chat :: string

record delivery_input = delivery_zone +
  di_content :: string
  di_delivered :: "int option"
  di_scheduled :: "int option"
  di_source :: string
  di_kind :: delivery_kind
  di_message :: string
  di_title :: "string option"

definition require_delivery_zone :: "'a delivery_zone_scheme \<Rightarrow> unit result" where
  "require_delivery_zone z =
     (let personal = dz_scope z = Personal_scope \<and> dz_owner z \<noteq> None \<and> dz_group z = None \<and> dz_thread z = None;
          family = dz_scope z = Family_scope \<and> dz_owner z = None \<and> dz_group z \<noteq> None;
          group' = dz_scope z = Group_scope \<and> dz_owner z = None \<and> dz_group z \<noteq> None \<and> dz_thread z = None
      in if \<not> personal \<and> \<not> family \<and> \<not> group' then Inl (AppError ''AGENT_PROACTIVE_DELIVERY_SCOPE_INVALID'')
         else Inr ())"

definition require_positive_bigint :: "string \<Rightarrow> string result" where
  "require_positive_bigint v =
     (if positive_bigint_pattern v then Inr v else Inl (AppError ''AGENT_PROACTIVE_DELIVERY_INVALID''))"

definition require_delivery :: "delivery_input \<Rightarrow> unit result" where
  "require_delivery i =
     res_bind (require_delivery_zone i) (\<lambda>_.
     res_bind (require_positive_bigint (di_message i)) (\<lambda>_.
       if js_trim (di_content i) = [] \<or> di_delivered i = None \<or> di_scheduled i = None
       then Inl (AppError ''AGENT_PROACTIVE_DELIVERY_INVALID'') else Inr ()))"

section \<open>Recording\<close>

definition max_bigint :: int where "max_bigint = 9223372036854775807"

definition delivery_row :: "int \<Rightarrow> delivery_input \<Rightarrow> proactive_delivery" where
  "delivery_row seq i =
     \<lparr>pd_id = seq, pd_kind = di_kind i, pd_source = di_source i, pd_message = decimal_value (di_message i),
      pd_title = di_title i, pd_family = dz_family i, pd_owner = dz_owner i, pd_group = dz_group i,
      pd_scope = dz_scope i, pd_content = js_trim (di_content i), pd_scheduled = millis (the (di_scheduled i)),
      pd_delivered = millis (the (di_delivered i)), pd_chat = dz_chat i, pd_thread = dz_thread i\<rparr>"

definition same_receipt :: "proactive_delivery \<Rightarrow> proactive_delivery \<Rightarrow> bool" where
  "same_receipt p q \<longleftrightarrow> pd_kind p = pd_kind q \<and> pd_source p = pd_source q \<and> pd_message p = pd_message q"

definition record_proactive_delivery :: "delivery_input \<Rightarrow> delivery_journal \<Rightarrow> delivery_journal result" where
  "record_proactive_delivery i j =
     res_bind (require_delivery i) (\<lambda>_.
       let row = delivery_row (jn_last j + 1) i; j1 = j\<lparr>jn_last := jn_last j + 1\<rparr> in
       if max_bigint < pd_message row then Inl (PgError ''22003'')
       else if \<not> delivery_checks row then Inl (PgError ''23514'')
       else if exists_row (same_receipt row) (jn_rows j) then Inr j1
       else Inr (j1\<lparr>jn_rows := jn_rows j @ [row]\<rparr>))"

text \<open>After a recording the journal holds the receipt, and keeps what it held.\<close>

lemma recorded_delivery:
  assumes "record_proactive_delivery i j = Inr j'"
  shows "(\<exists>p\<in>set (jn_rows j'). same_receipt (delivery_row 0 i) p) \<and> set (jn_rows j) \<subseteq> set (jn_rows j')"
proof -
  let ?row = "delivery_row (jn_last j + 1) i"
  have same: "same_receipt ?row = same_receipt (delivery_row 0 i)"
    by (rule ext) (simp add: same_receipt_def delivery_row_def)
  obtain u where "require_delivery i = Inr u"
    using assms by (auto simp: record_proactive_delivery_def res_bind_Inr_iff)
  then show ?thesis
    using assms unfolding record_proactive_delivery_def Let_def same
    by (auto simp: same_receipt_def delivery_row_def split: if_splits)
qed

text \<open>Recording a receipt twice keeps one row: a replayed completion is harmless.\<close>

definition journal_ok :: "delivery_journal \<Rightarrow> bool" where
  "journal_ok j \<longleftrightarrow> delivery_rows.pk (jn_rows j) \<and> list_all delivery_checks (jn_rows j) \<and>
     (\<forall>p\<in>set (jn_rows j). pd_id p \<le> jn_last j) \<and>
     (\<forall>p\<in>set (jn_rows j). \<forall>q\<in>set (jn_rows j). same_receipt p q \<longrightarrow> p = q)"

lemma record_keeps_journal:
  assumes "journal_ok j" "record_proactive_delivery i j = Inr j'"
  shows "journal_ok j'"
proof -
  let ?row = "delivery_row (jn_last j + 1) i"
  let ?j = "j\<lparr>jn_last := jn_last j + 1\<rparr>"
  obtain u where u: "require_delivery i = Inr u"
    using assms by (auto simp: record_proactive_delivery_def res_bind_Inr_iff)
  have old: "pd_id p \<le> jn_last j" if "p \<in> set (jn_rows j)" for p using assms(1) that by (simp add: journal_ok_def)
  have cases: "j' = ?j \<or> delivery_checks ?row \<and> \<not> exists_row (same_receipt ?row) (jn_rows j) \<and> j' = ?j\<lparr>jn_rows := jn_rows j @ [?row]\<rparr>"
    using assms(2) u unfolding record_proactive_delivery_def Let_def by (auto split: if_splits)
  then show ?thesis
  proof
    assume "j' = ?j"
    with assms(1) old show ?thesis by (force simp: journal_ok_def)
  next
    assume new: "delivery_checks ?row \<and> \<not> exists_row (same_receipt ?row) (jn_rows j) \<and> j' = ?j\<lparr>jn_rows := jn_rows j @ [?row]\<rparr>"
    have "pd_id ?row = jn_last j + 1" by (simp add: delivery_row_def)
    then have "delivery_rows.pk (jn_rows j @ [?row])"
      using assms(1) old by (intro delivery_rows.pk_insert) (force simp: journal_ok_def)+
    moreover have "p = q" if "p \<in> set (jn_rows j')" "q \<in> set (jn_rows j')" "same_receipt p q" for p q
      using that new assms(1) by (auto simp: journal_ok_def same_receipt_def)
    ultimately show ?thesis
      using new assms(1) old \<open>pd_id ?row = jn_last j + 1\<close> by (force simp: journal_ok_def)
  qed
qed

end
