(* ===== verification/Family_Checks.thy ===== *)
theory Family_Checks
  imports Schema
begin

text \<open>
  agent/lib/family-repository-checks.ts: the checks a family repository repeats inside its own
  transaction. \<open>pg_timezone_names\<close> is the predicate \<open>known\<close>.
\<close>

definition require_current_membership :: "membership list \<Rightarrow> string \<Rightarrow> string \<Rightarrow> family_role result" where
  "require_current_membership ms family user =
     (case first_row (\<lambda>m. m_family m = family \<and> m_user m = user) ms of
        None \<Rightarrow> Inl (AppError ''AGENT_ACCESS_DENIED'')
      | Some m \<Rightarrow> Inr (m_role m))"

definition require_timezone :: "(string \<Rightarrow> bool) \<Rightarrow> string \<Rightarrow> string result" where
  "require_timezone known timezone =
     (if known timezone then Inr timezone else Inl (AppError ''AGENT_TIMEZONE_INVALID''))"

definition lock_current_owner :: "membership list \<Rightarrow> string \<Rightarrow> string \<Rightarrow> bool" where
  "lock_current_owner ms family user \<longleftrightarrow>
     row_count (\<lambda>m. m_family m = family \<and> m_user m = user \<and> m_role m = Owner_role) ms = 1"

definition require_locked_owner :: "membership list \<Rightarrow> string \<Rightarrow> string \<Rightarrow> unit result" where
  "require_locked_owner ms family user =
     (if lock_current_owner ms family user then Inr () else Inl (AppError ''AGENT_OWNER_REQUIRED''))"

lemma require_current_membership_Inr:
  "require_current_membership ms family user = Inr role \<Longrightarrow>
     \<exists>m\<in>set ms. m_family m = family \<and> m_user m = user \<and> m_role m = role"
  by (auto simp: require_current_membership_def split: option.splits dest!: first_row_Some)

lemma require_current_membership_Inl:
  "require_current_membership ms family user = Inl e \<Longrightarrow>
     e = AppError ''AGENT_ACCESS_DENIED'' \<and> (\<forall>m\<in>set ms. m_family m = family \<longrightarrow> m_user m \<noteq> user)"
  by (auto simp: require_current_membership_def first_row_None_iff split: option.splits)

lemma lock_current_owner_is_owner:
  "lock_current_owner ms family user \<Longrightarrow>
     \<exists>m\<in>set ms. m_family m = family \<and> m_user m = user \<and> m_role m = Owner_role"
proof (rule ccontr)
  assume owner: "lock_current_owner ms family user"
    and none: "\<not> (\<exists>m\<in>set ms. m_family m = family \<and> m_user m = user \<and> m_role m = Owner_role)"
  from none have "row_count (\<lambda>m. m_family m = family \<and> m_user m = user \<and> m_role m = Owner_role) ms = 0"
    by (auto simp: row_count_0_iff)
  with owner show False by (simp add: lock_current_owner_def)
qed

end
