(* ===== verification/Session_Values.thy ===== *)
theory Session_Values
  imports Family_Checks
begin

text \<open>
  What the repositories behind the tools read from the session of a turn, and the conversions at their
  database boundary.
\<close>

definition text_attribute :: "jobj \<Rightarrow> string \<Rightarrow> string option" where
  "text_attribute attributes key = (case member_of attributes key of Some (JStr s) \<Rightarrow> Some s | _ \<Rightarrow> None)"

text \<open>The caller of a turn, as Eve carries it in the session.\<close>

record caller =
  ca_attributes :: jobj
  ca_authenticator :: string
  ca_principal :: string
  ca_principal_type :: string

text \<open>\<open>pg\<close> reads a \<open>timestamptz\<close> into a date, which keeps milliseconds.\<close>

definition to_date :: "time \<Rightarrow> int" where "to_date t = t div 1000"

text \<open>\<open>$9::bigint\<close> on the ids Telegram sends: decimal digits.\<close>

definition bigint_cast :: "string option \<Rightarrow> int option result" where
  "bigint_cast v =
     (case v of
        None \<Rightarrow> Inr None
      | Some s \<Rightarrow> if s \<noteq> [] \<and> list_all ascii_digit s then Inr (Some (decimal_value s)) else Inl (PgError ''22P02''))"

end
