(* ===== verification/Reminders.thy ===== *)
theory Reminders
  imports Recurrence Proactive_Deliveries Session_Values
begin

text \<open>
  agent/lib/reminders: the reminder tables (migrations 009, 030, 033, 103), input validation, and the
  repository behind the reminder tools: notification settings and replay-safe create, list, update
  and delete. A JavaScript date is its milliseconds, or \<open>None\<close> for an invalid one.
\<close>

section \<open>Tables\<close>

datatype reminder_scope = Personal_reminder | Family_reminder

datatype reminder_status = R_active | R_paused | R_leased | R_completed | R_failed

record reminder =
  rm_id :: string
  rm_family :: string
  rm_owner :: "string option"
  rm_author :: string
  rm_group :: "string option"
  rm_scope :: reminder_scope
  rm_content :: string
  rm_timezone :: string
  rm_chat :: string
  rm_thread :: "int option"
  rm_topic :: "int option"
  rm_unit :: "recurrence_unit option"
  rm_interval :: "int option"
  rm_anchor_local :: int
  rm_anchor_at :: "time option"
  rm_occurrence :: int
  rm_due :: time
  rm_available :: time
  rm_delayed :: bool
  rm_status :: reminder_status
  rm_attempts :: int
  rm_lease :: "string option"
  rm_lease_until :: "time option"
  rm_dispatch :: "time option"
  rm_error :: "string option"
  rm_created :: time
  rm_updated :: time

record notification_settings =
  ns_user :: string
  ns_timezone :: string
  ns_start :: "int option"
  ns_end :: "int option"

datatype operation_kind = Create_operation | Update_operation | Delete_operation

record reminder_operation =
  ro_family :: string
  ro_key :: string
  ro_kind :: operation_kind
  ro_hash :: string
  ro_reminder :: "string option"

datatype audit_event =
    Notifications_configured string string string bool
  | Reminder_created string string string
  | Reminder_updated string string string
  | Reminder_deleted string string string
  | Reminder_delivered string string bool
  | Reminder_delivery_failed string string string

record reminder_db =
  rd_reminders :: "reminder list"
  rd_operations :: "reminder_operation list"
  rd_settings :: "notification_settings list"
  rd_memberships :: "membership list"
  rd_groups :: "telegram_group list"
  rd_deliveries :: delivery_journal
  rd_audit :: "audit_event list"

interpretation reminder_rows: keyed_table rm_id .

text \<open>The \<open>CHECK\<close> constraints of \<open>reminders\<close>.\<close>

definition reminder_checks :: "reminder \<Rightarrow> bool" where
  "reminder_checks r \<longleftrightarrow>
     1 \<le> length (rm_content r) \<and> length (rm_content r) \<le> 1000 \<and>
     (case rm_thread r of None \<Rightarrow> True | Some n \<Rightarrow> 0 < n) \<and> (case rm_topic r of None \<Rightarrow> True | Some n \<Rightarrow> 0 < n) \<and>
     (case rm_interval r of None \<Rightarrow> True | Some n \<Rightarrow> 1 \<le> n \<and> n \<le> 365) \<and> 0 \<le> rm_occurrence r \<and> 0 \<le> rm_attempts r \<and>
     (case rm_scope r of
        Personal_reminder \<Rightarrow> rm_owner r \<noteq> None \<and> rm_group r = None \<and> rm_thread r = None
      | Family_reminder \<Rightarrow> rm_owner r = None \<and> rm_group r \<noteq> None) \<and>
     (rm_unit r = None \<longleftrightarrow> rm_interval r = None) \<and>
     (if rm_status r = R_leased then rm_lease r \<noteq> None \<and> rm_lease_until r \<noteq> None
      else rm_lease r = None \<and> rm_lease_until r = None \<and> rm_dispatch r = None) \<and>
     (rm_unit r \<in> {Some Minutely, Some Hourly} \<longrightarrow> rm_anchor_at r \<noteq> None)"

definition recurrence_of :: "reminder \<Rightarrow> recurrence_source" where
  "recurrence_of r =
     \<lparr>rs_unit = rm_unit r, rs_every = rm_interval r, rs_anchor_local = rm_anchor_local r,
      rs_anchor_at = rm_anchor_at r, rs_timezone = rm_timezone r, rs_index = rm_occurrence r\<rparr>"

section \<open>Inputs\<close>

record reminder_auth =
  au_family :: string
  au_topic :: "string option"
  au_group :: "string option"
  au_family_group :: bool
  au_thread :: "string option"
  au_role :: string
  au_chat :: string
  au_chat_type :: string
  au_user :: string

record recurrence_input =
  rc_unit :: string
  rc_interval :: js_number

record notification_input =
  ni_end :: "string option"
  ni_start :: "string option"
  ni_timezone :: string

record create_input =
  cr_content :: string
  cr_first :: "int option"
  cr_key :: string
  cr_recurrence :: "recurrence_input option"
  cr_scope :: reminder_scope
  cr_timezone :: string

text \<open>Absent members of the update are \<open>None\<close>; a recurrence of \<open>null\<close> is \<open>Some None\<close>.\<close>

record update_input =
  up_content :: "string option"
  up_enabled :: "bool option"
  up_first :: "int option option"
  up_key :: string
  up_recurrence :: "recurrence_input option option"

datatype operation_fingerprint =
    Create_fingerprint create_input
  | Update_fingerprint update_input
  | Delete_fingerprint string

section \<open>Authorization from the session\<close>

definition require_reminder_authorization :: "caller option \<Rightarrow> reminder_auth result" where
  "require_reminder_authorization c =
     (case c of
        None \<Rightarrow> Inl (AppError ''AGENT_REMINDER_CONTEXT_INVALID'')
      | Some caller \<Rightarrow>
          (let attributes = ca_attributes caller in
           case (text_attribute attributes ''familyId'', text_attribute attributes ''telegramChatId'',
                 text_attribute attributes ''telegramChatType'', text_attribute attributes ''role'') of
             (Some family, Some chat, Some chat_type, Some role) \<Rightarrow>
               if ca_principal_type caller \<noteq> ''user'' \<or> ca_authenticator caller \<noteq> ''telegram'' \<or>
                  chat_type \<notin> {''group'', ''private'', ''supergroup''} \<or> role \<notin> {''member'', ''owner'', ''recovery_owner''}
               then Inl (AppError ''AGENT_REMINDER_CONTEXT_INVALID'')
               else Inr \<lparr>au_family = family, au_topic = text_attribute attributes ''telegramForumTopicId'',
                  au_group = text_attribute attributes ''groupId'',
                  au_family_group = (text_attribute attributes ''groupType'' = Some ''family_private''),
                  au_thread = text_attribute attributes ''telegramMessageThreadId'', au_role = role,
                  au_chat = chat, au_chat_type = chat_type, au_user = ca_principal caller\<rparr>
           | _ \<Rightarrow> Inl (AppError ''AGENT_REMINDER_CONTEXT_INVALID'')))"

section \<open>Validation\<close>

definition content_max_length :: nat where "content_max_length = 1000"

definition list_max_limit :: int where "list_max_limit = 100"

definition recurrence_interval_max :: int where "recurrence_interval_max = 365"

definition recurrence_units :: "recurrence_unit list" where
  "recurrence_units = [Daily, Weekly, Monthly, Minutely, Hourly, Yearly]"

definition unit_of_text :: "string \<Rightarrow> recurrence_unit option" where
  "unit_of_text s = first_row (\<lambda>u. unit_text u = s) recurrence_units"

definition time_pattern :: "string \<Rightarrow> bool" where
  "time_pattern s \<longleftrightarrow>
     (case s of
        [a, b, c, d, e] \<Rightarrow>
          ((a = CHR ''0'' \<or> a = CHR ''1'') \<and> ascii_digit b \<or> a = CHR ''2'' \<and> CHR ''0'' \<le> b \<and> b \<le> CHR ''3'') \<and>
          c = CHR '':'' \<and> CHR ''0'' \<le> d \<and> d \<le> CHR ''5'' \<and> ascii_digit e
      | _ \<Rightarrow> False)"

definition require_reminder_date :: "int option \<Rightarrow> int result" where
  "require_reminder_date v = (case v of None \<Rightarrow> Inl (AppError ''AGENT_REMINDER_TIME_INVALID'') | Some t \<Rightarrow> Inr t)"

definition require_reminder_content :: "string \<Rightarrow> string result" where
  "require_reminder_content v =
     (let content = js_trim v
      in if content = [] \<or> content_max_length < length content then Inl (AppError ''AGENT_REMINDER_CONTENT_INVALID'')
         else Inr content)"

definition require_reminder_recurrence :: "recurrence_input option \<Rightarrow> (recurrence_unit \<times> int) option result" where
  "require_reminder_recurrence v =
     (case v of
        None \<Rightarrow> Inr None
      | Some r \<Rightarrow>
          (case unit_of_text (rc_unit r) of
             None \<Rightarrow> Inl (AppError ''AGENT_REMINDER_RECURRENCE_INVALID'')
           | Some u \<Rightarrow>
               if \<not> is_integer (rc_interval r) \<or> number_value (rc_interval r) < 1 \<or>
                  recurrence_interval_max < number_value (rc_interval r)
               then Inl (AppError ''AGENT_REMINDER_RECURRENCE_INVALID'')
               else Inr (Some (u, number_value (rc_interval r)))))"

definition require_quiet_hours :: "notification_input \<Rightarrow> unit result" where
  "require_quiet_hours i =
     (let both_absent = ni_start i = None \<and> ni_end i = None;
          both_valid = (case (ni_start i, ni_end i) of
            (Some a, Some b) \<Rightarrow> time_pattern a \<and> time_pattern b \<and> a \<noteq> b | _ \<Rightarrow> False)
      in if \<not> both_absent \<and> \<not> both_valid then Inl (AppError ''AGENT_QUIET_HOURS_INVALID'') else Inr ())"

text \<open>\<open>'HH:MM'::time\<close> and \<open>to_char(..., 'HH24:MI')\<close>, a time of day in microseconds.\<close>

definition minute_us :: int where "minute_us = 60000000"

definition clock_value :: "string \<Rightarrow> int" where
  "clock_value s = (decimal_value (take 2 s) * 60 + decimal_value (drop 3 s)) * minute_us"

definition two_digits :: "int \<Rightarrow> string" where
  "two_digits n = [digit_char (nat n div 10), digit_char (nat n mod 10)]"

definition clock_text :: "int \<Rightarrow> string" where
  "clock_text t = two_digits (t div minute_us div 60) @ '':'' @ two_digits (t div minute_us mod 60)"

section \<open>Notification settings\<close>

definition configure_notifications ::
  "pg_calendar \<Rightarrow> reminder_auth \<Rightarrow> notification_input \<Rightarrow> reminder_db \<Rightarrow> notification_input result \<times> reminder_db" where
  "configure_notifications cal auth i =
     when_valid (require_quiet_hours i) (\<lambda>_. run_tx (\<lambda>d.
       case require_current_membership (rd_memberships d) (au_family auth) (au_user auth) of
         Inl e \<Rightarrow> Throw e
       | Inr _ \<Rightarrow>
           (case require_timezone (cal_known cal) (ni_timezone i) of
              Inl e \<Rightarrow> Throw e
            | Inr timezone \<Rightarrow>
                (let row = \<lparr>ns_user = au_user auth, ns_timezone = timezone,
                       ns_start = map_option clock_value (ni_start i), ns_end = map_option clock_value (ni_end i)\<rparr>;
                     rows = (if exists_row (\<lambda>s. ns_user s = au_user auth) (rd_settings d)
                       then update_where (\<lambda>s. ns_user s = au_user auth) (\<lambda>_. row) (rd_settings d)
                       else rd_settings d @ [row])
                 in Commit (i\<lparr>ni_timezone := timezone\<rparr>)
                      (d\<lparr>rd_settings := rows, rd_audit := rd_audit d @
                          [Notifications_configured (au_family auth) (au_user auth) timezone (ni_start i \<noteq> None)]\<rparr>)))))"

definition get_notification_settings :: "reminder_auth \<Rightarrow> reminder_db \<Rightarrow> notification_input result" where
  "get_notification_settings auth d =
     (case first_row (\<lambda>s. ns_user s = au_user auth \<and>
         exists_row (\<lambda>m. m_user m = ns_user s \<and> m_family m = au_family auth) (rd_memberships d)) (rd_settings d) of
        None \<Rightarrow> Inl (AppError ''AGENT_NOTIFICATION_SETTINGS_REQUIRED'')
      | Some s \<Rightarrow> Inr \<lparr>ni_end = map_option clock_text (ns_end s), ni_start = map_option clock_text (ns_start s),
                       ni_timezone = ns_timezone s\<rparr>)"

section \<open>Records for the model\<close>

record reminder_record =
  rr_content :: string
  rr_created :: int
  rr_id :: string
  rr_error :: "string option"
  rr_thread :: "int option"
  rr_next :: int
  rr_recurrence :: "(recurrence_unit \<times> int) option"
  rr_scope :: reminder_scope
  rr_status :: reminder_status
  rr_timezone :: string
  rr_updated :: int

text \<open>\<open>recurrence_unit && recurrence_interval\<close>: an interval of 0 counts as absent.\<close>

definition recurrence_pair :: "reminder \<Rightarrow> (recurrence_unit \<times> int) option" where
  "recurrence_pair r =
     (case (rm_unit r, rm_interval r) of (Some u, Some n) \<Rightarrow> if n \<noteq> 0 then Some (u, n) else None | _ \<Rightarrow> None)"

definition row_to_reminder :: "reminder \<Rightarrow> reminder_record" where
  "row_to_reminder r =
     \<lparr>rr_content = rm_content r, rr_created = to_date (rm_created r), rr_id = rm_id r, rr_error = rm_error r,
      rr_thread = rm_thread r, rr_next = to_date (rm_due r), rr_recurrence = recurrence_pair r,
      rr_scope = rm_scope r, rr_status = rm_status r, rr_timezone = rm_timezone r, rr_updated = to_date (rm_updated r)\<rparr>"

section \<open>Replay and access\<close>

text \<open>\<open>undefined\<close> is \<open>None\<close>; a replayed operation whose reminder was deleted since is \<open>Some None\<close>.\<close>

definition find_reminder_operation ::
  "string \<Rightarrow> string \<Rightarrow> operation_kind \<Rightarrow> string \<Rightarrow> reminder_db \<Rightarrow> string option option result" where
  "find_reminder_operation family key kind input_hash d =
     (case first_row (\<lambda>p. ro_family p = family \<and> ro_key p = key) (rd_operations d) of
        None \<Rightarrow> Inr None
      | Some p \<Rightarrow>
          if ro_kind p \<noteq> kind \<or> ro_hash p \<noteq> input_hash then Inl (AppError ''AGENT_REMINDER_OPERATION_CONFLICT'')
          else Inr (Some (ro_reminder p)))"

definition select_reminder :: "string \<Rightarrow> string \<Rightarrow> reminder_db \<Rightarrow> reminder option" where
  "select_reminder family rid d = first_row (\<lambda>r. rm_family r = family \<and> rm_id r = rid) (rd_reminders d)"

definition reminder_visible_in_chat :: "string \<Rightarrow> reminder_scope \<Rightarrow> bool" where
  "reminder_visible_in_chat chat_type scope \<longleftrightarrow> scope \<noteq> Personal_reminder \<or> chat_type = ''private''"

definition require_reminder_mutation_access :: "reminder_auth \<Rightarrow> reminder \<Rightarrow> reminder_db \<Rightarrow> unit result" where
  "require_reminder_mutation_access auth r d =
     (if \<not> reminder_visible_in_chat (au_chat_type auth) (rm_scope r)
      then Inl (AppError ''AGENT_REMINDER_NOT_FOUND'')
      else res_bind (require_current_membership (rd_memberships d) (au_family auth) (au_user auth))
        (\<lambda>role.
           let author = rm_author r = au_user auth;
               allowed = (if rm_scope r = Personal_reminder then author else author \<or> role = Owner_role)
           in if \<not> allowed then Inl (AppError ''AGENT_REMINDER_MUTATION_DENIED'') else Inr ()))"

definition record_operation :: "reminder_operation \<Rightarrow> audit_event \<Rightarrow> reminder_db \<Rightarrow> reminder_db" where
  "record_operation p event d = d\<lparr>rd_operations := rd_operations d @ [p], rd_audit := rd_audit d @ [event]\<rparr>"

section \<open>Create\<close>

definition new_reminder ::
  "pg_calendar \<Rightarrow> string \<Rightarrow> reminder_auth \<Rightarrow> create_input \<Rightarrow> string \<Rightarrow> int \<Rightarrow> (recurrence_unit \<times> int) option
     \<Rightarrow> string \<Rightarrow> int option \<Rightarrow> int option \<Rightarrow> time \<Rightarrow> reminder" where
  "new_reminder cal uuid auth i content first recurrence timezone thread topic now =
     (let personal = cr_scope i = Personal_reminder in
      \<lparr>rm_id = uuid, rm_family = au_family auth, rm_owner = (if personal then Some (au_user auth) else None),
       rm_author = au_user auth, rm_group = (if personal then None else au_group auth), rm_scope = cr_scope i,
       rm_content = content, rm_timezone = timezone, rm_chat = au_chat auth, rm_thread = thread, rm_topic = topic,
       rm_unit = map_option fst recurrence, rm_interval = map_option snd recurrence,
       rm_anchor_local = cal_local cal timezone (millis first), rm_anchor_at = Some (millis first),
       rm_occurrence = 0, rm_due = millis first, rm_available = millis first, rm_delayed = False,
       rm_status = R_active, rm_attempts = 0, rm_lease = None, rm_lease_until = None, rm_dispatch = None,
       rm_error = None, rm_created = now, rm_updated = now\<rparr>)"

definition require_destination :: "reminder_auth \<Rightarrow> create_input \<Rightarrow> string \<Rightarrow> reminder_db \<Rightarrow> unit result" where
  "require_destination auth i timezone d =
     (if cr_timezone i \<noteq> timezone then Inl (AppError ''AGENT_REMINDER_TIMEZONE_MISMATCH'')
      else if cr_scope i = Personal_reminder \<and> au_chat_type auth \<noteq> ''private''
        then Inl (AppError ''AGENT_REMINDER_DESTINATION_INVALID'')
      else if cr_scope i \<noteq> Personal_reminder \<and>
              (\<not> au_family_group auth \<or> au_group auth = None \<or> au_group auth = Some [])
        then Inl (AppError ''AGENT_REMINDER_DESTINATION_INVALID'')
      else if cr_scope i \<noteq> Personal_reminder \<and>
              \<not> exists_row (\<lambda>g. Some (g_id g) = au_group auth \<and> g_family g = au_family auth \<and>
                  g_chat_id g = au_chat auth \<and> g_type g = Family_private) (rd_groups d)
        then Inl (AppError ''AGENT_REMINDER_DESTINATION_INVALID'')
      else Inr ())"

definition setting_timezone :: "string \<Rightarrow> reminder_db \<Rightarrow> string option" where
  "setting_timezone user d =
     (case first_row (\<lambda>s. ns_user s = user) (rd_settings d) of
        None \<Rightarrow> None
      | Some s \<Rightarrow> if ns_timezone s = [] then None else Some (ns_timezone s))"

definition insert_reminder ::
  "pg_calendar \<Rightarrow> string \<Rightarrow> reminder_auth \<Rightarrow> create_input \<Rightarrow> string \<Rightarrow> int \<Rightarrow> (recurrence_unit \<times> int) option
     \<Rightarrow> string \<Rightarrow> string \<Rightarrow> time \<Rightarrow> reminder_db \<Rightarrow> (reminder_record, reminder_db) tx" where
  "insert_reminder cal uuid auth i content first recurrence timezone input_hash now d =
     (let personal = cr_scope i = Personal_reminder in
      case (bigint_cast (if personal then None else au_thread auth), bigint_cast (if personal then None else au_topic auth)) of
        (Inl e, _) \<Rightarrow> Throw e
      | (_, Inl e) \<Rightarrow> Throw e
      | (Inr thread, Inr topic) \<Rightarrow>
          (let row = new_reminder cal uuid auth i content first recurrence timezone thread topic now in
           if \<not> reminder_checks row then Throw (PgError ''23514'')
           else if exists_row (\<lambda>r. rm_id r = uuid) (rd_reminders d) then Throw (PgError ''23505'')
           else Commit (row_to_reminder row)
             (record_operation
                \<lparr>ro_family = au_family auth, ro_key = cr_key i, ro_kind = Create_operation, ro_hash = input_hash,
                 ro_reminder = Some uuid\<rparr>
                (Reminder_created (au_family auth) (au_user auth) uuid)
                (d\<lparr>rd_reminders := rd_reminders d @ [row]\<rparr>))))"

definition create_body ::
  "pg_calendar \<Rightarrow> string \<Rightarrow> reminder_auth \<Rightarrow> create_input \<Rightarrow> string \<Rightarrow> int \<Rightarrow> (recurrence_unit \<times> int) option
     \<Rightarrow> string \<Rightarrow> time \<Rightarrow> reminder_db \<Rightarrow> (reminder_record, reminder_db) tx" where
  "create_body cal uuid auth i content first recurrence input_hash now d =
     (case require_current_membership (rd_memberships d) (au_family auth) (au_user auth) of
        Inl e \<Rightarrow> Throw e
      | Inr _ \<Rightarrow>
          (case find_reminder_operation (au_family auth) (cr_key i) Create_operation input_hash d of
             Inl e \<Rightarrow> Throw e
           | Inr (Some None) \<Rightarrow> Throw (AppError ''AGENT_REMINDER_ALREADY_DELETED'')
           | Inr (Some (Some rid)) \<Rightarrow>
               (case select_reminder (au_family auth) rid d of
                  None \<Rightarrow> Throw (AppError ''AGENT_REMINDER_NOT_FOUND'')
                | Some r \<Rightarrow> Commit (row_to_reminder r) d)
           | Inr None \<Rightarrow>
               (case setting_timezone (au_user auth) d of
                  None \<Rightarrow> Throw (AppError ''AGENT_NOTIFICATION_SETTINGS_REQUIRED'')
                | Some timezone \<Rightarrow>
                    (case require_destination auth i timezone d of
                       Inl e \<Rightarrow> Throw e
                     | Inr _ \<Rightarrow> insert_reminder cal uuid auth i content first recurrence timezone input_hash now d))))"

definition create_values :: "create_input \<Rightarrow> (string \<times> int \<times> (recurrence_unit \<times> int) option) result" where
  "create_values i =
     res_bind (require_reminder_content (cr_content i)) (\<lambda>content.
     res_bind (require_reminder_date (cr_first i)) (\<lambda>first.
     res_bind (require_reminder_recurrence (cr_recurrence i)) (\<lambda>recurrence. Inr (content, first, recurrence))))"

definition create ::
  "(operation_fingerprint \<Rightarrow> string) \<Rightarrow> pg_calendar \<Rightarrow> string \<Rightarrow> reminder_auth \<Rightarrow> create_input \<Rightarrow> time
     \<Rightarrow> reminder_db \<Rightarrow> reminder_record result \<times> reminder_db" where
  "create hash cal uuid auth i now =
     when_valid (create_values i) (\<lambda>(content, first, recurrence).
       run_tx (create_body cal uuid auth i content first recurrence
         (hash (Create_fingerprint (i\<lparr>cr_content := content\<rparr>))) now))"

section \<open>List\<close>

definition listed :: "reminder_auth \<Rightarrow> reminder_db \<Rightarrow> reminder \<Rightarrow> bool" where
  "listed auth d r \<longleftrightarrow>
     rm_family r = au_family auth \<and>
     exists_row (\<lambda>m. m_family m = au_family auth \<and> m_user m = au_user auth) (rd_memberships d) \<and>
     (rm_scope r = Personal_reminder \<and> rm_owner r = Some (au_user auth) \<and> au_chat_type auth = ''private'' \<or>
      rm_scope r = Family_reminder)"

definition before_cursor :: "(string \<times> int) option \<Rightarrow> reminder \<Rightarrow> bool" where
  "before_cursor cursor r \<longleftrightarrow>
     (case cursor of None \<Rightarrow> True | Some (rid, since) \<Rightarrow> (rm_created r, rm_id r) < (millis since, rid))"

text \<open>\<open>ORDER BY created_at DESC, id DESC LIMIT n\<close>; the ids are unique, so the order is strict.\<close>

definition newest_first :: "reminder list \<Rightarrow> reminder list" where
  "newest_first rows = rev (sort_key (\<lambda>r. (rm_created r, rm_id r)) rows)"

record reminder_page =
  pg_items :: "reminder_record list"
  pg_next :: "string option"

definition list_page :: "date_codec \<Rightarrow> reminder list \<Rightarrow> nat \<Rightarrow> reminder_page" where
  "list_page dc found limit =
     (let rows = take limit found in
      \<lparr>pg_items = map row_to_reminder rows,
       pg_next = (if limit < length found \<and> rows \<noteq> []
         then Some (encode_date_uuid_cursor dc (to_date (rm_created (last rows))) (rm_id (last rows)) None) else None)\<rparr>)"

definition list_reminders ::
  "date_codec \<Rightarrow> reminder_auth \<Rightarrow> string option \<Rightarrow> js_number \<Rightarrow> reminder_db \<Rightarrow> reminder_page result" where
  "list_reminders dc auth cursor limit d =
     (if \<not> is_integer limit \<or> number_value limit < 1 \<or> list_max_limit < number_value limit
      then Inl (AppError ''AGENT_REMINDER_LIMIT_INVALID'')
      else res_bind (decode_date_uuid_cursor dc cursor ''AGENT_REMINDER_CURSOR_INVALID'' None) (\<lambda>after.
        let n = nat (number_value limit);
            found = take (Suc n) (newest_first (filter (\<lambda>r. listed auth d r \<and> before_cursor after r) (rd_reminders d)))
        in Inr (list_page dc found n)))"

section \<open>Update and delete\<close>

record mutation_values =
  mv_content :: "string option"
  mv_enabled :: "bool option"
  mv_first :: "int option"
  mv_recurrence :: "(recurrence_unit \<times> int) option option"

definition updated_reminder :: "pg_calendar \<Rightarrow> mutation_values \<Rightarrow> time \<Rightarrow> reminder \<Rightarrow> reminder" where
  "updated_reminder cal v now r =
     (let changed = mv_first v \<noteq> None \<or> mv_recurrence v \<noteq> None;
          next_due = millis (case mv_first v of Some t \<Rightarrow> t | None \<Rightarrow> to_date (rm_due r));
          recurrence = (case mv_recurrence v of None \<Rightarrow> recurrence_pair r | Some x \<Rightarrow> x);
          restarted = changed \<or> mv_enabled v = Some True in
      r\<lparr>rm_content := (case mv_content v of None \<Rightarrow> rm_content r | Some c \<Rightarrow> c),
        rm_unit := map_option fst recurrence,
        rm_interval := map_option snd recurrence,
        rm_anchor_local := (if changed then cal_local cal (rm_timezone r) next_due else rm_anchor_local r),
        rm_anchor_at := (if changed then Some next_due else rm_anchor_at r),
        rm_occurrence := (if changed then 0 else rm_occurrence r),
        rm_due := (if changed then next_due else rm_due r),
        rm_available := (if changed then next_due else rm_available r),
        rm_delayed := (if changed then False else rm_delayed r),
        rm_status := (if mv_enabled v = Some False then R_paused
                      else if mv_enabled v = Some True then R_active else rm_status r),
        rm_attempts := (if restarted then 0 else rm_attempts r),
        rm_error := (if restarted then None else rm_error r),
        rm_updated := now\<rparr>)"

definition apply_reminder_update ::
  "pg_calendar \<Rightarrow> reminder \<Rightarrow> mutation_values \<Rightarrow> time \<Rightarrow> reminder_db \<Rightarrow> (reminder \<times> reminder_db) result" where
  "apply_reminder_update cal r v now d =
     (if rm_status r = R_leased then Inl (AppError ''AGENT_REMINDER_DELIVERY_IN_PROGRESS'')
      else if mv_enabled v = Some True \<and> rm_status r = R_completed \<and> mv_first v = None
        then Inl (AppError ''AGENT_REMINDER_TIME_REQUIRED'')
      else (let row = updated_reminder cal v now r in
        if \<not> reminder_checks row then Inl (PgError ''23514'')
        else Inr (row, d\<lparr>rd_reminders := update_where (\<lambda>x. rm_id x = rm_id r) (\<lambda>_. row) (rd_reminders d)\<rparr>)))"

definition update_values :: "update_input \<Rightarrow> mutation_values result" where
  "update_values i =
     (if up_content i = None \<and> up_enabled i = None \<and> up_first i = None \<and> up_recurrence i = None
      then Inl (AppError ''AGENT_REMINDER_UPDATE_INVALID'')
      else res_bind (case up_content i of None \<Rightarrow> Inr None
             | Some c \<Rightarrow> res_bind (require_reminder_content c) (\<lambda>x. Inr (Some x))) (\<lambda>content.
           res_bind (case up_first i of None \<Rightarrow> Inr None
             | Some t \<Rightarrow> res_bind (require_reminder_date t) (\<lambda>x. Inr (Some x))) (\<lambda>first.
           res_bind (case up_recurrence i of None \<Rightarrow> Inr None
             | Some x \<Rightarrow> res_bind (require_reminder_recurrence x) (\<lambda>y. Inr (Some y))) (\<lambda>recurrence.
           Inr \<lparr>mv_content = content, mv_enabled = up_enabled i, mv_first = first, mv_recurrence = recurrence\<rparr>))))"

definition update_row ::
  "pg_calendar \<Rightarrow> reminder_auth \<Rightarrow> string \<Rightarrow> update_input \<Rightarrow> mutation_values \<Rightarrow> string \<Rightarrow> time
     \<Rightarrow> reminder_db \<Rightarrow> (reminder_record, reminder_db) tx" where
  "update_row cal auth rid i v input_hash now d =
     (case select_reminder (au_family auth) rid d of
        None \<Rightarrow> Throw (AppError ''AGENT_REMINDER_NOT_FOUND'')
      | Some r \<Rightarrow>
          (case require_reminder_mutation_access auth r d of
             Inl e \<Rightarrow> Throw e
           | Inr _ \<Rightarrow>
               (case apply_reminder_update cal r v now d of
                  Inl e \<Rightarrow> Throw e
                | Inr (row, d1) \<Rightarrow>
                    if exists_row (\<lambda>p. ro_family p = au_family auth \<and> ro_key p = up_key i) (rd_operations d1)
                    then Throw (PgError ''23505'')
                    else Commit (row_to_reminder row)
                      (record_operation
                         \<lparr>ro_family = au_family auth, ro_key = up_key i, ro_kind = Update_operation,
                          ro_hash = input_hash, ro_reminder = Some rid\<rparr>
                         (Reminder_updated (au_family auth) (au_user auth) rid) d1))))"

definition update_body ::
  "pg_calendar \<Rightarrow> reminder_auth \<Rightarrow> string \<Rightarrow> update_input \<Rightarrow> mutation_values \<Rightarrow> string \<Rightarrow> time
     \<Rightarrow> reminder_db \<Rightarrow> (reminder_record, reminder_db) tx" where
  "update_body cal auth rid i v input_hash now d =
     (case find_reminder_operation (au_family auth) (up_key i) Update_operation input_hash d of
        Inl e \<Rightarrow> Throw e
      | Inr (Some (Some replay)) \<Rightarrow>
          (case select_reminder (au_family auth) replay d of
             None \<Rightarrow> Throw (AppError ''AGENT_REMINDER_NOT_FOUND'')
           | Some r \<Rightarrow> Commit (row_to_reminder r) d)
      | Inr _ \<Rightarrow> update_row cal auth rid i v input_hash now d)"

definition fingerprint_of_update :: "update_input \<Rightarrow> mutation_values \<Rightarrow> operation_fingerprint" where
  "fingerprint_of_update i v = Update_fingerprint (i\<lparr>up_content := mv_content v\<rparr>)"

definition update ::
  "(operation_fingerprint \<Rightarrow> string) \<Rightarrow> pg_calendar \<Rightarrow> reminder_auth \<Rightarrow> string \<Rightarrow> update_input \<Rightarrow> time
     \<Rightarrow> reminder_db \<Rightarrow> reminder_record result \<times> reminder_db" where
  "update hash cal auth rid i now =
     when_valid (update_values i) (\<lambda>v. run_tx (update_body cal auth rid i v (hash (fingerprint_of_update i v)) now))"

definition delete_body ::
  "reminder_auth \<Rightarrow> string \<Rightarrow> string \<Rightarrow> string \<Rightarrow> reminder_db \<Rightarrow> (bool, reminder_db) tx" where
  "delete_body auth rid key input_hash d =
     (case find_reminder_operation (au_family auth) key Delete_operation input_hash d of
        Inl e \<Rightarrow> Throw e
      | Inr (Some _) \<Rightarrow> Commit True d
      | Inr None \<Rightarrow>
          (case select_reminder (au_family auth) rid d of
             None \<Rightarrow> Throw (AppError ''AGENT_REMINDER_NOT_FOUND'')
           | Some r \<Rightarrow>
               (case require_reminder_mutation_access auth r d of
                  Inl e \<Rightarrow> Throw e
                | Inr _ \<Rightarrow>
                    if rm_status r = R_leased then Throw (AppError ''AGENT_REMINDER_DELIVERY_IN_PROGRESS'')
                    else (let d1 = record_operation
                            \<lparr>ro_family = au_family auth, ro_key = key, ro_kind = Delete_operation,
                             ro_hash = input_hash, ro_reminder = Some rid\<rparr>
                            (Reminder_deleted (au_family auth) (au_user auth) rid) d
                      in Commit True (d1\<lparr>
                           rd_operations := update_where (\<lambda>p. ro_reminder p = Some rid)
                             (\<lambda>p. p\<lparr>ro_reminder := None\<rparr>) (rd_operations d1),
                           rd_reminders := delete_where (\<lambda>r. rm_id r = rid) (rd_reminders d1)\<rparr>)))))"

definition delete ::
  "(operation_fingerprint \<Rightarrow> string) \<Rightarrow> reminder_auth \<Rightarrow> string \<Rightarrow> string \<Rightarrow> reminder_db \<Rightarrow> bool result \<times> reminder_db" where
  "delete hash auth rid key = run_tx (delete_body auth rid key (hash (Delete_fingerprint rid)))"

end
