(* ===== verification/Reminder_Dispatch.thy ===== *)
theory Reminder_Dispatch
  imports Reminders Lease
begin

text \<open>
  agent/lib/reminders/reminder-dispatch-repository.ts and reminder-dispatcher.ts: the minute dispatcher.
  It recovers expired leases, defers reminders of people in quiet hours, leases what is due, writes a
  marker before each Telegram call, and settles the row after it. Telegram is a parameter.
\<close>

definition dispatch_batch_size :: int where "dispatch_batch_size = 25"

definition dispatch_lease_ms :: int where "dispatch_lease_ms = 5 * 60000"

definition late_after_ms :: int where "late_after_ms = 90000"

definition max_safe_attempts :: int where "max_safe_attempts = 3"

record claimed_reminder =
  cj_content :: string
  cj_delayed :: bool
  cj_due :: int
  cj_family :: string
  cj_topic :: "int option"
  cj_group :: "string option"
  cj_id :: string
  cj_token :: string
  cj_thread :: "int option"
  cj_owner :: "string option"
  cj_scope :: reminder_scope
  cj_chat :: string
  cj_timezone :: string

record claim_options =
  co_lease_ms :: js_number
  co_limit :: js_number
  co_now :: "int option"

definition require_claim_options :: "claim_options \<Rightarrow> unit result" where
  "require_claim_options o' =
     (if co_now o' = None \<or> \<not> is_integer (co_limit o') \<or> number_value (co_limit o') < 1 \<or>
         \<not> is_integer (co_lease_ms o') \<or> number_value (co_lease_ms o') < 1
      then Inl (AppError ''AGENT_REMINDER_CLAIM_INVALID'') else Inr ())"

section \<open>Recovery, step by step\<close>

definition lease_expired :: "time \<Rightarrow> reminder \<Rightarrow> bool" where
  "lease_expired now r \<longleftrightarrow> rm_status r = R_leased \<and> (case rm_lease_until r of None \<Rightarrow> False | Some t \<Rightarrow> t < now)"

definition failed_reminder :: "string \<Rightarrow> time \<Rightarrow> reminder \<Rightarrow> reminder" where
  "failed_reminder code now r =
     r\<lparr>rm_status := R_failed, rm_lease := None, rm_lease_until := None, rm_dispatch := None,
       rm_error := Some code, rm_updated := now\<rparr>"

definition record_failures :: "string \<Rightarrow> reminder list \<Rightarrow> audit_event list" where
  "record_failures code rows = map (\<lambda>r. Reminder_delivery_failed (rm_family r) (rm_id r) code) rows"

text \<open>\<open>UPDATE ... RETURNING\<close> followed by \<open>recordFailures\<close>.\<close>

definition fail_where :: "(reminder \<Rightarrow> bool) \<Rightarrow> string \<Rightarrow> (reminder \<Rightarrow> reminder) \<Rightarrow> reminder_db \<Rightarrow> reminder_db" where
  "fail_where P code f d =
     d\<lparr>rd_reminders := update_where P f (rd_reminders d),
       rd_audit := rd_audit d @ record_failures code (filter P (rd_reminders d))\<rparr>"

definition fail_ambiguous :: "time \<Rightarrow> reminder_db \<Rightarrow> reminder_db" where
  "fail_ambiguous now =
     fail_where (\<lambda>r. lease_expired now r \<and> rm_dispatch r \<noteq> None) ''AGENT_REMINDER_DELIVERY_AMBIGUOUS''
       (failed_reminder ''AGENT_REMINDER_DELIVERY_AMBIGUOUS'' now)"

definition fail_exhausted :: "time \<Rightarrow> reminder_db \<Rightarrow> reminder_db" where
  "fail_exhausted now =
     fail_where (\<lambda>r. lease_expired now r \<and> rm_dispatch r = None \<and> max_safe_attempts \<le> rm_attempts r)
       ''AGENT_REMINDER_DELIVERY_ATTEMPTS_EXHAUSTED''
       (failed_reminder ''AGENT_REMINDER_DELIVERY_ATTEMPTS_EXHAUSTED'' now)"

definition recovered_reminder :: "time \<Rightarrow> reminder \<Rightarrow> reminder" where
  "recovered_reminder now r =
     r\<lparr>rm_status := R_active, rm_lease := None, rm_lease_until := None, rm_updated := now\<rparr>"

definition recover_unstarted :: "time \<Rightarrow> reminder_db \<Rightarrow> reminder_db" where
  "recover_unstarted now d =
     d\<lparr>rd_reminders := update_where
         (\<lambda>r. lease_expired now r \<and> rm_dispatch r = None \<and> rm_attempts r < max_safe_attempts)
         (recovered_reminder now) (rd_reminders d)\<rparr>"

definition author_is_member :: "reminder_db \<Rightarrow> reminder \<Rightarrow> bool" where
  "author_is_member d r = exists_row (\<lambda>m. m_family m = rm_family r \<and> m_user m = rm_author r) (rd_memberships d)"

definition destination_valid :: "reminder_db \<Rightarrow> reminder \<Rightarrow> bool" where
  "destination_valid d r \<longleftrightarrow>
     author_is_member d r \<and>
     (rm_scope r = Family_reminder \<longrightarrow>
        exists_row (\<lambda>g. Some (g_id g) = rm_group r \<and> g_family g = rm_family r \<and> g_chat_id g = rm_chat r \<and>
          g_type g = Family_private) (rd_groups d))"

definition fail_revoked :: "time \<Rightarrow> reminder_db \<Rightarrow> reminder_db" where
  "fail_revoked now d =
     fail_where (\<lambda>r. rm_status r = R_active \<and> \<not> destination_valid d r) ''AGENT_REMINDER_DESTINATION_REVOKED''
       (\<lambda>r. r\<lparr>rm_status := R_failed, rm_error := Some ''AGENT_REMINDER_DESTINATION_REVOKED'', rm_updated := now\<rparr>) d"

section \<open>Quiet hours\<close>

definition in_quiet_hours :: "pg_calendar \<Rightarrow> time \<Rightarrow> notification_settings \<Rightarrow> bool" where
  "in_quiet_hours cal now s \<longleftrightarrow>
     (case (ns_start s, ns_end s) of
        (Some a, Some b) \<Rightarrow>
          (let t = time_of_day (cal_local cal (ns_timezone s) now) in
           a < b \<and> a \<le> t \<and> t < b \<or> b < a \<and> (a \<le> t \<or> t < b))
      | _ \<Rightarrow> False)"

definition quiet_until :: "pg_calendar \<Rightarrow> time \<Rightarrow> notification_settings \<Rightarrow> time" where
  "quiet_until cal now s =
     (let l = cal_local cal (ns_timezone s) now; a = the (ns_start s); b = the (ns_end s) in
      cal_instant cal (ns_timezone s)
        (one_day * local_date l + b + (if b < a \<and> a \<le> time_of_day l then one_day else 0)))"

definition settings_of :: "reminder_db \<Rightarrow> reminder \<Rightarrow> notification_settings option" where
  "settings_of d r = first_row (\<lambda>s. ns_user s = rm_author r) (rd_settings d)"

definition quiet_reminder :: "pg_calendar \<Rightarrow> time \<Rightarrow> reminder_db \<Rightarrow> reminder \<Rightarrow> bool" where
  "quiet_reminder cal now d r \<longleftrightarrow>
     rm_status r = R_active \<and> rm_available r \<le> now \<and>
     (case settings_of d r of None \<Rightarrow> False | Some s \<Rightarrow> in_quiet_hours cal now s)"

definition deferred_reminder :: "pg_calendar \<Rightarrow> time \<Rightarrow> reminder_db \<Rightarrow> reminder \<Rightarrow> reminder" where
  "deferred_reminder cal now d r =
     r\<lparr>rm_available := quiet_until cal now (the (settings_of d r)), rm_delayed := True, rm_updated := now\<rparr>"

definition defer_quiet :: "pg_calendar \<Rightarrow> time \<Rightarrow> reminder_db \<Rightarrow> reminder_db" where
  "defer_quiet cal now d =
     d\<lparr>rd_reminders := update_where (quiet_reminder cal now d) (deferred_reminder cal now d) (rd_reminders d)\<rparr>"

section \<open>Claiming\<close>

definition claimable_reminder :: "(string \<Rightarrow> bool) \<Rightarrow> time \<Rightarrow> reminder_db \<Rightarrow> reminder \<Rightarrow> bool" where
  "claimable_reminder locked now d r \<longleftrightarrow>
     rm_status r = R_active \<and> rm_available r \<le> now \<and> rm_attempts r < max_safe_attempts \<and>
     author_is_member d r \<and> \<not> locked (rm_id r)"

definition r_acquire :: "string \<Rightarrow> time \<Rightarrow> reminder \<Rightarrow> reminder" where
  "r_acquire token till r =
     r\<lparr>rm_status := R_leased, rm_attempts := rm_attempts r + 1, rm_lease := Some token,
       rm_lease_until := Some till, rm_dispatch := None\<rparr>"

definition leased_reminder :: "(string \<Rightarrow> string) \<Rightarrow> time \<Rightarrow> int \<Rightarrow> reminder \<Rightarrow> reminder" where
  "leased_reminder tokens now lease_ms r =
     (r_acquire (tokens (rm_id r)) (now + millis lease_ms) r)\<lparr>rm_updated := now\<rparr>"

definition to_job :: "time \<Rightarrow> reminder \<Rightarrow> claimed_reminder" where
  "to_job now r =
     \<lparr>cj_content = rm_content r, cj_delayed = (rm_delayed r \<or> rm_due r < now - millis late_after_ms),
      cj_due = to_date (rm_due r), cj_family = rm_family r, cj_topic = rm_topic r, cj_group = rm_group r,
      cj_id = rm_id r, cj_token = the (rm_lease r), cj_thread = rm_thread r, cj_owner = rm_owner r,
      cj_scope = rm_scope r, cj_chat = rm_chat r, cj_timezone = rm_timezone r\<rparr>"

definition prepare_claim :: "pg_calendar \<Rightarrow> time \<Rightarrow> reminder_db \<Rightarrow> reminder_db" where
  "prepare_claim cal now d =
     defer_quiet cal now (fail_revoked now (recover_unstarted now (fail_exhausted now (fail_ambiguous now d))))"

definition claim_due ::
  "pg_calendar \<Rightarrow> (string \<Rightarrow> bool) \<Rightarrow> (string \<Rightarrow> string) \<Rightarrow> claim_options \<Rightarrow> reminder_db
     \<Rightarrow> claimed_reminder list result \<times> reminder_db" where
  "claim_due cal locked tokens o' =
     when_valid (require_claim_options o') (\<lambda>_. run_tx (\<lambda>d.
       let now = millis (the (co_now o'));
           d1 = prepare_claim cal now d;
           candidates = select_ordered (claimable_reminder locked now d1) (\<lambda>r. (rm_available r, rm_id r))
             (nat (number_value (co_limit o'))) (rd_reminders d1);
           lease = leased_reminder tokens now (number_value (co_lease_ms o'))
       in Commit (map (\<lambda>r. to_job now (lease r)) candidates)
            (d1\<lparr>rd_reminders := update_where (\<lambda>r. rm_id r \<in> set (map rm_id candidates)) lease (rd_reminders d1)\<rparr>)))"

section \<open>Marker, completion, failure\<close>

definition lease_row :: "string \<Rightarrow> string \<Rightarrow> reminder \<Rightarrow> bool" where
  "lease_row rid token r \<longleftrightarrow> rm_id r = rid \<and> rm_status r = R_leased \<and> rm_lease r = Some token"

definition marked_reminder :: "time \<Rightarrow> reminder \<Rightarrow> reminder" where
  "marked_reminder now r = r\<lparr>rm_dispatch := Some now, rm_updated := now\<rparr>"

definition mark_dispatch_started :: "string \<Rightarrow> string \<Rightarrow> time \<Rightarrow> reminder_db \<Rightarrow> unit result \<times> reminder_db" where
  "mark_dispatch_started rid token now d =
     (let hit = (\<lambda>r. lease_row rid token r \<and> rm_dispatch r = None) in
      if row_count hit (rd_reminders d) = 0 then (Inl (AppError ''AGENT_REMINDER_LEASE_STALE''), d)
      else (Inr (), d\<lparr>rd_reminders := update_where hit (marked_reminder now) (rd_reminders d)\<rparr>))"

record receipt =
  rp_message :: string
  rp_text :: string

text \<open>What \<open>completeReminder\<close> hands to the journal of proactive deliveries.\<close>

fun delivery_scope :: "reminder_scope \<Rightarrow> memory_scope" where
  "delivery_scope Personal_reminder = Personal_scope"
| "delivery_scope Family_reminder = Family_scope"

definition reminder_delivery :: "claimed_reminder \<Rightarrow> int \<Rightarrow> receipt \<Rightarrow> delivery_input" where
  "reminder_delivery job completed rp =
     \<lparr>dz_family = cj_family job, dz_group = cj_group job, dz_thread = cj_thread job, dz_owner = cj_owner job,
      dz_scope = delivery_scope (cj_scope job), dz_chat = cj_chat job, di_content = rp_text rp,
      di_delivered = Some completed, di_scheduled = Some (cj_due job), di_source = cj_id job,
      di_kind = Reminder_source, di_message = rp_message rp, di_title = None\<rparr>"

definition record_reminder_delivery ::
  "claimed_reminder \<Rightarrow> int \<Rightarrow> receipt \<Rightarrow> reminder_db \<Rightarrow> reminder_db result" where
  "record_reminder_delivery job completed rp d =
     res_bind (record_proactive_delivery (reminder_delivery job completed rp) (rd_deliveries d))
       (\<lambda>j. Inr (d\<lparr>rd_deliveries := j\<rparr>))"

definition completed_reminder :: "time \<Rightarrow> reminder \<Rightarrow> reminder" where
  "completed_reminder now r =
     r\<lparr>rm_status := R_completed, rm_lease := None, rm_lease_until := None, rm_dispatch := None,
       rm_delayed := False, rm_error := None, rm_updated := now\<rparr>"

definition rearmed_reminder :: "int \<Rightarrow> time \<Rightarrow> time \<Rightarrow> reminder \<Rightarrow> reminder" where
  "rearmed_reminder n t now r =
     r\<lparr>rm_status := R_active, rm_occurrence := n, rm_due := t, rm_available := t, rm_attempts := 0,
       rm_lease := None, rm_lease_until := None, rm_dispatch := None, rm_delayed := False, rm_error := None,
       rm_updated := now\<rparr>"

definition complete_body ::
  "pg_calendar \<Rightarrow> claimed_reminder \<Rightarrow> int \<Rightarrow> receipt \<Rightarrow> reminder_db \<Rightarrow> (unit, reminder_db) tx" where
  "complete_body cal job completed rp d =
     (case first_row (\<lambda>r. lease_row (cj_id job) (cj_token job) r \<and> rm_dispatch r \<noteq> None) (rd_reminders d) of
        None \<Rightarrow> Throw (AppError ''AGENT_REMINDER_LEASE_STALE'')
      | Some r \<Rightarrow>
          (case record_reminder_delivery job completed rp d of
             Inl e \<Rightarrow> Throw e
           | Inr d1 \<Rightarrow>
               (let at' = millis completed;
                    settle = (\<lambda>f. d1\<lparr>rd_reminders := update_where (\<lambda>x. rm_id x = cj_id job) f (rd_reminders d1),
                       rd_audit := rd_audit d1 @ [Reminder_delivered (rm_family r) (cj_id job) (cj_delayed job)]\<rparr>) in
                case rm_unit r of
                  None \<Rightarrow> Commit () (settle (completed_reminder at'))
                | Some _ \<Rightarrow>
                    (case next_anchored_occurrence cal (recurrence_of r) at' of
                       Inl e \<Rightarrow> Throw e
                     | Inr (Occurrence n t) \<Rightarrow> Commit () (settle (rearmed_reminder n t at'))))))"

definition complete_reminder ::
  "pg_calendar \<Rightarrow> claimed_reminder \<Rightarrow> int \<Rightarrow> receipt \<Rightarrow> reminder_db \<Rightarrow> unit result \<times> reminder_db" where
  "complete_reminder cal job completed rp = run_tx (complete_body cal job completed rp)"

definition fail_body :: "claimed_reminder \<Rightarrow> string \<Rightarrow> time \<Rightarrow> reminder_db \<Rightarrow> (unit, reminder_db) tx" where
  "fail_body job code now d =
     (let hit = lease_row (cj_id job) (cj_token job) in
      if row_count hit (rd_reminders d) = 0 then Throw (AppError ''AGENT_REMINDER_LEASE_STALE'')
      else Commit () (fail_where hit code (failed_reminder code now) d))"

definition fail_reminder :: "claimed_reminder \<Rightarrow> string \<Rightarrow> time \<Rightarrow> reminder_db \<Rightarrow> unit result \<times> reminder_db" where
  "fail_reminder job code now = run_tx (fail_body job code now)"

section \<open>The dispatcher\<close>

text \<open>
  The world of one sweep: what Telegram answers to a job, whether the timeline accepts the message, and
  the instants at which a job is marked, finished and failed.
\<close>

record dispatch_world =
  dw_deliver :: "claimed_reminder \<Rightarrow> receipt result"
  dw_timeline :: "claimed_reminder \<Rightarrow> receipt \<Rightarrow> unit result"
  dw_marked :: "claimed_reminder \<Rightarrow> time"
  dw_finished :: "claimed_reminder \<Rightarrow> int"
  dw_failed :: "claimed_reminder \<Rightarrow> time"

record dispatch_state =
  ds_db :: reminder_db
  ds_sent :: "claimed_reminder list"
  ds_timeline :: "(claimed_reminder \<times> receipt) list"

definition stale_error :: "app_error \<Rightarrow> bool" where
  "stale_error e \<longleftrightarrow> e = AppError ''AGENT_REMINDER_LEASE_STALE''"

definition failure_code :: "app_error \<Rightarrow> string" where
  "failure_code e = (case e of AppError c \<Rightarrow> c | _ \<Rightarrow> ''AGENT_REMINDER_TELEGRAM_DELIVERY_FAILED'')"

text \<open>The \<open>try\<close> block of one job: marker, Telegram call, completion.\<close>

definition attempt_job ::
  "pg_calendar \<Rightarrow> dispatch_world \<Rightarrow> claimed_reminder \<Rightarrow> dispatch_state \<Rightarrow> receipt result \<times> dispatch_state" where
  "attempt_job cal w job s =
     (case mark_dispatch_started (cj_id job) (cj_token job) (dw_marked w job) (ds_db s) of
        (Inl e, d) \<Rightarrow> (Inl e, s\<lparr>ds_db := d\<rparr>)
      | (Inr _, d) \<Rightarrow>
          (let s1 = s\<lparr>ds_db := d, ds_sent := ds_sent s @ [job]\<rparr> in
           case dw_deliver w job of
             Inl e \<Rightarrow> (Inl e, s1)
           | Inr rp \<Rightarrow>
               (case complete_reminder cal job (dw_finished w job) rp (ds_db s1) of
                  (Inl e, d2) \<Rightarrow> (Inl e, s1\<lparr>ds_db := d2\<rparr>)
                | (Inr _, d2) \<Rightarrow> (Inr rp, s1\<lparr>ds_db := d2\<rparr>))))"

definition dispatch_job ::
  "pg_calendar \<Rightarrow> dispatch_world \<Rightarrow> claimed_reminder \<Rightarrow> dispatch_state \<Rightarrow> unit result \<times> dispatch_state" where
  "dispatch_job cal w job s =
     (case attempt_job cal w job s of
        (Inl e, s1) \<Rightarrow>
          if stale_error e then (Inr (), s1)
          else (case fail_reminder job (failure_code e) (dw_failed w job) (ds_db s1) of
                  (r, d) \<Rightarrow> (r, s1\<lparr>ds_db := d\<rparr>))
      | (Inr rp, s1) \<Rightarrow>
          if cj_group job = None \<or> cj_group job = Some [] then (Inr (), s1)
          else (case dw_timeline w job rp of
                  Inl e \<Rightarrow> (Inl e, s1)
                | Inr _ \<Rightarrow> (Inr (), s1\<lparr>ds_timeline := ds_timeline s1 @ [(job, rp)]\<rparr>)))"

fun dispatch_jobs ::
  "pg_calendar \<Rightarrow> dispatch_world \<Rightarrow> claimed_reminder list \<Rightarrow> dispatch_state \<Rightarrow> unit result \<times> dispatch_state" where
  "dispatch_jobs cal w [] s = (Inr (), s)"
| "dispatch_jobs cal w (job # jobs) s =
     (case dispatch_job cal w job s of
        (Inl e, s1) \<Rightarrow> (Inl e, s1)
      | (Inr _, s1) \<Rightarrow> dispatch_jobs cal w jobs s1)"

definition dispatch_reminders ::
  "pg_calendar \<Rightarrow> dispatch_world \<Rightarrow> (string \<Rightarrow> bool) \<Rightarrow> (string \<Rightarrow> string) \<Rightarrow> int \<Rightarrow> reminder_db
     \<Rightarrow> nat result \<times> dispatch_state" where
  "dispatch_reminders cal w locked tokens now d =
     (case claim_due cal locked tokens \<lparr>co_lease_ms = Int_num dispatch_lease_ms,
          co_limit = Int_num dispatch_batch_size, co_now = Some now\<rparr> d of
        (Inl e, d1) \<Rightarrow> (Inl e, \<lparr>ds_db = d1, ds_sent = [], ds_timeline = []\<rparr>)
      | (Inr jobs, d1) \<Rightarrow>
          (case dispatch_jobs cal w jobs \<lparr>ds_db = d1, ds_sent = [], ds_timeline = []\<rparr> of
             (Inl e, s) \<Rightarrow> (Inl e, s)
           | (Inr _, s) \<Rightarrow> (Inr (length jobs), s)))"

section \<open>The lease\<close>

definition holds_reminder_lease :: "reminder \<Rightarrow> string \<Rightarrow> time \<Rightarrow> bool" where
  "holds_reminder_lease r token now \<longleftrightarrow> rm_status r = R_leased \<and> rm_lease r = Some token"

interpretation reminder_lease: leased_rows rm_id holds_reminder_lease r_acquire "failed_reminder code now" for code now
  by unfold_locales (auto simp: holds_reminder_lease_def r_acquire_def failed_reminder_def)

end
