(* ===== verification/Reminder_History.thy ===== *)
theory Reminder_History
  imports Reminder_Dispatch
begin

text \<open>
  The reminder operations as one step function: the table invariant, and the marker in front of each
  Telegram call, which no reminder gets twice without being armed again.
\<close>

section \<open>Operations\<close>

datatype reminder_op =
    Op_create string reminder_auth create_input time
  | Op_update reminder_auth string update_input time
  | Op_delete reminder_auth string string
  | Op_configure reminder_auth notification_input
  | Op_claim "string list" "(string \<times> string) list" claim_options
  | Op_mark string string time
  | Op_complete claimed_reminder int receipt
  | Op_fail claimed_reminder string time

definition table_lookup :: "(string \<times> string) list \<Rightarrow> string \<Rightarrow> string" where
  "table_lookup table k = (case map_of table k of None \<Rightarrow> [] | Some v \<Rightarrow> v)"

fun apply_reminder_op ::
  "(operation_fingerprint \<Rightarrow> string) \<Rightarrow> pg_calendar \<Rightarrow> reminder_op \<Rightarrow> reminder_db \<Rightarrow> reminder_db" where
  "apply_reminder_op hash cal (Op_create uuid auth i now) d = snd (create hash cal uuid auth i now d)"
| "apply_reminder_op hash cal (Op_update auth rid i now) d = snd (update hash cal auth rid i now d)"
| "apply_reminder_op hash cal (Op_delete auth rid key) d = snd (delete hash auth rid key d)"
| "apply_reminder_op hash cal (Op_configure auth i) d = snd (configure_notifications cal auth i d)"
| "apply_reminder_op hash cal (Op_claim locked tokens o') d =
     snd (claim_due cal (\<lambda>r. r \<in> set locked) (table_lookup tokens) o' d)"
| "apply_reminder_op hash cal (Op_mark rid token now) d = snd (mark_dispatch_started rid token now d)"
| "apply_reminder_op hash cal (Op_complete job completed rp) d = snd (complete_reminder cal job completed rp d)"
| "apply_reminder_op hash cal (Op_fail job code now) d = snd (fail_reminder job code now d)"

definition run_reminder_ops ::
  "(operation_fingerprint \<Rightarrow> string) \<Rightarrow> pg_calendar \<Rightarrow> reminder_op list \<Rightarrow> reminder_db \<Rightarrow> reminder_db" where
  "run_reminder_ops hash cal ops d = foldl (\<lambda>d op. apply_reminder_op hash cal op d) d ops"

section \<open>A row through each operation\<close>

text \<open>
  Every operation rewrites rows in place, appends one, or deletes some: a property of single rows that each
  rewriting keeps is kept by the operation. \<open>row_step\<close> lists the rewritings with their guards; the
  ids in \<open>arms\<close> are those the operation may make deliverable again.
\<close>

inductive row_step :: "pg_calendar \<Rightarrow> string set \<Rightarrow> reminder \<Rightarrow> reminder \<Rightarrow> bool" for cal arms where
  updated: "rm_status r \<noteq> R_leased \<Longrightarrow> reminder_checks (updated_reminder cal v now r) \<Longrightarrow>
    mv_enabled v = Some True \<Longrightarrow> rm_id r \<in> arms \<Longrightarrow> row_step cal arms r (updated_reminder cal v now r)"
| edited: "rm_status r \<noteq> R_leased \<Longrightarrow> reminder_checks (updated_reminder cal v now r) \<Longrightarrow>
    mv_enabled v \<noteq> Some True \<Longrightarrow> row_step cal arms r (updated_reminder cal v now r)"
| expired: "lease_expired now r \<Longrightarrow> row_step cal arms r (failed_reminder code now r)"
| recovered: "lease_expired now r \<Longrightarrow> rm_dispatch r = None \<Longrightarrow> rm_attempts r < max_safe_attempts \<Longrightarrow>
    row_step cal arms r (recovered_reminder now r)"
| revoked: "rm_status r = R_active \<Longrightarrow>
    row_step cal arms r (r\<lparr>rm_status := R_failed, rm_error := Some code, rm_updated := now\<rparr>)"
| deferred: "rm_status r = R_active \<Longrightarrow> row_step cal arms r (deferred_reminder cal now d r)"
| leased: "rm_status r = R_active \<Longrightarrow> row_step cal arms r (leased_reminder tokens now ms r)"
| marked: "rm_status r = R_leased \<Longrightarrow> rm_dispatch r = None \<Longrightarrow> row_step cal arms r (marked_reminder now r)"
| completed: "rm_status r = R_leased \<Longrightarrow> rm_dispatch r \<noteq> None \<Longrightarrow> row_step cal arms r (completed_reminder now r)"
| rearmed: "rm_status r = R_leased \<Longrightarrow> rm_dispatch r \<noteq> None \<Longrightarrow> rm_occurrence r < n \<Longrightarrow> rm_id r \<in> arms \<Longrightarrow>
    row_step cal arms r (rearmed_reminder n t now r)"
| failed: "rm_status r = R_leased \<Longrightarrow> row_step cal arms r (failed_reminder code now r)"

lemmas row_rewrites = updated_reminder_def failed_reminder_def recovered_reminder_def deferred_reminder_def
  leased_reminder_def r_acquire_def marked_reminder_def completed_reminder_def rearmed_reminder_def

lemma row_rewrite_id [simp]:
  "rm_id (updated_reminder cal v now r) = rm_id r" "rm_id (failed_reminder code now r) = rm_id r"
  "rm_id (recovered_reminder now r) = rm_id r" "rm_id (deferred_reminder cal now d r) = rm_id r"
  "rm_id (leased_reminder tokens now ms r) = rm_id r" "rm_id (marked_reminder now r) = rm_id r"
  "rm_id (completed_reminder now r) = rm_id r" "rm_id (rearmed_reminder n t now r) = rm_id r"
  by (simp_all add: row_rewrites Let_def)

lemma row_step_id: "row_step cal arms r r' \<Longrightarrow> rm_id r' = rm_id r"
  by (induction rule: row_step.induct) simp_all

abbreviation row_steps :: "pg_calendar \<Rightarrow> string set \<Rightarrow> reminder \<Rightarrow> reminder \<Rightarrow> bool" where
  "row_steps cal arms \<equiv> (row_step cal arms)\<^sup>*\<^sup>*"

text \<open>What an operation does to the table: each row of the result comes from an old one by row steps.\<close>

definition rows_from :: "pg_calendar \<Rightarrow> string set \<Rightarrow> reminder_db \<Rightarrow> reminder_db \<Rightarrow> bool" where
  "rows_from cal arms d d' \<longleftrightarrow>
     (\<forall>r'\<in>set (rd_reminders d'). \<exists>r\<in>set (rd_reminders d). row_steps cal arms r r')"

lemma rows_from_refl [simp]: "rows_from cal arms d d"
  by (auto simp: rows_from_def)

lemma rows_from_trans: "rows_from cal arms d d' \<Longrightarrow> rows_from cal arms d' d'' \<Longrightarrow> rows_from cal arms d d''"
  unfolding rows_from_def by (meson rtranclp_trans)

lemma rows_from_update:
  assumes "\<And>r. r \<in> set (rd_reminders d) \<Longrightarrow> P r \<Longrightarrow> row_step cal arms r (f r)"
    "rd_reminders d' = update_where P f (rd_reminders d)"
  shows "rows_from cal arms d d'"
  unfolding rows_from_def assms(2) set_update_where using assms(1) by auto

lemma rows_from_same: "rd_reminders d' = rd_reminders d \<Longrightarrow> rows_from cal arms d d'"
  by (auto simp: rows_from_def)

lemma prepare_claim_rows: "rows_from cal arms d (prepare_claim cal now d)"
proof -
  have 1: "rows_from cal arms d (fail_ambiguous now d)" for d
    by (rule rows_from_update [OF expired]) (auto simp: fail_ambiguous_def fail_where_def)
  have 2: "rows_from cal arms d (fail_exhausted now d)" for d
    by (rule rows_from_update [OF expired]) (auto simp: fail_exhausted_def fail_where_def)
  have 3: "rows_from cal arms d (recover_unstarted now d)" for d
    by (rule rows_from_update [OF recovered]) (auto simp: recover_unstarted_def)
  have 4: "rows_from cal arms d (fail_revoked now d)" for d
    by (rule rows_from_update [OF revoked]) (auto simp: fail_revoked_def fail_where_def)
  have 5: "rows_from cal arms d (defer_quiet cal now d)" for d
    by (rule rows_from_update [OF deferred]) (auto simp: defer_quiet_def quiet_reminder_def)
  show ?thesis unfolding prepare_claim_def by (meson 1 2 3 4 5 rows_from_trans)
qed

lemma pk_prepare_claim: "reminder_rows.pk (rd_reminders d) \<Longrightarrow> reminder_rows.pk (rd_reminders (prepare_claim cal now d))"
  unfolding prepare_claim_def defer_quiet_def fail_revoked_def recover_unstarted_def fail_exhausted_def
    fail_ambiguous_def fail_where_def
  by (simp add: reminder_rows.pk_update)

lemma claim_due_rows:
  assumes "reminder_rows.pk (rd_reminders d)"
  shows "rows_from cal arms d (snd (claim_due cal locked tokens o' d)) \<and>
    reminder_rows.pk (rd_reminders (snd (claim_due cal locked tokens o' d)))"
proof (cases "require_claim_options o'")
  case (Inr u)
  let ?now = "millis (the (co_now o'))"
  let ?d1 = "prepare_claim cal ?now d"
  let ?lease = "leased_reminder tokens ?now (number_value (co_lease_ms o'))"
  define candidates where "candidates = select_ordered (claimable_reminder locked ?now ?d1)
      (\<lambda>r. (rm_available r, rm_id r)) (nat (number_value (co_limit o'))) (rd_reminders ?d1)"
  have db: "snd (claim_due cal locked tokens o' d) =
      ?d1\<lparr>rd_reminders := update_where (\<lambda>r. rm_id r \<in> set (map rm_id candidates)) ?lease (rd_reminders ?d1)\<rparr>"
    using Inr by (simp add: claim_due_def run_tx_def Let_def candidates_def)
  have pk: "reminder_rows.pk (rd_reminders ?d1)" by (rule pk_prepare_claim [OF assms])
  have "row_step cal arms r (?lease r)"
    if row: "r \<in> set (rd_reminders ?d1)" and hit: "rm_id r \<in> set (map rm_id candidates)" for r
  proof -
    obtain c where c: "c \<in> set candidates" "rm_id c = rm_id r" using hit by auto
    have "c \<in> set (rd_reminders ?d1) \<and> claimable_reminder locked ?now ?d1 c"
      using c(1) unfolding candidates_def by (rule set_select_ordered)
    moreover from this have "c = r" using reminder_rows.pk_unique [OF pk] row c(2) by blast
    ultimately show ?thesis by (intro leased) (simp add: claimable_reminder_def)
  qed
  moreover have "rd_reminders (snd (claim_due cal locked tokens o' d)) =
      update_where (\<lambda>r. rm_id r \<in> set (map rm_id candidates)) ?lease (rd_reminders ?d1)"
    unfolding db by simp
  ultimately have "rows_from cal arms ?d1 (snd (claim_due cal locked tokens o' d))"
    by (rule rows_from_update)
  with prepare_claim_rows rows_from_trans
  have "rows_from cal arms d (snd (claim_due cal locked tokens o' d))" by blast
  moreover have "reminder_rows.pk (rd_reminders (snd (claim_due cal locked tokens o' d)))"
    unfolding db using pk by (simp add: reminder_rows.pk_update)
  ultimately show ?thesis by blast
qed (simp add: claim_due_def assms)

lemma mark_rows:
  "rows_from cal arms d (snd (mark_dispatch_started rid token now d)) \<and>
   (reminder_rows.pk (rd_reminders d) \<longrightarrow> reminder_rows.pk (rd_reminders (snd (mark_dispatch_started rid token now d))))"
  by (auto simp: mark_dispatch_started_def Let_def lease_row_def reminder_rows.pk_update
      intro!: rows_from_update [where P = "\<lambda>r. rm_id r = rid \<and> rm_status r = R_leased \<and> rm_lease r = Some token \<and>
        rm_dispatch r = None" and f = "marked_reminder now"] marked)

lemma fail_rows:
  "rows_from cal arms d (snd (fail_reminder job code now d)) \<and>
   (reminder_rows.pk (rd_reminders d) \<longrightarrow> reminder_rows.pk (rd_reminders (snd (fail_reminder job code now d))))"
  by (auto simp: fail_reminder_def run_tx_def fail_body_def fail_where_def Let_def reminder_rows.pk_update
      intro!: rows_from_update [where P = "lease_row (cj_id job) (cj_token job)" and f = "failed_reminder code now"] failed)
    (simp add: lease_row_def)

lemma next_index: "next_anchored_occurrence cal r after = Inr (Occurrence n t) \<Longrightarrow> rs_index r < n \<and> after < t"
  by (auto simp: next_anchored_occurrence_def later_occurrence_def Let_def split: option.splits if_splits)

lemma record_delivery_reminders:
  "record_reminder_delivery job completed rp d = Inr d1 \<Longrightarrow>
     rd_reminders d1 = rd_reminders d \<and> rd_operations d1 = rd_operations d \<and> rd_memberships d1 = rd_memberships d"
  by (auto simp: record_reminder_delivery_def res_bind_Inr_iff)

text \<open>A completed job either finishes the reminder or arms its next occurrence.\<close>

lemma complete_cases:
  assumes "complete_reminder cal job completed rp d = (Inr u, d')"
  obtains (once) r d1 where "r \<in> set (rd_reminders d)" "lease_row (cj_id job) (cj_token job) r" "rm_dispatch r \<noteq> None"
      "rm_unit r = None" "record_reminder_delivery job completed rp d = Inr d1"
      "rd_reminders d' = update_where (\<lambda>x. rm_id x = cj_id job) (completed_reminder (millis completed)) (rd_reminders d)"
  | (again) r d1 n t where "r \<in> set (rd_reminders d)" "lease_row (cj_id job) (cj_token job) r" "rm_dispatch r \<noteq> None"
      "rm_unit r \<noteq> None" "record_reminder_delivery job completed rp d = Inr d1"
      "next_anchored_occurrence cal (recurrence_of r) (millis completed) = Inr (Occurrence n t)"
      "rd_reminders d' = update_where (\<lambda>x. rm_id x = cj_id job) (rearmed_reminder n t (millis completed)) (rd_reminders d)"
proof (cases "first_row (\<lambda>r. lease_row (cj_id job) (cj_token job) r \<and> rm_dispatch r \<noteq> None) (rd_reminders d)")
  case None
  with assms show thesis by (simp add: complete_reminder_def run_tx_def complete_body_def)
next
  case (Some r)
  note r = first_row_Some [OF Some]
  show thesis
  proof (cases "record_reminder_delivery job completed rp d")
    case (Inl e)
    with assms Some show thesis by (simp add: complete_reminder_def run_tx_def complete_body_def)
  next
    case (Inr d1)
    note rows = record_delivery_reminders [OF Inr, THEN conjunct1]
    note body = assms [unfolded complete_reminder_def run_tx_def complete_body_def Some option.case Inr sum.case Let_def]
    show thesis
    proof (cases "rm_unit r")
      case None
      have "rd_reminders d' = update_where (\<lambda>x. rm_id x = cj_id job) (completed_reminder (millis completed)) (rd_reminders d)"
        using body unfolding None option.case end_tx.simps prod.inject rows by auto
      then show thesis using once [of r d1] r None Inr by blast
    next
      case unit: (Some u)
      note body = body [unfolded unit option.case]
      show thesis
      proof (cases "next_anchored_occurrence cal (recurrence_of r) (millis completed)")
        case (Inl e)
        with body show thesis by simp
      next
        case next': (Inr o')
        obtain n t where o': "o' = Occurrence n t" by (cases o')
        have "rd_reminders d' = update_where (\<lambda>x. rm_id x = cj_id job) (rearmed_reminder n t (millis completed)) (rd_reminders d)"
          using body unfolding next' o' sum.case occurrence.case end_tx.simps prod.inject rows by auto
        then show thesis using again [of r d1 n t] r unit Inr next' o' by blast
      qed
    qed
  qed
qed

lemma complete_rows:
  assumes "reminder_rows.pk (rd_reminders d)" "cj_id job \<in> arms"
  shows "rows_from cal arms d (snd (complete_reminder cal job completed rp d)) \<and>
    reminder_rows.pk (rd_reminders (snd (complete_reminder cal job completed rp d)))"
proof (cases "complete_reminder cal job completed rp d")
  case (Pair res d')
  show ?thesis
  proof (cases res)
    case (Inl e)
    with Pair have "d' = d" unfolding complete_reminder_def by (metis run_tx_error_unchanged)
    with Pair assms show ?thesis by simp
  next
    case (Inr u)
    from Pair [unfolded Inr] show ?thesis
    proof (cases rule: complete_cases)
      case (once r d1)
      have "row_step cal arms x (completed_reminder (millis completed) x)"
        if "x \<in> set (rd_reminders d)" "rm_id x = cj_id job" for x
      proof -
        have "x = r" using reminder_rows.pk_unique [OF assms(1)] that once(1,2) by (simp add: lease_row_def)
        with once(2,3) show ?thesis by (intro completed) (simp_all add: lease_row_def)
      qed
      then have "rows_from cal arms d d'" by (rule rows_from_update [OF _ once(6)])
      with Pair once(6) assms(1) show ?thesis by (simp add: reminder_rows.pk_update)
    next
      case (again r d1 n t)
      have index: "rm_occurrence r < n" using next_index [OF again(6)] by (simp add: recurrence_of_def)
      have "row_step cal arms x (rearmed_reminder n t (millis completed) x)"
        if "x \<in> set (rd_reminders d)" "rm_id x = cj_id job" for x
      proof -
        have "x = r" using reminder_rows.pk_unique [OF assms(1)] that again(1,2) by (simp add: lease_row_def)
        with again(2,3) index assms(2) show ?thesis by (intro rearmed) (simp_all add: lease_row_def)
      qed
      then have "rows_from cal arms d d'" by (rule rows_from_update [OF _ again(7)])
      with Pair again(7) assms(1) show ?thesis by (simp add: reminder_rows.pk_update)
    qed
  qed
qed

section \<open>The tools\<close>

lemma create_cases:
  obtains (unchanged) "rd_reminders (snd (create hash cal uuid auth i now d)) = rd_reminders d"
  | (inserted) content first recurrence timezone thread topic row
    where "row = new_reminder cal uuid auth i content first recurrence timezone thread topic now"
      "reminder_checks row" "\<forall>r\<in>set (rd_reminders d). rm_id r \<noteq> uuid"
      "rd_reminders (snd (create hash cal uuid auth i now d)) = rd_reminders d @ [row]"
proof (cases "create_values i")
  case (Inl e)
  then show thesis using unchanged by (simp add: create_def)
next
  case (Inr v)
  obtain content first recurrence where v: "v = (content, first, recurrence)" by (cases v)
  let ?h = "hash (Create_fingerprint (i\<lparr>cr_content := content\<rparr>))"
  have db: "snd (create hash cal uuid auth i now d) =
      snd (end_tx (create_body cal uuid auth i content first recurrence ?h now d) d)"
    using Inr v by (simp add: create_def run_tx_def)
  show thesis
  proof (cases "create_body cal uuid auth i content first recurrence ?h now d")
    case (Commit x d')
    have "d' = d \<or> (\<exists>timezone. insert_reminder cal uuid auth i content first recurrence timezone ?h now d = Commit x d')"
      using Commit by (auto simp: create_body_def split: sum.splits option.splits)
    moreover have thesis
      if ins: "insert_reminder cal uuid auth i content first recurrence timezone ?h now d = Commit x d'" for timezone
    proof -
      obtain thread topic where row: "reminder_checks (new_reminder cal uuid auth i content first recurrence timezone thread topic now)"
          "\<not> exists_row (\<lambda>r. rm_id r = uuid) (rd_reminders d)"
          "rd_reminders d' = rd_reminders d @ [new_reminder cal uuid auth i content first recurrence timezone thread topic now]"
        using ins by (auto simp: insert_reminder_def Let_def record_operation_def simp del: exists_row_iff
            split: sum.splits if_splits)
      then show thesis using inserted [OF refl row(1)] Commit by (auto simp: db)
    qed
    ultimately show thesis using unchanged Commit by (auto simp: db)
  qed (use unchanged in \<open>simp_all add: db\<close>)
qed

lemma select_reminder_Some:
  "select_reminder family rid d = Some r \<Longrightarrow> r \<in> set (rd_reminders d) \<and> rm_family r = family \<and> rm_id r = rid"
  by (auto simp: select_reminder_def dest!: first_row_Some)

text \<open>An update or a delete that gets through met every guard.\<close>

lemma update_cases:
  assumes "update hash cal auth rid i now d = (Inr x, d')"
  obtains (replay) replayed r where "d' = d" "x = row_to_reminder r" "select_reminder (au_family auth) replayed d = Some r"
  | (changed) v r where "update_values i = Inr v" "select_reminder (au_family auth) rid d = Some r"
      "require_reminder_mutation_access auth r d = Inr ()" "rm_status r \<noteq> R_leased"
      "reminder_checks (updated_reminder cal v now r)" "x = row_to_reminder (updated_reminder cal v now r)"
      "rd_reminders d' = update_where (\<lambda>x. rm_id x = rid) (\<lambda>_. updated_reminder cal v now r) (rd_reminders d)"
      "rd_memberships d' = rd_memberships d"
proof -
  obtain v where v: "update_values i = Inr v"
    "end_tx (update_body cal auth rid i v (hash (fingerprint_of_update i v)) now d) d = (Inr x, d')"
    using assms by (auto simp: update_def run_tx_def when_valid_Inr)
  let ?h = "hash (fingerprint_of_update i v)"
  have commit: "update_body cal auth rid i v ?h now d = Commit x d'"
    using v(2) by (cases "update_body cal auth rid i v ?h now d")
      (auto simp: update_body_def update_row_def split: sum.splits option.splits if_splits prod.splits)
  show thesis
  proof (cases "\<exists>p. find_reminder_operation (au_family auth) (up_key i) Update_operation ?h d = Inr (Some (Some p))")
    case True
    with commit show thesis by (auto simp: update_body_def split: option.splits intro: replay)
  next
    case False
    then have "update_row cal auth rid i v ?h now d = Commit x d'"
      using commit by (auto simp: update_body_def split: sum.splits option.splits)
    then obtain r row d1 where r: "select_reminder (au_family auth) rid d = Some r"
        "require_reminder_mutation_access auth r d = Inr ()" "apply_reminder_update cal r v now d = Inr (row, d1)"
        "x = row_to_reminder row" "rd_reminders d' = rd_reminders d1" "rd_memberships d' = rd_memberships d1"
      unfolding update_row_def record_operation_def
      by (auto simp del: exists_row_iff split: sum.splits option.splits if_splits prod.splits)
    have id: "rm_id r = rid" using select_reminder_Some [OF r(1)] by simp
    have "rm_status r \<noteq> R_leased" "row = updated_reminder cal v now r" "reminder_checks row"
      "rd_reminders d1 = update_where (\<lambda>x. rm_id x = rid) (\<lambda>_. row) (rd_reminders d)" "rd_memberships d1 = rd_memberships d"
      using r(3) by (auto simp: apply_reminder_update_def Let_def id split: if_splits)
    with v(1) r show thesis by (intro changed [of v r]) auto
  qed
qed

lemma delete_cases:
  assumes "delete hash auth rid key d = (Inr x, d')"
  obtains (replay) "d' = d"
  | (deleted) r where "select_reminder (au_family auth) rid d = Some r"
      "require_reminder_mutation_access auth r d = Inr ()" "rm_status r \<noteq> R_leased"
      "rd_reminders d' = delete_where (\<lambda>r. rm_id r = rid) (rd_reminders d)"
proof -
  have "end_tx (delete_body auth rid key (hash (Delete_fingerprint rid)) d) d = (Inr x, d')"
    using assms by (simp add: delete_def run_tx_def)
  then have "delete_body auth rid key (hash (Delete_fingerprint rid)) d = Commit x d'"
    by (cases "delete_body auth rid key (hash (Delete_fingerprint rid)) d")
      (auto simp: delete_body_def Let_def split: sum.splits option.splits if_splits)
  then show thesis
    by (auto simp: delete_body_def Let_def record_operation_def split: sum.splits option.splits if_splits
        intro: replay deleted)
qed

lemma tools_error_unchanged:
  "update hash cal auth rid i now d = (Inl e, d') \<Longrightarrow> d' = d"
  "delete hash auth rid key d = (Inl e, d') \<Longrightarrow> d' = d"
  "configure_notifications cal auth ni d = (Inl e, d') \<Longrightarrow> d' = d"
  by (auto simp: update_def delete_def configure_notifications_def when_valid_def dest: run_tx_error_unchanged
      split: sum.splits)

lemma configure_reminders: "rd_reminders (snd (configure_notifications cal auth i d)) = rd_reminders d"
  by (cases "require_quiet_hours i")
    (auto simp: configure_notifications_def run_tx_def Let_def split: sum.splits)

section \<open>Every operation\<close>

text \<open>The ids an operation makes deliverable again.\<close>

fun arms_of ::
  "(operation_fingerprint \<Rightarrow> string) \<Rightarrow> pg_calendar \<Rightarrow> reminder_op \<Rightarrow> reminder_db \<Rightarrow> string set" where
  "arms_of hash cal (Op_create uuid auth i now) d = {uuid}"
| "arms_of hash cal (Op_update auth rid i now) d =
     (if is_ok (fst (update hash cal auth rid i now d)) \<and> up_enabled i = Some True then {rid} else {})"
| "arms_of hash cal (Op_complete job completed rp) d =
     (if is_ok (fst (complete_reminder cal job completed rp d)) then {cj_id job} else {})"
| "arms_of hash cal _ d = {}"

definition created_row :: "string set \<Rightarrow> reminder \<Rightarrow> bool" where
  "created_row arms r \<longleftrightarrow> rm_id r \<in> arms \<and> reminder_checks r \<and> rm_status r = R_active \<and> rm_attempts r = 0"

definition op_result :: "pg_calendar \<Rightarrow> string set \<Rightarrow> reminder_db \<Rightarrow> reminder_db \<Rightarrow> bool" where
  "op_result cal arms d d' \<longleftrightarrow>
     (\<forall>r'\<in>set (rd_reminders d'). created_row arms r' \<or> (\<exists>r\<in>set (rd_reminders d). row_steps cal arms r r')) \<and>
     reminder_rows.pk (rd_reminders d')"

lemma op_result_rows: "rows_from cal arms d d' \<Longrightarrow> reminder_rows.pk (rd_reminders d') \<Longrightarrow> op_result cal arms d d'"
  by (auto simp: op_result_def rows_from_def)

lemma op_result_same: "rd_reminders d' = rd_reminders d \<Longrightarrow> reminder_rows.pk (rd_reminders d) \<Longrightarrow> op_result cal arms d d'"
  by (auto simp: op_result_def)

lemma create_result:
  assumes "reminder_rows.pk (rd_reminders d)"
  shows "op_result cal {uuid} d (snd (create hash cal uuid auth i now d))"
proof (cases hash cal uuid auth i now d rule: create_cases)
  case unchanged
  then show ?thesis using assms by (rule op_result_same)
next
  case (inserted content first recurrence timezone thread topic row)
  have "created_row {uuid} row"
    using inserted(1,2) by (simp add: created_row_def new_reminder_def Let_def)
  moreover have "reminder_rows.pk (rd_reminders d @ [row])"
    using inserted(1,3) by (intro reminder_rows.pk_insert assms) (auto simp: new_reminder_def Let_def)
  ultimately show ?thesis using inserted(4) by (auto simp: op_result_def)
qed

lemma update_values_enabled: "update_values i = Inr v \<Longrightarrow> mv_enabled v = up_enabled i"
  by (auto simp: update_values_def res_bind_Inr_iff split: if_splits)

lemma update_result:
  assumes pk: "reminder_rows.pk (rd_reminders d)"
  shows "op_result cal (arms_of hash cal (Op_update auth rid i now) d) d (snd (update hash cal auth rid i now d))"
proof (cases "update hash cal auth rid i now d")
  case (Pair res d')
  show ?thesis
  proof (cases res)
    case (Inl e)
    with Pair have "d' = d" using tools_error_unchanged(1) by blast
    with Pair pk show ?thesis by (simp add: op_result_same)
  next
    case (Inr x)
    from Pair [unfolded Inr] show ?thesis
    proof (cases rule: update_cases)
      case (replay replayed r)
      with Pair pk show ?thesis by (simp add: op_result_same)
    next
      case (changed v r)
      let ?arms = "arms_of hash cal (Op_update auth rid i now) d"
      have arms: "rid \<in> ?arms" if "mv_enabled v = Some True"
        using that update_values_enabled [OF changed(1)] Pair Inr by simp
      note r = select_reminder_Some [OF changed(2)]
      have "row_step cal ?arms x (updated_reminder cal v now r)" if "x \<in> set (rd_reminders d)" "rm_id x = rid" for x
      proof -
        have "x = r" using reminder_rows.pk_unique [OF pk] that r by simp
        with changed(4,5) arms r show ?thesis
          by (cases "mv_enabled v = Some True") (auto intro: updated edited)
      qed
      then have "rows_from cal ?arms d d'" by (rule rows_from_update [OF _ changed(7)])
      moreover have "reminder_rows.pk (rd_reminders d')"
      proof -
        have "map rm_id (rd_reminders d') = map rm_id (rd_reminders d)"
          using r unfolding changed(7) update_where_def by simp
        with pk show ?thesis by (simp add: reminder_rows.pk_def)
      qed
      ultimately show ?thesis using Pair by (simp add: op_result_rows)
    qed
  qed
qed

lemma delete_result:
  assumes pk: "reminder_rows.pk (rd_reminders d)"
  shows "op_result cal {} d (snd (delete hash auth rid key d))"
proof (cases "delete hash auth rid key d")
  case (Pair res d')
  show ?thesis
  proof (cases res)
    case (Inl e)
    with Pair have "d' = d" using tools_error_unchanged(2) by blast
    with Pair pk show ?thesis by (simp add: op_result_same)
  next
    case (Inr x)
    from Pair [unfolded Inr] show ?thesis
    proof (cases rule: delete_cases)
      case replay
      with Pair pk show ?thesis by (simp add: op_result_same)
    next
      case (deleted r)
      then have "rows_from cal {} d d'" "reminder_rows.pk (rd_reminders d')"
        using reminder_rows.pk_delete [OF pk] by (auto simp: rows_from_def delete_where_def)
      with Pair show ?thesis by (simp add: op_result_rows)
    qed
  qed
qed

lemma complete_result:
  assumes "reminder_rows.pk (rd_reminders d)"
  shows "op_result cal (arms_of hash cal (Op_complete job completed rp) d) d (snd (complete_reminder cal job completed rp d))"
proof (cases "complete_reminder cal job completed rp d")
  case (Pair res d')
  show ?thesis
  proof (cases res)
    case (Inl e)
    with Pair have "d' = d" unfolding complete_reminder_def by (metis run_tx_error_unchanged)
    with Pair assms show ?thesis by (simp add: op_result_same)
  next
    case (Inr u)
    with complete_rows [OF assms, of job "{cj_id job}" cal completed rp] Pair show ?thesis by (simp add: op_result_rows)
  qed
qed

lemma apply_reminder_op_result:
  assumes "reminder_rows.pk (rd_reminders d)"
  shows "op_result cal (arms_of hash cal op d) d (apply_reminder_op hash cal op d)"
proof (cases op)
  case (Op_claim locked tokens o')
  with claim_due_rows [OF assms] show ?thesis by (simp add: op_result_rows)
next
  case (Op_mark rid token now)
  with mark_rows assms show ?thesis by (simp add: op_result_rows)
next
  case (Op_fail job code now)
  with fail_rows assms show ?thesis by (simp add: op_result_rows)
next
  case (Op_configure auth i)
  with assms show ?thesis by (simp add: op_result_same configure_reminders)
next
  case (Op_update auth rid i now)
  with update_result [OF assms] show ?thesis by (simp only: apply_reminder_op.simps)
next
  case (Op_complete job completed rp)
  with complete_result [OF assms] show ?thesis by (simp only: apply_reminder_op.simps)
qed (simp_all add: create_result delete_result assms)

lemma run_reminder_ops_snoc:
  "run_reminder_ops hash cal (ops @ [op]) d = apply_reminder_op hash cal op (run_reminder_ops hash cal ops d)"
  by (simp add: run_reminder_ops_def)

lemma run_reminder_ops_append:
  "run_reminder_ops hash cal (ops @ ops') d = run_reminder_ops hash cal ops' (run_reminder_ops hash cal ops d)"
  by (simp add: run_reminder_ops_def)

lemma run_reminder_ops_pk:
  "reminder_rows.pk (rd_reminders d) \<Longrightarrow> reminder_rows.pk (rd_reminders (run_reminder_ops hash cal ops d))"
proof (induction ops rule: rev_induct)
  case (snoc op ops)
  then show ?case using apply_reminder_op_result unfolding run_reminder_ops_snoc op_result_def by blast
qed (simp add: run_reminder_ops_def)

section \<open>The table invariant\<close>

definition reminder_ok :: "reminder \<Rightarrow> bool" where
  "reminder_ok r \<longleftrightarrow> reminder_checks r \<and> rm_attempts r \<le> max_safe_attempts \<and>
     (rm_status r = R_active \<longrightarrow> rm_attempts r < max_safe_attempts)"

text \<open>The columns the dispatcher never touches, and those of the lease.\<close>

definition columns_ok ::
  "string \<Rightarrow> int option \<Rightarrow> int option \<Rightarrow> int option \<Rightarrow> reminder_scope \<Rightarrow> string option \<Rightarrow> string option
     \<Rightarrow> recurrence_unit option \<Rightarrow> time option \<Rightarrow> bool" where
  "columns_ok content thread topic interval scope owner grp unit anchor \<longleftrightarrow>
     1 \<le> length content \<and> length content \<le> 1000 \<and>
     (case thread of None \<Rightarrow> True | Some n \<Rightarrow> 0 < n) \<and> (case topic of None \<Rightarrow> True | Some n \<Rightarrow> 0 < n) \<and>
     (case interval of None \<Rightarrow> True | Some n \<Rightarrow> 1 \<le> n \<and> n \<le> 365) \<and>
     (case scope of Personal_reminder \<Rightarrow> owner \<noteq> None \<and> grp = None \<and> thread = None
      | Family_reminder \<Rightarrow> owner = None \<and> grp \<noteq> None) \<and>
     (unit = None \<longleftrightarrow> interval = None) \<and> (unit \<in> {Some Minutely, Some Hourly} \<longrightarrow> anchor \<noteq> None)"

lemma reminder_ok_split:
  "reminder_ok r \<longleftrightarrow>
     columns_ok (rm_content r) (rm_thread r) (rm_topic r) (rm_interval r) (rm_scope r) (rm_owner r) (rm_group r)
       (rm_unit r) (rm_anchor_at r) \<and>
     0 \<le> rm_occurrence r \<and> 0 \<le> rm_attempts r \<and>
     (if rm_status r = R_leased then rm_lease r \<noteq> None \<and> rm_lease_until r \<noteq> None
      else rm_lease r = None \<and> rm_lease_until r = None \<and> rm_dispatch r = None) \<and>
     rm_attempts r \<le> max_safe_attempts \<and> (rm_status r = R_active \<longrightarrow> rm_attempts r < max_safe_attempts)"
  unfolding reminder_ok_def reminder_checks_def columns_ok_def by blast

lemma row_step_ok: "row_step cal arms r r' \<Longrightarrow> reminder_ok r \<Longrightarrow> reminder_ok r'"
proof (induction rule: row_step.induct)
  case (updated r v now)
  then show ?case by (simp add: reminder_ok_def) (simp add: updated_reminder_def max_safe_attempts_def Let_def)
next
  case (edited r v now)
  then show ?case by (simp add: reminder_ok_def) (simp add: updated_reminder_def max_safe_attempts_def Let_def)
next
  case (expired now r code)
  then show ?case by (simp add: reminder_ok_split row_rewrites)
next
  case (recovered now r)
  then show ?case by (simp add: reminder_ok_split row_rewrites)
next
  case (revoked r code now)
  then show ?case by (simp add: reminder_ok_split)
next
  case (deferred r now d)
  then show ?case by (simp add: reminder_ok_split row_rewrites)
next
  case (leased r tokens now ms)
  then show ?case by (simp add: reminder_ok_split row_rewrites)
next
  case (marked r now)
  then show ?case by (simp add: reminder_ok_split row_rewrites)
next
  case (completed r now)
  then show ?case by (simp add: reminder_ok_split row_rewrites)
next
  case (rearmed r n t now)
  then show ?case by (simp add: reminder_ok_split row_rewrites max_safe_attempts_def)
next
  case (failed r code now)
  then show ?case by (simp add: reminder_ok_split row_rewrites)
qed

lemma row_steps_ok: "row_steps cal arms r r' \<Longrightarrow> reminder_ok r \<Longrightarrow> reminder_ok r'"
  by (induction rule: rtranclp_induct) (auto intro: row_step_ok)

text \<open>
  The reminder table stays consistent. Along any run of the tools and the dispatcher every row meets
  the table constraints (a lease with its deadline exactly while leased, a marker only then, recurrence unit and
  interval together, the right owner or group), no row counts more than three attempts, and an active
  row has an attempt left, so it can always be claimed; ids stay unique.
\<close>

theorem reminders_stay_consistent:
  assumes "reminder_rows.pk (rd_reminders d)" "list_all reminder_ok (rd_reminders d)"
  shows "reminder_rows.pk (rd_reminders (run_reminder_ops hash cal ops d)) \<and>
    list_all reminder_ok (rd_reminders (run_reminder_ops hash cal ops d))"
proof (induction ops rule: rev_induct)
  case Nil
  with assms show ?case by (simp add: run_reminder_ops_def)
next
  case (snoc op ops)
  have "created_row arms r \<Longrightarrow> reminder_ok r" for arms r
    by (simp add: created_row_def reminder_ok_def max_safe_attempts_def)
  then show ?case
    using snoc apply_reminder_op_result [OF snoc [THEN conjunct1], of cal hash op]
    unfolding run_reminder_ops_snoc op_result_def list_all_iff by (meson row_steps_ok)
qed

section \<open>One marker per arming\<close>

text \<open>A row no claim can take: not active, and if leased then already marked.\<close>

definition spent_row :: "reminder \<Rightarrow> bool" where
  "spent_row r \<longleftrightarrow> rm_status r \<noteq> R_active \<and> (rm_status r = R_leased \<longrightarrow> rm_dispatch r \<noteq> None)"

lemma row_step_spent: "row_step cal arms r r' \<Longrightarrow> rm_id r \<notin> arms \<Longrightarrow> spent_row r \<Longrightarrow> spent_row r'"
proof (induction rule: row_step.induct)
  case (edited r v now)
  then show ?case by (auto simp: spent_row_def updated_reminder_def Let_def)
qed (auto simp: spent_row_def failed_reminder_def marked_reminder_def completed_reminder_def lease_expired_def)

lemma row_steps_spent: "row_steps cal arms r r' \<Longrightarrow> rm_id r \<notin> arms \<Longrightarrow> spent_row r \<Longrightarrow> spent_row r' \<and> rm_id r' = rm_id r"
  by (induction rule: rtranclp_induct) (auto intro: row_step_spent dest: row_step_id)

lemma row_steps_id: "row_steps cal arms r r' \<Longrightarrow> rm_id r' = rm_id r"
  by (induction rule: rtranclp_induct) (auto dest: row_step_id)

definition spent :: "string \<Rightarrow> reminder_db \<Rightarrow> bool" where
  "spent rid d \<longleftrightarrow> (\<forall>r\<in>set (rd_reminders d). rm_id r = rid \<longrightarrow> spent_row r)"

lemma apply_reminder_op_spent:
  assumes "spent rid d" "rid \<notin> arms_of hash cal op d" "reminder_rows.pk (rd_reminders d)"
  shows "spent rid (apply_reminder_op hash cal op d)"
  unfolding spent_def
proof (intro ballI impI)
  fix r' assume r': "r' \<in> set (rd_reminders (apply_reminder_op hash cal op d))" "rm_id r' = rid"
  with apply_reminder_op_result [OF assms(3), of cal hash op] assms(2)
  obtain r where "r \<in> set (rd_reminders d)" "row_steps cal (arms_of hash cal op d) r r'"
    by (auto simp: op_result_def created_row_def)
  with assms(1,2) r'(2) show "spent_row r'"
    unfolding spent_def by (metis row_steps_id row_steps_spent)
qed

lemma marked_is_spent:
  assumes "mark_dispatch_started rid token now d = (Inr (), d')" "reminder_rows.pk (rd_reminders d)"
  shows "spent rid d'"
proof -
  let ?hit = "\<lambda>r. lease_row rid token r \<and> rm_dispatch r = None"
  have d': "rd_reminders d' = update_where ?hit (marked_reminder now) (rd_reminders d)" "row_count ?hit (rd_reminders d) \<noteq> 0"
    using assms(1) by (auto simp: mark_dispatch_started_def Let_def split: if_splits)
  then obtain r where r: "r \<in> set (rd_reminders d)" "?hit r" by (auto simp: row_count_0_iff)
  have "spent_row (marked_reminder now r)" using r(2) by (simp add: spent_row_def marked_reminder_def lease_row_def)
  moreover have "x = r" if "x \<in> set (rd_reminders d)" "rm_id x = rid" for x
    using reminder_rows.pk_unique [OF assms(2) that(1) r(1)] that(2) r(2) by (simp add: lease_row_def)
  ultimately show ?thesis
    using r(2) unfolding spent_def d'(1) set_update_where by (auto split: if_splits)
qed

lemma spent_is_not_marked:
  assumes "spent rid d"
  shows "mark_dispatch_started rid token now d = (Inl (AppError ''AGENT_REMINDER_LEASE_STALE''), d)"
proof -
  have "row_count (\<lambda>r. lease_row rid token r \<and> rm_dispatch r = None) (rd_reminders d) = 0"
    using assms by (auto simp: row_count_0_iff spent_def spent_row_def lease_row_def)
  then show ?thesis by (simp add: mark_dispatch_started_def)
qed

text \<open>
  C14: A reminder is sent at most once per arming. The marker precedes every Telegram call; between two
  markers of one reminder in any run, under whatever lease tokens, lies a confirmed completion of it, its
  re-activation by a person, or its creation. In particular a crash after the marker never leads to a second message.
\<close>

theorem marker_happens_once_per_arming:
  assumes "reminder_rows.pk (rd_reminders d)"
    "mark_dispatch_started rid token now (run_reminder_ops hash cal pre d) = (Inr (), d1)"
    "fst (mark_dispatch_started rid token' now' (run_reminder_ops hash cal mid d1)) = Inr ()"
  shows "\<exists>m1 op m2. mid = m1 @ op # m2 \<and> rid \<in> arms_of hash cal op (run_reminder_ops hash cal m1 d1)"
proof -
  have pk0: "reminder_rows.pk (rd_reminders (run_reminder_ops hash cal pre d))" by (rule run_reminder_ops_pk [OF assms(1)])
  have pk1: "reminder_rows.pk (rd_reminders d1)"
    using mark_rows [of cal "{}" "run_reminder_ops hash cal pre d" rid token now] pk0 assms(2) by simp
  have "spent rid (run_reminder_ops hash cal mid d1) \<or>
      (\<exists>m1 op m2. mid = m1 @ op # m2 \<and> rid \<in> arms_of hash cal op (run_reminder_ops hash cal m1 d1))"
  proof (induction mid rule: rev_induct)
    case Nil
    show ?case using marked_is_spent [OF assms(2) pk0] by (simp add: run_reminder_ops_def)
  next
    case (snoc op ops)
    then show ?case
      using apply_reminder_op_spent [OF _ _ run_reminder_ops_pk [OF pk1]] unfolding run_reminder_ops_snoc
      by (metis append.assoc append_Cons append_Nil)
  qed
  then show ?thesis using spent_is_not_marked assms(3) by (metis fst_conv sum.distinct(1))
qed

end
