(* ===== verification/Reminder_Properties.thy ===== *)
theory Reminder_Properties
  imports Reminder_History
begin

text \<open>What the reminder operations promise to the people who use them.\<close>

section \<open>Claims\<close>

lemma claim_due_Inr:
  assumes "claim_due cal locked tokens o' d = (Inr jobs, d')"
  obtains now n candidates where "co_now o' = Some now" "co_limit o' = Int_num n" "0 < n"
    "candidates = select_ordered (claimable_reminder locked (millis now) (prepare_claim cal (millis now) d))
       (\<lambda>r. (rm_available r, rm_id r)) (nat n) (rd_reminders (prepare_claim cal (millis now) d))"
    "map cj_id jobs = map rm_id candidates"
    "rd_reminders d' = update_where (\<lambda>r. rm_id r \<in> set (map rm_id candidates))
       (leased_reminder tokens (millis now) (number_value (co_lease_ms o'))) (rd_reminders (prepare_claim cal (millis now) d))"
proof -
  obtain u where u: "require_claim_options o' = Inr u"
    using assms by (cases "require_claim_options o'") (simp_all add: claim_due_def)
  then obtain now n where o': "co_now o' = Some now" "co_limit o' = Int_num n" "0 < n"
    by (cases "co_limit o'") (auto simp: require_claim_options_def split: if_splits)
  show thesis
    by (rule that [OF o' refl]) (use assms u o' in \<open>auto simp: claim_due_def run_tx_def Let_def to_job_def comp_def\<close>)
qed

text \<open>Preparation only adds to a row what concerns leases and quiet hours: author and family stay.\<close>

definition same_author :: "reminder \<Rightarrow> reminder \<Rightarrow> bool" where
  "same_author r r' \<longleftrightarrow> rm_author r' = rm_author r \<and> rm_family r' = rm_family r \<and> rm_id r' = rm_id r"

lemma update_where_back:
  "r' \<in> set (update_where P f rows) \<Longrightarrow> (\<And>r. same_author r (f r)) \<Longrightarrow> \<exists>r\<in>set rows. same_author r r'"
  by (auto simp: set_update_where same_author_def split: if_splits)

lemma unquiet_rows:
  "\<exists>rows. fail_revoked now (recover_unstarted now (fail_exhausted now (fail_ambiguous now d))) =
      d\<lparr>rd_reminders := rows, rd_audit := rd_audit (fail_revoked now (recover_unstarted now (fail_exhausted now (fail_ambiguous now d))))\<rparr> \<and>
    (\<forall>r'\<in>set rows. \<exists>r\<in>set (rd_reminders d). same_author r r')"
proof -
  let ?d1 = "fail_ambiguous now d"
  let ?d2 = "fail_exhausted now ?d1"
  let ?d3 = "recover_unstarted now ?d2"
  have 1: "\<forall>r'\<in>set (rd_reminders ?d1). \<exists>r\<in>set (rd_reminders d). same_author r r'"
    by (auto simp: fail_ambiguous_def fail_where_def dest!: update_where_back) (simp_all add: same_author_def failed_reminder_def)
  have 2: "\<forall>r'\<in>set (rd_reminders ?d2). \<exists>r\<in>set (rd_reminders ?d1). same_author r r'"
    by (auto simp: fail_exhausted_def fail_where_def dest!: update_where_back) (simp_all add: same_author_def failed_reminder_def)
  have 3: "\<forall>r'\<in>set (rd_reminders ?d3). \<exists>r\<in>set (rd_reminders ?d2). same_author r r'"
    by (auto simp: recover_unstarted_def dest!: update_where_back) (simp_all add: same_author_def recovered_reminder_def)
  have 4: "\<forall>r'\<in>set (rd_reminders (fail_revoked now ?d3)). \<exists>r\<in>set (rd_reminders ?d3). same_author r r'"
    by (auto simp: fail_revoked_def fail_where_def dest!: update_where_back) (simp_all add: same_author_def)
  have trans: "same_author a b \<Longrightarrow> same_author b c \<Longrightarrow> same_author a c" for a b c by (simp add: same_author_def)
  have "fail_revoked now ?d3 = d\<lparr>rd_reminders := rd_reminders (fail_revoked now ?d3), rd_audit := rd_audit (fail_revoked now ?d3)\<rparr>"
    by (simp add: fail_revoked_def fail_where_def recover_unstarted_def fail_exhausted_def fail_ambiguous_def)
  moreover have "\<forall>r'\<in>set (rd_reminders (fail_revoked now ?d3)). \<exists>r\<in>set (rd_reminders d). same_author r r'"
    using 1 2 3 4 trans by meson
  ultimately show ?thesis by blast
qed

lemma quiet_until_later:
  assumes "zone_laws cal" "in_quiet_hours cal now s" "\<And>t. ns_start s = Some t \<or> ns_end s = Some t \<Longrightarrow> 0 \<le> t \<and> t < one_day"
  shows "now < quiet_until cal now s"
proof -
  let ?l = "cal_local cal (ns_timezone s) now"
  obtain a b where ab: "ns_start s = Some a" "ns_end s = Some b"
    using assms(2) by (auto simp: in_quiet_hours_def split: option.splits)
  have l: "?l = one_day * local_date ?l + time_of_day ?l" "time_of_day ?l < one_day"
    by (simp_all add: local_date_def time_of_day_def one_day_def)
  have b: "0 \<le> b" using assms(3) ab by auto
  have quiet: "a < b \<and> a \<le> time_of_day ?l \<and> time_of_day ?l < b \<or> b < a \<and> (a \<le> time_of_day ?l \<or> time_of_day ?l < b)"
    using assms(2) ab by (simp add: in_quiet_hours_def Let_def)
  have "?l < one_day * local_date ?l + b + (if b < a \<and> a \<le> time_of_day ?l then one_day else 0)"
  proof (cases "b < a \<and> a \<le> time_of_day ?l")
    case True
    have "?l < one_day * local_date ?l + b + one_day" using l b by linarith
    with True show ?thesis by simp
  next
    case False
    then have "time_of_day ?l < b" using quiet by linarith
    then have "?l < one_day * local_date ?l + b" using l(1) by linarith
    then show ?thesis unfolding if_not_P [OF False] by simp
  qed
  with assms(1) ab show ?thesis by (simp add: zone_laws_def quiet_until_def Let_def)
qed

text \<open>
  C9: Nobody is woken. A job the dispatcher claims belongs to a reminder whose author is not in quiet
  hours at that moment, on any calendar whose time zones obey the laws, when settings hold times of day.
\<close>

theorem claims_respect_quiet_hours:
  assumes "claim_due cal locked tokens o' d = (Inr jobs, d')" "zone_laws cal"
    "\<And>s t. s \<in> set (rd_settings d) \<Longrightarrow> ns_start s = Some t \<or> ns_end s = Some t \<Longrightarrow> 0 \<le> t \<and> t < one_day"
    "job \<in> set jobs" "co_now o' = Some now"
  shows "\<exists>r\<in>set (rd_reminders d). rm_id r = cj_id job \<and>
    (case settings_of d r of None \<Rightarrow> True | Some s \<Rightarrow> \<not> in_quiet_hours cal (millis now) s)"
  using assms(1)
proof (cases rule: claim_due_Inr)
  case (1 now' n candidates)
  let ?now = "millis now"
  let ?d1 = "prepare_claim cal ?now d"
  have now: "now' = now" using 1(1) assms(5) by simp
  obtain c where c: "c \<in> set candidates" "rm_id c = cj_id job"
    using assms(4) 1(5) by (metis in_set_conv_nth length_map nth_map nth_mem)
  have "c \<in> set (rd_reminders ?d1) \<and> claimable_reminder locked ?now ?d1 c"
    using c(1) unfolding 1(4) now by (rule set_select_ordered)
  then have claimed: "c \<in> set (rd_reminders ?d1)" "rm_status c = R_active" "rm_available c \<le> ?now"
    by (simp_all add: claimable_reminder_def)
  let ?d0 = "fail_revoked ?now (recover_unstarted ?now (fail_exhausted ?now (fail_ambiguous ?now d)))"
  obtain rows where rows: "?d0 = d\<lparr>rd_reminders := rows, rd_audit := rd_audit ?d0\<rparr>"
      "\<forall>r'\<in>set rows. \<exists>r\<in>set (rd_reminders d). same_author r r'"
    using unquiet_rows by blast
  have settings: "settings_of ?d0 r = settings_of d r" for r
    by (subst rows(1)) (simp add: settings_of_def)
  obtain r0 where r0: "r0 \<in> set (rd_reminders ?d0)"
      "c = (if quiet_reminder cal ?now ?d0 r0 then deferred_reminder cal ?now ?d0 r0 else r0)"
    using claimed(1) unfolding prepare_claim_def defer_quiet_def by (auto simp: set_update_where)
  have calm: "\<not> quiet_reminder cal ?now ?d0 r0"
  proof
    assume q: "quiet_reminder cal ?now ?d0 r0"
    then obtain s where s: "settings_of d r0 = Some s" "in_quiet_hours cal ?now s"
      unfolding quiet_reminder_def settings by (auto split: option.splits)
    then have "s \<in> set (rd_settings d)" by (auto simp: settings_of_def dest!: first_row_Some)
    with s assms(2,3) have "?now < quiet_until cal ?now s" by (intro quiet_until_later) auto
    with claimed(3) r0(2) q s(1) show False by (simp add: deferred_reminder_def settings)
  qed
  with r0 claimed(2,3) have quiet: "case settings_of d c of None \<Rightarrow> True | Some s \<Rightarrow> \<not> in_quiet_hours cal ?now s"
    by (auto simp: quiet_reminder_def settings split: option.splits)
  have "c \<in> set rows" using r0(1) calm r0(2) by (subst (asm) rows(1)) simp
  then obtain r where r: "r \<in> set (rd_reminders d)" "same_author r c" using rows(2) by blast
  have "settings_of d r = settings_of d c" using r(2) by (simp add: settings_of_def same_author_def)
  with r quiet c(2) show ?thesis by (intro bexI [of _ r]) (auto simp: same_author_def)
qed


definition due_now :: "pg_calendar \<Rightarrow> (string \<Rightarrow> bool) \<Rightarrow> time \<Rightarrow> reminder_db \<Rightarrow> reminder \<Rightarrow> bool" where
  "due_now cal locked now d r \<longleftrightarrow>
     rm_status r = R_active \<and> rm_available r \<le> now \<and> rm_attempts r < max_safe_attempts \<and> destination_valid d r \<and>
     (case settings_of d r of None \<Rightarrow> True | Some s \<Rightarrow> \<not> in_quiet_hours cal now s) \<and> \<not> locked (rm_id r)"

lemma due_survives_preparation:
  assumes "r \<in> set (rd_reminders d)" "due_now cal locked now d r"
  shows "r \<in> set (rd_reminders (prepare_claim cal now d)) \<and> claimable_reminder locked now (prepare_claim cal now d) r"
proof -
  let ?d0 = "fail_revoked now (recover_unstarted now (fail_exhausted now (fail_ambiguous now d)))"
  have active: "\<not> lease_expired now r" using assms(2) by (simp add: due_now_def lease_expired_def)
  have valid: "destination_valid (recover_unstarted now (fail_exhausted now (fail_ambiguous now d))) r"
    using assms(2)
    by (simp add: due_now_def destination_valid_def author_is_member_def recover_unstarted_def fail_exhausted_def
        fail_ambiguous_def fail_where_def)
  have in0: "r \<in> set (rd_reminders ?d0)"
    unfolding fail_revoked_def recover_unstarted_def fail_exhausted_def fail_ambiguous_def fail_where_def
    using assms(1) active valid
    by (simp add: recover_unstarted_def fail_exhausted_def fail_ambiguous_def fail_where_def update_where_keeps)
  have "settings_of ?d0 r = settings_of d r"
    by (simp add: settings_of_def fail_revoked_def recover_unstarted_def fail_exhausted_def fail_ambiguous_def fail_where_def)
  with assms(2) have "\<not> quiet_reminder cal now ?d0 r"
    by (auto simp: quiet_reminder_def due_now_def split: option.splits)
  with in0 have "r \<in> set (rd_reminders (prepare_claim cal now d))"
    unfolding prepare_claim_def defer_quiet_def by (simp add: update_where_keeps)
  moreover have "author_is_member (prepare_claim cal now d) r = author_is_member d r"
    by (simp add: author_is_member_def prepare_claim_def defer_quiet_def fail_revoked_def recover_unstarted_def
        fail_exhausted_def fail_ambiguous_def fail_where_def)
  ultimately show ?thesis using assms(2) by (simp add: due_now_def claimable_reminder_def destination_valid_def)
qed

text \<open>
  C24: A due reminder is claimed. If a reminder is active, available and has an attempt left, its author is still a
  member outside quiet hours and its destination valid, then a sweep that returns claims it, unless
  the sweep is full: then it took as many jobs as it was allowed, all available no later.
\<close>

theorem due_reminder_is_claimed:
  assumes "claim_due cal locked tokens o' d = (Inr jobs, d')" "co_now o' = Some now" "co_limit o' = Int_num n"
    "r \<in> set (rd_reminders d)" "due_now cal locked (millis now) d r"
  shows "rm_id r \<in> cj_id ` set jobs \<or>
    length jobs = nat n \<and>
      (\<forall>job\<in>set jobs. \<exists>c\<in>set (rd_reminders (prepare_claim cal (millis now) d)).
        rm_id c = cj_id job \<and> (rm_available c, rm_id c) \<le> (rm_available r, rm_id r))"
  using assms(1)
proof (cases rule: claim_due_Inr)
  case (1 now' n' candidates)
  let ?d1 = "prepare_claim cal (millis now) d"
  let ?key = "\<lambda>r. (rm_available r, rm_id r)"
  define sorted_rows where "sorted_rows = sort_key ?key (filter (claimable_reminder locked (millis now) ?d1) (rd_reminders ?d1))"
  have eq: "now' = now" "n' = n" using 1(1,2) assms(2,3) by auto
  have c: "candidates = take (nat n) sorted_rows" using 1(4) eq by (simp add: select_ordered_def sorted_rows_def)
  have ids: "cj_id ` set jobs = rm_id ` set candidates" using 1(5) by (metis list.set_map)
  have len: "length jobs = length candidates" using 1(5) by (metis length_map)
  have r: "r \<in> set sorted_rows"
    using due_survives_preparation [OF assms(4,5)] by (simp add: sorted_rows_def)
  show ?thesis
  proof (cases "r \<in> set candidates")
    case True
    then show ?thesis by (simp add: ids)
  next
    case False
    then have rest: "r \<in> set (drop (nat n) sorted_rows)"
      using r unfolding c by (metis Un_iff append_take_drop_id set_append)
    then have "length candidates = nat n" unfolding c by (cases "length sorted_rows \<le> nat n") auto
    moreover have "?key x \<le> ?key r" if "x \<in> set candidates" for x
    proof -
      have "sorted (map ?key (take (nat n) sorted_rows @ drop (nat n) sorted_rows))"
        by (simp add: sorted_rows_def)
      then show ?thesis using that rest unfolding c map_append sorted_append by auto
    qed
    moreover have "x \<in> set (rd_reminders ?d1)" if "x \<in> set candidates" for x
      using that unfolding c sorted_rows_def by (auto dest!: in_set_takeD)
    moreover have "\<exists>x\<in>set candidates. rm_id x = cj_id job" if "job \<in> set jobs" for job
      using that ids by (metis imageE image_eqI)
    ultimately show ?thesis using len eq(1) by metis
  qed
qed

section \<open>Who may change a reminder\<close>

text \<open>
  The reminder belongs to the family, is not being sent, and the person is a member of the family and its
  author, or, for a family reminder, an owner; a personal one is touched only in the private chat.
\<close>

definition may_change :: "reminder_auth \<Rightarrow> string \<Rightarrow> reminder_db \<Rightarrow> bool" where
  "may_change auth rid d \<longleftrightarrow>
     (\<exists>r\<in>set (rd_reminders d). \<exists>m\<in>set (rd_memberships d).
        rm_id r = rid \<and> rm_family r = au_family auth \<and> rm_status r \<noteq> R_leased \<and>
        m_family m = au_family auth \<and> m_user m = au_user auth \<and>
        (rm_scope r = Personal_reminder \<and> au_chat_type auth = ''private'' \<and> rm_author r = au_user auth \<or>
         rm_scope r = Family_reminder \<and> (rm_author r = au_user auth \<or> m_role m = Owner_role)))"

definition others :: "string \<Rightarrow> reminder_db \<Rightarrow> reminder list" where
  "others rid d = filter (\<lambda>r. rm_id r \<noteq> rid) (rd_reminders d)"

lemma mutation_access:
  assumes "require_reminder_mutation_access auth r d = Inr ()" "select_reminder (au_family auth) rid d = Some r"
    "rm_status r \<noteq> R_leased"
  shows "may_change auth rid d"
proof -
  from assms(1) obtain role where role: "require_current_membership (rd_memberships d) (au_family auth) (au_user auth) = Inr role"
      "reminder_visible_in_chat (au_chat_type auth) (rm_scope r)"
      "if rm_scope r = Personal_reminder then rm_author r = au_user auth
       else rm_author r = au_user auth \<or> role = Owner_role"
    by (auto simp: require_reminder_mutation_access_def res_bind_Inr_iff Let_def split: if_splits)
  obtain m where m: "m \<in> set (rd_memberships d)" "m_family m = au_family auth" "m_user m = au_user auth" "m_role m = role"
    using require_current_membership_Inr [OF role(1)] by blast
  from select_reminder_Some [OF assms(2)] assms(3) m role(2,3) show ?thesis
    unfolding may_change_def reminder_visible_in_chat_def
    by (intro bexI [of _ r] bexI [of _ m]) (cases "rm_scope r"; simp)+
qed

lemma others_update_where: "filter (\<lambda>r. rm_id r \<noteq> rid) (update_where (\<lambda>x. rm_id x = rid) (\<lambda>_. row) rows) =
    filter (\<lambda>r. rm_id r \<noteq> rid) rows" if "rm_id row = rid"
  using that by (induction rows) (auto simp: update_where_def)

text \<open>
  C26: A reminder is changed or deleted only by someone who may. If an update or a delete changes the table, the
  person was entitled to that reminder at that moment; whatever the outcome, no other reminder is touched.
\<close>

theorem only_the_entitled_change_a_reminder:
  "(rd_reminders (snd (update hash cal auth rid i now d)) \<noteq> rd_reminders d \<longrightarrow> may_change auth rid d) \<and>
   (rd_reminders (snd (delete hash auth rid key d)) \<noteq> rd_reminders d \<longrightarrow> may_change auth rid d) \<and>
   others rid (snd (update hash cal auth rid i now d)) = others rid d \<and>
   others rid (snd (delete hash auth rid key d)) = others rid d"
proof -
  have "(rd_reminders d' \<noteq> rd_reminders d \<longrightarrow> may_change auth rid d) \<and> others rid d' = others rid d"
    if "update hash cal auth rid i now d = (res, d')" for res d'
  proof (cases res)
    case (Inl e)
    with that show ?thesis using tools_error_unchanged(1) by blast
  next
    case (Inr x)
    from that [unfolded Inr] show ?thesis
    proof (cases rule: update_cases)
      case (changed v r)
      have "rm_id (updated_reminder cal v now r) = rid" using select_reminder_Some [OF changed(2)] by simp
      with changed show ?thesis
        by (simp add: mutation_access others_def others_update_where)
    qed simp
  qed
  moreover have "(rd_reminders d' \<noteq> rd_reminders d \<longrightarrow> may_change auth rid d) \<and> others rid d' = others rid d"
    if "delete hash auth rid key d = (res, d')" for res d'
  proof (cases res)
    case (Inl e)
    with that show ?thesis using tools_error_unchanged(2) by blast
  next
    case (Inr x)
    from that [unfolded Inr] show ?thesis
    proof (cases rule: delete_cases)
      case (deleted r)
      then show ?thesis by (auto simp: mutation_access others_def delete_where_def)
    qed simp
  qed
  ultimately show ?thesis by (metis prod.collapse)
qed

end
