(* ===== verification/Reminder_Tools.thy ===== *)
theory Reminder_Tools
  imports Reminder_Properties
begin

text \<open>What the reminder tools promise: replays, pages and settings.\<close>

section \<open>Replays\<close>

lemma first_row_append: "first_row P (xs @ ys) = (case first_row P xs of None \<Rightarrow> first_row P ys | Some x \<Rightarrow> Some x)"
  by (simp add: first_row_def split: list.split)

lemma find_operation_new:
  "find_reminder_operation family key kind h d = Inr None \<Longrightarrow> ro_family p = family \<Longrightarrow> ro_key p = key \<Longrightarrow> ro_kind p = kind \<Longrightarrow>
     ro_hash p = h \<Longrightarrow> rd_operations d' = rd_operations d @ [p] \<Longrightarrow>
     find_reminder_operation family key kind h d' = Inr (Some (ro_reminder p))"
  by (auto simp: find_reminder_operation_def first_row_append first_row_def [of _ "[p]"] split: option.splits if_splits)

lemma create_body_replay:
  assumes "create_body cal uuid auth i content first recurrence h now d = Commit x d'"
  shows "create_body cal uuid' auth i content first recurrence h now' d' = Commit x d'"
proof -
  obtain role where role: "require_current_membership (rd_memberships d) (au_family auth) (au_user auth) = Inr role"
    using assms by (cases "require_current_membership (rd_memberships d) (au_family auth) (au_user auth)")
      (simp_all add: create_body_def)
  show ?thesis
  proof (cases "find_reminder_operation (au_family auth) (cr_key i) Create_operation h d")
    case (Inl e)
    with assms role show ?thesis by (simp add: create_body_def)
  next
    case (Inr op)
    show ?thesis
    proof (cases op)
      case (Some rid)
      with assms role Inr show ?thesis
        by (cases rid; cases "select_reminder (au_family auth) (the rid) d") (auto simp: create_body_def)
    next
      case None
      with assms role Inr obtain timezone
        where "insert_reminder cal uuid auth i content first recurrence timezone h now d = Commit x d'"
        by (auto simp: create_body_def split: sum.splits option.splits)
      then obtain thread topic where ins:
          "\<not> exists_row (\<lambda>r. rm_id r = uuid) (rd_reminders d)"
          "x = row_to_reminder (new_reminder cal uuid auth i content first recurrence timezone thread topic now)"
          "d' = record_operation
                \<lparr>ro_family = au_family auth, ro_key = cr_key i, ro_kind = Create_operation, ro_hash = h, ro_reminder = Some uuid\<rparr>
                (Reminder_created (au_family auth) (au_user auth) uuid)
                (d\<lparr>rd_reminders := rd_reminders d @ [new_reminder cal uuid auth i content first recurrence timezone thread topic now]\<rparr>)"
        by (auto simp: insert_reminder_def Let_def simp del: exists_row_iff split: sum.splits if_splits)
      let ?row = "new_reminder cal uuid auth i content first recurrence timezone thread topic now"
      have "find_reminder_operation (au_family auth) (cr_key i) Create_operation h d' = Inr (Some (Some uuid))"
        using find_operation_new [of "au_family auth" "cr_key i" Create_operation h d
            "\<lparr>ro_family = au_family auth, ro_key = cr_key i, ro_kind = Create_operation, ro_hash = h, ro_reminder = Some uuid\<rparr>" d']
          Inr None by (simp add: ins(3) record_operation_def)
      moreover have "select_reminder (au_family auth) uuid d' = Some ?row"
      proof -
        have "first_row (\<lambda>r. rm_family r = au_family auth \<and> rm_id r = uuid) (rd_reminders d) = None"
          using ins(1) by (simp add: first_row_None_iff)
        moreover have "rm_family ?row = au_family auth \<and> rm_id ?row = uuid" by (simp add: new_reminder_def Let_def)
        ultimately show ?thesis
          by (simp add: select_reminder_def ins(3) record_operation_def first_row_append first_row_def [of _ "[?row]"])
      qed
      moreover have "rd_memberships d' = rd_memberships d" by (simp add: ins(3) record_operation_def)
      ultimately show ?thesis using role by (simp add: create_body_def ins(2))
    qed
  qed
qed

text \<open>
  Creating a reminder is idempotent. Once a create call returned, the same call repeated, at any later time and
  with whatever id the database would generate, returns the same record and writes nothing.
\<close>

theorem create_is_idempotent:
  assumes "create hash cal uuid auth i now d = (Inr x, d')"
  shows "create hash cal uuid' auth i now' d' = (Inr x, d')"
proof -
  obtain content first recurrence where v: "create_values i = Inr (content, first, recurrence)"
    using assms by (cases "create_values i") (auto simp: create_def)
  let ?h = "hash (Create_fingerprint (i\<lparr>cr_content := content\<rparr>))"
  have "end_tx (create_body cal uuid auth i content first recurrence ?h now d) d = (Inr x, d')"
    using assms v by (simp add: create_def run_tx_def)
  moreover have "create_body cal uuid auth i content first recurrence ?h now d \<noteq> Rollback x"
    by (auto simp: create_body_def insert_reminder_def Let_def split: sum.splits option.splits)
  ultimately have "create_body cal uuid auth i content first recurrence ?h now d = Commit x d'"
    by (cases "create_body cal uuid auth i content first recurrence ?h now d") auto
  from create_body_replay [OF this] v show ?thesis by (simp add: create_def run_tx_def)
qed

section \<open>Pages\<close>

definition all_pages ::
  "date_codec \<Rightarrow> reminder_auth \<Rightarrow> js_number \<Rightarrow> reminder_db \<Rightarrow> nat \<Rightarrow> string option \<Rightarrow> reminder_record list result" where
  "all_pages dc auth limit d =
     follow_pages (\<lambda>c. res_bind (list_reminders dc auth c limit d) (\<lambda>page. Inr (pg_items page, pg_next page)))"

definition row_key :: "reminder \<Rightarrow> time \<times> string" where "row_key r = (rm_created r, rm_id r)"

lemma newest_first_filter: "newest_first (filter P rows) = filter P (newest_first rows)"
  by (simp add: newest_first_def filter_sort [symmetric] rev_filter)

lemma newest_first_strict:
  assumes "reminder_rows.pk rows"
  shows "sorted_wrt (\<lambda>r r'. row_key r' < row_key r) (newest_first rows)"
proof -
  have "distinct (map rm_id rows)" using assms by (simp add: reminder_rows.pk_def)
  then have "distinct (map rm_id (sort_key row_key rows))"
    by (metis distinct_map distinct_sort inj_on_def set_sort)
  then have d: "distinct (map row_key (sort_key row_key rows))"
    unfolding distinct_map by (auto simp: inj_on_def row_key_def)
  have "sorted (map row_key (sort_key row_key rows))" by simp
  with d have "sorted_wrt (<) (map row_key (sort_key row_key rows))"
    by (simp add: strict_sorted_iff)
  then have "sorted_wrt (\<lambda>r r'. row_key r < row_key r') (sort_key row_key rows)"
    by (simp add: sorted_wrt_map)
  then show ?thesis by (simp add: newest_first_def sorted_wrt_rev row_key_def [abs_def])
qed

definition reminder_cursor :: "date_codec \<Rightarrow> reminder \<Rightarrow> string" where
  "reminder_cursor dc r = encode_date_uuid_cursor dc (to_date (rm_created r)) (rm_id r) None"

lemma reminder_page_after:
  assumes laws: "date_laws dc" and pk: "reminder_rows.pk (rd_reminders d)"
    and ids: "\<And>r. r \<in> set (rd_reminders d) \<Longrightarrow> uuid_pattern (rm_id r) \<and> rm_created r mod 1000 = 0"
    and n: "1 \<le> n" "n \<le> 100"
    and split: "newest_first (filter (listed auth d) (rd_reminders d)) = xs @ ys"
  shows "list_reminders dc auth (cursor_at (reminder_cursor dc) xs) (Int_num n) d =
    Inr (list_page dc (take (Suc (nat n)) ys) (nat n))"
proof -
  let ?L = "newest_first (filter (listed auth d) (rd_reminders d))"
  have strict: "sorted_wrt (\<lambda>r r'. row_key r' < row_key r) ?L"
    unfolding newest_first_filter using newest_first_strict [OF pk] by (rule sorted_wrt_filter)
  have in_table: "set (xs @ ys) \<subseteq> set (rd_reminders d)"
    unfolding split [symmetric] by (auto simp: newest_first_def)
  obtain after where after: "decode_date_uuid_cursor dc (cursor_at (reminder_cursor dc) xs) ''AGENT_REMINDER_CURSOR_INVALID'' None = Inr after"
      "filter (before_cursor after) ?L = ys"
  proof (cases xs rule: rev_cases)
    case Nil
    with that [of None] split show thesis
      by (simp add: decode_date_uuid_cursor_def before_cursor_def)
  next
    case (snoc xs' x)
    then have x: "uuid_pattern (rm_id x)" "millis (to_date (rm_created x)) = rm_created x"
      using ids [of x] in_table by (auto simp: millis_def to_date_def)
    have "decode_date_uuid_cursor dc (cursor_at (reminder_cursor dc) xs) ''AGENT_REMINDER_CURSOR_INVALID'' None =
        Inr (Some (rm_id x, to_date (rm_created x)))"
      using date_uuid.round_trip [of dc "(rm_id x, to_date (rm_created x))" None] laws x(1)
      by (simp add: cursor_at_def reminder_cursor_def snoc date_uuid.bindable_def)
    moreover have "before_cursor (Some (rm_id x, to_date (rm_created x))) = (\<lambda>r. row_key r < row_key x)"
      by (simp add: fun_eq_iff before_cursor_def row_key_def x(2))
    then have "filter (before_cursor (Some (rm_id x, to_date (rm_created x)))) ?L = ys"
      using filter_below [of row_key xs' x ys] strict split snoc by simp
    ultimately show thesis by (rule that)
  qed
  have "newest_first (filter (\<lambda>r. listed auth d r \<and> before_cursor after r) (rd_reminders d)) = ys"
    using after(2) unfolding newest_first_filter by (simp add: conj_commute)
  then show ?thesis using n by (simp add: list_reminders_def after(1) list_max_limit_def Let_def)
qed

text \<open>
  C27: Paging shows every visible reminder once. Following the cursors from the first page, with any page size, yields the
  reminders of the person's audience, newest first, none twice and none left out, provided creation times are
  whole milliseconds; a personal reminder appears only to its owner in the private chat.
\<close>

theorem paging_lists_every_visible_reminder:
  assumes "date_laws dc" "reminder_rows.pk (rd_reminders d)"
    "\<And>r. r \<in> set (rd_reminders d) \<Longrightarrow> uuid_pattern (rm_id r) \<and> rm_created r mod 1000 = 0" "1 \<le> n" "n \<le> 100"
    "length (rd_reminders d) < fuel"
  shows "all_pages dc auth (Int_num n) d fuel None =
      Inr (map row_to_reminder (newest_first (filter (listed auth d) (rd_reminders d)))) \<and>
    (\<forall>r. listed auth d r \<longrightarrow> rm_scope r = Personal_reminder \<longrightarrow>
      rm_owner r = Some (au_user auth) \<and> au_chat_type auth = ''private'')"
proof -
  let ?L = "newest_first (filter (listed auth d) (rd_reminders d))"
  have page: "res_bind (list_reminders dc auth (cursor_at (reminder_cursor dc) xs) (Int_num n) d) (\<lambda>page. Inr (pg_items page, pg_next page)) =
      Inr (map row_to_reminder (take (nat n) ys),
        if nat n < length ys then Some (reminder_cursor dc (last (take (nat n) ys))) else None)" if "?L = xs @ ys" for xs ys
    using reminder_page_after [OF assms(1-5) that] assms(4) by (auto simp: list_page_def reminder_cursor_def Let_def min_def)
  have "length ?L < fuel" using assms(6) le_less_trans [OF length_filter_le] by (simp add: newest_first_def)
  then have "all_pages dc auth (Int_num n) d fuel (cursor_at (reminder_cursor dc) []) = Inr (map row_to_reminder ?L)"
    unfolding all_pages_def using assms(4)
    by (intro follow_pages_complete [where entries = ?L and n = "nat n" and cursor = "reminder_cursor dc"] page) simp_all
  then show ?thesis by (auto simp: listed_def)
qed

text \<open>
  C28: Why whole milliseconds matter. A cursor keeps the milliseconds of \<open>created_at\<close> while the column has
  microseconds: of the reminders stored within the same millisecond, the page after a reminder shows at most those
  stored exactly at its first microsecond under a smaller id. All others are left out, whether an earlier page showed
  them or not.
\<close>

theorem cursor_skips_its_millisecond:
  assumes "date_laws dc" "uuid_pattern (rm_id r)" "reminder_rows.pk (rd_reminders d)" "r' \<in> set (rd_reminders d)"
    "to_date (rm_created r') = to_date (rm_created r)" "rm_created r' mod 1000 \<noteq> 0 \<or> rm_id r \<le> rm_id r'"
    "list_reminders dc auth (Some (encode_date_uuid_cursor dc (to_date (rm_created r)) (rm_id r) None)) limit d = Inr page"
  shows "rm_id r' \<notin> rr_id ` set (pg_items page)"
proof
  assume shown: "rm_id r' \<in> rr_id ` set (pg_items page)"
  let ?after = "Some (rm_id r, to_date (rm_created r))"
  have decoded: "decode_date_uuid_cursor dc (Some (encode_date_uuid_cursor dc (to_date (rm_created r)) (rm_id r) None))
      ''AGENT_REMINDER_CURSOR_INVALID'' None = Inr ?after"
    using date_uuid.round_trip [of dc "(rm_id r, to_date (rm_created r))" None] assms(1,2)
    by (simp add: date_uuid.bindable_def)
  let ?L = "newest_first (filter (\<lambda>x. listed auth d x \<and> before_cursor ?after x) (rd_reminders d))"
  have "page = list_page dc (take (Suc (nat (number_value limit))) ?L) (nat (number_value limit))"
    using assms(7) by (simp add: list_reminders_def decoded Let_def split: if_splits)
  then have "pg_items page = map row_to_reminder (take (nat (number_value limit)) ?L)"
    by (simp add: list_page_def Let_def)
  then have "set (pg_items page) \<subseteq> row_to_reminder ` set ?L" by (auto dest: in_set_takeD)
  with shown obtain x where "x \<in> set ?L" "rm_id x = rm_id r'"
    by (force simp: row_to_reminder_def)
  then have x: "x \<in> set (rd_reminders d)" "before_cursor ?after x" "rm_id x = rm_id r'"
    by (simp_all add: newest_first_def)
  have "x = r'" by (rule reminder_rows.pk_unique [OF assms(3) x(1) assms(4) x(3)])
  with x(2) have "(rm_created r', rm_id r') < (1000 * to_date (rm_created r'), rm_id r)"
    by (simp only: before_cursor_def option.case prod.case assms(5) millis_def)
  then have "rm_created r' < 1000 * to_date (rm_created r') \<or> rm_created r' = 1000 * to_date (rm_created r') \<and> rm_id r' < rm_id r"
    by (auto simp: less_prod_simp)
  moreover have "1000 * to_date (rm_created r') + rm_created r' mod 1000 = rm_created r'" by (simp add: to_date_def)
  moreover have "0 \<le> rm_created r' mod 1000" by simp
  ultimately show False using assms(6) by (auto simp: not_less [symmetric])
qed

section \<open>Settings\<close>

lemma digit_of: "ascii_digit c \<Longrightarrow> 0 \<le> digit_value c \<and> digit_value c \<le> 9 \<and> digit_char (nat (digit_value c)) = c"
proof -
  assume "ascii_digit c"
  then have c: "48 \<le> (of_char c :: nat)" "(of_char c :: nat) \<le> 57" by (auto simp: ascii_digit_def less_eq_char_def)
  have int: "(of_char c :: int) = int (of_char c)" by (simp only: of_nat_of_char)
  have "nat (digit_value c) = of_char c - 48" by (simp add: digit_value_def int nat_diff_distrib)
  with c int show ?thesis by (simp add: digit_value_def digit_char_def)
qed

lemma two_digits_of:
  assumes "ascii_digit a" "ascii_digit b"
  shows "two_digits (10 * digit_value a + digit_value b) = [a, b]"
proof -
  note a = digit_of [OF assms(1)] and b = digit_of [OF assms(2)]
  have "nat (10 * digit_value a + digit_value b) = 10 * nat (digit_value a) + nat (digit_value b)"
    using a b by (simp add: nat_add_distrib nat_mult_distrib)
  moreover have "nat (digit_value b) < 10" using b by (simp add: nat_less_iff)
  ultimately have "nat (10 * digit_value a + digit_value b) div 10 = nat (digit_value a)"
    "nat (10 * digit_value a + digit_value b) mod 10 = nat (digit_value b)" by simp_all
  with a b show ?thesis by (simp add: two_digits_def)
qed

lemma time_patternD:
  assumes "time_pattern s"
  obtains a b c e where "s = [a, b, CHR '':'', c, e]" "ascii_digit a" "ascii_digit b" "ascii_digit c" "ascii_digit e"
    "digit_value c \<le> 5"
proof -
  from assms obtain a b c e where s: "s = [a, b, CHR '':'', c, e]"
    and h: "(a = CHR ''0'' \<or> a = CHR ''1'') \<and> ascii_digit b \<or> a = CHR ''2'' \<and> CHR ''0'' \<le> b \<and> b \<le> CHR ''3''"
    and m: "CHR ''0'' \<le> c" "c \<le> CHR ''5''" "ascii_digit e"
    by (auto simp: time_pattern_def split: list.splits)
  have "ascii_digit a" "ascii_digit b" using h by (auto simp: ascii_digit_def less_eq_char_def)
  moreover have "ascii_digit c" using m by (auto simp: ascii_digit_def less_eq_char_def)
  moreover have "digit_value c \<le> 5"
  proof -
    have "(of_char c :: nat) \<le> 53" using m by (simp add: less_eq_char_def)
    moreover have "(of_char c :: int) = int (of_char c)" by (simp only: of_nat_of_char)
    ultimately show ?thesis by (simp add: digit_value_def)
  qed
  ultimately show thesis using that s m(3) by blast
qed

lemma hour_minute: "0 \<le> m \<Longrightarrow> m < 60 \<Longrightarrow> (h * 60 + m) div 60 = h \<and> (h * 60 + m) mod 60 = (m :: int)"
  by simp

lemma clock_round_trip: "time_pattern s \<Longrightarrow> clock_text (clock_value s) = s"
proof (erule time_patternD)
  fix a b c e
  assume s: "s = [a, b, CHR '':'', c, e]" and d: "ascii_digit a" "ascii_digit b" "ascii_digit c" "ascii_digit e"
    and c: "digit_value c \<le> 5"
  let ?h = "10 * digit_value a + digit_value b"
  let ?m = "10 * digit_value c + digit_value e"
  have m: "0 \<le> ?m" "?m < 60" using digit_of [OF d(3)] digit_of [OF d(4)] c by auto
  have v: "clock_value s = (?h * 60 + ?m) * minute_us" by (simp add: clock_value_def s decimal_value_def)
  have minutes: "clock_value s div minute_us = ?h * 60 + ?m" unfolding v by (simp add: minute_us_def)
  have "clock_value s div minute_us div 60 = ?h \<and> clock_value s div minute_us mod 60 = ?m"
    unfolding minutes by (rule hour_minute [OF m])
  then show "clock_text (clock_value s) = s" by (simp add: clock_text_def two_digits_of d s)
qed

text \<open>
  What a person configures is what is read back. After a successful call the notification settings of that
  person, read in the same family, are exactly the answered ones: the quiet hours in the written form and the zone.
\<close>

theorem settings_round_trip:
  assumes "configure_notifications cal auth i d = (Inr answer, d')"
  shows "get_notification_settings auth d' = Inr answer \<and> answer = i"
proof -
  have valid: "require_quiet_hours i = Inr ()" using assms by (cases "require_quiet_hours i") (simp_all add: configure_notifications_def)
  obtain role where role: "require_current_membership (rd_memberships d) (au_family auth) (au_user auth) = Inr role"
    using assms valid by (cases "require_current_membership (rd_memberships d) (au_family auth) (au_user auth)")
      (simp_all add: configure_notifications_def run_tx_def)
  have zone: "cal_known cal (ni_timezone i)"
    using assms valid role by (cases "cal_known cal (ni_timezone i)")
      (simp_all add: configure_notifications_def run_tx_def require_timezone_def)
  let ?row = "\<lparr>ns_user = au_user auth, ns_timezone = ni_timezone i,
       ns_start = map_option clock_value (ni_start i), ns_end = map_option clock_value (ni_end i)\<rparr>"
  let ?mine = "\<lambda>s. ns_user s = au_user auth"
  have d': "rd_settings d' = (if exists_row ?mine (rd_settings d) then update_where ?mine (\<lambda>_. ?row) (rd_settings d)
         else rd_settings d @ [?row])" "rd_memberships d' = rd_memberships d" "answer = i"
    using assms valid role zone
    by (auto simp: configure_notifications_def run_tx_def require_timezone_def Let_def simp del: exists_row_iff)
  have member: "exists_row (\<lambda>m. m_user m = au_user auth \<and> m_family m = au_family auth) (rd_memberships d')"
    using require_current_membership_Inr [OF role] unfolding d'(2) by auto
  have "first_row (\<lambda>s. ns_user s = au_user auth \<and>
      exists_row (\<lambda>m. m_user m = ns_user s \<and> m_family m = au_family auth) (rd_memberships d')) (rd_settings d') = Some ?row"
  proof -
    have updated: "first_row ?mine (update_where ?mine (\<lambda>_. ?row) rows) = Some ?row" if "exists_row ?mine rows" for rows
      using that by (induction rows) (auto simp: first_row_def update_where_def)
    have appended: "first_row ?mine (rows @ [?row]) = Some ?row" if "\<not> exists_row ?mine rows" for rows
      using that by (auto simp: first_row_append first_row_None_iff first_row_def [of _ "[?row]"] split: option.split dest!: first_row_Some)
    have same: "(\<lambda>s. ns_user s = au_user auth \<and>
        exists_row (\<lambda>m. m_user m = ns_user s \<and> m_family m = au_family auth) (rd_memberships d')) = ?mine"
      by (intro ext) (use member in auto)
    show ?thesis
    proof (cases "exists_row ?mine (rd_settings d)")
      case True
      show ?thesis unfolding same d'(1) if_P [OF True] by (rule updated [OF True])
    next
      case False
      show ?thesis unfolding same d'(1) if_not_P [OF False] by (rule appended [OF False])
    qed
  qed
  then show ?thesis
    using valid clock_round_trip d'(3)
    by (cases "ni_start i"; cases "ni_end i")
      (auto simp: get_notification_settings_def require_quiet_hours_def Let_def split: if_splits)
qed

end
