(* ===== verification/Reminder_Witness.thy ===== *)
theory Reminder_Witness
  imports Reminder_Tools
begin

text \<open>One person's private chat with a daily reminder, for the witnesses.\<close>

definition sample_hash :: "operation_fingerprint \<Rightarrow> string" where "sample_hash _ = ''h''"

definition reminder_person :: reminder_auth where
  "reminder_person = \<lparr>au_family = ''f1'', au_topic = None, au_group = None, au_family_group = False, au_thread = None,
     au_role = ''member'', au_chat = ''7'', au_chat_type = ''private'', au_user = ''u1''\<rparr>"

definition quiet_nights :: notification_input where
  "quiet_nights = \<lparr>ni_end = Some ''07:00'', ni_start = Some ''22:30'', ni_timezone = ''UTC''\<rparr>"

definition bare_reminders :: reminder_db where
  "bare_reminders = \<lparr>rd_reminders = [], rd_operations = [], rd_settings = [],
     rd_memberships = [\<lparr>m_family = ''f1'', m_user = ''u1'', m_role = Member_role\<rparr>], rd_groups = [],
     rd_deliveries = empty_journal, rd_audit = []\<rparr>"

definition noon :: int where "noon = 43200000"

definition milk_input :: create_input where
  "milk_input = \<lparr>cr_content = ''Milk'', cr_first = Some noon, cr_key = ''k1'',
     cr_recurrence = Some \<lparr>rc_unit = ''daily'', rc_interval = Int_num 1\<rparr>, cr_scope = Personal_reminder, cr_timezone = ''UTC''\<rparr>"

definition milk_id :: string where "milk_id = ''11111111-1111-4111-8111-111111111111''"

definition noon_claim :: "int \<Rightarrow> claim_options" where
  "noon_claim now = \<lparr>co_lease_ms = Int_num 300000, co_limit = Int_num 25, co_now = Some now\<rparr>"

definition milk_row :: reminder where
  "milk_row =
     \<lparr>rm_id = milk_id, rm_family = ''f1'', rm_owner = Some ''u1'', rm_author = ''u1'', rm_group = None,
      rm_scope = Personal_reminder, rm_content = ''Milk'', rm_timezone = ''UTC'', rm_chat = ''7'', rm_thread = None,
      rm_topic = None, rm_unit = Some Daily, rm_interval = Some 1, rm_anchor_local = 43200000000,
      rm_anchor_at = Some 43200000000, rm_occurrence = 0, rm_due = 43200000000, rm_available = 43200000000,
      rm_delayed = False, rm_status = R_active, rm_attempts = 0, rm_lease = None, rm_lease_until = None,
      rm_dispatch = None, rm_error = None, rm_created = 5000, rm_updated = 5000\<rparr>"

definition settings_state :: reminder_db where
  "settings_state = bare_reminders\<lparr>
     rd_settings := [\<lparr>ns_user = ''u1'', ns_timezone = ''UTC'', ns_start = Some 81000000000, ns_end = Some 25200000000\<rparr>],
     rd_audit := [Notifications_configured ''f1'' ''u1'' ''UTC'' True]\<rparr>"

definition created_state :: reminder_db where
  "created_state = settings_state\<lparr>
     rd_reminders := [milk_row],
     rd_operations := [\<lparr>ro_family = ''f1'', ro_key = ''k1'', ro_kind = Create_operation, ro_hash = ''h'', ro_reminder = Some milk_id\<rparr>],
     rd_audit := rd_audit settings_state @ [Reminder_created ''f1'' ''u1'' milk_id]\<rparr>"

definition claimed_state :: reminder_db where
  "claimed_state = created_state\<lparr>rd_reminders := [leased_reminder (\<lambda>_. ''t1'') 43200000000 300000 milk_row]\<rparr>"

definition marked_state :: reminder_db where
  "marked_state = created_state\<lparr>rd_reminders := map (marked_reminder 43200001000) (rd_reminders claimed_state)\<rparr>"

definition milk_token :: "string \<Rightarrow> string" where "milk_token = table_lookup [(milk_id, ''t1'')]"

definition milk_ops :: "reminder_op list" where
  "milk_ops = [Op_configure reminder_person quiet_nights, Op_create milk_id reminder_person milk_input 5000,
     Op_claim [] [(milk_id, ''t1'')] (noon_claim noon)]"

definition milk_job :: claimed_reminder where
  "milk_job = \<lparr>cj_content = ''Milk'', cj_delayed = False, cj_due = noon, cj_family = ''f1'', cj_topic = None, cj_group = None,
     cj_id = milk_id, cj_token = ''t1'', cj_thread = None, cj_owner = Some ''u1'', cj_scope = Personal_reminder,
     cj_chat = ''7'', cj_timezone = ''UTC''\<rparr>"

definition marked_ops :: "reminder_op list" where
  "marked_ops = [Op_complete milk_job (noon + 1000) \<lparr>rp_message = ''15'', rp_text = ''Milk''\<rparr>,
     Op_claim [] [(milk_id, ''t2'')] (noon_claim (noon + 86400000))]"

lemma milk_created:
  "create sample_hash plain_calendar milk_id reminder_person milk_input 5000 settings_state =
     (Inr \<lparr>rr_content = ''Milk'', rr_created = 5, rr_id = milk_id, rr_error = None, rr_thread = None, rr_next = noon,
        rr_recurrence = Some (Daily, 1), rr_scope = Personal_reminder, rr_status = R_active, rr_timezone = ''UTC'',
        rr_updated = 5\<rparr>, created_state)"
  by code_simp

lemma milk_settings:
  "configure_notifications plain_calendar reminder_person quiet_nights bare_reminders = (Inr quiet_nights, settings_state)"
  by code_simp

lemma milk_claimed:
  "claim_due plain_calendar (\<lambda>_. False) milk_token (noon_claim noon) created_state = (Inr [milk_job], claimed_state)"
  by code_simp

lemma milk_run: "run_reminder_ops sample_hash plain_calendar milk_ops bare_reminders = claimed_state"
  using milk_claimed
  by (simp add: run_reminder_ops_def milk_ops_def milk_settings milk_created milk_token_def)

lemma milk_pk: "reminder_rows.pk (rd_reminders bare_reminders)"
  by (simp add: reminder_rows.pk_def bare_reminders_def)

lemma reminders_stay_consistent_witness:
  "reminder_rows.pk (rd_reminders (run_reminder_ops sample_hash plain_calendar milk_ops bare_reminders)) \<and>
   list_all reminder_ok (rd_reminders (run_reminder_ops sample_hash plain_calendar milk_ops bare_reminders))"
  by (rule reminders_stay_consistent [OF milk_pk]) (simp add: bare_reminders_def)

lemma milk_marked:
  "mark_dispatch_started milk_id ''t1'' 43200001000 (run_reminder_ops sample_hash plain_calendar milk_ops bare_reminders) =
     (Inr (), marked_state)"
  unfolding milk_run by code_simp

definition milk_receipt :: receipt where
  "milk_receipt = \<lparr>rp_message = ''15'', rp_text = ''Milk''\<rparr>"

lemma milk_next_occurrence:
  "next_anchored_occurrence plain_calendar (recurrence_of (hd (rd_reminders marked_state))) (millis (noon + 1000)) =
     Inr (Occurrence 1 129600000000)"
proof -
  have "recurrence_of (hd (rd_reminders marked_state)) =
      \<lparr>rs_unit = Some Daily, rs_every = Some 1, rs_anchor_local = 43200000000, rs_anchor_at = Some 43200000000,
       rs_timezone = ''UTC'', rs_index = 0\<rparr>"
    by code_simp
  then show ?thesis
    by (simp add: next_anchored_occurrence_def estimated_index_def later_occurrence_def occurrence_at_def
        plain_calendar_def one_day_def local_date_def noon_def millis_def)
qed

definition rearmed_state :: reminder_db where
  "rearmed_state = marked_state\<lparr>
     rd_reminders := map (rearmed_reminder 1 129600000000 (millis (noon + 1000))) (rd_reminders marked_state),
     rd_deliveries := \<lparr>jn_rows = [delivery_row 1 (reminder_delivery milk_job (noon + 1000) milk_receipt)], jn_last = 1\<rparr>,
     rd_audit := rd_audit marked_state @ [Reminder_delivered ''f1'' milk_id False]\<rparr>"

lemma milk_completed:
  "complete_reminder plain_calendar milk_job (noon + 1000) milk_receipt marked_state = (Inr (), rearmed_state)"
proof -
  define row where "row = hd (rd_reminders marked_state)"
  have row: "first_row (\<lambda>r. lease_row (cj_id milk_job) (cj_token milk_job) r \<and> rm_dispatch r \<noteq> None)
      (rd_reminders marked_state) = Some row" "rm_unit row = Some Daily" "rm_family row = ''f1''"
    unfolding row_def by code_simp+
  let ?i = "reminder_delivery milk_job (noon + 1000) milk_receipt"
  have "delivery_row 1 ?i =
      \<lparr>pd_id = 1, pd_kind = Reminder_source, pd_source = milk_id, pd_message = 15, pd_title = None,
       pd_family = ''f1'', pd_owner = Some ''u1'', pd_group = None,
       pd_scope = Personal_scope, pd_content = ''Milk'', pd_scheduled = 43200000000, pd_delivered = 43201000000,
       pd_chat = ''7'', pd_thread = None\<rparr>"
    by code_simp
  then have "delivery_checks (delivery_row 1 ?i)" "pd_message (delivery_row 1 ?i) = 15"
    by (simp_all add: delivery_checks_def)
  moreover have "require_delivery ?i = Inr ()" "rd_deliveries marked_state = empty_journal" by code_simp+
  ultimately have delivered: "record_reminder_delivery milk_job (noon + 1000) milk_receipt marked_state =
      Inr (marked_state\<lparr>rd_deliveries := \<lparr>jn_rows = [delivery_row 1 ?i], jn_last = 1\<rparr>\<rparr>)"
    by (simp add: record_reminder_delivery_def record_proactive_delivery_def empty_journal_def max_bigint_def)
  have settled: "update_where (\<lambda>x. rm_id x = milk_id) f (rd_reminders marked_state) = map f (rd_reminders marked_state)" for f
  proof -
    have "map rm_id (rd_reminders marked_state) = [milk_id]" by code_simp
    then show ?thesis by (auto simp: update_where_def)
  qed
  have "cj_id milk_job = milk_id" "\<not> cj_delayed milk_job" by (simp_all add: milk_job_def)
  then show ?thesis
    using milk_next_occurrence [folded row_def] row delivered
    by (simp add: complete_reminder_def run_tx_def complete_body_def settled rearmed_state_def Let_def)
qed

lemma milk_marked_again:
  "fst (mark_dispatch_started milk_id ''t2'' 129600001000
      (run_reminder_ops sample_hash plain_calendar marked_ops marked_state)) = Inr ()"
proof -
  have "run_reminder_ops sample_hash plain_calendar marked_ops marked_state =
      apply_reminder_op sample_hash plain_calendar
        (Op_claim [] [(milk_id, ''t2'')] (noon_claim (noon + 86400000))) rearmed_state"
    by (simp add: run_reminder_ops_def marked_ops_def milk_completed [unfolded milk_receipt_def])
  moreover have "fst (mark_dispatch_started milk_id ''t2'' 129600001000 (apply_reminder_op sample_hash plain_calendar
        (Op_claim [] [(milk_id, ''t2'')] (noon_claim (noon + 86400000))) rearmed_state)) = Inr ()"
    by code_simp
  ultimately show ?thesis by simp
qed

lemma marker_happens_once_per_arming_witness:
  "\<exists>m1 op m2. marked_ops = m1 @ op # m2 \<and>
     milk_id \<in> arms_of sample_hash plain_calendar op (run_reminder_ops sample_hash plain_calendar m1 marked_state)"
  by (rule marker_happens_once_per_arming [OF milk_pk milk_marked milk_marked_again])

lemma settings_round_trip_witness:
  "get_notification_settings reminder_person settings_state = Inr quiet_nights \<and> quiet_nights = quiet_nights"
  by (rule settings_round_trip [OF milk_settings])

lemma create_is_idempotent_witness:
  "fst (create sample_hash plain_calendar ''x'' reminder_person milk_input 9000 created_state) =
   fst (create sample_hash plain_calendar milk_id reminder_person milk_input 5000 settings_state)"
  unfolding create_is_idempotent [OF milk_created] milk_created by simp

lemma milk_clock_range:
  "s \<in> set (rd_settings created_state) \<Longrightarrow> ns_start s = Some t \<or> ns_end s = Some t \<Longrightarrow> 0 \<le> t \<and> t < one_day"
  by (auto simp: created_state_def settings_state_def one_day_def)

lemma claims_respect_quiet_hours_witness:
  "\<exists>r. r \<in> set (rd_reminders created_state) \<and> rm_id r = cj_id milk_job \<and>
    (case settings_of created_state r of None \<Rightarrow> True | Some s \<Rightarrow> \<not> in_quiet_hours plain_calendar (millis noon) s)"
proof -
  have "zone_laws plain_calendar" using plain_calendar_laws by (simp add: calendar_laws_def)
  have "\<exists>r\<in>set (rd_reminders created_state). rm_id r = cj_id milk_job \<and>
      (case settings_of created_state r of None \<Rightarrow> True | Some s \<Rightarrow> \<not> in_quiet_hours plain_calendar (millis noon) s)"
    by (rule claims_respect_quiet_hours [OF milk_claimed \<open>zone_laws plain_calendar\<close>])
      (use milk_clock_range in \<open>auto simp: noon_claim_def\<close>)
  then show ?thesis by blast
qed

lemma due_reminder_is_claimed_witness:
  "rm_id (hd (rd_reminders created_state)) \<in> cj_id ` set [milk_job] \<or> length [milk_job] = nat 25"
proof -
  have "hd (rd_reminders created_state) \<in> set (rd_reminders created_state)" by code_simp
  moreover have "due_now plain_calendar (\<lambda>_. False) (millis noon) created_state (hd (rd_reminders created_state))"
    by code_simp
  ultimately show ?thesis
    using due_reminder_is_claimed [OF milk_claimed, of noon 25] unfolding noon_claim_def claim_options.simps by blast
qed

lemma only_the_entitled_change_a_reminder_witness: "may_change reminder_person milk_id created_state"
proof -
  have "rd_reminders (snd (delete sample_hash reminder_person milk_id ''k2'' created_state)) \<noteq> rd_reminders created_state"
    by code_simp
  then show ?thesis
    using only_the_entitled_change_a_reminder
      [where hash = sample_hash and auth = reminder_person and rid = milk_id and key = "''k2''" and d = created_state]
    by blast
qed

lemma milk_page_rows:
  "reminder_rows.pk (rd_reminders created_state)" "length (rd_reminders created_state) < 2"
  "r \<in> set (rd_reminders created_state) \<Longrightarrow> uuid_pattern (rm_id r) \<and> rm_created r mod 1000 = 0"
proof -
  have rows: "map rm_id (rd_reminders created_state) = [milk_id]" by code_simp
  show "length (rd_reminders created_state) < 2" using arg_cong [OF rows, of length] by simp
  show "reminder_rows.pk (rd_reminders created_state)" by (simp add: reminder_rows.pk_def rows)
  have "list_all (\<lambda>r. uuid_pattern (rm_id r) \<and> rm_created r mod 1000 = 0) (rd_reminders created_state)" by code_simp
  then show "r \<in> set (rd_reminders created_state) \<Longrightarrow> uuid_pattern (rm_id r) \<and> rm_created r mod 1000 = 0"
    by (simp add: list_all_iff)
qed

lemma paging_lists_every_visible_reminder_witness:
  "all_pages unary_dates reminder_person (Int_num 1) created_state 2 None =
     Inr (map row_to_reminder (newest_first (filter (listed reminder_person created_state) (rd_reminders created_state))))"
  using paging_lists_every_visible_reminder [OF unary_dates_laws milk_page_rows(1,3) _ _ milk_page_rows(2),
      of 1 reminder_person] by simp

definition crowded_state :: reminder_db where
  "crowded_state = created_state\<lparr>rd_reminders :=
     [milk_row\<lparr>rm_created := 5700\<rparr>, milk_row\<lparr>rm_id := ''22222222-2222-4222-8222-222222222222'', rm_created := 5200\<rparr>]\<rparr>"

text \<open>Two visible reminders, pages of one: the second is on no page.\<close>

lemma cursor_skips_its_millisecond_witness:
  "list_all (listed reminder_person crowded_state) (rd_reminders crowded_state) \<and>
   pg_items (the (case list_reminders unary_dates reminder_person None (Int_num 1) crowded_state of Inr p \<Rightarrow> Some p)) =
     [row_to_reminder (milk_row\<lparr>rm_created := 5700\<rparr>)] \<and>
   ''22222222-2222-4222-8222-222222222222'' \<notin> rr_id ` set (pg_items \<lparr>pg_items = [], pg_next = None\<rparr>)"
proof -
  let ?r = "milk_row\<lparr>rm_created := 5700\<rparr>"
  let ?r' = "milk_row\<lparr>rm_id := ''22222222-2222-4222-8222-222222222222'', rm_created := 5200\<rparr>"
  have rows: "rd_reminders crowded_state = [?r, ?r']" by (simp add: crowded_state_def)
  have id: "rm_id ?r = milk_id" "uuid_pattern milk_id" by (simp add: milk_row_def) code_simp
  have pk: "reminder_rows.pk (rd_reminders crowded_state)" unfolding rows
    by (simp add: reminder_rows.pk_def milk_row_def milk_id_def)
  have page: "list_reminders unary_dates reminder_person
      (Some (encode_date_uuid_cursor unary_dates (to_date (rm_created ?r)) (rm_id ?r) None)) (Int_num 1) crowded_state =
    Inr \<lparr>pg_items = [], pg_next = None\<rparr>"
    by code_simp
  have "rm_id ?r' \<notin> rr_id ` set (pg_items \<lparr>pg_items = [], pg_next = None\<rparr>)"
    by (rule cursor_skips_its_millisecond [OF unary_dates_laws _ pk _ _ _ page])
      (simp_all add: id rows to_date_def)
  moreover have "list_all (listed reminder_person crowded_state) (rd_reminders crowded_state)" by code_simp
  moreover have "pg_items (the (case list_reminders unary_dates reminder_person None (Int_num 1) crowded_state of
      Inr p \<Rightarrow> Some p)) = [row_to_reminder ?r]"
    by code_simp
  ultimately show ?thesis by simp
qed

end
