(* ===== verification/Untrusted_Context.thy ===== *)
theory Untrusted_Context
  imports Prelude
begin

text \<open>
  agent/lib/untrusted-context-json.ts: text of people and groups enters a prompt as JSON between tags,
  with the markup characters neutralized. A JavaScript string is its list of UTF-16 code units, since
  \<open>JSON.stringify\<close> treats lone surrogates apart.
\<close>

type_synonym text16 = "nat list"

definition units :: "string \<Rightarrow> text16" where "units s = map of_char s"

definition high_surrogate :: "nat \<Rightarrow> bool" where "high_surrogate c \<longleftrightarrow> 55296 \<le> c \<and> c \<le> 56319"

definition low_surrogate :: "nat \<Rightarrow> bool" where "low_surrogate c \<longleftrightarrow> 56320 \<le> c \<and> c \<le> 57343"

section \<open>\<open>JSON.stringify\<close>\<close>

definition hex_unit :: "nat \<Rightarrow> nat" where
  "hex_unit n = (if n < 10 then 48 + n else 87 + n)"

definition unicode_escape :: "nat \<Rightarrow> text16" where
  "unicode_escape c = [92, 117, hex_unit (c div 4096), hex_unit (c div 256 mod 16), hex_unit (c div 16 mod 16), hex_unit (c mod 16)]"

definition plain_escape :: "nat \<Rightarrow> text16" where
  "plain_escape c =
     (if c = 34 then [92, 34] else if c = 92 then [92, 92] else if c = 8 then [92, 98] else if c = 12 then [92, 102]
      else if c = 10 then [92, 110] else if c = 13 then [92, 114] else if c = 9 then [92, 116]
      else if c < 32 \<or> high_surrogate c \<or> low_surrogate c then unicode_escape c else [c])"

text \<open>A surrogate pair is copied, a lone surrogate is escaped.\<close>

fun escape_units :: "text16 \<Rightarrow> text16" where
  "escape_units [] = []"
| "escape_units [c] = plain_escape c"
| "escape_units (c # d # cs) =
     (if high_surrogate c \<and> low_surrogate d then c # d # escape_units cs else plain_escape c @ escape_units (d # cs))"

definition json_quote :: "text16 \<Rightarrow> text16" where
  "json_quote s = 34 # escape_units s @ [34]"

definition int_units :: "int \<Rightarrow> text16" where
  "int_units n = (if n < 0 then 45 # units (nat_text (nat (- n))) else units (nat_text (nat n)))"

fun join_units :: "text16 list \<Rightarrow> text16" where
  "join_units [] = []"
| "join_units [s] = s"
| "join_units (s # t # ts) = s @ 44 # join_units (t # ts)"

datatype wire = W_null | W_true | W_int int | W_text text16 | W_list "wire list" | W_object "(string \<times> wire) list"

fun json_stringify :: "wire \<Rightarrow> text16" where
  "json_stringify W_null = units ''null''"
| "json_stringify W_true = units ''true''"
| "json_stringify (W_int n) = int_units n"
| "json_stringify (W_text s) = json_quote s"
| "json_stringify (W_list vs) = 91 # join_units (map json_stringify vs) @ [93]"
| "json_stringify (W_object ms) = 123 # join_units (map (\<lambda>(k, v). json_quote (units k) @ 58 # json_stringify v) ms) @ [125]"

definition text_or_null :: "text16 option \<Rightarrow> wire" where
  "text_or_null s = (case s of None \<Rightarrow> W_null | Some t \<Rightarrow> W_text t)"

section \<open>Neutralizing markup\<close>

definition markup_escape :: "nat \<Rightarrow> text16" where
  "markup_escape c =
     (if c = 38 then 92 # units ''u0026'' else if c = 60 then 92 # units ''u003c'' else if c = 62 then 92 # units ''u003e'' else [c])"

definition escape_markup :: "text16 \<Rightarrow> text16" where
  "escape_markup s = concat (map markup_escape s)"

definition escape_untrusted_context_json :: "wire \<Rightarrow> text16" where
  "escape_untrusted_context_json v = escape_markup (json_stringify v)"

lemma escape_markup_simps [simp]:
  "escape_markup [] = []" "escape_markup (c # s) = markup_escape c @ escape_markup s"
  "escape_markup (s @ t) = escape_markup s @ escape_markup t"
  by (simp_all add: escape_markup_def)

lemma units_markup: "units ''u0026'' = [117, 48, 48, 50, 54]" "units ''u003c'' = [117, 48, 48, 51, 99]"
  "units ''u003e'' = [117, 48, 48, 51, 101]"
  by (simp_all add: units_def)

section \<open>Reading a string back\<close>

text \<open>
  \<open>JSON.parse\<close> at the start of a string literal's body: the string and what follows the closing quote.
\<close>

definition hex_value :: "nat \<Rightarrow> nat option" where
  "hex_value c = (if 48 \<le> c \<and> c \<le> 57 then Some (c - 48) else if 97 \<le> c \<and> c \<le> 102 then Some (c - 87)
     else if 65 \<le> c \<and> c \<le> 70 then Some (c - 55) else None)"

definition hex_word :: "nat \<Rightarrow> nat \<Rightarrow> nat \<Rightarrow> nat \<Rightarrow> nat option" where
  "hex_word a b c d = (case (hex_value a, hex_value b, hex_value c, hex_value d) of
     (Some w, Some x, Some y, Some z) \<Rightarrow> Some (((w * 16 + x) * 16 + y) * 16 + z) | _ \<Rightarrow> None)"

definition escape_letters :: "(nat \<times> nat) list" where
  "escape_letters = [(34, 34), (92, 92), (47, 47), (98, 8), (102, 12), (110, 10), (114, 13), (116, 9)]"

fun parse_body :: "text16 \<Rightarrow> (text16 \<times> text16) option" where
  "parse_body [] = None"
| "parse_body (c # s) =
     (if c = 34 then Some ([], s)
      else if c < 32 then None
      else if c \<noteq> 92 then map_option (\<lambda>(t, rest). (c # t, rest)) (parse_body s)
      else (case s of
          [] \<Rightarrow> None
        | e # s1 \<Rightarrow>
            if e = 117 then
              (case s1 of
                 w # x # y # z # s2 \<Rightarrow>
                   (case hex_word w x y z of
                      None \<Rightarrow> None
                    | Some u \<Rightarrow> map_option (\<lambda>(t, rest). (u # t, rest)) (parse_body s2))
               | _ \<Rightarrow> None)
            else (case map_of escape_letters e of
                    None \<Rightarrow> None
                  | Some u \<Rightarrow> map_option (\<lambda>(t, rest). (u # t, rest)) (parse_body s1))))"

definition code_units :: "text16 \<Rightarrow> bool" where "code_units s \<longleftrightarrow> list_all (\<lambda>c. c < 65536) s"

lemma hex_value_unit [simp]: "n < 16 \<Longrightarrow> hex_value (hex_unit n) = Some n"
  by (auto simp: hex_value_def hex_unit_def)

lemma div_mod_decomp_step: "(n div 16) * 16 + n mod 16 = (n::nat)"
  by simp

lemma hex_word_escape:
  assumes "c < 65536"
  shows "hex_word (hex_unit (c div 4096)) (hex_unit (c div 256 mod 16)) (hex_unit (c div 16 mod 16)) (hex_unit (c mod 16)) = Some c"
proof -
  have "c div 4096 < 16" using assms by (simp add: less_mult_imp_div_less)
  moreover have "((c div 4096 * 16 + c div 256 mod 16) * 16 + c div 16 mod 16) * 16 + c mod 16 = c"
  proof -
    have "c div 256 = c div 16 div 16" "c div 4096 = c div 16 div 16 div 16" by (simp_all add: div_mult2_eq [symmetric])
    then show ?thesis by (simp add: div_mod_decomp_step)
  qed
  ultimately show ?thesis by (simp add: hex_word_def)
qed

text \<open>The escapes hold none of the characters the markup step rewrites, except inside a copied unit.\<close>

lemma hex_unit_bounds: "n < 16 \<Longrightarrow> 48 \<le> hex_unit n \<and> hex_unit n \<noteq> 60 \<and> hex_unit n \<noteq> 62"
  by (auto simp: hex_unit_def)

lemma markup_hex [simp]: "n < 16 \<Longrightarrow> markup_escape (hex_unit n) = [hex_unit n]"
  using hex_unit_bounds [of n] by (auto simp: markup_escape_def)

lemma parse_unicode:
  assumes "c < 65536"
  shows "parse_body (escape_markup (unicode_escape c) @ s) = map_option (\<lambda>(t, rest). (c # t, rest)) (parse_body s)"
proof -
  have "c div 4096 < 16" using assms by (simp add: less_mult_imp_div_less)
  then have "escape_markup (unicode_escape c) = unicode_escape c"
    by (simp add: unicode_escape_def) (simp add: markup_escape_def)
  then have "parse_body (escape_markup (unicode_escape c) @ s) = parse_body (unicode_escape c @ s)" by simp
  also have "\<dots> = map_option (\<lambda>(t, rest). (c # t, rest)) (parse_body s)"
    by (simp add: unicode_escape_def hex_word_escape [OF assms])
  finally show ?thesis .
qed

lemma parse_copied:
  assumes "c \<noteq> 34" "\<not> c < 32" "c \<noteq> 92"
  shows "parse_body (markup_escape c @ s) = map_option (\<lambda>(t, rest). (c # t, rest)) (parse_body s)"
  using assms by (auto simp: markup_escape_def units_markup hex_word_def hex_value_def)

lemma parse_plain:
  assumes "c < 65536"
  shows "parse_body (escape_markup (plain_escape c) @ s) = map_option (\<lambda>(t, rest). (c # t, rest)) (parse_body s)"
proof (cases "c \<in> {34, 92, 8, 12, 10, 13, 9}")
  case True
  then show ?thesis by (auto simp: plain_escape_def markup_escape_def escape_letters_def)
next
  case False
  show ?thesis
  proof (cases "c < 32 \<or> high_surrogate c \<or> low_surrogate c")
    case True
    with False show ?thesis by (simp add: plain_escape_def parse_unicode [OF assms])
  next
    case plain: False
    with False show ?thesis by (simp add: plain_escape_def parse_copied)
  qed
qed

lemma parse_escaped:
  "code_units s \<Longrightarrow> parse_body (escape_markup (escape_units s) @ 34 # rest) = Some (s, rest)"
proof (induction s rule: escape_units.induct)
  case 1
  then show ?case by simp
next
  case (2 c)
  then show ?case by (simp add: parse_plain code_units_def)
next
  case (3 c d cs)
  show ?case
  proof (cases "high_surrogate c \<and> low_surrogate d")
    case True
    have c: "c \<noteq> 34" "\<not> c < 32" "c \<noteq> 92" and d: "d \<noteq> 34" "\<not> d < 32" "d \<noteq> 92"
      using True by (auto simp: high_surrogate_def low_surrogate_def)
    from True 3 show ?thesis by (simp add: code_units_def parse_copied [OF c] parse_copied [OF d])
  next
    case False
    with 3 show ?thesis by (auto simp: code_units_def parse_plain)
  qed
qed

text \<open>
  C34: What people write reaches the model unchanged. Read as JSON, the escaped form of any string is that
  string, whatever characters it holds, lone surrogates included.
\<close>

theorem escaped_text_reads_back:
  assumes "code_units s"
  shows "\<exists>body. escape_untrusted_context_json (W_text s) @ rest = 34 # body \<and> parse_body body = Some (s, rest)"
proof -
  have quote: "markup_escape 34 = [34]" by (simp add: markup_escape_def)
  have "parse_body (escape_markup (escape_units s) @ 34 # rest) = Some (s, rest)"
    by (rule parse_escaped [OF assms])
  moreover have "escape_untrusted_context_json (W_text s) @ rest = 34 # escape_markup (escape_units s) @ 34 # rest"
    by (simp add: escape_untrusted_context_json_def json_quote_def quote)
  ultimately show ?thesis by blast
qed

lemma escaped_text_reads_back_witness:
  "\<exists>body. escape_untrusted_context_json (W_text [60, 47, 98, 62, 34, 55357, 10]) @ [44] = 34 # body \<and>
     parse_body body = Some ([60, 47, 98, 62, 34, 55357, 10], [44])"
  by (rule escaped_text_reads_back) (simp add: code_units_def)

text \<open>
  No text closes its boundary. The escaped form of any value holds no angle bracket and no ampersand, so
  no message can end the tag it is quoted in or open another.
\<close>

theorem escaped_json_has_no_markup:
  "set (escape_untrusted_context_json v) \<inter> {38, 60, 62} = {}"
proof -
  have "set (markup_escape c) \<inter> {38, 60, 62} = {}" for c
    by (auto simp: markup_escape_def units_markup)
  then have "set (escape_markup s) \<inter> {38, 60, 62} = {}" for s
    by (induction s) auto
  then show ?thesis by (simp add: escape_untrusted_context_json_def)
qed

section \<open>Lengths\<close>

text \<open>Cutting a string at a code point boundary cuts its escaped form.\<close>

definition splits_pair :: "text16 \<Rightarrow> text16 \<Rightarrow> bool" where
  "splits_pair s t \<longleftrightarrow> s \<noteq> [] \<and> t \<noteq> [] \<and> high_surrogate (last s) \<and> low_surrogate (hd t)"

lemma escape_units_append: "\<not> splits_pair s t \<Longrightarrow> escape_units (s @ t) = escape_units s @ escape_units t"
proof (induction s rule: escape_units.induct)
  case 1
  then show ?case by simp
next
  case (2 c)
  then show ?case by (cases t) (auto simp: splits_pair_def)
next
  case (3 c d cs)
  show ?case
  proof (cases "high_surrogate c \<and> low_surrogate d")
    case True
    then have "\<not> high_surrogate d" by (auto simp: high_surrogate_def low_surrogate_def)
    with 3 True show ?thesis by (cases cs) (auto simp: splits_pair_def split: if_splits)
  next
    case False
    with 3 show ?thesis by (auto simp: splits_pair_def)
  qed
qed

lemma length_markup_escape: "length (markup_escape c) \<le> 6"
  by (simp add: markup_escape_def units_markup)

lemma length_escaped_le: "length (escape_markup (escape_units s)) \<le> 6 * length s"
proof -
  have plain: "length (escape_markup (plain_escape c)) \<le> 6" for c
  proof -
    have "hex_unit (n mod 16) \<noteq> 38" for n by (simp add: hex_unit_def)
    have "length (escape_markup (unicode_escape c)) \<le> 6" if "c < 65536"
      using that by (simp add: unicode_escape_def less_mult_imp_div_less) (simp add: markup_escape_def)
    moreover have "c < 65536" if "c < 32 \<or> high_surrogate c \<or> low_surrogate c"
      using that by (auto simp: high_surrogate_def low_surrogate_def)
    moreover have "length (escape_markup [c]) \<le> 6" using length_markup_escape by simp
    ultimately show ?thesis unfolding plain_escape_def by (auto simp: markup_escape_def)
  qed
  show ?thesis
  proof (induction s rule: escape_units.induct)
    case (3 c d cs)
    show ?case
    proof (cases "high_surrogate c \<and> low_surrogate d")
      case True
      with 3 length_markup_escape [of c] length_markup_escape [of d] show ?thesis by simp
    next
      case False
      have "length (escape_markup (escape_units (d # cs))) \<le> 6 * length (d # cs)" using 3(2) False by simp
      moreover have "escape_units (c # d # cs) = plain_escape c @ escape_units (d # cs)" using False by auto
      ultimately show ?thesis using plain [of c] by simp
    qed
  qed (use plain in \<open>auto\<close>)
qed

end
