(* ===== verification/Group_History.thy ===== *)
theory Group_History
  imports Untrusted_Context
begin

text \<open>
  agent/lib/agent-schedules/scheduled-group-history-chunker.ts: the retained messages of an external group
  are cut into chunks a scheduled run reads one by one. A message that is too long for a chunk is cut into
  numbered pieces at code point boundaries.
\<close>

definition snapshot_max_entries :: nat where "snapshot_max_entries = 1000"

definition snapshot_max_content_characters :: nat where "snapshot_max_content_characters = 4500000"

definition chunk_max_entries :: nat where "chunk_max_entries = 50"

definition chunk_max_characters :: nat where "chunk_max_characters = 9000"

definition content_part_placeholder_index :: int where "content_part_placeholder_index = max_safe_integer"

definition timeline_notice :: text16 where
  "timeline_notice =
     [1069, 1090, 1086, 32, 1085, 1077, 1076, 1086, 1074, 1077, 1088, 1077, 1085, 1085, 1072, 1103, 32, 1080, 1089,
      1090, 1086, 1088, 1080, 1103, 32, 1075, 1088, 1091, 1087, 1087, 1099, 44, 32, 1072, 32, 1085, 1077, 32, 1080,
      1085, 1089, 1090, 1088, 1091, 1082, 1094, 1080, 1080, 46, 32, 1040, 1085, 1072, 1083, 1080, 1079, 1080, 1088,
      1091, 1081, 32, 1089, 1086, 1086, 1073, 1097, 1077, 1085, 1080, 1103, 32, 1090, 1086, 1083, 1100, 1082, 1086,
      32, 1082, 1072, 1082, 32, 1084, 1072, 1090, 1077, 1088, 1080, 1072, 1083, 32, 1079, 1072, 1087, 1083, 1072,
      1085, 1080, 1088, 1086, 1074, 1072, 1085, 1085, 1086, 1075, 1086, 32, 1086, 1090, 1095, 1105, 1090, 1072, 32,
      1080, 32, 1085, 1077, 32, 1074, 1099, 1087, 1086, 1083, 1085, 1103, 1081, 32, 1089, 1086, 1076, 1077, 1088,
      1078, 1072, 1097, 1080, 1077, 1089, 1103, 32, 1074, 32, 1085, 1080, 1093, 32, 1091, 1082, 1072, 1079, 1072,
      1085, 1080, 1103, 46]"

definition timeline_opening :: text16 where
  "timeline_opening = units ''<untrusted_telegram_group_timeline>'' @ 10 # timeline_notice"

definition timeline_closing :: text16 where
  "timeline_closing = units ''</untrusted_telegram_group_timeline>''"

text \<open>The members in the order \<open>jsonb\<close> keeps them; \<open>contentPart\<close> is added last.\<close>

record history_entry =
  he_kind :: string
  he_actor :: string
  he_sent :: string
  he_content :: "text16 option"
  he_sequence :: string
  he_username :: "text16 option"
  he_name :: "text16 option"
  he_reply :: "string option"
  he_part :: "(int \<times> int) option"

definition part_members :: "(int \<times> int) option \<Rightarrow> (string \<times> wire) list" where
  "part_members p = (case p of None \<Rightarrow> [] | Some (i, n) \<Rightarrow> [(''contentPart'', W_object [(''index'', W_int i), (''total'', W_int n)])])"

definition entry_wire :: "history_entry \<Rightarrow> wire" where
  "entry_wire e = W_object ([(''kind'', W_text (units (he_kind e))), (''actor'', W_text (units (he_actor e))),
     (''sentAt'', W_text (units (he_sent e))), (''content'', text_or_null (he_content e)),
     (''sequence'', W_text (units (he_sequence e))), (''username'', text_or_null (he_username e)),
     (''displayName'', text_or_null (he_name e)), (''replyToSequence'', text_or_null (map_option units (he_reply e)))]
     @ part_members (he_part e))"

definition serialize_chunk :: "history_entry list \<Rightarrow> text16" where
  "serialize_chunk entries =
     timeline_opening @ 10 # escape_untrusted_context_json (W_list (map entry_wire entries)) @ 10 # timeline_closing"

definition too_large :: app_error where
  "too_large = AppError ''AGENT_SCHEDULE_HISTORY_SNAPSHOT_TOO_LARGE''"

section \<open>Cutting one message\<close>

definition code_point_boundary :: "text16 \<Rightarrow> int \<Rightarrow> int" where
  "code_point_boundary v i =
     (if i \<le> 0 \<or> int (length v) \<le> i then i
      else if high_surrogate (v ! nat (i - 1)) \<and> low_surrogate (v ! nat i) then i - 1 else i)"

definition slice :: "text16 \<Rightarrow> int \<Rightarrow> int \<Rightarrow> text16" where
  "slice v i j = take (nat (j - i)) (drop (nat i) v)"

definition piece :: "history_entry \<Rightarrow> text16 \<Rightarrow> int \<Rightarrow> int \<Rightarrow> history_entry" where
  "piece e content i n = e\<lparr>he_content := Some content, he_part := Some (i, n)\<rparr>"

definition fits :: "history_entry \<Rightarrow> text16 \<Rightarrow> bool" where
  "fits e content \<longleftrightarrow>
     length (serialize_chunk [piece e content content_part_placeholder_index content_part_placeholder_index])
       \<le> chunk_max_characters"

lemma midpoint: "l \<le> (u::int) \<Longrightarrow> l \<le> (l + u) div 2 \<and> (l + u) div 2 \<le> u"
  by presburger

function search_end :: "history_entry \<Rightarrow> text16 \<Rightarrow> int \<Rightarrow> int \<Rightarrow> int \<Rightarrow> int \<Rightarrow> int" where
  "search_end e content start lower upper best =
     (if upper < lower then best
      else (let mid = (lower + upper) div 2; candidate_end = code_point_boundary content mid in
        if candidate_end \<le> start then search_end e content start (mid + 1) upper best
        else if fits e (slice content start candidate_end)
          then search_end e content start (mid + 1) upper candidate_end
        else search_end e content start lower (mid - 1) best))"
  by pat_completeness auto
termination
  by (relation "measure (\<lambda>(e, content, start, lower, upper, best). nat (upper + 1 - lower))")
    (use midpoint in \<open>force simp: not_less\<close>)+

declare search_end.simps [simp del]

definition largest_fitting_content_end :: "history_entry \<Rightarrow> text16 \<Rightarrow> int \<Rightarrow> int" where
  "largest_fitting_content_end e content start = search_end e content start (start + 1) (int (length content)) start"

function split_contents :: "history_entry \<Rightarrow> text16 \<Rightarrow> int \<Rightarrow> text16 list result" where
  "split_contents e content start =
     (if int (length content) \<le> start then Inr []
      else (let stop = largest_fitting_content_end e content start in
        if stop \<le> start then Inl too_large
        else res_bind (split_contents e content stop) (\<lambda>rest. Inr (slice content start stop # rest))))"
  by pat_completeness auto
termination
  by (relation "measure (\<lambda>(e, content, start). nat (int (length content) - start))") auto

declare split_contents.simps [simp del]

definition numbered_pieces :: "history_entry \<Rightarrow> text16 list \<Rightarrow> history_entry list" where
  "numbered_pieces e contents =
     map (\<lambda>(i, content). piece e content (int i) (int (length contents))) (enumerate 1 contents)"

definition split_entry :: "history_entry \<Rightarrow> history_entry list result" where
  "split_entry e =
     (if length (serialize_chunk [e]) \<le> chunk_max_characters then Inr [e]
      else (case he_content e of
          None \<Rightarrow> Inl too_large
        | Some content \<Rightarrow>
            if content = [] then Inl too_large
            else res_bind (split_contents e content 0) (\<lambda>contents. Inr (numbered_pieces e contents))))"

section \<open>Filling the chunks\<close>

fun split_all :: "history_entry list \<Rightarrow> history_entry list result" where
  "split_all [] = Inr []"
| "split_all (e # es) = res_bind (split_entry e) (\<lambda>ps. res_bind (split_all es) (\<lambda>rest. Inr (ps @ rest)))"

fun fill_chunks :: "history_entry list list \<Rightarrow> history_entry list \<Rightarrow> history_entry list \<Rightarrow> history_entry list list result" where
  "fill_chunks chunks current [] = Inr (if current = [] then chunks else chunks @ [current])"
| "fill_chunks chunks current (e # es) =
     (let candidate = current @ [e] in
      if current \<noteq> [] \<and> (chunk_max_entries < length candidate \<or> chunk_max_characters < length (serialize_chunk candidate))
        then fill_chunks (chunks @ [current]) [e] es
      else if chunk_max_characters < length (serialize_chunk candidate) then Inl too_large
      else fill_chunks chunks candidate es)"

definition content_length :: "history_entry \<Rightarrow> nat" where
  "content_length e = (case he_content e of None \<Rightarrow> 0 | Some c \<Rightarrow> length c)"

definition chunk_scheduled_group_history :: "history_entry list \<Rightarrow> history_entry list list result" where
  "chunk_scheduled_group_history entries =
     (if snapshot_max_entries < length entries then Inl too_large
      else if snapshot_max_content_characters < sum_list (map content_length entries) then Inl too_large
      else res_bind (split_all entries) (fill_chunks [] []))"

section \<open>Frames\<close>

text \<open>A serialized piece is a fixed frame around its escaped content and around its two part numbers.\<close>

definition framed :: "('a \<Rightarrow> text16) \<Rightarrow> ('a \<Rightarrow> text16) \<Rightarrow> bool" where
  "framed hole f \<longleftrightarrow> (\<exists>a b. \<forall>x. f x = a @ hole x @ b)"

definition framed_twice :: "('a \<Rightarrow> text16) \<Rightarrow> ('a \<Rightarrow> 'a \<Rightarrow> text16) \<Rightarrow> bool" where
  "framed_twice hole f \<longleftrightarrow> (\<exists>a b c. \<forall>x y. f x y = a @ hole x @ b @ hole y @ c)"

lemma framed_hole: "framed hole hole"
  unfolding framed_def by (rule exI [of _ "[]"], rule exI [of _ "[]"]) simp

lemma framed_left: "framed hole f \<Longrightarrow> framed hole (\<lambda>x. s @ f x)"
  unfolding framed_def
proof (elim exE)
  fix a b assume "\<forall>x. f x = a @ hole x @ b"
  then show "\<exists>a b. \<forall>x. s @ f x = a @ hole x @ b" by (intro exI [of _ "s @ a"] exI [of _ b]) simp
qed

lemma framed_Cons: "framed hole f \<Longrightarrow> framed hole (\<lambda>x. c # f x)"
  using framed_left [of hole f "[c]"] by simp

lemma framed_right: "framed hole (\<lambda>x. hole x @ s)"
  unfolding framed_def by (rule exI [of _ "[]"], rule exI [of _ s]) simp

lemma framed_twice_left: "framed_twice hole f \<Longrightarrow> framed_twice hole (\<lambda>x y. s @ f x y)"
  unfolding framed_twice_def
proof (elim exE)
  fix a b c assume "\<forall>x y. f x y = a @ hole x @ b @ hole y @ c"
  then show "\<exists>a b c. \<forall>x y. s @ f x y = a @ hole x @ b @ hole y @ c"
    by (intro exI [of _ "s @ a"] exI [of _ b] exI [of _ c]) simp
qed

lemma framed_twice_Cons: "framed_twice hole f \<Longrightarrow> framed_twice hole (\<lambda>x y. c # f x y)"
  using framed_twice_left [of hole f "[c]"] by simp

lemma framed_twice_hole: "framed hole f \<Longrightarrow> framed_twice hole (\<lambda>x y. hole x @ f y)"
  unfolding framed_def framed_twice_def
proof (elim exE)
  fix a b assume "\<forall>x. f x = a @ hole x @ b"
  then show "\<exists>a' b' c. \<forall>x y. hole x @ f y = a' @ hole x @ b' @ hole y @ c"
    by (intro exI [of _ "[]"] exI [of _ a] exI [of _ b]) simp
qed

lemmas frame_intros = framed_left framed_Cons framed_right framed_hole
  framed_twice_left framed_twice_Cons framed_twice_hole

lemmas piece_defs = serialize_chunk_def entry_wire_def piece_def part_members_def
  escape_untrusted_context_json_def json_quote_def

lemma content_framed: "framed (\<lambda>c. escape_markup (escape_units c)) (\<lambda>c. serialize_chunk [piece e c i n])"
  unfolding piece_defs by (simp add: text_or_null_def [of "Some x" for x] json_quote_def) (intro frame_intros)

lemma part_framed: "framed_twice (\<lambda>i. escape_markup (int_units i)) (\<lambda>i n. serialize_chunk [piece e c i n])"
  unfolding piece_defs by simp (intro frame_intros)

lemma fits_shorter:
  assumes "fits e c" "length (escape_markup (escape_units c')) \<le> length (escape_markup (escape_units c))"
  shows "fits e c'"
proof -
  obtain a b where "\<forall>c. serialize_chunk [piece e c content_part_placeholder_index content_part_placeholder_index]
      = a @ escape_markup (escape_units c) @ b"
    using content_framed unfolding framed_def by blast
  with assms show ?thesis by (simp add: fits_def)
qed


text \<open>A smaller part number is not longer.\<close>

lemma length_nat_text_mono: "m \<le> n \<Longrightarrow> length (nat_text m) \<le> length (nat_text n)"
proof (induction n arbitrary: m rule: nat_text.induct)
  case (1 n)
  show ?case
  proof (cases "m < 10")
    case True
    have "nat_text n \<noteq> []" by simp
    then have "1 \<le> length (nat_text n)" by (cases "nat_text n") auto
    with True show ?thesis by (simp add: nat_text.simps [of m])
  next
    case False
    with 1 have "length (nat_text (m div 10)) \<le> length (nat_text (n div 10))" by (simp add: div_le_mono)
    with False 1(2) show ?thesis by (simp add: nat_text.simps [of m] nat_text.simps [of n])
  qed
qed

lemma escape_markup_digits: "list_all ascii_digit s \<Longrightarrow> escape_markup (units s) = units s"
proof (induction s)
  case (Cons c s)
  then have "48 \<le> (of_char c :: nat) \<and> (of_char c :: nat) \<le> 57"
    by (simp add: ascii_digit_def less_eq_char_def)
  with Cons show ?case by (simp add: units_def markup_escape_def)
qed (simp add: units_def)

lemma length_escaped_int:
  assumes "0 \<le> i" "i \<le> j"
  shows "length (escape_markup (int_units i)) \<le> length (escape_markup (int_units j))"
  using assms length_nat_text_mono [of "nat i" "nat j"]
  by (simp add: int_units_def escape_markup_digits nat_text_digits) (simp add: units_def nat_mono)

lemma fitting_piece:
  assumes "fits e c" "0 \<le> i" "i \<le> content_part_placeholder_index" "0 \<le> n" "n \<le> content_part_placeholder_index"
  shows "length (serialize_chunk [piece e c i n]) \<le> chunk_max_characters"
proof -
  obtain x y z where "\<And>i n. serialize_chunk [piece e c i n] =
      x @ escape_markup (int_units i) @ y @ escape_markup (int_units n) @ z"
    using part_framed [of e c] unfolding framed_twice_def by blast
  with assms(1) length_escaped_int [OF assms(2,3)] length_escaped_int [OF assms(4,5)] show ?thesis
    by (simp add: fits_def)
qed

section \<open>Boundaries\<close>

definition inside_pair :: "text16 \<Rightarrow> int \<Rightarrow> bool" where
  "inside_pair v i \<longleftrightarrow> 0 < i \<and> i < int (length v) \<and> high_surrogate (v ! nat (i - 1)) \<and> low_surrogate (v ! nat i)"

lemma boundary_eq: "code_point_boundary v i = (if inside_pair v i then i - 1 else i)"
  by (simp add: code_point_boundary_def inside_pair_def)

lemma boundary_outside: "\<not> inside_pair v (code_point_boundary v i)"
proof -
  have "\<not> (high_surrogate c \<and> low_surrogate c)" for c by (simp add: high_surrogate_def low_surrogate_def)
  then show ?thesis by (auto simp: boundary_eq inside_pair_def)
qed

lemma boundary_mono: "i \<le> j \<Longrightarrow> code_point_boundary v i \<le> code_point_boundary v j"
  by (cases "i = j") (auto simp: boundary_eq)

lemma splits_pair_inside:
  assumes "0 \<le> i"
  shows "splits_pair (take (nat i) v) (drop (nat i) v) \<longleftrightarrow> inside_pair v i"
proof (cases "0 < i \<and> i < int (length v)")
  case True
  then have i: "0 < nat i" "nat i < length v" by auto
  have "last (take (nat i) v) = take (nat i) v ! (nat i - 1)"
    using i by (subst last_conv_nth) auto
  then have "last (take (nat i) v) = v ! nat (i - 1)" using i by (simp add: nat_diff_distrib)
  moreover have "hd (drop (nat i) v) = v ! nat i" using i by (simp add: hd_drop_conv_nth)
  ultimately show ?thesis using True i by (auto simp: splits_pair_def inside_pair_def)
next
  case False
  with assms show ?thesis by (auto simp: splits_pair_def inside_pair_def)
qed

lemma slice_append:
  assumes "0 \<le> i" "i \<le> j" "j \<le> k"
  shows "slice v i k = slice v i j @ slice v j k"
proof -
  have n: "nat (k - i) = nat (j - i) + nat (k - j)" "nat j = nat (j - i) + nat i"
    using assms by (simp_all add: nat_add_distrib [symmetric])
  show ?thesis unfolding slice_def n(1) take_add by (simp add: n(2))
qed

lemma slice_rest: "0 \<le> i \<Longrightarrow> i \<le> j \<Longrightarrow> slice v i j @ drop (nat j) v = drop (nat i) v"
proof -
  assume "0 \<le> i" "i \<le> j"
  then have "nat j = nat (j - i) + nat i" by (simp add: nat_add_distrib [symmetric])
  then show ?thesis unfolding slice_def by (metis append_take_drop_id drop_drop)
qed

lemma slice_cut:
  assumes "0 \<le> i" "i \<le> j" "j \<le> k" "\<not> inside_pair v j" "k \<le> int (length v)"
  shows "\<not> splits_pair (slice v i j) (slice v j k)"
proof
  assume split: "splits_pair (slice v i j) (slice v j k)"
  have "take (nat j) v = take (nat i) v @ slice v i j"
    using assms(1,2) unfolding slice_def by (metis add.commute diff_add_cancel int_nat_eq nat_add_distrib take_add diff_ge_0_iff_ge)
  moreover have "drop (nat j) v = slice v j k @ drop (nat k) v"
    using slice_rest [of j k v] assms(1,2,3) by simp
  ultimately have "splits_pair (take (nat j) v) (drop (nat j) v)"
    using split unfolding splits_pair_def by simp
  with splits_pair_inside [of j v] assms(1,2,4) show False by simp
qed

text \<open>A shorter slice up to a boundary has a shorter serialized form.\<close>

lemma fits_slice:
  assumes "fits e (slice v i k)" "0 \<le> i" "i \<le> j" "j \<le> k" "\<not> inside_pair v j" "k \<le> int (length v)"
  shows "fits e (slice v i j)"
  using assms slice_append [of i j k v] slice_cut [of i j k v]
  by (intro fits_shorter [OF assms(1)]) (simp add: escape_units_append)

section \<open>The search\<close>

text \<open>
  The binary search returns the last boundary up to which the content still fits, or the start when no
  code point fits.
\<close>

definition fitting_end :: "history_entry \<Rightarrow> text16 \<Rightarrow> int \<Rightarrow> int \<Rightarrow> bool" where
  "fitting_end e v start i \<longleftrightarrow> start < i \<and> i \<le> int (length v) \<and> \<not> inside_pair v i \<and> fits e (slice v start i)"

lemma search_end_spec:
  assumes "0 \<le> start" "start < lower" "upper \<le> int (length v)"
    "best = start \<or> fitting_end e v start best" "best \<le> lower"
    "\<forall>i. fitting_end e v start i \<longrightarrow> i \<le> best \<or> lower \<le> i \<and> i \<le> upper"
  shows "(search_end e v start lower upper best = start \<or> fitting_end e v start (search_end e v start lower upper best)) \<and>
    (\<forall>i. fitting_end e v start i \<longrightarrow> i \<le> search_end e v start lower upper best)"
  using assms
proof (induction e v start lower upper best rule: search_end.induct)
  case (1 e v start lower upper best)
  let ?mid = "(lower + upper) div 2"
  let ?c = "code_point_boundary v ?mid"
  show ?case
  proof (cases "upper < lower")
    case True
    have "\<forall>i. fitting_end e v start i \<longrightarrow> i \<le> best"
    proof (intro allI impI)
      fix i assume "fitting_end e v start i"
      with 1(9) True show "i \<le> best" by force
    qed
    with 1(7) True show ?thesis by (simp add: search_end.simps [of e v start lower upper best])
  next
    case False
    then have mid: "lower \<le> ?mid" "?mid \<le> upper" using midpoint [of lower upper] by auto
    have c: "?mid - 1 \<le> ?c" "?c \<le> ?mid" by (simp_all add: boundary_eq)
    have at: "code_point_boundary v i = i" if "fitting_end e v start i" for i
      using that by (simp add: boundary_eq fitting_end_def)
    show ?thesis
    proof (cases "?c \<le> start")
      case True
      have "\<forall>i. fitting_end e v start i \<longrightarrow> i \<le> best \<or> ?mid + 1 \<le> i \<and> i \<le> upper"
      proof (intro allI impI)
        fix i assume i: "fitting_end e v start i"
        have "?mid < i" using at [OF i] boundary_mono [of i ?mid v] True i by (force simp: fitting_end_def)
        with 1(9) i show "i \<le> best \<or> ?mid + 1 \<le> i \<and> i \<le> upper" by force
      qed
      with 1(1) [OF False refl refl True] 1(4-8) mid True show ?thesis
        unfolding search_end.simps [of e v start lower upper best] by (simp add: False Let_def)
    next
      case ahead: False
      show ?thesis
      proof (cases "fits e (slice v start ?c)")
        case True
        have best: "fitting_end e v start ?c"
          using True ahead mid c(2) 1(6) boundary_outside by (simp add: fitting_end_def)
        have "\<forall>i. fitting_end e v start i \<longrightarrow> i \<le> ?c \<or> ?mid + 1 \<le> i \<and> i \<le> upper"
        proof (intro allI impI)
          fix i assume i: "fitting_end e v start i"
          show "i \<le> ?c \<or> ?mid + 1 \<le> i \<and> i \<le> upper"
          proof (cases "i \<le> ?mid")
            case True
            then show ?thesis using at [OF i] boundary_mono [OF True, of v] by simp
          next
            case False
            with 1(8,9) i mid show ?thesis by force
          qed
        qed
        with 1(2) [OF False refl refl ahead True] 1(4-6) mid c(2) True ahead best show ?thesis
          unfolding search_end.simps [of e v start lower upper best] by (simp add: False Let_def)
      next
        case no: False
        have "\<forall>i. fitting_end e v start i \<longrightarrow> i \<le> best \<or> lower \<le> i \<and> i \<le> ?mid - 1"
        proof (intro allI impI)
          fix i assume i: "fitting_end e v start i"
          have "i < ?c"
          proof (rule ccontr)
            assume "\<not> i < ?c"
            then have order: "start \<le> ?c" "?c \<le> i" using ahead by linarith+
            have i': "fits e (slice v start i)" "i \<le> int (length v)" using i by (simp_all add: fitting_end_def)
            have "fits e (slice v start ?c)"
              by (rule fits_slice [OF i'(1) 1(4) order boundary_outside i'(2)])
            with no show False ..
          qed
          with 1(9) i c(2) show "i \<le> best \<or> lower \<le> i \<and> i \<le> ?mid - 1" by force
        qed
        with 1(3) [OF False refl refl ahead no] 1(4-8) mid no ahead show ?thesis
          unfolding search_end.simps [of e v start lower upper best] by (simp add: False Let_def)
      qed
    qed
  qed
qed

lemma largest_end:
  assumes "0 \<le> start" "start < int (length v)"
  shows "largest_fitting_content_end e v start = start \<or> fitting_end e v start (largest_fitting_content_end e v start)"
    "fitting_end e v start i \<Longrightarrow> i \<le> largest_fitting_content_end e v start"
proof -
  have "(largest_fitting_content_end e v start = start \<or> fitting_end e v start (largest_fitting_content_end e v start)) \<and>
      (\<forall>i. fitting_end e v start i \<longrightarrow> i \<le> largest_fitting_content_end e v start)"
    unfolding largest_fitting_content_end_def
    by (rule search_end_spec) (use assms in \<open>auto simp: fitting_end_def\<close>)
  then show "largest_fitting_content_end e v start = start \<or> fitting_end e v start (largest_fitting_content_end e v start)"
    and "fitting_end e v start i \<Longrightarrow> i \<le> largest_fitting_content_end e v start" by blast+
qed

text \<open>
  C38: The binary search is the linear one. Cutting a long message, it finds the last code point boundary up
  to which the piece still fits into a chunk: every boundary that fits lies at or before the one
  found, which is the start exactly when not even the next code point fits.
\<close>

theorem search_finds_the_longest_piece:
  assumes "0 \<le> start" "start < int (length content)"
  shows "largest_fitting_content_end e content start =
    Max (insert start {i. start < i \<and> i \<le> int (length content) \<and> \<not> inside_pair content i \<and> fits e (slice content start i)})"
proof -
  let ?S = "insert start {i. fitting_end e content start i}"
  have "?S \<subseteq> {start..int (length content)}" using assms(2) by (auto simp: fitting_end_def)
  then have "finite ?S" by (rule finite_subset) simp
  moreover have "largest_fitting_content_end e content start \<in> ?S" using largest_end(1) [OF assms, of e] by blast
  moreover have "i \<le> largest_fitting_content_end e content start" if "i \<in> ?S" for i
  proof (cases "i = start")
    case True
    then show ?thesis using largest_end(1) [OF assms, of e] by (auto simp: fitting_end_def)
  next
    case False
    with that largest_end(2) [OF assms] show ?thesis by blast
  qed
  ultimately have "Max ?S = largest_fitting_content_end e content start" by (intro Max_eqI) auto
  then show ?thesis by (simp add: fitting_end_def)
qed

section \<open>The pieces of a message\<close>

text \<open>What a message becomes: itself, or numbered pieces that join to it and cut no surrogate pair.\<close>

definition pieces_of :: "history_entry \<Rightarrow> history_entry list \<Rightarrow> bool" where
  "pieces_of e ps \<longleftrightarrow> ps = [e] \<or>
     (\<exists>contents. he_content e = Some (concat contents) \<and> ps = numbered_pieces e contents \<and> [] \<notin> set contents \<and>
        (\<forall>xs ys. contents = xs @ ys \<longrightarrow> \<not> splits_pair (concat xs) (concat ys)))"

definition clean_cuts :: "text16 \<Rightarrow> text16 list \<Rightarrow> bool" where
  "clean_cuts s contents \<longleftrightarrow> (\<forall>xs ys. contents = xs @ ys \<longrightarrow> \<not> splits_pair (s @ concat xs) (concat ys))"

lemma clean_cuts_Cons: "\<not> splits_pair s (c @ concat cs) \<Longrightarrow> clean_cuts (s @ c) cs \<Longrightarrow> clean_cuts s (c # cs)"
  unfolding clean_cuts_def
proof (intro allI impI)
  fix xs ys
  assume a: "\<not> splits_pair s (c @ concat cs)" "\<forall>xs ys. cs = xs @ ys \<longrightarrow> \<not> splits_pair ((s @ c) @ concat xs) (concat ys)"
    "c # cs = xs @ ys"
  show "\<not> splits_pair (s @ concat xs) (concat ys)"
  proof (cases xs)
    case Nil
    with a(1,3) have "ys = c # cs" by simp
    with a(1) Nil show ?thesis by simp
  next
    case (Cons x xs')
    with a(3) have "x = c" "cs = xs' @ ys" by auto
    with a(2) Cons show ?thesis by simp
  qed
qed

lemma split_contents_spec:
  "split_contents e v start = Inr contents \<Longrightarrow> 0 \<le> start \<Longrightarrow> \<not> inside_pair v start \<Longrightarrow>
     concat contents = drop (nat start) v \<and> [] \<notin> set contents \<and> list_all (fits e) contents \<and>
     length contents \<le> length v - nat start \<and> clean_cuts (take (nat start) v) contents"
proof (induction e v start arbitrary: contents rule: split_contents.induct)
  case (1 e v start)
  let ?stop = "largest_fitting_content_end e v start"
  show ?case
  proof (cases "int (length v) \<le> start")
    case True
    with 1(2) have "contents = []" by (simp add: split_contents.simps [of e v start])
    with True show ?thesis by (simp add: clean_cuts_def splits_pair_def)
  next
    case False
    with 1(2) have stop: "\<not> ?stop \<le> start"
      by (auto simp: split_contents.simps [of e v start] Let_def split: if_splits)
    obtain rest where rest: "split_contents e v ?stop = Inr rest" "contents = slice v start ?stop # rest"
      using 1(2) False stop by (auto simp: split_contents.simps [of e v start] Let_def res_bind_Inr_iff)
    have fit: "fitting_end e v start ?stop"
      using largest_end(1) [of start v e] 1(3) False stop by auto
    have IH: "concat rest = drop (nat ?stop) v \<and> [] \<notin> set rest \<and> list_all (fits e) rest \<and>
        length rest \<le> length v - nat ?stop \<and> clean_cuts (take (nat ?stop) v) rest"
      by (rule 1(1)) (use False stop rest fit 1(3) in \<open>auto simp: fitting_end_def\<close>)
    have joined: "slice v start ?stop @ concat rest = drop (nat start) v"
      using IH slice_rest [of start ?stop v] 1(3) stop by simp
    have "take (nat start) v @ slice v start ?stop = take (nat ?stop) v"
    proof -
      have "nat ?stop = nat start + nat (?stop - start)" using 1(3) stop by (simp add: nat_add_distrib [symmetric])
      then show ?thesis by (simp add: slice_def take_add)
    qed
    then have cuts: "clean_cuts (take (nat start) v) (slice v start ?stop # rest)"
      using IH joined splits_pair_inside [OF 1(3), of v] 1(4) by (intro clean_cuts_Cons) auto
    have "slice v start ?stop \<noteq> []"
    proof -
      have "nat start < length v" using False 1(3) by linarith
      with stop show ?thesis by (simp add: slice_def)
    qed
    moreover have "Suc (length v - nat ?stop) \<le> length v - nat start"
      using fit 1(3) unfolding fitting_end_def by linarith
    ultimately show ?thesis using IH joined cuts fit rest(2) by (auto simp: fitting_end_def)
  qed
qed

lemma split_entry_spec:
  assumes "split_entry e = Inr ps" "content_length e \<le> snapshot_max_content_characters"
  shows "pieces_of e ps" "\<forall>p\<in>set ps. length (serialize_chunk [p]) \<le> chunk_max_characters"
proof -
  have "pieces_of e ps \<and> (\<forall>p\<in>set ps. length (serialize_chunk [p]) \<le> chunk_max_characters)"
  proof (cases "length (serialize_chunk [e]) \<le> chunk_max_characters")
    case True
    with assms(1) show ?thesis by (auto simp: split_entry_def pieces_of_def)
  next
    case False
    then obtain content contents where c: "he_content e = Some content" "split_contents e content 0 = Inr contents"
        "ps = numbered_pieces e contents"
      using assms(1) by (auto simp: split_entry_def res_bind_Inr_iff split: option.splits if_splits)
    have "\<not> inside_pair content 0" by (simp add: inside_pair_def)
    from split_contents_spec [OF c(2) _ this] have spec: "concat contents = content" "[] \<notin> set contents"
        "list_all (fits e) contents" "length contents \<le> length content" "clean_cuts [] contents"
      by simp_all
    have max: "int (length contents) \<le> content_part_placeholder_index"
      using assms(2) c(1) spec(4) unfolding content_length_def snapshot_max_content_characters_def
        content_part_placeholder_index_def max_safe_integer_def by simp
    have "length (serialize_chunk [p]) \<le> chunk_max_characters" if p: "p \<in> set ps" for p
    proof -
      obtain i x where ix: "(i, x) \<in> set (enumerate 1 contents)" "p = piece e x (int i) (int (length contents))"
        using p unfolding c(3) numbered_pieces_def by auto
      then have "x \<in> set contents" "int i \<le> int (length contents)"
        by (auto simp: in_set_enumerate_eq)
      with spec(3) max ix(2) show ?thesis by (simp add: list_all_iff) (intro fitting_piece; simp)
    qed
    moreover have "pieces_of e ps"
      using c spec unfolding pieces_of_def clean_cuts_def by auto
    ultimately show ?thesis by blast
  qed
  then show "pieces_of e ps" "\<forall>p\<in>set ps. length (serialize_chunk [p]) \<le> chunk_max_characters" by blast+
qed

lemma split_all_spec:
  assumes "split_all es = Inr ps" "sum_list (map content_length es) \<le> snapshot_max_content_characters"
  shows "\<exists>pss. list_all2 pieces_of es pss \<and> ps = concat pss \<and>
    (\<forall>p\<in>set ps. length (serialize_chunk [p]) \<le> chunk_max_characters)"
  using assms
proof (induction es arbitrary: ps)
  case Nil
  then show ?case by (intro exI [of _ "[]"]) simp
next
  case (Cons e es)
  then obtain p rest where p: "split_entry e = Inr p" "split_all es = Inr rest" "ps = p @ rest"
    by (auto simp: res_bind_Inr_iff)
  from Cons.IH [OF p(2)] Cons.prems(2) obtain pss where pss: "list_all2 pieces_of es pss" "rest = concat pss"
      "\<forall>p\<in>set rest. length (serialize_chunk [p]) \<le> chunk_max_characters" by auto
  from split_entry_spec [OF p(1)] Cons.prems(2) pss p(3) show ?case
    by (intro exI [of _ "p # pss"]) auto
qed

section \<open>The chunks\<close>

definition chunk_ok :: "history_entry list \<Rightarrow> bool" where
  "chunk_ok c \<longleftrightarrow> c \<noteq> [] \<and> length c \<le> chunk_max_entries \<and> length (serialize_chunk c) \<le> chunk_max_characters"

lemma fill_chunks_spec:
  assumes "\<forall>e\<in>set es. length (serialize_chunk [e]) \<le> chunk_max_characters"
    "list_all chunk_ok chunks" "current = [] \<or> chunk_ok current"
  shows "\<exists>result. fill_chunks chunks current es = Inr result \<and> list_all chunk_ok result \<and>
    concat result = concat chunks @ current @ es"
  using assms
proof (induction chunks current es rule: fill_chunks.induct)
  case (1 chunks current)
  then show ?case by (cases "current = []") auto
next
  case (2 chunks current e es)
  let ?c = "current @ [e]"
  have single: "chunk_ok [e]" using 2(3) by (simp add: chunk_ok_def chunk_max_entries_def)
  show ?case
  proof (cases "current \<noteq> [] \<and> (chunk_max_entries < length ?c \<or> chunk_max_characters < length (serialize_chunk ?c))")
    case True
    with 2(1) [OF refl True] 2(3-5) single show ?thesis by (simp add: Let_def)
  next
    case False
    have "chunk_ok ?c"
    proof (cases "current = []")
      case True
      with single show ?thesis by simp
    next
      case False
      with \<open>\<not> (current \<noteq> [] \<and> _)\<close> show ?thesis by (auto simp: chunk_ok_def)
    qed
    moreover from this have small: "\<not> chunk_max_characters < length (serialize_chunk ?c)" by (simp add: chunk_ok_def)
    ultimately show ?thesis
      using 2(2) [OF refl False small] 2(3,4)
      unfolding fill_chunks.simps Let_def if_not_P [OF False] if_not_P [OF small] by simp
  qed
qed

text \<open>
  C36: A chunk stays within the model's limits: it is not empty, holds at most fifty entries, and what the model is
  given of it is at most 9,000 characters long, tags and notice included.
\<close>

theorem chunks_are_bounded:
  assumes "chunk_scheduled_group_history entries = Inr chunks" "chunk \<in> set chunks"
  shows "chunk \<noteq> [] \<and> length chunk \<le> 50 \<and> length (serialize_chunk chunk) \<le> 9000"
proof -
  obtain ps where ps: "split_all entries = Inr ps" "fill_chunks [] [] ps = Inr chunks"
      "sum_list (map content_length entries) \<le> snapshot_max_content_characters"
    using assms(1) by (auto simp: chunk_scheduled_group_history_def res_bind_Inr_iff split: if_splits)
  from split_all_spec [OF ps(1,3)] have "\<forall>p\<in>set ps. length (serialize_chunk [p]) \<le> chunk_max_characters" by blast
  from fill_chunks_spec [OF this, of "[]" "[]"] ps(2) assms(2) have "chunk_ok chunk" by (auto simp: list_all_iff)
  then show ?thesis by (simp add: chunk_ok_def chunk_max_entries_def chunk_max_characters_def)
qed

text \<open>
  C35: Chunking loses nothing. Read in order, the chunks are the entries in order, each either whole or as numbered
  pieces whose contents join to the entry's content, with no piece empty and no surrogate pair cut.
\<close>

theorem chunks_are_the_history:
  assumes "chunk_scheduled_group_history entries = Inr chunks"
  shows "\<exists>pss. list_all2 pieces_of entries pss \<and> concat chunks = concat pss"
proof -
  obtain ps where ps: "split_all entries = Inr ps" "fill_chunks [] [] ps = Inr chunks"
      "sum_list (map content_length entries) \<le> snapshot_max_content_characters"
    using assms(1) by (auto simp: chunk_scheduled_group_history_def res_bind_Inr_iff split: if_splits)
  from split_all_spec [OF ps(1,3)] obtain pss where pss: "list_all2 pieces_of entries pss" "ps = concat pss"
      "\<forall>p\<in>set ps. length (serialize_chunk [p]) \<le> chunk_max_characters" by blast
  from fill_chunks_spec [OF pss(3), of "[]" "[]"] ps(2) pss(1,2) show ?thesis by auto
qed


section \<open>Chunking succeeds\<close>

text \<open>Around an empty content there is room for one code point, at most twelve characters when escaped.\<close>

definition room_for_content :: "history_entry \<Rightarrow> bool" where
  "room_for_content e \<longleftrightarrow> he_part e = None \<and>
     length (serialize_chunk [piece e [] content_part_placeholder_index content_part_placeholder_index]) + 12
       \<le> chunk_max_characters"

lemma room_fits:
  assumes "room_for_content e" "length c \<le> 2"
  shows "fits e c"
proof -
  obtain a b where ab: "\<And>c. serialize_chunk [piece e c content_part_placeholder_index content_part_placeholder_index]
      = a @ escape_markup (escape_units c) @ b"
    using content_framed unfolding framed_def by blast
  have "length (escape_markup (escape_units c)) \<le> 12" using length_escaped_le [of c] assms(2) by linarith
  with assms(1) show ?thesis by (simp add: fits_def room_for_content_def ab)
qed

lemma whole_entry_shorter:
  assumes "he_part e = None" "he_content e = None \<or> he_content e = Some []"
  shows "length (serialize_chunk [e]) \<le> length (serialize_chunk [piece e [] i n])"
proof -
  have null: "text_or_null None = W_null" "text_or_null (Some []) = W_text []" by (simp_all add: text_or_null_def)
  have comma: "length (markup_escape c) \<ge> 1" for c by (simp add: markup_escape_def)
  show ?thesis
    using assms comma [of 123] comma [of 125] comma [of 34]
    by (elim disjE) (simp_all add: piece_defs null units_def [of "''null''"] markup_escape_def [of 110] markup_escape_def [of 117]
      markup_escape_def [of 108])
qed

lemma next_end:
  assumes "room_for_content e" "0 \<le> start" "start < int (length v)"
  shows "start < largest_fitting_content_end e v start"
proof -
  let ?i = "if inside_pair v (start + 1) then start + 2 else start + 1"
  have "\<not> inside_pair v ?i"
  proof (cases "inside_pair v (start + 1)")
    case True
    then have "low_surrogate (v ! nat (start + 1))" by (simp add: inside_pair_def)
    then have "\<not> high_surrogate (v ! nat (start + 1))" by (simp add: high_surrogate_def low_surrogate_def)
    then have "\<not> high_surrogate (v ! nat (start + 2 - 1))"
      by (rule back_subst [where P = "\<lambda>i. \<not> high_surrogate (v ! nat i)"]) simp
    then have "\<not> inside_pair v (start + 2)" by (simp add: inside_pair_def)
    with True show ?thesis by simp
  qed simp
  moreover have "?i \<le> int (length v)" using assms(3) by (auto simp: inside_pair_def)
  moreover have "fits e (slice v start ?i)" using assms(1) by (intro room_fits) (auto simp: slice_def)
  ultimately have "fitting_end e v start ?i" by (simp add: fitting_end_def)
  with largest_end(2) [OF assms(2,3)] show ?thesis by (smt (verit))
qed

lemma split_contents_total:
  "room_for_content e \<Longrightarrow> 0 \<le> start \<Longrightarrow> \<exists>contents. split_contents e v start = Inr contents"
proof (induction e v start rule: split_contents.induct)
  case (1 e v start)
  show ?case
  proof (cases "int (length v) \<le> start")
    case False
    then have "start < largest_fitting_content_end e v start" using next_end 1(2,3) by simp
    moreover from this have "\<exists>contents. split_contents e v (largest_fitting_content_end e v start) = Inr contents"
      using 1(1) [OF False refl] 1(2,3) by simp
    ultimately show ?thesis using False by (auto simp: split_contents.simps [of e v start] Let_def)
  qed (simp add: split_contents.simps [of e v start])
qed

lemma split_entry_total:
  assumes "room_for_content e"
  shows "\<exists>ps. split_entry e = Inr ps"
proof (cases "length (serialize_chunk [e]) \<le> chunk_max_characters")
  case False
  have "he_part e = None" using assms by (simp add: room_for_content_def)
  from whole_entry_shorter [OF this] False assms
  have "he_content e \<noteq> None" "he_content e \<noteq> Some []"
    unfolding room_for_content_def by (metis add_leD1 le_trans)+
  then obtain content where "he_content e = Some content" "content \<noteq> []" by auto
  moreover obtain contents where "split_contents e content 0 = Inr contents"
    using split_contents_total [OF assms] by blast
  ultimately show ?thesis using False by (simp add: split_entry_def)
qed (simp add: split_entry_def)

lemma split_all_total: "list_all room_for_content es \<Longrightarrow> \<exists>ps. split_all es = Inr ps"
proof (induction es)
  case (Cons e es)
  then show ?case using split_entry_total [of e] by auto
qed simp

text \<open>
  C37: No message is too long. A history within the two documented limits is always chunked, however long
  a single message is, if names and the other members of each entry leave room for one code point.
\<close>

theorem history_is_always_chunked:
  assumes "length entries \<le> 1000" "sum_list (map content_length entries) \<le> 4500000" "list_all room_for_content entries"
  shows "\<exists>chunks. chunk_scheduled_group_history entries = Inr chunks"
proof -
  obtain ps where ps: "split_all entries = Inr ps" using split_all_total [OF assms(3)] by blast
  have sum: "sum_list (map content_length entries) \<le> snapshot_max_content_characters"
    using assms(2) by (simp add: snapshot_max_content_characters_def)
  from split_all_spec [OF ps this] have "\<forall>p\<in>set ps. length (serialize_chunk [p]) \<le> chunk_max_characters" by blast
  from fill_chunks_spec [OF this, of "[]" "[]"] obtain chunks where "fill_chunks [] [] ps = Inr chunks" by auto
  with ps sum assms(1) show ?thesis
    by (simp add: chunk_scheduled_group_history_def snapshot_max_entries_def)
qed

section \<open>Witnesses\<close>

definition hello_entry :: history_entry where
  "hello_entry = \<lparr>he_kind = ''text'', he_actor = ''user'', he_sent = ''2026-01-02T03:04:05+00:00'',
     he_content = Some (units ''Hello''), he_sequence = ''7'', he_username = None, he_name = Some (units ''Ann''),
     he_reply = None, he_part = None\<rparr>"

lemma hello_length: "length (serialize_chunk [hello_entry]) \<le> chunk_max_characters"
  by (simp add: serialize_chunk_def hello_entry_def entry_wire_def part_members_def text_or_null_def
      escape_untrusted_context_json_def json_quote_def units_def markup_escape_def plain_escape_def
      high_surrogate_def low_surrogate_def timeline_opening_def timeline_notice_def timeline_closing_def chunk_max_characters_def)

lemma hello_chunks: "chunk_scheduled_group_history [hello_entry] = Inr [[hello_entry]]"
  using hello_length
  by (simp add: chunk_scheduled_group_history_def split_entry_def snapshot_max_entries_def
      snapshot_max_content_characters_def content_length_def hello_entry_def units_def)

lemma chunks_are_bounded_witness:
  "[hello_entry] \<noteq> [] \<and> length [hello_entry] \<le> 50 \<and> length (serialize_chunk [hello_entry]) \<le> 9000"
  by (rule chunks_are_bounded [OF hello_chunks]) simp

lemma chunks_are_the_history_witness:
  "\<exists>pss. list_all2 pieces_of [hello_entry] pss \<and> concat [[hello_entry]] = concat pss"
  by (rule chunks_are_the_history [OF hello_chunks])

lemma hello_room: "room_for_content hello_entry"
  by (simp add: room_for_content_def serialize_chunk_def hello_entry_def entry_wire_def part_members_def text_or_null_def
      piece_def escape_untrusted_context_json_def json_quote_def units_def markup_escape_def plain_escape_def
      high_surrogate_def low_surrogate_def timeline_opening_def timeline_notice_def timeline_closing_def
      chunk_max_characters_def content_part_placeholder_index_def max_safe_integer_def int_units_def nat_text.simps digit_char_def)

lemma history_is_always_chunked_witness:
  "\<exists>chunks. chunk_scheduled_group_history
     [hello_entry\<lparr>he_content := Some (replicate 20000 60)\<rparr>] = Inr chunks"
proof (rule history_is_always_chunked)
  have "piece (hello_entry\<lparr>he_content := x\<rparr>) c i n = piece hello_entry c i n" for x c i n
    by (simp add: piece_def)
  moreover have "he_part hello_entry = None" by (simp add: hello_entry_def)
  ultimately show "list_all room_for_content [hello_entry\<lparr>he_content := Some (replicate 20000 60)\<rparr>]"
    using hello_room by (simp add: room_for_content_def)
qed (simp_all add: content_length_def)

lemma search_finds_the_longest_piece_witness:
  "largest_fitting_content_end hello_entry (replicate 20000 60) 5 =
     Max (insert 5 {i. 5 < i \<and> i \<le> int (length (replicate 20000 (60::nat))) \<and> \<not> inside_pair (replicate 20000 60) i \<and>
       fits hello_entry (slice (replicate 20000 60) 5 i)})"
  by (rule search_finds_the_longest_piece) simp_all

end
