(* ===== verification/Agent_Schedules.thy ===== *)
theory Agent_Schedules
  imports Recurrence Proactive_Deliveries Session_Values Tool_Policy Group_History
begin

text \<open>
  agent/lib/agent-schedules: agent scenarios that run at planned times. This theory holds the tables
  (migrations 029, 033, 062, 063, 103), who a turn acts for (agent-schedule-context.ts), input validation
  (agent-schedule-validation.ts), what an external group's automation may use
  (external-agent-schedule-policy.ts), and the records shown to the model (agent-schedule-record.ts,
  agent-schedule-recurrence.ts).
\<close>

section \<open>Tables\<close>

datatype schedule_status = S_active | S_paused | S_leased | S_completed | S_failed

datatype schedule_kind = Once | Repeats recurrence_unit

record agent_schedule =
  as_id :: string
  as_family :: string
  as_owner :: "string option"
  as_author :: string
  as_group :: "string option"
  as_scope :: memory_scope
  as_title :: string
  as_request :: string
  as_prompt :: string
  as_timezone :: string
  as_kind :: schedule_kind
  as_interval :: int
  as_days :: "int list option"
  as_anchor_local :: int
  as_anchor_at :: "time option"
  as_occurrence :: int
  as_next :: time
  as_chat :: string
  as_chat_type :: chat_type
  as_thread :: "int option"
  as_topic :: "int option"
  as_window :: "int option"
  as_tools :: "string list"
  as_status :: schedule_status
  as_attempts :: int
  as_lease :: "string option"
  as_lease_until :: "time option"
  as_dispatch :: "time option"
  as_error :: "string option"
  as_created :: time
  as_updated :: time

datatype run_status = Run_claimed | Run_dispatching | Run_running | Run_completed | Run_failed | Run_ambiguous

record agent_run =
  ar_id :: string
  ar_schedule :: string
  ar_family :: string
  ar_scheduled :: time
  ar_status :: run_status
  ar_lease :: string
  ar_eve :: "string option"
  ar_session :: "string option"
  ar_dispatch :: "time option"
  ar_completed :: "time option"
  ar_error :: "string option"
  ar_updated :: time

datatype schedule_operation_kind = Create_schedule | Update_schedule | Delete_schedule | Run_schedule_now

record schedule_operation =
  so_family :: string
  so_key :: string
  so_kind :: schedule_operation_kind
  so_hash :: string
  so_schedule :: "string option"

text \<open>A snapshot with its chunks, each under its cursor token, in the order of their ordinals.\<close>

record history_snapshot =
  hs_run :: string
  hs_schedule :: string
  hs_family :: string
  hs_group :: string
  hs_from :: time
  hs_until :: time
  hs_entries :: int
  hs_chunks :: "(string \<times> history_entry list) list"

datatype schedule_event =
    Schedule_created string string string memory_scope
  | Schedule_updated string string string
  | Schedule_deleted string string string memory_scope
  | Schedule_run_now string string string
  | Schedule_failed string string string

record schedule_db =
  sd_schedules :: "agent_schedule list"
  sd_runs :: "agent_run list"
  sd_operations :: "schedule_operation list"
  sd_snapshots :: "history_snapshot list"
  sd_memberships :: "membership list"
  sd_groups :: "telegram_group list"
  sd_users :: "app_user list"
  sd_deliveries :: delivery_journal
  sd_audit :: "schedule_event list"

interpretation schedule_rows: keyed_table as_id .
interpretation run_rows: keyed_table ar_id .
interpretation occurrence_rows: keyed_table "\<lambda>r. (ar_schedule r, ar_scheduled r)" .

text \<open>The \<open>CHECK\<close> constraints of \<open>agent_schedules\<close>.\<close>

definition positive_or_null :: "int option \<Rightarrow> bool" where
  "positive_or_null v = (case v of None \<Rightarrow> True | Some n \<Rightarrow> 0 < n)"

definition text_between :: "string \<Rightarrow> nat \<Rightarrow> bool" where
  "text_between s n \<longleftrightarrow> 1 \<le> length s \<and> length s \<le> n"

definition scope_shape :: "agent_schedule \<Rightarrow> bool" where
  "scope_shape s \<longleftrightarrow>
     (case as_scope s of
        Personal_scope \<Rightarrow> as_owner s \<noteq> None \<and> as_group s = None \<and> as_thread s = None \<and> as_window s = None \<and> as_tools s = []
      | Family_scope \<Rightarrow> as_owner s = None \<and> as_group s \<noteq> None \<and> as_window s = None \<and> as_tools s = []
      | Group_scope \<Rightarrow> as_owner s = None \<and> as_group s \<noteq> None \<and> as_thread s = None \<and> as_topic s = None)"

definition recurrence_shape :: "agent_schedule \<Rightarrow> bool" where
  "recurrence_shape s \<longleftrightarrow>
     1 \<le> as_interval s \<and> as_interval s \<le> 365 \<and>
     (case as_days s of
        None \<Rightarrow> as_kind s \<noteq> Repeats Weekly
      | Some days \<Rightarrow> as_kind s = Repeats Weekly \<and> 1 \<le> length days \<and> length days \<le> 7 \<and>
          list_all (\<lambda>d. 1 \<le> d \<and> d \<le> 7) days) \<and>
     (as_kind s \<in> {Repeats Minutely, Repeats Hourly} \<longrightarrow> as_anchor_at s \<noteq> None)"

definition lease_shape :: "agent_schedule \<Rightarrow> bool" where
  "lease_shape s \<longleftrightarrow>
     (if as_status s = S_leased then as_lease s \<noteq> None \<and> as_lease_until s \<noteq> None
      else as_lease s = None \<and> as_lease_until s = None \<and> as_dispatch s = None)"

definition schedule_checks :: "agent_schedule \<Rightarrow> bool" where
  "schedule_checks s \<longleftrightarrow>
     text_between (as_title s) 120 \<and> text_between (as_request s) 2000 \<and> text_between (as_prompt s) 8000 \<and>
     text_between (as_timezone s) 100 \<and> 0 \<le> as_occurrence s \<and> 0 \<le> as_attempts s \<and>
     as_chat_type s \<noteq> Channel_chat \<and> positive_or_null (as_thread s) \<and> positive_or_null (as_topic s) \<and>
     (case as_window s of None \<Rightarrow> True | Some n \<Rightarrow> 1 \<le> n \<and> n \<le> 365) \<and>
     scope_shape s \<and> recurrence_shape s \<and> lease_shape s"

section \<open>Who a turn acts for\<close>

record schedule_auth =
  sa_topic :: "string option"
  sa_family :: string
  sa_group :: "string option"
  sa_family_group :: bool
  sa_thread :: "string option"
  sa_role :: family_role
  sa_chat :: string
  sa_chat_type :: chat_type
  sa_telegram_user :: string
  sa_user :: string

definition chat_type_of_text :: "string \<Rightarrow> chat_type option" where
  "chat_type_of_text s =
     (if s = ''group'' then Some Group_chat else if s = ''private'' then Some Private_chat
      else if s = ''supergroup'' then Some Supergroup_chat else None)"

definition role_of_text :: "string \<Rightarrow> family_role option" where
  "role_of_text s =
     (if s = ''member'' then Some Member_role else if s = ''owner'' then Some Owner_role
      else if s = ''recovery_owner'' then Some Recovery_owner_role else None)"

definition require_agent_schedule_authorization :: "caller option \<Rightarrow> schedule_auth result" where
  "require_agent_schedule_authorization c =
     (case c of
        None \<Rightarrow> Inl (AppError ''AGENT_SCHEDULE_CONTEXT_INVALID'')
      | Some caller \<Rightarrow>
          (let attr = text_attribute (ca_attributes caller) in
           case (attr ''familyId'', attr ''telegramChatId'', attr ''telegramUserId'',
                 Option.bind (attr ''telegramChatType'') chat_type_of_text, Option.bind (attr ''role'') role_of_text) of
             (Some family, Some chat, Some telegram_user, Some chat_type, Some role) \<Rightarrow>
               if ca_principal_type caller \<noteq> ''user'' \<or> ca_authenticator caller \<noteq> ''telegram''
               then Inl (AppError ''AGENT_SCHEDULE_CONTEXT_INVALID'')
               else if attr ''groupType'' = Some ''external'' then Inl (AppError ''AGENT_SCHEDULE_SCOPE_DENIED'')
               else Inr \<lparr>sa_topic = attr ''telegramForumTopicId'', sa_family = family, sa_group = attr ''groupId'',
                  sa_family_group = (attr ''groupType'' = Some ''family_private''), sa_thread = attr ''telegramMessageThreadId'',
                  sa_role = role, sa_chat = chat, sa_chat_type = chat_type, sa_telegram_user = telegram_user,
                  sa_user = ca_principal caller\<rparr>
           | _ \<Rightarrow> Inl (AppError ''AGENT_SCHEDULE_CONTEXT_INVALID'')))"

section \<open>Validation\<close>

definition schedule_title_max :: nat where "schedule_title_max = 120"
definition schedule_request_max :: nat where "schedule_request_max = 2000"
definition schedule_prompt_max :: nat where "schedule_prompt_max = 8000"
definition schedule_list_max :: int where "schedule_list_max = 100"
definition schedule_interval_max :: int where "schedule_interval_max = 365"

datatype schedule_recurrence =
    Once_only
  | Every recurrence_unit int
  | Weekdays "int list" int

text \<open>A recurrence as it arrives: a kind, an interval and a list of weekdays.\<close>

record recurrence_request =
  rq_kind :: string
  rq_interval :: js_number
  rq_days :: "js_number list"

definition simple_recurrence_kinds :: "recurrence_unit list" where
  "simple_recurrence_kinds = [Daily, Minutely, Hourly, Monthly, Yearly]"

definition trimmed_text :: "string \<Rightarrow> nat \<Rightarrow> string \<Rightarrow> string result" where
  "trimmed_text value n code =
     (let trimmed = js_trim value in if trimmed = [] \<or> n < length trimmed then Inl (AppError code) else Inr trimmed)"

definition require_agent_schedule_title :: "string \<Rightarrow> string result" where
  "require_agent_schedule_title v = trimmed_text v schedule_title_max ''AGENT_SCHEDULE_TITLE_INVALID''"

definition require_agent_schedule_user_request :: "string \<Rightarrow> string result" where
  "require_agent_schedule_user_request v = trimmed_text v schedule_request_max ''AGENT_SCHEDULE_USER_REQUEST_INVALID''"

definition require_agent_schedule_prompt :: "string \<Rightarrow> string result" where
  "require_agent_schedule_prompt v = trimmed_text v schedule_prompt_max ''AGENT_SCHEDULE_PROMPT_INVALID''"

definition require_agent_schedule_date :: "int option \<Rightarrow> int result" where
  "require_agent_schedule_date v = (case v of None \<Rightarrow> Inl (AppError ''AGENT_SCHEDULE_TIME_INVALID'') | Some t \<Rightarrow> Inr t)"

definition require_interval :: "js_number \<Rightarrow> int result" where
  "require_interval v =
     (if \<not> is_integer v \<or> number_value v < 1 \<or> schedule_interval_max < number_value v
      then Inl (AppError ''AGENT_SCHEDULE_RECURRENCE_INVALID'') else Inr (number_value v))"

definition valid_weekday :: "js_number \<Rightarrow> bool" where
  "valid_weekday d \<longleftrightarrow> is_integer d \<and> number_value d \<in> set [1, 2, 3, 4, 5, 6, 7]"

definition require_agent_schedule_recurrence :: "recurrence_request \<Rightarrow> schedule_recurrence result" where
  "require_agent_schedule_recurrence r =
     (if rq_kind r = ''once'' then Inr Once_only
      else (case first_row (\<lambda>u. unit_text u = rq_kind r) simple_recurrence_kinds of
          Some u \<Rightarrow> res_bind (require_interval (rq_interval r)) (\<lambda>n. Inr (Every u n))
        | None \<Rightarrow>
            if rq_kind r \<noteq> ''weekly'' then Inl (AppError ''AGENT_SCHEDULE_RECURRENCE_INVALID'')
            else (let days = remdups (rq_days r) in
              if days = [] \<or> list_ex (\<lambda>d. \<not> valid_weekday d) days then Inl (AppError ''AGENT_SCHEDULE_RECURRENCE_INVALID'')
              else res_bind (require_interval (rq_interval r)) (\<lambda>n. Inr (Weekdays (sort (map number_value days)) n)))))"

definition numeric_message_thread_id :: "int option \<Rightarrow> int option result" where
  "numeric_message_thread_id v =
     (case v of
        None \<Rightarrow> Inr None
      | Some n \<Rightarrow> if max_safe_integer < n \<or> n \<le> 0 then Inl (AppError ''AGENT_SCHEDULE_THREAD_INVALID'') else Inr (Some n))"

section \<open>What an automation of an external group may use\<close>

definition history_window_max_days :: int where "history_window_max_days = 365"

definition external_schedule_capabilities :: "string list" where
  "external_schedule_capabilities = [''inspect_workspace_image'', ''list_memories'', ''list_memory_threads'',
     ''read_memory_thread'', ''search_memories'', ''search_memory_threads'', ''send_workspace_file'', ''web_fetch'']"

fun parse_capabilities :: "json list \<Rightarrow> string list \<Rightarrow> string list option" where
  "parse_capabilities [] allowed = Some allowed"
| "parse_capabilities (JStr c # rest) allowed =
     (if c \<notin> set external_schedule_capabilities \<or> c \<in> set allowed then None else parse_capabilities rest (allowed @ [c]))"
| "parse_capabilities (_ # rest) allowed = None"

definition parse_external_schedule_capabilities :: "json \<Rightarrow> string list option" where
  "parse_external_schedule_capabilities value = (case value of JArr vs \<Rightarrow> parse_capabilities vs [] | _ \<Rightarrow> None)"

definition require_external_schedule_history_window_days :: "js_number option option \<Rightarrow> int option option result" where
  "require_external_schedule_history_window_days v =
     (case v of
        None \<Rightarrow> Inr None
      | Some None \<Rightarrow> Inr (Some None)
      | Some (Some n) \<Rightarrow>
          if \<not> is_integer n \<or> number_value n < 1 \<or> history_window_max_days < number_value n
          then Inl (AppError ''AGENT_EXTERNAL_SCHEDULE_HISTORY_WINDOW_INVALID'')
          else Inr (Some (Some (number_value n))))"

definition stored_allowlist :: "string list \<Rightarrow> string list option" where
  "stored_allowlist names = parse_external_group_tool_allowlist (Some (JArr (map JStr names)))"

definition require_granted :: "string list \<Rightarrow> string list \<Rightarrow> string list result" where
  "require_granted scheduled current =
     (if list_ex (\<lambda>c. c \<notin> set current) scheduled then Inl (AppError ''AGENT_EXTERNAL_SCHEDULE_CAPABILITY_NOT_GRANTED'')
      else Inr scheduled)"

definition require_updated_external_schedule_capabilities ::
  "telegram_group list \<Rightarrow> agent_schedule \<Rightarrow> json option \<Rightarrow> string list option result" where
  "require_updated_external_schedule_capabilities gs s value =
     (case value of
        None \<Rightarrow> Inr None
      | Some v \<Rightarrow>
          (case (parse_external_schedule_capabilities v, as_group s) of
             (Some scheduled, Some gid) \<Rightarrow>
               if as_scope s \<noteq> Group_scope then Inl (AppError ''AGENT_EXTERNAL_SCHEDULE_CAPABILITIES_INVALID'')
               else (case Option.bind (first_row (\<lambda>g. g_id g = gid \<and> g_family g = as_family s \<and> g_type g = External_group) gs)
                            (\<lambda>g. stored_allowlist (g_allowlist g)) of
                   None \<Rightarrow> Inl (AppError ''AGENT_EXTERNAL_SCHEDULE_GROUP_NOT_FOUND'')
                 | Some current \<Rightarrow> res_bind (require_granted scheduled current) (\<lambda>cs. Inr (Some cs)))
           | _ \<Rightarrow> Inl (AppError ''AGENT_EXTERNAL_SCHEDULE_CAPABILITIES_INVALID'')))"

section \<open>Records for the model\<close>

definition row_recurrence :: "agent_schedule \<Rightarrow> schedule_recurrence" where
  "row_recurrence s =
     (case as_kind s of
        Once \<Rightarrow> Once_only
      | Repeats u \<Rightarrow>
          if u = Weekly then Weekdays (case as_days s of None \<Rightarrow> [] | Some days \<Rightarrow> days) (as_interval s)
          else Every u (as_interval s))"

record schedule_record =
  sr_created :: int
  sr_id :: string
  sr_error :: "string option"
  sr_thread :: "int option"
  sr_next :: int
  sr_recurrence :: schedule_recurrence
  sr_prompt :: string
  sr_scope :: memory_scope
  sr_status :: schedule_status
  sr_timezone :: string
  sr_title :: string
  sr_updated :: int
  sr_request :: string

definition row_to_agent_schedule :: "agent_schedule \<Rightarrow> schedule_record" where
  "row_to_agent_schedule s =
     \<lparr>sr_created = to_date (as_created s), sr_id = as_id s, sr_error = as_error s, sr_thread = as_thread s,
      sr_next = to_date (as_next s), sr_recurrence = row_recurrence s, sr_prompt = as_prompt s, sr_scope = as_scope s,
      sr_status = as_status s, sr_timezone = as_timezone s, sr_title = as_title s, sr_updated = to_date (as_updated s),
      sr_request = as_request s\<rparr>"

text \<open>The columns of a recurrence; a single run is stored with interval 1.\<close>

definition recurrence_values :: "schedule_recurrence \<Rightarrow> int list option \<times> int \<times> schedule_kind" where
  "recurrence_values r =
     (case r of
        Once_only \<Rightarrow> (None, 1, Once)
      | Every u n \<Rightarrow> (None, n, Repeats u)
      | Weekdays days n \<Rightarrow> (Some days, n, Repeats Weekly))"

text \<open>A recurrence that passed validation comes back from its columns.\<close>

definition recurrence_ok :: "schedule_recurrence \<Rightarrow> bool" where
  "recurrence_ok r =
     (case r of
        Once_only \<Rightarrow> True
      | Every u n \<Rightarrow> u \<noteq> Weekly \<and> 1 \<le> n \<and> n \<le> 365
      | Weekdays days n \<Rightarrow> days \<noteq> [] \<and> sorted days \<and> distinct days \<and> set days \<subseteq> {1..7} \<and> 1 \<le> n \<and> n \<le> 365)"

lemma first_row_in: "first_row P rows = Some r \<Longrightarrow> r \<in> set rows"
  using first_row_Some by fast

lemma required_recurrence_ok:
  assumes "require_agent_schedule_recurrence q = Inr r"
  shows "recurrence_ok r"
proof (cases "rq_kind q = ''once''")
  case True
  with assms show ?thesis by (auto simp: require_agent_schedule_recurrence_def recurrence_ok_def)
next
  case False
  show ?thesis
  proof (cases "first_row (\<lambda>u. unit_text u = rq_kind q) simple_recurrence_kinds")
    case (Some u)
    then have "u \<noteq> Weekly" using first_row_in [OF Some] by (auto simp: simple_recurrence_kinds_def)
    with Some False assms show ?thesis
      by (auto simp: require_agent_schedule_recurrence_def require_interval_def res_bind_Inr_iff recurrence_ok_def
          schedule_interval_max_def split: if_splits)
  next
    case None
    let ?days = "remdups (rq_days q)"
    have r: "?days \<noteq> []" "list_all valid_weekday ?days"
        "\<exists>n. require_interval (rq_interval q) = Inr n \<and> r = Weekdays (sort (map number_value ?days)) n"
      using None False assms
      by (auto simp: require_agent_schedule_recurrence_def res_bind_Inr_iff list_all_iff list_ex_iff Let_def split: if_splits)
    have int: "\<exists>n. d = Int_num n \<and> n \<in> {1..7}" if "d \<in> set ?days" for d
      using r(2) that by (cases d) (auto simp: list_all_iff valid_weekday_def)
    have "inj_on number_value (set ?days)"
      by (rule inj_onI) (metis int number_value.simps(1))
    then have "distinct (map number_value ?days)" by (simp add: distinct_map)
    moreover have "number_value ` set ?days \<subseteq> {1..7}" using int by fastforce
    moreover have "sort (map number_value ?days) \<noteq> []"
      using r(1) by (metis Nil_is_map_conv length_0_conv length_sort)
    ultimately show ?thesis using r(1,3)
      by (auto simp: recurrence_ok_def require_interval_def schedule_interval_max_def split: if_splits)
  qed
qed

lemma recurrence_columns_read_back:
  assumes "recurrence_ok r" "(as_days s, as_interval s, as_kind s) = recurrence_values r"
  shows "row_recurrence s = r"
  using assms by (cases r) (auto simp: recurrence_ok_def recurrence_values_def row_recurrence_def)

end
