(* ===== verification/Agent_Schedule_Tools.thy ===== *)
theory Agent_Schedule_Tools
  imports Agent_Schedules
begin

text \<open>
  agent/lib/agent-schedules/agent-schedule-repository.ts, -query-repository.ts, -repository-helpers.ts and
  external-agent-schedule-repository.ts: replay-safe create, list, find, update, delete and run-now of agent
  schedules, and the owner's entrance to automations of external groups. The content hash and the ids
  PostgreSQL draws are parameters.
\<close>

section \<open>Inputs and their fingerprints\<close>

record schedule_create_input =
  sc_first :: "int option"
  sc_key :: string
  sc_recurrence :: recurrence_request
  sc_prompt :: string
  sc_scope :: memory_scope
  sc_timezone :: string
  sc_title :: string
  sc_request :: string

text \<open>Absent members are \<open>None\<close>; a history window of \<open>null\<close> is \<open>Some None\<close>.\<close>

record schedule_update_input =
  su_capabilities :: "json option"
  su_enabled :: "bool option"
  su_window :: "js_number option option"
  su_next :: "int option option"
  su_key :: string
  su_recurrence :: "recurrence_request option"
  su_scope :: "memory_scope option"
  su_prompt :: "string option"
  su_title :: "string option"
  su_request :: "string option"

record external_create_input =
  xc_capabilities :: json
  xc_first :: "int option"
  xc_window :: "js_number option"
  xc_key :: string
  xc_recurrence :: recurrence_request
  xc_prompt :: string
  xc_chat :: string
  xc_timezone :: string
  xc_title :: string
  xc_request :: string

record create_values =
  cv_title :: string
  cv_request :: string
  cv_prompt :: string
  cv_first :: int
  cv_recurrence :: schedule_recurrence

record update_values =
  uv_title :: "string option"
  uv_request :: "string option"
  uv_prompt :: "string option"
  uv_next :: "int option"
  uv_recurrence :: "schedule_recurrence option"
  uv_window :: "int option option"

text \<open>What \<open>agentScheduleOperationHash\<close> digests.\<close>

datatype schedule_fingerprint =
    Create_print string memory_scope string create_values
  | External_print external_create_input "string list" int "int option" schedule_recurrence
  | Update_print schedule_update_input update_values
  | Id_print string

section \<open>Helpers\<close>

text \<open>\<open>undefined\<close> is \<open>None\<close>; a replayed operation whose schedule was deleted since is \<open>Some None\<close>.\<close>

definition find_agent_schedule_operation ::
  "string \<Rightarrow> string \<Rightarrow> schedule_operation_kind \<Rightarrow> string \<Rightarrow> schedule_db \<Rightarrow> string option option result" where
  "find_agent_schedule_operation family key kind input_hash d =
     (case first_row (\<lambda>p. so_family p = family \<and> so_key p = key) (sd_operations d) of
        None \<Rightarrow> Inr None
      | Some p \<Rightarrow>
          if so_kind p \<noteq> kind \<or> so_hash p \<noteq> input_hash then Inl (AppError ''AGENT_SCHEDULE_OPERATION_CONFLICT'')
          else Inr (Some (so_schedule p)))"

definition select_agent_schedule :: "string \<Rightarrow> string \<Rightarrow> schedule_db \<Rightarrow> agent_schedule option" where
  "select_agent_schedule family sid d = first_row (\<lambda>s. as_family s = family \<and> as_id s = sid) (sd_schedules d)"

definition agent_schedule_visible_in_chat :: "chat_type \<Rightarrow> memory_scope \<Rightarrow> bool" where
  "agent_schedule_visible_in_chat chat scope \<longleftrightarrow> scope \<noteq> Personal_scope \<or> chat = Private_chat"

definition require_agent_schedule_mutation_access :: "schedule_auth \<Rightarrow> agent_schedule \<Rightarrow> schedule_db \<Rightarrow> unit result" where
  "require_agent_schedule_mutation_access auth s d =
     (if \<not> agent_schedule_visible_in_chat (sa_chat_type auth) (as_scope s) then Inl (AppError ''AGENT_SCHEDULE_NOT_FOUND'')
      else res_bind (require_current_membership (sd_memberships d) (sa_family auth) (sa_user auth)) (\<lambda>role.
        let author = as_author s = sa_user auth;
            allowed = (case as_scope s of
                Personal_scope \<Rightarrow> author
              | Family_scope \<Rightarrow> author \<or> role = Owner_role
              | Group_scope \<Rightarrow> role = Owner_role \<and> sa_chat_type auth = Private_chat)
        in if \<not> allowed then Inl (AppError ''AGENT_SCHEDULE_MUTATION_DENIED'') else Inr ()))"

definition record_schedule_operation ::
  "string \<Rightarrow> string \<Rightarrow> schedule_operation_kind \<Rightarrow> string \<Rightarrow> string \<Rightarrow> schedule_event \<Rightarrow> schedule_db \<Rightarrow> schedule_db" where
  "record_schedule_operation family key kind input_hash sid event d =
     d\<lparr>sd_operations := sd_operations d @
         [\<lparr>so_family = family, so_key = key, so_kind = kind, so_hash = input_hash, so_schedule = Some sid\<rparr>],
       sd_audit := sd_audit d @ [event]\<rparr>"

definition key_taken :: "string \<Rightarrow> string \<Rightarrow> schedule_db \<Rightarrow> bool" where
  "key_taken family key d = exists_row (\<lambda>p. so_family p = family \<and> so_key p = key) (sd_operations d)"

section \<open>Create\<close>

definition schedule_create_values ::
  "string \<Rightarrow> string \<Rightarrow> string \<Rightarrow> int option \<Rightarrow> recurrence_request \<Rightarrow> create_values result" where
  "schedule_create_values title request prompt first recurrence =
     res_bind (require_agent_schedule_title title) (\<lambda>t.
     res_bind (require_agent_schedule_user_request request) (\<lambda>u.
     res_bind (require_agent_schedule_prompt prompt) (\<lambda>p.
     res_bind (require_agent_schedule_date first) (\<lambda>f.
     res_bind (require_agent_schedule_recurrence recurrence) (\<lambda>r.
       Inr \<lparr>cv_title = t, cv_request = u, cv_prompt = p, cv_first = f, cv_recurrence = r\<rparr>)))))"

definition require_schedule_destination :: "schedule_auth \<Rightarrow> memory_scope \<Rightarrow> unit result" where
  "require_schedule_destination auth scope =
     (if scope = Personal_scope \<and> sa_chat_type auth \<noteq> Private_chat then Inl (AppError ''AGENT_SCHEDULE_DESTINATION_INVALID'')
      else if scope = Family_scope \<and> (\<not> sa_family_group auth \<or> sa_group auth = None \<or> sa_group auth = Some [])
        then Inl (AppError ''AGENT_SCHEDULE_DESTINATION_INVALID'')
      else Inr ())"

definition new_schedule ::
  "pg_calendar \<Rightarrow> string \<Rightarrow> schedule_auth \<Rightarrow> memory_scope \<Rightarrow> string \<Rightarrow> create_values \<Rightarrow> int option \<Rightarrow> int option \<Rightarrow> time
     \<Rightarrow> agent_schedule" where
  "new_schedule cal uuid auth scope timezone v thread topic now =
     (let (days, interval, kind) = recurrence_values (cv_recurrence v); personal = scope = Personal_scope; first = millis (cv_first v) in
      \<lparr>as_id = uuid, as_family = sa_family auth, as_owner = (if personal then Some (sa_user auth) else None),
       as_author = sa_user auth, as_group = (if personal then None else sa_group auth), as_scope = scope,
       as_title = cv_title v, as_request = cv_request v, as_prompt = cv_prompt v, as_timezone = timezone,
       as_kind = kind, as_interval = interval, as_days = days, as_anchor_local = cal_local cal timezone first,
       as_anchor_at = Some first, as_occurrence = 0, as_next = first, as_chat = sa_chat auth,
       as_chat_type = sa_chat_type auth, as_thread = (if personal then None else thread),
       as_topic = (if personal then None else topic), as_window = None, as_tools = [], as_status = S_active,
       as_attempts = 0, as_lease = None, as_lease_until = None, as_dispatch = None, as_error = None,
       as_created = now, as_updated = now\<rparr>)"

definition insert_schedule ::
  "agent_schedule \<Rightarrow> string \<Rightarrow> string \<Rightarrow> string \<Rightarrow> schedule_db \<Rightarrow> schedule_db result" where
  "insert_schedule row actor key input_hash d =
     (if \<not> schedule_checks row then Inl (PgError ''23514'')
      else if exists_row (\<lambda>s. as_id s = as_id row) (sd_schedules d) then Inl (PgError ''23505'')
      else Inr (record_schedule_operation (as_family row) key Create_schedule input_hash (as_id row)
        (Schedule_created (as_family row) actor (as_id row) (as_scope row))
        (d\<lparr>sd_schedules := sd_schedules d @ [row]\<rparr>)))"

definition create_schedule_row ::
  "pg_calendar \<Rightarrow> string \<Rightarrow> schedule_auth \<Rightarrow> schedule_create_input \<Rightarrow> create_values \<Rightarrow> string \<Rightarrow> time
     \<Rightarrow> schedule_db \<Rightarrow> (schedule_record, schedule_db) tx" where
  "create_schedule_row cal uuid auth i v input_hash now d =
     (case res_bind (require_timezone (cal_known cal) (sc_timezone i)) (\<lambda>timezone.
           res_bind (require_schedule_destination auth (sc_scope i)) (\<lambda>_.
           res_bind (if sc_scope i = Family_scope \<and> \<not> exists_row (\<lambda>g. Some (g_id g) = sa_group auth \<and> g_family g = sa_family auth \<and>
                g_chat_id g = sa_chat auth \<and> g_type g = Family_private) (sd_groups d)
              then Inl (AppError ''AGENT_SCHEDULE_DESTINATION_INVALID'') else Inr ()) (\<lambda>_.
           res_bind (bigint_cast (if sc_scope i = Personal_scope then None else sa_thread auth)) (\<lambda>thread.
           res_bind (bigint_cast (if sc_scope i = Personal_scope then None else sa_topic auth)) (\<lambda>topic.
             let row = new_schedule cal uuid auth (sc_scope i) timezone v thread topic now in
             res_bind (insert_schedule row (sa_user auth) (sc_key i) input_hash d) (\<lambda>d1. Inr (row, d1))))))) of
        Inl e \<Rightarrow> Throw e
      | Inr (row, d1) \<Rightarrow> Commit (row_to_agent_schedule row) d1)"

definition create_schedule_body ::
  "pg_calendar \<Rightarrow> string \<Rightarrow> schedule_auth \<Rightarrow> schedule_create_input \<Rightarrow> create_values \<Rightarrow> string \<Rightarrow> time
     \<Rightarrow> schedule_db \<Rightarrow> (schedule_record, schedule_db) tx" where
  "create_schedule_body cal uuid auth i v input_hash now d =
     (case require_current_membership (sd_memberships d) (sa_family auth) (sa_user auth) of
        Inl e \<Rightarrow> Throw e
      | Inr _ \<Rightarrow>
          (case find_agent_schedule_operation (sa_family auth) (sc_key i) Create_schedule input_hash d of
             Inl e \<Rightarrow> Throw e
           | Inr (Some None) \<Rightarrow> Throw (AppError ''AGENT_SCHEDULE_NOT_FOUND'')
           | Inr (Some (Some sid)) \<Rightarrow>
               (case select_agent_schedule (sa_family auth) sid d of
                  None \<Rightarrow> Throw (AppError ''AGENT_SCHEDULE_NOT_FOUND'')
                | Some s \<Rightarrow> Commit (row_to_agent_schedule s) d)
           | Inr None \<Rightarrow> create_schedule_row cal uuid auth i v input_hash now d))"

definition create_schedule ::
  "(schedule_fingerprint \<Rightarrow> string) \<Rightarrow> pg_calendar \<Rightarrow> string \<Rightarrow> schedule_auth \<Rightarrow> schedule_create_input \<Rightarrow> time
     \<Rightarrow> schedule_db \<Rightarrow> schedule_record result \<times> schedule_db" where
  "create_schedule hash cal uuid auth i now =
     when_valid (schedule_create_values (sc_title i) (sc_request i) (sc_prompt i) (sc_first i) (sc_recurrence i))
       (\<lambda>v. run_tx (create_schedule_body cal uuid auth i v
         (hash (Create_print (sc_key i) (sc_scope i) (sc_timezone i) v)) now))"

section \<open>List and find\<close>

definition schedule_listed :: "schedule_auth \<Rightarrow> schedule_db \<Rightarrow> agent_schedule \<Rightarrow> bool" where
  "schedule_listed auth d s \<longleftrightarrow>
     as_family s = sa_family auth \<and>
     exists_row (\<lambda>m. m_family m = sa_family auth \<and> m_user m = sa_user auth) (sd_memberships d) \<and>
     (as_scope s = Personal_scope \<and> as_owner s = Some (sa_user auth) \<and>
        agent_schedule_visible_in_chat (sa_chat_type auth) Personal_scope \<or>
      as_scope s = Family_scope)"

definition schedule_key :: "agent_schedule \<Rightarrow> time \<times> string" where
  "schedule_key s = (as_created s, as_id s)"

record schedule_page =
  sp_items :: "schedule_record list"
  sp_next :: "string option"

definition list_agent_schedules ::
  "date_codec \<Rightarrow> schedule_auth \<Rightarrow> string option \<Rightarrow> js_number \<Rightarrow> schedule_db \<Rightarrow> schedule_page result" where
  "list_agent_schedules dc auth cursor limit d =
     (if \<not> is_integer limit \<or> number_value limit < 1 \<or> schedule_list_max < number_value limit
      then Inl (AppError ''AGENT_SCHEDULE_LIMIT_INVALID'')
      else res_bind (decode_date_uuid_cursor dc cursor ''AGENT_SCHEDULE_CURSOR_INVALID'' None) (\<lambda>after.
        let n = nat (number_value limit);
            found = take (Suc n) (descending schedule_key (filter (\<lambda>s. schedule_listed auth d s \<and>
              (case after of None \<Rightarrow> True | Some (sid, since) \<Rightarrow> schedule_key s < (millis since, sid))) (sd_schedules d)));
            rows = take n found
        in Inr \<lparr>sp_items = map row_to_agent_schedule rows,
             sp_next = (if n < length found \<and> rows \<noteq> []
               then Some (encode_date_uuid_cursor dc (to_date (as_created (last rows))) (as_id (last rows)) None) else None)\<rparr>))"

definition find_agent_schedule_by_id :: "schedule_auth \<Rightarrow> string \<Rightarrow> schedule_db \<Rightarrow> schedule_record option" where
  "find_agent_schedule_by_id auth sid d =
     map_option row_to_agent_schedule (first_row (\<lambda>s. as_id s = sid \<and> schedule_listed auth d s) (sd_schedules d))"

section \<open>Update\<close>

definition optionally :: "('a \<Rightarrow> 'b result) \<Rightarrow> 'a option \<Rightarrow> 'b option result" where
  "optionally f v = (case v of None \<Rightarrow> Inr None | Some x \<Rightarrow> res_bind (f x) (\<lambda>y. Inr (Some y)))"

definition schedule_update_values :: "schedule_update_input \<Rightarrow> update_values result" where
  "schedule_update_values i =
     (if su_capabilities i = None \<and> su_enabled i = None \<and> su_window i = None \<and> su_next i = None \<and>
         su_recurrence i = None \<and> su_prompt i = None \<and> su_title i = None \<and> su_request i = None
      then Inl (AppError ''AGENT_SCHEDULE_UPDATE_INVALID'')
      else res_bind (optionally require_agent_schedule_title (su_title i)) (\<lambda>t.
        res_bind (optionally require_agent_schedule_user_request (su_request i)) (\<lambda>u.
        res_bind (optionally require_agent_schedule_prompt (su_prompt i)) (\<lambda>p.
        res_bind (optionally require_agent_schedule_date (su_next i)) (\<lambda>n.
        res_bind (optionally require_agent_schedule_recurrence (su_recurrence i)) (\<lambda>r.
        res_bind (require_external_schedule_history_window_days (su_window i)) (\<lambda>w.
          Inr \<lparr>uv_title = t, uv_request = u, uv_prompt = p, uv_next = n, uv_recurrence = r, uv_window = w\<rparr>)))))))"

definition updated_schedule ::
  "pg_calendar \<Rightarrow> bool option \<Rightarrow> update_values \<Rightarrow> string list option \<Rightarrow> time \<Rightarrow> agent_schedule \<Rightarrow> agent_schedule" where
  "updated_schedule cal enabled v capabilities now s =
     (let recurrence = (case uv_recurrence v of None \<Rightarrow> row_recurrence s | Some r \<Rightarrow> r);
          (days, interval, kind) = recurrence_values recurrence;
          changed = uv_next v \<noteq> None \<or> uv_recurrence v \<noteq> None;
          next_run = millis (case uv_next v of None \<Rightarrow> to_date (as_next s) | Some t \<Rightarrow> t);
          restarted = changed \<or> enabled = Some True in
      s\<lparr>as_title := (case uv_title v of None \<Rightarrow> as_title s | Some t \<Rightarrow> t),
        as_request := (case uv_request v of None \<Rightarrow> as_request s | Some t \<Rightarrow> t),
        as_prompt := (case uv_prompt v of None \<Rightarrow> as_prompt s | Some t \<Rightarrow> t),
        as_kind := kind, as_interval := interval, as_days := days,
        as_anchor_local := (if changed then cal_local cal (as_timezone s) next_run else as_anchor_local s),
        as_anchor_at := (if changed then Some next_run else as_anchor_at s),
        as_occurrence := (if changed then 0 else as_occurrence s),
        as_next := (if changed then next_run else as_next s),
        as_status := (if enabled = Some False then S_paused else if enabled = Some True then S_active else as_status s),
        as_attempts := (if restarted then 0 else as_attempts s),
        as_error := (if restarted then None else as_error s),
        as_window := (case uv_window v of None \<Rightarrow> as_window s | Some w \<Rightarrow> w),
        as_tools := (case capabilities of None \<Rightarrow> as_tools s | Some cs \<Rightarrow> cs),
        as_updated := now\<rparr>)"

text \<open>The guards of a mutation: found in the family, permitted, of the required scope.\<close>

definition require_mutable ::
  "schedule_auth \<Rightarrow> string \<Rightarrow> memory_scope option \<Rightarrow> schedule_db \<Rightarrow> agent_schedule result" where
  "require_mutable auth sid required d =
     (case select_agent_schedule (sa_family auth) sid d of
        None \<Rightarrow> Inl (AppError ''AGENT_SCHEDULE_NOT_FOUND'')
      | Some s \<Rightarrow>
          res_bind (require_agent_schedule_mutation_access auth s d) (\<lambda>_.
            if required \<noteq> None \<and> required \<noteq> Some (as_scope s) then Inl (AppError ''AGENT_SCHEDULE_NOT_FOUND'') else Inr s))"

definition update_schedule_row ::
  "pg_calendar \<Rightarrow> schedule_auth \<Rightarrow> string \<Rightarrow> schedule_update_input \<Rightarrow> update_values \<Rightarrow> string \<Rightarrow> time
     \<Rightarrow> schedule_db \<Rightarrow> (schedule_record, schedule_db) tx" where
  "update_schedule_row cal auth sid i v input_hash now d =
     (case require_mutable auth sid (su_scope i) d of
        Inl e \<Rightarrow> Throw e
      | Inr s \<Rightarrow>
          if su_window i \<noteq> None \<and> as_scope s \<noteq> Group_scope
            then Throw (AppError ''AGENT_EXTERNAL_SCHEDULE_HISTORY_WINDOW_INVALID'')
          else if as_status s = S_leased then Throw (AppError ''AGENT_SCHEDULE_RUN_IN_PROGRESS'')
          else (case require_updated_external_schedule_capabilities (sd_groups d) s (su_capabilities i) of
              Inl e \<Rightarrow> Throw e
            | Inr capabilities \<Rightarrow>
                (let row = updated_schedule cal (su_enabled i) v capabilities now s in
                 if \<not> schedule_checks row then Throw (PgError ''23514'')
                 else if key_taken (sa_family auth) (su_key i) d then Throw (PgError ''23505'')
                 else Commit (row_to_agent_schedule row)
                   (record_schedule_operation (sa_family auth) (su_key i) Update_schedule input_hash sid
                      (Schedule_updated (sa_family auth) (sa_user auth) sid)
                      (d\<lparr>sd_schedules := update_where (\<lambda>x. as_id x = sid) (\<lambda>_. row) (sd_schedules d)\<rparr>)))))"

definition replayed_schedule :: "schedule_auth \<Rightarrow> string \<Rightarrow> schedule_db \<Rightarrow> (schedule_record, schedule_db) tx" where
  "replayed_schedule auth sid d =
     (case select_agent_schedule (sa_family auth) sid d of
        None \<Rightarrow> Throw (AppError ''AGENT_SCHEDULE_NOT_FOUND'')
      | Some s \<Rightarrow> Commit (row_to_agent_schedule s) d)"

definition update_schedule_body ::
  "pg_calendar \<Rightarrow> schedule_auth \<Rightarrow> string \<Rightarrow> schedule_update_input \<Rightarrow> update_values \<Rightarrow> string \<Rightarrow> time
     \<Rightarrow> schedule_db \<Rightarrow> (schedule_record, schedule_db) tx" where
  "update_schedule_body cal auth sid i v input_hash now d =
     (case find_agent_schedule_operation (sa_family auth) (su_key i) Update_schedule input_hash d of
        Inl e \<Rightarrow> Throw e
      | Inr (Some (Some replay)) \<Rightarrow> replayed_schedule auth replay d
      | Inr _ \<Rightarrow> update_schedule_row cal auth sid i v input_hash now d)"

definition update_schedule ::
  "(schedule_fingerprint \<Rightarrow> string) \<Rightarrow> pg_calendar \<Rightarrow> schedule_auth \<Rightarrow> string \<Rightarrow> schedule_update_input \<Rightarrow> time
     \<Rightarrow> schedule_db \<Rightarrow> schedule_record result \<times> schedule_db" where
  "update_schedule hash cal auth sid i now =
     when_valid (schedule_update_values i) (\<lambda>v. run_tx (update_schedule_body cal auth sid i v (hash (Update_print i v)) now))"

section \<open>Delete and run now\<close>

text \<open>Deleting a schedule takes its runs and snapshots along and clears it from the operations.\<close>

definition remove_schedule :: "string \<Rightarrow> schedule_db \<Rightarrow> schedule_db" where
  "remove_schedule sid d =
     d\<lparr>sd_schedules := delete_where (\<lambda>s. as_id s = sid) (sd_schedules d),
       sd_runs := delete_where (\<lambda>r. ar_schedule r = sid) (sd_runs d),
       sd_snapshots := delete_where (\<lambda>h. hs_schedule h = sid) (sd_snapshots d),
       sd_operations := update_where (\<lambda>p. so_schedule p = Some sid) (\<lambda>p. p\<lparr>so_schedule := None\<rparr>) (sd_operations d)\<rparr>"

definition delete_schedule_body ::
  "schedule_auth \<Rightarrow> string \<Rightarrow> string \<Rightarrow> memory_scope option \<Rightarrow> string \<Rightarrow> schedule_db \<Rightarrow> (bool, schedule_db) tx" where
  "delete_schedule_body auth sid key required input_hash d =
     (case find_agent_schedule_operation (sa_family auth) key Delete_schedule input_hash d of
        Inl e \<Rightarrow> Throw e
      | Inr (Some _) \<Rightarrow> Commit True d
      | Inr None \<Rightarrow>
          (case require_mutable auth sid required d of
             Inl e \<Rightarrow> Throw e
           | Inr s \<Rightarrow>
               if as_status s = S_leased then Throw (AppError ''AGENT_SCHEDULE_RUN_IN_PROGRESS'')
               else Commit True (remove_schedule sid
                 (record_schedule_operation (sa_family auth) key Delete_schedule input_hash sid
                    (Schedule_deleted (sa_family auth) (sa_user auth) sid (as_scope s)) d))))"

definition delete_schedule ::
  "(schedule_fingerprint \<Rightarrow> string) \<Rightarrow> schedule_auth \<Rightarrow> string \<Rightarrow> string \<Rightarrow> memory_scope option
     \<Rightarrow> schedule_db \<Rightarrow> bool result \<times> schedule_db" where
  "delete_schedule hash auth sid key required =
     run_tx (delete_schedule_body auth sid key required (hash (Id_print sid)))"

definition requested_schedule :: "time \<Rightarrow> agent_schedule \<Rightarrow> agent_schedule" where
  "requested_schedule now s =
     s\<lparr>as_status := S_active, as_next := now, as_attempts := 0, as_error := None, as_updated := now\<rparr>"

definition run_schedule_now_row ::
  "schedule_auth \<Rightarrow> string \<Rightarrow> string \<Rightarrow> memory_scope option \<Rightarrow> string \<Rightarrow> time \<Rightarrow> schedule_db \<Rightarrow> (schedule_record, schedule_db) tx" where
  "run_schedule_now_row auth sid key required input_hash now d =
     (case require_mutable auth sid required d of
        Inl e \<Rightarrow> Throw e
      | Inr s \<Rightarrow>
          if as_status s = S_leased then Throw (AppError ''AGENT_SCHEDULE_RUN_IN_PROGRESS'')
          else if key_taken (sa_family auth) key d then Throw (PgError ''23505'')
          else Commit (row_to_agent_schedule (requested_schedule now s))
            (record_schedule_operation (sa_family auth) key Run_schedule_now input_hash sid
               (Schedule_run_now (sa_family auth) (sa_user auth) sid)
               (d\<lparr>sd_schedules := update_where (\<lambda>x. as_id x = sid) (requested_schedule now) (sd_schedules d)\<rparr>)))"

definition run_schedule_now_body ::
  "schedule_auth \<Rightarrow> string \<Rightarrow> string \<Rightarrow> memory_scope option \<Rightarrow> string \<Rightarrow> time \<Rightarrow> schedule_db \<Rightarrow> (schedule_record, schedule_db) tx" where
  "run_schedule_now_body auth sid key required input_hash now d =
     (case find_agent_schedule_operation (sa_family auth) key Run_schedule_now input_hash d of
        Inl e \<Rightarrow> Throw e
      | Inr (Some (Some replay)) \<Rightarrow> replayed_schedule auth replay d
      | Inr _ \<Rightarrow> run_schedule_now_row auth sid key required input_hash now d)"

definition run_schedule_now ::
  "(schedule_fingerprint \<Rightarrow> string) \<Rightarrow> schedule_auth \<Rightarrow> string \<Rightarrow> string \<Rightarrow> memory_scope option \<Rightarrow> time
     \<Rightarrow> schedule_db \<Rightarrow> schedule_record result \<times> schedule_db" where
  "run_schedule_now hash auth sid key required now =
     run_tx (run_schedule_now_body auth sid key required (hash (Id_print sid)) now)"

section \<open>Automations of external groups\<close>

record external_auth =
  xa_family :: string
  xa_user :: string

definition owner_context :: "external_auth \<Rightarrow> schedule_auth" where
  "owner_context auth =
     \<lparr>sa_topic = None, sa_family = xa_family auth, sa_group = None, sa_family_group = False, sa_thread = None,
      sa_role = Owner_role, sa_chat = ''owner-private'', sa_chat_type = Private_chat,
      sa_telegram_user = ''owner-private'', sa_user = xa_user auth\<rparr>"

definition require_current_owner :: "external_auth \<Rightarrow> schedule_db \<Rightarrow> unit result" where
  "require_current_owner auth d =
     (if lock_current_owner (sd_memberships d) (xa_family auth) (xa_user auth) then Inr ()
      else Inl (AppError ''AGENT_OWNER_REQUIRED''))"

definition require_external_group :: "external_auth \<Rightarrow> string \<Rightarrow> schedule_db \<Rightarrow> telegram_group result" where
  "require_external_group auth chat d =
     (case first_row (\<lambda>g. g_family g = xa_family auth \<and> g_chat_id g = chat \<and> g_type g = External_group) (sd_groups d) of
        None \<Rightarrow> Inl (AppError ''AGENT_EXTERNAL_SCHEDULE_GROUP_NOT_FOUND'')
      | Some g \<Rightarrow>
          if g_chat_type g = None then Inl (AppError ''AGENT_EXTERNAL_SCHEDULE_CHAT_TYPE_UNKNOWN'') else Inr g)"

definition require_history_window_days :: "js_number option \<Rightarrow> int option result" where
  "require_history_window_days v =
     (case v of
        None \<Rightarrow> Inr None
      | Some n \<Rightarrow>
          if \<not> is_integer n \<or> number_value n < 1 \<or> history_window_max_days < number_value n
          then Inl (AppError ''AGENT_EXTERNAL_SCHEDULE_HISTORY_WINDOW_INVALID'') else Inr (Some (number_value n)))"

definition require_capability_subset :: "json \<Rightarrow> string list \<Rightarrow> string list result" where
  "require_capability_subset requested allowlist =
     (case (parse_external_schedule_capabilities requested, stored_allowlist allowlist) of
        (Some scheduled, Some current) \<Rightarrow> require_granted scheduled current
      | _ \<Rightarrow> Inl (AppError ''AGENT_EXTERNAL_SCHEDULE_CAPABILITIES_INVALID''))"

record external_status =
  xs_schedule :: schedule_record
  xs_capabilities :: "string list"
  xs_window :: "int option"
  xs_chat :: string
  xs_group :: string

text \<open>The title of the group is wording; the group itself stands for it.\<close>

definition external_status_of :: "agent_schedule \<Rightarrow> telegram_group \<Rightarrow> external_status" where
  "external_status_of s g =
     \<lparr>xs_schedule = row_to_agent_schedule s, xs_capabilities = as_tools s, xs_window = as_window s,
      xs_chat = as_chat s, xs_group = g_id g\<rparr>"

definition external_listed :: "external_auth \<Rightarrow> schedule_db \<Rightarrow> agent_schedule \<Rightarrow> bool" where
  "external_listed auth d s \<longleftrightarrow>
     as_family s = xa_family auth \<and> as_scope s = Group_scope \<and>
     exists_row (\<lambda>m. m_family m = xa_family auth \<and> m_user m = xa_user auth \<and> m_role m = Owner_role) (sd_memberships d)"

definition group_of_schedule :: "schedule_db \<Rightarrow> agent_schedule \<Rightarrow> telegram_group option" where
  "group_of_schedule d s = first_row (\<lambda>g. Some (g_id g) = as_group s) (sd_groups d)"

definition find_status :: "external_auth \<Rightarrow> string \<Rightarrow> schedule_db \<Rightarrow> external_status result" where
  "find_status auth sid d =
     (case first_row (\<lambda>s. as_id s = sid \<and> external_listed auth d s \<and> group_of_schedule d s \<noteq> None) (sd_schedules d) of
        None \<Rightarrow> Inl (AppError ''AGENT_EXTERNAL_SCHEDULE_NOT_FOUND'')
      | Some s \<Rightarrow> Inr (external_status_of s (the (group_of_schedule d s))))"

definition new_external_schedule ::
  "pg_calendar \<Rightarrow> string \<Rightarrow> external_auth \<Rightarrow> telegram_group \<Rightarrow> string \<Rightarrow> create_values \<Rightarrow> int option \<Rightarrow> string list \<Rightarrow> time
     \<Rightarrow> agent_schedule" where
  "new_external_schedule cal uuid auth g timezone v window capabilities now =
     (let (days, interval, kind) = recurrence_values (cv_recurrence v); first = millis (cv_first v) in
      \<lparr>as_id = uuid, as_family = xa_family auth, as_owner = None, as_author = xa_user auth, as_group = Some (g_id g),
       as_scope = Group_scope, as_title = cv_title v, as_request = cv_request v, as_prompt = cv_prompt v,
       as_timezone = timezone, as_kind = kind, as_interval = interval, as_days = days,
       as_anchor_local = cal_local cal timezone first, as_anchor_at = Some first, as_occurrence = 0, as_next = first,
       as_chat = g_chat_id g, as_chat_type = the (g_chat_type g), as_thread = None, as_topic = None, as_window = window,
       as_tools = capabilities, as_status = S_active, as_attempts = 0, as_lease = None, as_lease_until = None,
       as_dispatch = None, as_error = None, as_created = now, as_updated = now\<rparr>)"

definition create_external_row ::
  "pg_calendar \<Rightarrow> string \<Rightarrow> external_auth \<Rightarrow> external_create_input \<Rightarrow> create_values \<Rightarrow> int option \<Rightarrow> telegram_group
     \<Rightarrow> string list \<Rightarrow> string \<Rightarrow> time \<Rightarrow> schedule_db \<Rightarrow> (external_status, schedule_db) tx" where
  "create_external_row cal uuid auth i v window g capabilities input_hash now d =
     (case find_agent_schedule_operation (xa_family auth) (xc_key i) Create_schedule input_hash d of
        Inl e \<Rightarrow> Throw e
      | Inr (Some None) \<Rightarrow> Throw (AppError ''AGENT_EXTERNAL_SCHEDULE_NOT_FOUND'')
      | Inr (Some (Some sid)) \<Rightarrow>
          (case find_status auth sid d of Inl e \<Rightarrow> Throw e | Inr x \<Rightarrow> Commit x d)
      | Inr None \<Rightarrow>
          (case res_bind (require_timezone (cal_known cal) (xc_timezone i)) (\<lambda>_.
                res_bind (insert_schedule (new_external_schedule cal uuid auth g (xc_timezone i) v window capabilities now)
                  (xa_user auth) (xc_key i) input_hash d) (\<lambda>d1.
                res_bind (find_status auth uuid d1) (\<lambda>x. Inr (x, d1)))) of
             Inl e \<Rightarrow> Throw e
           | Inr (x, d1) \<Rightarrow> Commit x d1))"

definition create_external_body ::
  "(schedule_fingerprint \<Rightarrow> string) \<Rightarrow> pg_calendar \<Rightarrow> string \<Rightarrow> external_auth \<Rightarrow> external_create_input \<Rightarrow> create_values
     \<Rightarrow> int option \<Rightarrow> time \<Rightarrow> schedule_db \<Rightarrow> (external_status, schedule_db) tx" where
  "create_external_body hash cal uuid auth i v window now d =
     (case res_bind (require_current_owner auth d) (\<lambda>_.
           res_bind (require_external_group auth (xc_chat i) d) (\<lambda>g.
           res_bind (require_capability_subset (xc_capabilities i) (g_allowlist g)) (\<lambda>cs. Inr (g, cs)))) of
        Inl e \<Rightarrow> Throw e
      | Inr (g, cs) \<Rightarrow>
          create_external_row cal uuid auth i v window g cs
            (hash (External_print i cs (cv_first v) window (cv_recurrence v))) now d)"

definition create_external_schedule ::
  "(schedule_fingerprint \<Rightarrow> string) \<Rightarrow> pg_calendar \<Rightarrow> string \<Rightarrow> external_auth \<Rightarrow> external_create_input \<Rightarrow> time
     \<Rightarrow> schedule_db \<Rightarrow> external_status result \<times> schedule_db" where
  "create_external_schedule hash cal uuid auth i now =
     when_valid (res_bind (schedule_create_values (xc_title i) (xc_request i) (xc_prompt i) (xc_first i) (xc_recurrence i))
         (\<lambda>v. res_bind (require_history_window_days (xc_window i)) (\<lambda>w. Inr (v, w))))
       (\<lambda>(v, w). run_tx (create_external_body hash cal uuid auth i v w now))"

definition list_external_schedules :: "external_auth \<Rightarrow> string option \<Rightarrow> schedule_db \<Rightarrow> external_status list" where
  "list_external_schedules auth chat d =
     map (\<lambda>s. external_status_of s (the (group_of_schedule d s)))
       (descending schedule_key (filter (\<lambda>s. external_listed auth d s \<and> group_of_schedule d s \<noteq> None \<and>
          (case chat of None \<Rightarrow> True | Some c \<Rightarrow> as_chat s = c)) (sd_schedules d)))"

text \<open>Update, run now and enabling go through the owner's context and answer the status read afterwards.\<close>

definition then_status :: "external_auth \<Rightarrow> string \<Rightarrow> 'a result \<times> schedule_db \<Rightarrow> external_status result \<times> schedule_db" where
  "then_status auth sid p = (case p of (r, d) \<Rightarrow> (res_bind r (\<lambda>_. find_status auth sid d), d))"

definition update_external_schedule ::
  "(schedule_fingerprint \<Rightarrow> string) \<Rightarrow> pg_calendar \<Rightarrow> external_auth \<Rightarrow> string \<Rightarrow> schedule_update_input \<Rightarrow> time
     \<Rightarrow> schedule_db \<Rightarrow> external_status result \<times> schedule_db" where
  "update_external_schedule hash cal auth sid i now d =
     then_status auth sid (update_schedule hash cal (owner_context auth) sid (i\<lparr>su_scope := Some Group_scope\<rparr>) now d)"

definition delete_external_schedule ::
  "(schedule_fingerprint \<Rightarrow> string) \<Rightarrow> external_auth \<Rightarrow> string \<Rightarrow> string \<Rightarrow> schedule_db \<Rightarrow> bool result \<times> schedule_db" where
  "delete_external_schedule hash auth sid key = delete_schedule hash (owner_context auth) sid key (Some Group_scope)"

definition run_external_schedule_now ::
  "(schedule_fingerprint \<Rightarrow> string) \<Rightarrow> external_auth \<Rightarrow> string \<Rightarrow> string \<Rightarrow> time
     \<Rightarrow> schedule_db \<Rightarrow> external_status result \<times> schedule_db" where
  "run_external_schedule_now hash auth sid key now d =
     then_status auth sid (run_schedule_now hash (owner_context auth) sid key (Some Group_scope) now d)"

definition set_external_schedule_enabled ::
  "(schedule_fingerprint \<Rightarrow> string) \<Rightarrow> pg_calendar \<Rightarrow> external_auth \<Rightarrow> string \<Rightarrow> bool \<Rightarrow> string \<Rightarrow> time
     \<Rightarrow> schedule_db \<Rightarrow> external_status result \<times> schedule_db" where
  "set_external_schedule_enabled hash cal auth sid enabled key now d =
     then_status auth sid (update_schedule hash cal (owner_context auth) sid
       \<lparr>su_capabilities = None, su_enabled = Some enabled, su_window = None, su_next = None, su_key = key,
        su_recurrence = None, su_scope = Some Group_scope, su_prompt = None, su_title = None, su_request = None\<rparr> now d)"

end
