(* ===== verification/Weekly_Recurrence.thy ===== *)
theory Weekly_Recurrence
  imports Agent_Schedules
begin

text \<open>
  agent/lib/agent-schedules/agent-schedule-run-completion.ts, the next occurrence of a schedule: none for a
  single run, the shared anchored arithmetic for plain periods, and a query of its own for selected weekdays.
  Day 0 of the local calendar is Thursday, 1 January 1970.
\<close>

definition iso_weekday :: "int \<Rightarrow> int" where
  "iso_weekday l = (local_date l + 3) mod 7 + 1"

text \<open>\<open>date_trunc('week', ...)\<close> counted in weeks; PostgreSQL's \<open>mod\<close> is 0 exactly on multiples.\<close>

definition week_number :: "int \<Rightarrow> int" where
  "week_number l = (local_date l + 3) div 7"

definition weekly_match :: "int list \<Rightarrow> int \<Rightarrow> int \<Rightarrow> int \<Rightarrow> bool" where
  "weekly_match days interval anchor l \<longleftrightarrow>
     iso_weekday l \<in> set days \<and> interval dvd (week_number l - week_number anchor)"

text \<open>The day offsets of the window, the matching local times in the future, numbered in order.\<close>

definition weekly_times :: "int \<Rightarrow> int \<Rightarrow> int \<Rightarrow> int list" where
  "weekly_times interval anchor after_local =
     map (\<lambda>k. one_day * (local_date after_local + k) + time_of_day anchor) [0..interval * 7 + 7]"

definition weekly_candidates :: "pg_calendar \<Rightarrow> agent_schedule \<Rightarrow> time \<Rightarrow> int list" where
  "weekly_candidates cal s after =
     filter (\<lambda>l. weekly_match (case as_days s of None \<Rightarrow> [] | Some ds \<Rightarrow> ds) (as_interval s) (as_anchor_local s) l \<and>
         after < cal_instant cal (as_timezone s) l)
       (weekly_times (as_interval s) (as_anchor_local s) (cal_local cal (as_timezone s) after))"

definition numbered_candidates :: "pg_calendar \<Rightarrow> agent_schedule \<Rightarrow> time \<Rightarrow> (int \<times> time) list" where
  "numbered_candidates cal s after =
     map (\<lambda>(i, l). (as_occurrence s + int i, cal_instant cal (as_timezone s) l)) (enumerate 1 (weekly_candidates cal s after))"

definition next_weekly_occurrence :: "pg_calendar \<Rightarrow> agent_schedule \<Rightarrow> time \<Rightarrow> (int \<times> time) option" where
  "next_weekly_occurrence cal s after =
     (case sort_key snd (numbered_candidates cal s after) of [] \<Rightarrow> None | x # _ \<Rightarrow> Some x)"

definition schedule_source :: "agent_schedule \<Rightarrow> recurrence_source" where
  "schedule_source s =
     \<lparr>rs_unit = (case as_kind s of Once \<Rightarrow> None | Repeats u \<Rightarrow> Some u), rs_every = Some (as_interval s),
      rs_anchor_local = as_anchor_local s, rs_anchor_at = as_anchor_at s, rs_timezone = as_timezone s,
      rs_index = as_occurrence s\<rparr>"

definition next_schedule_occurrence :: "pg_calendar \<Rightarrow> agent_schedule \<Rightarrow> time \<Rightarrow> (int \<times> time) option result" where
  "next_schedule_occurrence cal s after =
     (case as_kind s of
        Once \<Rightarrow> Inr None
      | Repeats u \<Rightarrow>
          if u = Weekly then Inr (next_weekly_occurrence cal s after)
          else (case next_anchored_occurrence cal (schedule_source s) after of
              Inl e \<Rightarrow> Inl e
            | Inr (Occurrence n t) \<Rightarrow> Inr (Some (n, t))))"

section \<open>The next selected weekday\<close>

text \<open>
  Clock times of later days come later, which every time zone obeys (a clock change is shorter than
  a day).
\<close>

definition days_in_order :: "pg_calendar \<Rightarrow> bool" where
  "days_in_order cal \<longleftrightarrow> (\<forall>tz l n. 0 \<le> n \<longrightarrow> cal_instant cal tz l \<le> cal_instant cal tz (l + one_day * n))"

lemma local_date_parts: "0 \<le> t \<Longrightarrow> t < one_day \<Longrightarrow> local_date (one_day * d + t) = d"
  by (simp add: local_date_def one_day_def)

lemma time_of_day_bounds: "0 \<le> time_of_day l" "time_of_day l < one_day"
  by (simp_all add: time_of_day_def one_day_def)

lemma local_date_time: "l = one_day * local_date l + time_of_day l"
  by (simp add: local_date_def time_of_day_def one_day_def)

lemma week_parts: "0 \<le> r \<Longrightarrow> r < 7 \<Longrightarrow> (7 * a + r) div 7 = a \<and> (7 * a + r) mod 7 = (r::int)"
  by presburger

text \<open>In any \<open>7 * interval\<close> days in a row there is a selected weekday of an anchored week.\<close>

lemma weekly_day_exists:
  assumes "0 < interval" "w \<in> {1..7::int}"
  shows "\<exists>k. 1 \<le> k \<and> k \<le> interval * 7 \<and> (d + k + 3) mod 7 + 1 = w \<and> interval dvd ((d + k + 3) div 7 - b)"
proof -
  let ?m = "7 * interval"
  define target where "target = 7 * b + (w - 1) - 3"
  define k where "k = (target - d - 1) mod ?m + 1"
  have k: "1 \<le> k" "k \<le> interval * 7"
    using assms(1) pos_mod_bound [of ?m "target - d - 1"] pos_mod_sign [of ?m "target - d - 1"]
    unfolding k_def by linarith+
  define q where "q = (target - d - 1) div ?m"
  have "target - d - 1 = ?m * q + (target - d - 1) mod ?m" unfolding q_def by simp
  then have "d + k + 3 = 7 * (b - interval * q) + (w - 1)"
    unfolding k_def target_def by (simp add: algebra_simps)
  moreover have "0 \<le> w - 1" "w - 1 < 7" using assms(2) by auto
  ultimately have "(d + k + 3) mod 7 = w - 1" "(d + k + 3) div 7 = b - interval * q"
    using week_parts [of "w - 1" "b - interval * q"] by (simp_all only:)
  then show ?thesis using k by (intro exI [of _ k]) simp
qed

lemma set_weekly_candidates:
  assumes "as_days s = Some days"
  shows "l \<in> set (weekly_candidates cal s after) \<longleftrightarrow>
    (\<exists>k. 0 \<le> k \<and> k \<le> as_interval s * 7 + 7 \<and>
       l = one_day * (local_date (cal_local cal (as_timezone s) after) + k) + time_of_day (as_anchor_local s)) \<and>
    weekly_match days (as_interval s) (as_anchor_local s) l \<and> after < cal_instant cal (as_timezone s) l"
  using assms by (auto simp: weekly_candidates_def weekly_times_def)

definition weekly_row :: "agent_schedule \<Rightarrow> int list \<Rightarrow> bool" where
  "weekly_row s days \<longleftrightarrow> as_days s = Some days \<and> days \<noteq> [] \<and> set days \<subseteq> {1..7} \<and> 0 < as_interval s"

lemma weekly_candidate_exists:
  assumes "zone_laws cal" "weekly_row s days"
  shows "weekly_candidates cal s after \<noteq> []"
proof -
  let ?d = "local_date (cal_local cal (as_timezone s) after)"
  let ?t = "time_of_day (as_anchor_local s)"
  obtain w where w: "w \<in> set days" "w \<in> {1..7}"
    using assms(2) unfolding weekly_row_def by (meson hd_in_set subsetD)
  obtain k where k: "1 \<le> k" "k \<le> as_interval s * 7" "(?d + k + 3) mod 7 + 1 = w"
      "as_interval s dvd ((?d + k + 3) div 7 - week_number (as_anchor_local s))"
    using weekly_day_exists [of "as_interval s" w ?d "week_number (as_anchor_local s)"] assms(2) w(2)
    unfolding weekly_row_def by blast
  let ?l = "one_day * (?d + k) + ?t"
  have date: "local_date ?l = ?d + k" by (rule local_date_parts) (simp_all add: time_of_day_bounds)
  have "weekly_match days (as_interval s) (as_anchor_local s) ?l"
    using w(1) k(3,4) by (simp add: weekly_match_def iso_weekday_def week_number_def date add.assoc)
  moreover have "after < cal_instant cal (as_timezone s) ?l"
    using k(1) by (intro zone_future [OF assms(1)]) (simp add: date)
  ultimately have "?l \<in> set (weekly_candidates cal s after)"
    using assms(2) k(1,2) unfolding weekly_row_def by (subst set_weekly_candidates) (auto intro!: exI [of _ k])
  then show ?thesis by auto
qed

lemma next_weekly_Some:
  assumes "next_weekly_occurrence cal s after = Some (n, t)"
  shows "\<exists>l\<in>set (weekly_candidates cal s after). t = cal_instant cal (as_timezone s) l \<and> as_occurrence s < n"
    "\<forall>l\<in>set (weekly_candidates cal s after). t \<le> cal_instant cal (as_timezone s) l"
proof -
  obtain rest where sorted: "sort_key snd (numbered_candidates cal s after) = (n, t) # rest"
    using assms by (auto simp: next_weekly_occurrence_def split: list.splits)
  then have "(n, t) \<in> set (numbered_candidates cal s after)" by (metis list.set_intros(1) set_sort)
  then obtain i l where "(i, l) \<in> set (enumerate 1 (weekly_candidates cal s after))" "n = as_occurrence s + int i"
      "t = cal_instant cal (as_timezone s) l"
    by (auto simp: numbered_candidates_def)
  then show "\<exists>l\<in>set (weekly_candidates cal s after). t = cal_instant cal (as_timezone s) l \<and> as_occurrence s < n"
    by (auto simp: in_set_enumerate_eq)
  show "\<forall>l\<in>set (weekly_candidates cal s after). t \<le> cal_instant cal (as_timezone s) l"
  proof
    fix l assume "l \<in> set (weekly_candidates cal s after)"
    then obtain i where "i < length (weekly_candidates cal s after)" "weekly_candidates cal s after ! i = l"
      by (auto simp: in_set_conv_nth)
    then have "(i + 1, l) \<in> set (enumerate 1 (weekly_candidates cal s after))"
      by (auto simp: in_set_enumerate_eq)
    then have "(as_occurrence s + int (i + 1), cal_instant cal (as_timezone s) l) \<in> set (numbered_candidates cal s after)"
      unfolding numbered_candidates_def by force
    then have "(as_occurrence s + int (i + 1), cal_instant cal (as_timezone s) l) \<in> set ((n, t) # rest)"
      by (metis set_sort sorted)
    moreover have "sorted (map snd ((n, t) # rest))"
      using sorted_sort_key [of snd "numbered_candidates cal s after"] unfolding sorted .
    ultimately show "t \<le> cal_instant cal (as_timezone s) l" by auto
  qed
qed

text \<open>
  C33: A weekly schedule runs on the next selected weekday. For a schedule with selected weekdays, on a calendar
  that obeys the laws, the query always finds an occurrence; it lies in the future, falls on a
  selected weekday of a week that is a whole number of intervals away from the anchor's, at the anchor's time
  of day, and no other such time in the future, however far, comes before it.
\<close>

theorem next_weekly_occurrence_is_the_first_to_come:
  assumes "zone_laws cal" "days_in_order cal" "weekly_row s days"
  shows "\<exists>n t l. next_weekly_occurrence cal s after = Some (n, t) \<and> as_occurrence s < n \<and> after < t \<and>
    t = cal_instant cal (as_timezone s) l \<and> weekly_match days (as_interval s) (as_anchor_local s) l \<and>
    time_of_day l = time_of_day (as_anchor_local s) \<and>
    (\<forall>l'. weekly_match days (as_interval s) (as_anchor_local s) l' \<longrightarrow> time_of_day l' = time_of_day (as_anchor_local s) \<longrightarrow>
       local_date (cal_local cal (as_timezone s) after) \<le> local_date l' \<longrightarrow>
       after < cal_instant cal (as_timezone s) l' \<longrightarrow> t \<le> cal_instant cal (as_timezone s) l')"
proof -
  let ?t0 = "time_of_day (as_anchor_local s)"
  let ?d = "local_date (cal_local cal (as_timezone s) after)"
  let ?at = "cal_instant cal (as_timezone s)"
  have days: "as_days s = Some days" using assms(3) by (simp add: weekly_row_def)
  have "weekly_candidates cal s after \<noteq> []" by (rule weekly_candidate_exists [OF assms(1,3)])
  then have "numbered_candidates cal s after \<noteq> []"
    by (simp add: numbered_candidates_def) (metis length_0_conv length_enumerate)
  then have "sort_key snd (numbered_candidates cal s after) \<noteq> []" by (metis length_0_conv length_sort)
  then obtain n t where next': "next_weekly_occurrence cal s after = Some (n, t)"
    by (cases "sort_key snd (numbered_candidates cal s after)") (auto simp: next_weekly_occurrence_def)
  from next_weekly_Some(1) [OF next'] obtain l where l: "l \<in> set (weekly_candidates cal s after)" "t = ?at l" "as_occurrence s < n"
    by blast
  have time: "time_of_day (one_day * x + ?t0) = ?t0" for x
    by (simp add: time_of_day_def one_day_def)
  from l(1) obtain k where k: "k \<le> as_interval s * 7 + 7" "l = one_day * (?d + k) + ?t0"
      "weekly_match days (as_interval s) (as_anchor_local s) l" "after < ?at l"
    unfolding set_weekly_candidates [OF days] by blast
  have "t \<le> ?at l'" if l': "weekly_match days (as_interval s) (as_anchor_local s) l'" "time_of_day l' = ?t0"
      "?d \<le> local_date l'" "after < ?at l'" for l'
  proof (cases "local_date l' - ?d \<le> as_interval s * 7 + 7")
    case True
    have "l' \<in> set (weekly_candidates cal s after)"
      unfolding set_weekly_candidates [OF days] using l' True local_date_time [of l']
      by (intro conjI exI [of _ "local_date l' - ?d"]) auto
    with next_weekly_Some(2) [OF next'] show ?thesis by blast
  next
    case False
    have "l' = l + one_day * (local_date l' - ?d - k)"
      using k(2) local_date_time [of l'] l'(2) by (simp add: algebra_simps)
    moreover have "0 \<le> local_date l' - ?d - k" using False k(1) by linarith
    ultimately show ?thesis using assms(2) l(2) unfolding days_in_order_def by metis
  qed
  then show ?thesis using next' l(2,3) k(2,3,4) time by (intro exI [of _ n] exI [of _ t] exI [of _ l]) auto
qed

lemma next_occurrence_later:
  assumes "next_schedule_occurrence cal s after = Inr (Some (n, t))"
  shows "after < t" "as_occurrence s < n"
proof -
  have "after < t \<and> as_occurrence s < n"
  proof (cases "as_kind s")
    case (Repeats u)
    show ?thesis
    proof (cases "u = Weekly")
      case True
      with assms Repeats have next': "next_weekly_occurrence cal s after = Some (n, t)"
        by (simp add: next_schedule_occurrence_def)
      from next_weekly_Some(1) [OF this] show ?thesis by (auto simp: weekly_candidates_def)
    next
      case False
      with assms Repeats have "next_anchored_occurrence cal (schedule_source s) after = Inr (Occurrence n t)"
        by (auto simp: next_schedule_occurrence_def split: sum.splits occurrence.splits)
      then show ?thesis
        by (auto simp: next_anchored_occurrence_def later_occurrence_def schedule_source_def Let_def
            split: option.splits if_splits)
    qed
  qed (use assms in \<open>simp add: next_schedule_occurrence_def\<close>)
  then show "after < t" "as_occurrence s < n" by blast+
qed

end
