(* ===== verification/Agent_Schedule_Dispatch.thy ===== *)
theory Agent_Schedule_Dispatch
  imports Agent_Schedule_Tools Weekly_Recurrence Lease
begin

text \<open>
  agent/lib/agent-schedules/agent-schedule-dispatch-repository.ts, -dispatch-state.ts, -run-completion.ts,
  -run-failure.ts and -delivery-authorization.ts: the queue of due schedules. A sweep leases a schedule and
  writes a run for the occurrence; the run is handed to Eve once, confirmed when Eve answers, and
  settled when its result was delivered or failed, which frees the schedule for its next occurrence.
\<close>

definition schedule_batch_size :: int where "schedule_batch_size = 10"
definition schedule_lease_ms :: int where "schedule_lease_ms = 10 * 60000"
definition schedule_max_attempts :: int where "schedule_max_attempts = 3"

record claimed_schedule =
  cs_author :: string
  cs_tools :: "string list"
  cs_family :: string
  cs_topic :: "int option"
  cs_group :: "string option"
  cs_window :: "int option"
  cs_id :: string
  cs_token :: string
  cs_thread :: "int option"
  cs_next :: int
  cs_kind :: schedule_kind
  cs_role :: family_role
  cs_run :: string
  cs_prompt :: string
  cs_scope :: memory_scope
  cs_chat :: string
  cs_chat_type :: chat_type
  cs_telegram_user :: string
  cs_timezone :: string
  cs_title :: string
  cs_request :: string

record schedule_claim_options =
  cl_lease_ms :: js_number
  cl_limit :: js_number
  cl_now :: "int option"

definition require_schedule_claim_options :: "schedule_claim_options \<Rightarrow> unit result" where
  "require_schedule_claim_options o' =
     (if cl_now o' = None \<or> \<not> is_integer (cl_limit o') \<or> number_value (cl_limit o') < 1 \<or>
         \<not> is_integer (cl_lease_ms o') \<or> number_value (cl_lease_ms o') < 1
      then Inl (AppError ''AGENT_SCHEDULE_CLAIM_INVALID'') else Inr ())"

section \<open>Rows\<close>

definition failed_schedule :: "string \<Rightarrow> time \<Rightarrow> agent_schedule \<Rightarrow> agent_schedule" where
  "failed_schedule code now s =
     s\<lparr>as_status := S_failed, as_lease := None, as_lease_until := None, as_dispatch := None, as_error := Some code,
       as_updated := now\<rparr>"

definition failed_run :: "string \<Rightarrow> time \<Rightarrow> agent_run \<Rightarrow> agent_run" where
  "failed_run code now r = r\<lparr>ar_status := Run_failed, ar_completed := Some now, ar_error := Some code, ar_updated := now\<rparr>"

definition record_schedule_failures :: "string \<Rightarrow> agent_schedule list \<Rightarrow> schedule_db \<Rightarrow> schedule_db" where
  "record_schedule_failures code rows d =
     d\<lparr>sd_audit := sd_audit d @ map (\<lambda>s. Schedule_failed (as_family s) (as_id s) code) rows\<rparr>"

text \<open>\<open>DELETE FROM agent_schedule_history_snapshots USING agent_schedule_runs\<close>\<close>

definition drop_snapshots :: "(agent_run \<Rightarrow> bool) \<Rightarrow> schedule_db \<Rightarrow> schedule_db" where
  "drop_snapshots P d =
     d\<lparr>sd_snapshots := delete_where (\<lambda>h. exists_row (\<lambda>r. ar_id r = hs_run h \<and> P r) (sd_runs d)) (sd_snapshots d)\<rparr>"

definition drop_snapshot :: "string \<Rightarrow> schedule_db \<Rightarrow> schedule_db" where
  "drop_snapshot run d = d\<lparr>sd_snapshots := delete_where (\<lambda>h. hs_run h = run) (sd_snapshots d)\<rparr>"

definition update_schedules :: "(agent_schedule \<Rightarrow> bool) \<Rightarrow> (agent_schedule \<Rightarrow> agent_schedule) \<Rightarrow> schedule_db \<Rightarrow> schedule_db" where
  "update_schedules P f d = d\<lparr>sd_schedules := update_where P f (sd_schedules d)\<rparr>"

definition update_runs :: "(agent_run \<Rightarrow> bool) \<Rightarrow> (agent_run \<Rightarrow> agent_run) \<Rightarrow> schedule_db \<Rightarrow> schedule_db" where
  "update_runs P f d = d\<lparr>sd_runs := update_where P f (sd_runs d)\<rparr>"

section \<open>Recovery of expired leases\<close>

definition schedule_lease_expired :: "time \<Rightarrow> agent_schedule \<Rightarrow> bool" where
  "schedule_lease_expired now s \<longleftrightarrow>
     as_status s = S_leased \<and> (case as_lease_until s of None \<Rightarrow> False | Some t \<Rightarrow> t < now)"

text \<open>Only an unfinished handoff expires: a confirmed running workflow owns its lifecycle.\<close>

definition handoff_expired :: "time \<Rightarrow> schedule_db \<Rightarrow> agent_schedule \<Rightarrow> bool" where
  "handoff_expired now d s \<longleftrightarrow>
     schedule_lease_expired now s \<and> as_dispatch s \<noteq> None \<and>
     exists_row (\<lambda>r. ar_schedule r = as_id s \<and> Some (ar_lease r) = as_lease s \<and> ar_status r = Run_dispatching) (sd_runs d)"

definition ambiguous_run :: "time \<Rightarrow> agent_run \<Rightarrow> agent_run" where
  "ambiguous_run now r =
     r\<lparr>ar_status := Run_ambiguous, ar_error := Some ''AGENT_SCHEDULE_DELIVERY_AMBIGUOUS'', ar_updated := now\<rparr>"

definition open_run_of :: "agent_schedule \<Rightarrow> agent_run \<Rightarrow> bool" where
  "open_run_of s r \<longleftrightarrow> ar_schedule r = as_id s \<and> Some (ar_lease r) = as_lease s \<and>
     (ar_status r = Run_claimed \<or> ar_status r = Run_dispatching)"

definition close_ambiguous :: "time \<Rightarrow> schedule_db \<Rightarrow> agent_schedule \<Rightarrow> schedule_db" where
  "close_ambiguous now d s =
     drop_snapshots (\<lambda>r. ar_schedule r = as_id s \<and> Some (ar_lease r) = as_lease s \<and> ar_status r = Run_ambiguous)
       (update_runs (open_run_of s) (ambiguous_run now) d)"

definition expire_handoffs :: "time \<Rightarrow> schedule_db \<Rightarrow> schedule_db" where
  "expire_handoffs now d =
     (let rows = filter (handoff_expired now d) (sd_schedules d);
          d1 = update_schedules (handoff_expired now d) (failed_schedule ''AGENT_SCHEDULE_DELIVERY_AMBIGUOUS'' now) d
      in record_schedule_failures ''AGENT_SCHEDULE_DELIVERY_AMBIGUOUS'' rows (foldl (close_ambiguous now) d1 rows))"

definition unstarted_run_of :: "agent_schedule \<Rightarrow> agent_run \<Rightarrow> bool" where
  "unstarted_run_of s r \<longleftrightarrow> ar_schedule r = as_id s \<and> ar_status r = Run_claimed \<and> ar_dispatch r = None"

definition failed_run_of :: "agent_schedule \<Rightarrow> agent_run \<Rightarrow> bool" where
  "failed_run_of s r \<longleftrightarrow> ar_schedule r = as_id s \<and> ar_status r = Run_failed"

definition close_exhausted :: "time \<Rightarrow> schedule_db \<Rightarrow> agent_schedule \<Rightarrow> schedule_db" where
  "close_exhausted now d s =
     (let d1 = update_runs (unstarted_run_of s) (failed_run ''AGENT_SCHEDULE_ATTEMPTS_EXHAUSTED'' now) d
      in if row_count (unstarted_run_of s) (sd_runs d) \<noteq> 0 then drop_snapshots (failed_run_of s) d1 else d1)"

definition lease_exhausted :: "time \<Rightarrow> agent_schedule \<Rightarrow> bool" where
  "lease_exhausted now s \<longleftrightarrow> schedule_lease_expired now s \<and> as_dispatch s = None \<and> schedule_max_attempts \<le> as_attempts s"

definition exhausted_schedule :: "time \<Rightarrow> agent_schedule \<Rightarrow> agent_schedule" where
  "exhausted_schedule now s =
     s\<lparr>as_status := S_failed, as_lease := None, as_lease_until := None,
       as_error := Some ''AGENT_SCHEDULE_ATTEMPTS_EXHAUSTED'', as_updated := now\<rparr>"

definition fail_exhausted_schedules :: "time \<Rightarrow> schedule_db \<Rightarrow> schedule_db" where
  "fail_exhausted_schedules now d =
     (let rows = filter (lease_exhausted now) (sd_schedules d);
          d1 = update_schedules (lease_exhausted now) (exhausted_schedule now) d
      in record_schedule_failures ''AGENT_SCHEDULE_ATTEMPTS_EXHAUSTED'' rows (foldl (close_exhausted now) d1 rows))"

definition lease_recoverable :: "time \<Rightarrow> agent_schedule \<Rightarrow> bool" where
  "lease_recoverable now s \<longleftrightarrow> schedule_lease_expired now s \<and> as_dispatch s = None \<and> as_attempts s < schedule_max_attempts"

definition recovered_schedule :: "time \<Rightarrow> agent_schedule \<Rightarrow> agent_schedule" where
  "recovered_schedule now s = s\<lparr>as_status := S_active, as_lease := None, as_lease_until := None, as_updated := now\<rparr>"

definition recover_leases :: "time \<Rightarrow> schedule_db \<Rightarrow> schedule_db" where
  "recover_leases now = update_schedules (lease_recoverable now) (recovered_schedule now)"

section \<open>Revoked destinations\<close>

definition is_member :: "schedule_db \<Rightarrow> agent_schedule \<Rightarrow> bool" where
  "is_member d s = exists_row (\<lambda>m. m_family m = as_family s \<and> m_user m = as_author s) (sd_memberships d)"

definition is_family_owner :: "schedule_db \<Rightarrow> agent_schedule \<Rightarrow> bool" where
  "is_family_owner d s =
     exists_row (\<lambda>m. m_family m = as_family s \<and> m_user m = as_author s \<and> m_role m = Owner_role) (sd_memberships d)"

definition in_family_group :: "schedule_db \<Rightarrow> agent_schedule \<Rightarrow> bool" where
  "in_family_group d s =
     exists_row (\<lambda>g. Some (g_id g) = as_group s \<and> g_family g = as_family s \<and> g_chat_id g = as_chat s \<and>
       g_type g = Family_private) (sd_groups d)"

definition in_external_group :: "schedule_db \<Rightarrow> agent_schedule \<Rightarrow> bool" where
  "in_external_group d s =
     exists_row (\<lambda>g. Some (g_id g) = as_group s \<and> g_family g = as_family s \<and> g_chat_id g = as_chat s \<and>
       g_chat_type g = Some (as_chat_type s) \<and> g_type g = External_group) (sd_groups d)"

definition destination_revoked :: "schedule_db \<Rightarrow> agent_schedule \<Rightarrow> bool" where
  "destination_revoked d s \<longleftrightarrow>
     \<not> is_member d s \<or> as_scope s = Family_scope \<and> \<not> in_family_group d s \<or>
     as_scope s = Group_scope \<and> (\<not> is_family_owner d s \<or> \<not> in_external_group d s)"

definition revoked_schedule :: "time \<Rightarrow> agent_schedule \<Rightarrow> agent_schedule" where
  "revoked_schedule now s =
     s\<lparr>as_status := S_failed, as_error := Some ''AGENT_SCHEDULE_DESTINATION_REVOKED'', as_updated := now\<rparr>"

definition close_revoked :: "time \<Rightarrow> schedule_db \<Rightarrow> agent_schedule \<Rightarrow> schedule_db" where
  "close_revoked now d s =
     drop_snapshots (failed_run_of s)
       (update_runs (unstarted_run_of s) (failed_run ''AGENT_SCHEDULE_DESTINATION_REVOKED'' now) d)"

definition fail_revoked_schedules :: "time \<Rightarrow> schedule_db \<Rightarrow> schedule_db" where
  "fail_revoked_schedules now d =
     (let P = (\<lambda>s. as_status s = S_active \<and> destination_revoked d s);
          rows = filter P (sd_schedules d);
          d1 = update_schedules P (revoked_schedule now) d
      in record_schedule_failures ''AGENT_SCHEDULE_DESTINATION_REVOKED'' rows (foldl (close_revoked now) d1 rows))"

definition prepare_schedule_claim :: "time \<Rightarrow> schedule_db \<Rightarrow> schedule_db" where
  "prepare_schedule_claim now d =
     fail_revoked_schedules now (recover_leases now (fail_exhausted_schedules now (expire_handoffs now d)))"

section \<open>Claiming\<close>

definition author_role :: "schedule_db \<Rightarrow> agent_schedule \<Rightarrow> family_role option" where
  "author_role d s =
     map_option m_role (first_row (\<lambda>m. m_family m = as_family s \<and> m_user m = as_author s) (sd_memberships d))"

definition author_telegram_id :: "schedule_db \<Rightarrow> agent_schedule \<Rightarrow> string option" where
  "author_telegram_id d s = map_option usr_telegram_id (first_row (\<lambda>u. usr_id u = as_author s) (sd_users d))"

definition claimable_schedule :: "(string \<Rightarrow> bool) \<Rightarrow> time \<Rightarrow> schedule_db \<Rightarrow> agent_schedule \<Rightarrow> bool" where
  "claimable_schedule locked now d s \<longleftrightarrow>
     as_status s = S_active \<and> as_next s \<le> now \<and> as_attempts s < schedule_max_attempts \<and>
     author_role d s \<noteq> None \<and> author_telegram_id d s \<noteq> None \<and> \<not> locked (as_id s)"

definition s_acquire :: "string \<Rightarrow> time \<Rightarrow> agent_schedule \<Rightarrow> agent_schedule" where
  "s_acquire token till s =
     s\<lparr>as_status := S_leased, as_attempts := as_attempts s + 1, as_lease := Some token, as_lease_until := Some till,
       as_dispatch := None\<rparr>"

text \<open>The occurrence a run belongs to: \<open>next_run_at\<close> went through a JavaScript date.\<close>

definition occurrence_of :: "agent_schedule \<Rightarrow> time" where
  "occurrence_of s = millis (to_date (as_next s))"

definition same_occurrence :: "agent_schedule \<Rightarrow> agent_run \<Rightarrow> bool" where
  "same_occurrence s r \<longleftrightarrow> ar_schedule r = as_id s \<and> ar_scheduled r = occurrence_of s"

definition reclaimed_run :: "string \<Rightarrow> time \<Rightarrow> agent_run \<Rightarrow> agent_run" where
  "reclaimed_run token now r =
     r\<lparr>ar_status := Run_claimed, ar_lease := token, ar_dispatch := None, ar_completed := None, ar_error := None,
       ar_updated := now\<rparr>"

definition new_run :: "string \<Rightarrow> string \<Rightarrow> time \<Rightarrow> agent_schedule \<Rightarrow> agent_run" where
  "new_run uuid token now s =
     \<lparr>ar_id = uuid, ar_schedule = as_id s, ar_family = as_family s, ar_scheduled = occurrence_of s,
      ar_status = Run_claimed, ar_lease = token, ar_eve = None, ar_session = None, ar_dispatch = None,
      ar_completed = None, ar_error = None, ar_updated = now\<rparr>"

text \<open>\<open>INSERT ... ON CONFLICT (schedule_id, scheduled_for) DO UPDATE ... WHERE ... RETURNING id\<close>\<close>

definition upsert_run :: "string \<Rightarrow> string \<Rightarrow> time \<Rightarrow> agent_schedule \<Rightarrow> schedule_db \<Rightarrow> string option \<times> schedule_db" where
  "upsert_run uuid token now s d =
     (case first_row (same_occurrence s) (sd_runs d) of
        None \<Rightarrow> (Some uuid, d\<lparr>sd_runs := sd_runs d @ [new_run uuid token now s]\<rparr>)
      | Some r \<Rightarrow>
          if ar_status r = Run_claimed \<and> ar_dispatch r = None
          then (Some (ar_id r), update_runs (same_occurrence s) (reclaimed_run token now) d)
          else (None, d))"

definition to_schedule_job :: "schedule_db \<Rightarrow> string \<Rightarrow> string \<Rightarrow> agent_schedule \<Rightarrow> claimed_schedule" where
  "to_schedule_job d token run s =
     \<lparr>cs_author = as_author s, cs_tools = as_tools s, cs_family = as_family s, cs_topic = as_topic s, cs_group = as_group s,
      cs_window = as_window s, cs_id = as_id s, cs_token = token, cs_thread = as_thread s, cs_next = to_date (as_next s),
      cs_kind = as_kind s, cs_role = the (author_role d s), cs_run = run, cs_prompt = as_prompt s, cs_scope = as_scope s,
      cs_chat = as_chat s, cs_chat_type = as_chat_type s, cs_telegram_user = the (author_telegram_id d s),
      cs_timezone = as_timezone s, cs_title = as_title s, cs_request = as_request s\<rparr>"

definition held_schedule :: "string \<Rightarrow> string \<Rightarrow> agent_schedule \<Rightarrow> bool" where
  "held_schedule sid token s \<longleftrightarrow> as_id s = sid \<and> as_status s = S_leased \<and> as_lease s = Some token"

definition leased_schedule :: "string \<Rightarrow> time \<Rightarrow> int \<Rightarrow> agent_schedule \<Rightarrow> agent_schedule" where
  "leased_schedule token now lease_ms s = (s_acquire token (now + millis lease_ms) s)\<lparr>as_updated := now\<rparr>"

definition claim_one ::
  "(string \<Rightarrow> string) \<Rightarrow> (string \<Rightarrow> string) \<Rightarrow> time \<Rightarrow> int \<Rightarrow> agent_schedule \<Rightarrow> schedule_db
     \<Rightarrow> claimed_schedule option \<times> schedule_db" where
  "claim_one tokens uuids now lease_ms c d =
     (let open' = (\<lambda>s. as_id s = as_id c \<and> as_status s = S_active); token = tokens (as_id c) in
      if row_count open' (sd_schedules d) = 0 then (None, d)
      else (let d1 = update_schedules open' (leased_schedule token now lease_ms) d in
        case upsert_run (uuids (as_id c)) token now c d1 of
          (Some run, d2) \<Rightarrow> (Some (to_schedule_job d token run c), d2)
        | (None, d2) \<Rightarrow>
            (None, record_schedule_failures ''AGENT_SCHEDULE_RUN_CONFLICT'' (filter (held_schedule (as_id c) token) (sd_schedules d2))
               (update_schedules (held_schedule (as_id c) token) (failed_schedule ''AGENT_SCHEDULE_RUN_CONFLICT'' now) d2))))"

fun claim_each ::
  "(string \<Rightarrow> string) \<Rightarrow> (string \<Rightarrow> string) \<Rightarrow> time \<Rightarrow> int \<Rightarrow> agent_schedule list \<Rightarrow> schedule_db
     \<Rightarrow> claimed_schedule list \<times> schedule_db" where
  "claim_each tokens uuids now lease_ms [] d = ([], d)"
| "claim_each tokens uuids now lease_ms (c # cs) d =
     (case claim_one tokens uuids now lease_ms c d of
        (job, d1) \<Rightarrow>
          (case claim_each tokens uuids now lease_ms cs d1 of
             (jobs, d2) \<Rightarrow> ((case job of None \<Rightarrow> jobs | Some j \<Rightarrow> j # jobs), d2)))"

definition claim_candidates :: "(string \<Rightarrow> bool) \<Rightarrow> time \<Rightarrow> nat \<Rightarrow> schedule_db \<Rightarrow> agent_schedule list" where
  "claim_candidates locked now n d =
     select_ordered (claimable_schedule locked now d) (\<lambda>s. (as_next s, as_id s)) n (sd_schedules d)"

definition claim_due_schedules ::
  "(string \<Rightarrow> bool) \<Rightarrow> (string \<Rightarrow> string) \<Rightarrow> (string \<Rightarrow> string) \<Rightarrow> schedule_claim_options \<Rightarrow> schedule_db
     \<Rightarrow> claimed_schedule list result \<times> schedule_db" where
  "claim_due_schedules locked tokens uuids o' =
     when_valid (require_schedule_claim_options o') (\<lambda>_. run_tx (\<lambda>d.
       let now = millis (the (cl_now o'));
           d1 = prepare_schedule_claim now d;
           candidates = claim_candidates locked now (nat (number_value (cl_limit o'))) d1
       in case claim_each tokens uuids now (number_value (cl_lease_ms o')) candidates d1 of (jobs, d2) \<Rightarrow> Commit jobs d2))"

section \<open>Handing a run to Eve\<close>

record dispatch_job =
  dj_id :: string
  dj_token :: string
  dj_run :: string

definition live_schedule :: "schedule_db \<Rightarrow> agent_schedule \<Rightarrow> bool" where
  "live_schedule d s \<longleftrightarrow> as_scope s \<noteq> Group_scope \<or> is_family_owner d s \<and> in_external_group d s"

definition started_schedule :: "time \<Rightarrow> agent_schedule \<Rightarrow> agent_schedule" where
  "started_schedule now s = s\<lparr>as_dispatch := Some now, as_updated := now\<rparr>"

definition dispatched_run :: "string \<Rightarrow> time \<Rightarrow> agent_run \<Rightarrow> agent_run" where
  "dispatched_run session now r =
     r\<lparr>ar_status := Run_dispatching, ar_dispatch := Some now, ar_session := Some session, ar_updated := now\<rparr>"

definition run_of_job :: "dispatch_job \<Rightarrow> agent_run \<Rightarrow> bool" where
  "run_of_job job r \<longleftrightarrow> ar_id r = dj_run job \<and> ar_schedule r = dj_id job \<and> ar_lease r = dj_token job"

definition begin_dispatch_body :: "dispatch_job \<Rightarrow> string \<Rightarrow> time \<Rightarrow> schedule_db \<Rightarrow> (bool, schedule_db) tx" where
  "begin_dispatch_body job session now d =
     (let waiting = (\<lambda>s. held_schedule (dj_id job) (dj_token job) s \<and> as_dispatch s = None);
          hit = (\<lambda>s. waiting s \<and> live_schedule d s);
          revoked = (\<lambda>s. waiting s \<and> as_scope s = Group_scope);
          unstarted = (\<lambda>r. run_of_job job r \<and> ar_status r = Run_claimed) in
      if row_count hit (sd_schedules d) = 1 then
        (if row_count unstarted (sd_runs d) = 1
         then Commit True (update_runs unstarted (dispatched_run session now) (update_schedules hit (started_schedule now) d))
         else Throw (AppError ''AGENT_SCHEDULE_LEASE_STALE''))
      else if row_count revoked (sd_schedules d) = 0 then Throw (AppError ''AGENT_SCHEDULE_LEASE_STALE'')
      else Commit False
        (record_schedule_failures ''AGENT_SCHEDULE_DESTINATION_REVOKED'' (filter revoked (sd_schedules d))
          (drop_snapshot (dj_run job)
            (update_runs unstarted (failed_run ''AGENT_SCHEDULE_DESTINATION_REVOKED'' now)
              (update_schedules revoked (failed_schedule ''AGENT_SCHEDULE_DESTINATION_REVOKED'' now) d)))))"

definition begin_agent_schedule_dispatch :: "dispatch_job \<Rightarrow> string \<Rightarrow> time \<Rightarrow> schedule_db \<Rightarrow> bool result \<times> schedule_db" where
  "begin_agent_schedule_dispatch job session now = run_tx (begin_dispatch_body job session now)"

definition running_run :: "string \<Rightarrow> time \<Rightarrow> agent_run \<Rightarrow> agent_run" where
  "running_run eve now r = r\<lparr>ar_status := Run_running, ar_eve := Some eve, ar_updated := now\<rparr>"

fun terminal :: "run_status \<Rightarrow> bool" where
  "terminal Run_completed = True"
| "terminal Run_failed = True"
| "terminal Run_ambiguous = True"
| "terminal _ = False"

text \<open>The unique index over the application session and the Eve session of a run.\<close>

definition session_taken :: "(agent_run \<Rightarrow> bool) \<Rightarrow> string option \<Rightarrow> string \<Rightarrow> schedule_db \<Rightarrow> bool" where
  "session_taken hit session eve d \<longleftrightarrow>
     session \<noteq> None \<and> exists_row (\<lambda>r. \<not> hit r \<and> ar_session r = session \<and> ar_eve r = Some eve) (sd_runs d)"

definition mark_agent_schedule_running ::
  "dispatch_job \<Rightarrow> string \<Rightarrow> string \<Rightarrow> time \<Rightarrow> schedule_db \<Rightarrow> unit result \<times> schedule_db" where
  "mark_agent_schedule_running job session eve now d =
     (let hit = (\<lambda>r. run_of_job job r \<and> ar_status r = Run_dispatching \<and> ar_session r = Some session);
          settled = (\<lambda>r. run_of_job job r \<and> ar_session r = Some session \<and> terminal (ar_status r));
          d1 = update_runs hit (running_run eve now) d in
      if exists_row hit (sd_runs d) \<and> session_taken hit (Some session) eve d then (Inl (PgError ''23505''), d)
      else if row_count hit (sd_runs d) = 1 then (Inr (), d1)
      else if row_count settled (sd_runs d1) = 1 then (Inr (), d1)
      else (Inl (AppError ''AGENT_SCHEDULE_LEASE_STALE''), d1))"

section \<open>Settling a run\<close>

definition settled_run :: "time \<Rightarrow> string option \<Rightarrow> agent_run \<Rightarrow> agent_run" where
  "settled_run now error r =
     r\<lparr>ar_status := (if error = None then Run_completed else Run_failed), ar_completed := Some now, ar_error := error,
       ar_updated := now\<rparr>"

definition ended_schedule :: "time \<Rightarrow> string option \<Rightarrow> agent_schedule \<Rightarrow> agent_schedule" where
  "ended_schedule now error s =
     s\<lparr>as_status := (if error = None then S_completed else S_failed), as_lease := None, as_lease_until := None,
       as_dispatch := None, as_error := error, as_updated := now\<rparr>"

definition rearmed_schedule :: "int \<Rightarrow> time \<Rightarrow> time \<Rightarrow> string option \<Rightarrow> agent_schedule \<Rightarrow> agent_schedule" where
  "rearmed_schedule n t now error s =
     s\<lparr>as_status := S_active, as_occurrence := n, as_next := t, as_attempts := 0, as_lease := None, as_lease_until := None,
       as_dispatch := None, as_error := error, as_updated := now\<rparr>"

text \<open>The join of a running run with its leased schedule.\<close>

definition active_run :: "schedule_db \<Rightarrow> string \<Rightarrow> string \<Rightarrow> agent_run \<Rightarrow> bool" where
  "active_run d session eve r \<longleftrightarrow>
     ar_session r = Some session \<and> ar_eve r = Some eve \<and> ar_status r = Run_running \<and>
     exists_row (\<lambda>s. as_id s = ar_schedule r \<and> as_status s = S_leased) (sd_schedules d)"

definition finish_active_agent_schedule_run ::
  "pg_calendar \<Rightarrow> string \<Rightarrow> string \<Rightarrow> int \<Rightarrow> string option \<Rightarrow> schedule_db \<Rightarrow> (bool \<times> schedule_db) result" where
  "finish_active_agent_schedule_run cal session eve completed error d =
     (case first_row (active_run d session eve) (sd_runs d) of
        None \<Rightarrow> Inr (False, d)
      | Some r \<Rightarrow>
          (case first_row (\<lambda>s. as_id s = ar_schedule r \<and> as_status s = S_leased) (sd_schedules d) of
             None \<Rightarrow> Inr (False, d)
           | Some s \<Rightarrow>
               (let now = millis completed;
                    d1 = drop_snapshot (ar_id r) (update_runs (\<lambda>x. ar_id x = ar_id r) (settled_run now error) d);
                    settle = (\<lambda>f. Inr (True, update_schedules (\<lambda>x. as_id x = as_id s) f d1)) in
                case next_schedule_occurrence cal s now of
                  Inl e \<Rightarrow> Inl e
                | Inr None \<Rightarrow> settle (ended_schedule now error)
                | Inr (Some (n, t)) \<Rightarrow> settle (rearmed_schedule n t now error))))"

record completed_input =
  ci_session :: string
  ci_eve :: string
  ci_run :: string
  ci_delivery :: delivery_input

datatype completion = Completed_now | Duplicate_completion | State_conflict

definition complete_delivered_agent_schedule_run ::
  "pg_calendar \<Rightarrow> completed_input \<Rightarrow> schedule_db \<Rightarrow> (completion, schedule_db) tx" where
  "complete_delivered_agent_schedule_run cal i d =
     (case first_row (\<lambda>r. ar_id r = ci_run i) (sd_runs d) of
        None \<Rightarrow> Throw (AppError ''AGENT_SCHEDULE_DELIVERY_STATE_INVALID'')
      | Some run \<Rightarrow>
          (case record_proactive_delivery ((ci_delivery i)\<lparr>di_source := ci_run i, di_kind := Schedule_source\<rparr>) (sd_deliveries d) of
             Inl e \<Rightarrow> Throw e
           | Inr j \<Rightarrow>
               (let d1 = d\<lparr>sd_deliveries := j\<rparr>;
                    matches = ar_session run = Some (ci_session i) \<and> ar_eve run = Some (ci_eve i) in
                if \<not> matches \<or> ar_status run \<noteq> Run_running
                then Commit (if matches \<and> ar_status run = Run_completed then Duplicate_completion else State_conflict) d1
                else (case finish_active_agent_schedule_run cal (ci_session i) (ci_eve i)
                         (the (di_delivered (ci_delivery i))) None d1 of
                    Inl e \<Rightarrow> Throw e
                  | Inr (True, d2) \<Rightarrow> Commit Completed_now d2
                  | Inr (False, d2) \<Rightarrow>
                      Commit (if exists_row (\<lambda>r. ar_id r = ci_run i \<and> ar_session r = Some (ci_session i) \<and>
                            ar_eve r = Some (ci_eve i) \<and> ar_status r = Run_completed \<and>
                            exists_row (\<lambda>p. pd_kind p = Schedule_source \<and> pd_source p = ar_id r \<and>
                              pd_message p = decimal_value (di_message (ci_delivery i))) (jn_rows (sd_deliveries d2))) (sd_runs d2)
                          then Duplicate_completion else State_conflict) d2))))"

text \<open>The conflict is reported after the commit: the receipt stays.\<close>

definition complete_delivered_run :: "pg_calendar \<Rightarrow> completed_input \<Rightarrow> schedule_db \<Rightarrow> bool result \<times> schedule_db" where
  "complete_delivered_run cal i d =
     (case run_tx (complete_delivered_agent_schedule_run cal i) d of
        (Inl e, d1) \<Rightarrow> (Inl e, d1)
      | (Inr State_conflict, d1) \<Rightarrow> (Inl (AppError ''AGENT_SCHEDULE_DELIVERY_STATE_INVALID''), d1)
      | (Inr c, d1) \<Rightarrow> (Inr (c = Completed_now), d1))"

section \<open>Failing\<close>

definition fail_claim :: "dispatch_job \<Rightarrow> string \<Rightarrow> time \<Rightarrow> schedule_db \<Rightarrow> unit result \<times> schedule_db" where
  "fail_claim job code now = run_tx (\<lambda>d.
     let held = held_schedule (dj_id job) (dj_token job) in
     if row_count held (sd_schedules d) = 0 then Throw (AppError ''AGENT_SCHEDULE_LEASE_STALE'')
     else Commit () (record_schedule_failures code (take 1 (filter held (sd_schedules d)))
       (drop_snapshot (dj_run job)
         (update_runs (run_of_job job) (failed_run code now) (update_schedules held (failed_schedule code now) d)))))"

record execution_authorization =
  ea_session :: string
  ea_family :: string
  ea_group :: "string option"
  ea_thread :: "int option"
  ea_owner :: "string option"
  ea_run :: string
  ea_scope :: memory_scope
  ea_chat :: string

definition still_entitled :: "schedule_db \<Rightarrow> agent_schedule \<Rightarrow> bool" where
  "still_entitled d s \<longleftrightarrow>
     exists_row (\<lambda>m. m_family m = as_family s \<and> m_user m = as_author s \<and>
       (case as_scope s of
          Personal_scope \<Rightarrow> as_owner s = Some (as_author s)
        | Family_scope \<Rightarrow> exists_row (\<lambda>g. Some (g_id g) = as_group s \<and> g_family g = as_family s \<and>
            g_type g = Family_private \<and> g_chat_id g = as_chat s) (sd_groups d)
        | Group_scope \<Rightarrow> m_role m = Owner_role \<and>
            exists_row (\<lambda>g. Some (g_id g) = as_group s \<and> g_family g = as_family s \<and> g_type g = External_group \<and>
              g_chat_id g = as_chat s \<and> g_chat_type g = Some (as_chat_type s)) (sd_groups d))) (sd_memberships d)"

definition is_authorized :: "execution_authorization \<Rightarrow> string option \<Rightarrow> schedule_db \<Rightarrow> bool" where
  "is_authorized a eve d =
     exists_row (\<lambda>r. ar_id r = ea_run a \<and> ar_session r = Some (ea_session a) \<and> (eve = None \<or> ar_eve r = eve) \<and>
       ar_status r = Run_running \<and>
       exists_row (\<lambda>s. as_id s = ar_schedule r \<and> as_status s = S_leased \<and> as_family s = ea_family a \<and>
         as_scope s = ea_scope a \<and> as_group s = ea_group a \<and> as_owner s = ea_owner a \<and> as_chat s = ea_chat a \<and>
         as_thread s = ea_thread a \<and> still_entitled d s) (sd_schedules d)) (sd_runs d)"

definition authorize_agent_schedule_execution :: "execution_authorization \<Rightarrow> schedule_db \<Rightarrow> unit result" where
  "authorize_agent_schedule_execution a d =
     (if is_authorized a None d then Inr () else Inl (AppError ''AGENT_SCHEDULE_EXECUTION_AUTHORIZATION_REVOKED''))"

definition authorize_agent_schedule_delivery :: "execution_authorization \<Rightarrow> string \<Rightarrow> schedule_db \<Rightarrow> unit result" where
  "authorize_agent_schedule_delivery a eve d =
     (if is_authorized a (Some eve) d then Inr () else Inl (AppError ''AGENT_SCHEDULE_DELIVERY_AUTHORIZATION_REVOKED''))"

definition fail_within_transaction ::
  "pg_calendar \<Rightarrow> execution_authorization \<Rightarrow> string \<Rightarrow> string \<Rightarrow> int \<Rightarrow> schedule_db \<Rightarrow> (bool, schedule_db) tx" where
  "fail_within_transaction cal a eve code failed d =
     (let notify = is_authorized a (Some eve) d in
      case finish_active_agent_schedule_run cal (ea_session a) eve failed (Some code) d of
        Inl e \<Rightarrow> Throw e
      | Inr (done', d1) \<Rightarrow> Commit (done' \<and> notify) d1)"

definition fail_agent_schedule_run ::
  "pg_calendar \<Rightarrow> string \<Rightarrow> string \<Rightarrow> string \<Rightarrow> int \<Rightarrow> schedule_db \<Rightarrow> bool result \<times> schedule_db" where
  "fail_agent_schedule_run cal session eve code failed = run_tx (\<lambda>d.
     case finish_active_agent_schedule_run cal session eve failed (Some code) d of
       Inl e \<Rightarrow> Throw e
     | Inr (done', d1) \<Rightarrow> Commit done' d1)"

definition fail_agent_schedule_run_for_notification ::
  "pg_calendar \<Rightarrow> execution_authorization \<Rightarrow> string \<Rightarrow> string \<Rightarrow> int \<Rightarrow> schedule_db \<Rightarrow> bool result \<times> schedule_db" where
  "fail_agent_schedule_run_for_notification cal a eve code failed = run_tx (fail_within_transaction cal a eve code failed)"

definition identified_run :: "schedule_db \<Rightarrow> string \<Rightarrow> string \<Rightarrow> agent_run \<Rightarrow> bool" where
  "identified_run d run eve r \<longleftrightarrow>
     ar_id r = run \<and> (ar_eve r = Some eve \<or> ar_status r = Run_dispatching \<and> ar_eve r = None) \<and> ar_session r \<noteq> None \<and>
     (ar_status r = Run_dispatching \<or> ar_status r = Run_running) \<and>
     exists_row (\<lambda>s. as_id s = ar_schedule r \<and> as_status s = S_leased) (sd_schedules d)"

definition load_authorization :: "string \<Rightarrow> string \<Rightarrow> schedule_db \<Rightarrow> execution_authorization option" where
  "load_authorization run eve d =
     Option.bind (first_row (identified_run d run eve) (sd_runs d)) (\<lambda>r.
       map_option (\<lambda>s. \<lparr>ea_session = the (ar_session r), ea_family = as_family s, ea_group = as_group s,
           ea_thread = as_thread s, ea_owner = as_owner s, ea_run = run, ea_scope = as_scope s, ea_chat = as_chat s\<rparr>)
         (first_row (\<lambda>s. as_id s = ar_schedule r \<and> as_status s = S_leased) (sd_schedules d)))"

definition fail_agent_schedule_run_by_identity ::
  "pg_calendar \<Rightarrow> string \<Rightarrow> string \<Rightarrow> string \<Rightarrow> int \<Rightarrow> schedule_db \<Rightarrow> bool result \<times> schedule_db" where
  "fail_agent_schedule_run_by_identity cal run eve code failed = run_tx (\<lambda>d.
     case load_authorization run eve d of
       None \<Rightarrow> Commit False d
     | Some a \<Rightarrow>
         (let hit = (\<lambda>r. ar_id r = run \<and> ar_status r = Run_dispatching \<and> ar_eve r = None) in
          if exists_row hit (sd_runs d) \<and> session_taken hit (Some (ea_session a)) eve d then Throw (PgError ''23505'')
          else fail_within_transaction cal a eve code failed (update_runs hit (running_run eve (millis failed)) d)))"

section \<open>The lease\<close>

definition holds_schedule_lease :: "agent_schedule \<Rightarrow> string \<Rightarrow> time \<Rightarrow> bool" where
  "holds_schedule_lease s token now \<longleftrightarrow> as_status s = S_leased \<and> as_lease s = Some token"

interpretation schedule_lease: leased_rows as_id holds_schedule_lease s_acquire "failed_schedule code now" for code now
  by unfold_locales (auto simp: holds_schedule_lease_def s_acquire_def failed_schedule_def)

end
