(* ===== verification/Agent_Schedule_Invariant.thy ===== *)
theory Agent_Schedule_Invariant
  imports Agent_Schedule_Dispatch
begin

text \<open>
  What holds of the schedule tables between operations, and how each statement of an operation moves
  the life of an occurrence. Most operations rewrite rows in place: \<open>rewritten\<close> states for such an operation
  how it maps schedules and runs, and gives the invariant and the simulation by the abstract
  machine at once.
\<close>

section \<open>The life of an occurrence\<close>

text \<open>
  The abstract machine. An occurrence is planned, claimed by a sweep, handed to Eve, confirmed by Eve, and
  closed with an outcome, or it goes away with its schedule. Nothing leads back: a closed occurrence stays
  closed, and one that was handed over is not claimed again.
\<close>

datatype outcome = Delivered | Failed_outcome | Unknown_outcome

datatype phase = Planned | Claimed | Handed | Confirmed | Closed outcome | Removed

inductive occurrence_step :: "phase \<Rightarrow> phase \<Rightarrow> bool" where
  claim: "occurrence_step Planned Claimed"
| hand_over: "occurrence_step Claimed Handed"
| confirm: "occurrence_step Handed Confirmed"
| deliver: "occurrence_step Confirmed (Closed Delivered)"
| fail: "p \<in> {Claimed, Handed, Confirmed} \<Longrightarrow> occurrence_step p (Closed Failed_outcome)"
| lose: "occurrence_step Handed (Closed Unknown_outcome)"
| remove: "p \<noteq> Removed \<Longrightarrow> occurrence_step p Removed"

inductive_cases occurrence_stepE: "occurrence_step p q"

abbreviation occurrence_steps :: "phase \<Rightarrow> phase \<Rightarrow> bool" where
  "occurrence_steps \<equiv> occurrence_step\<^sup>*\<^sup>*"

fun phase_rank :: "phase \<Rightarrow> nat" where
  "phase_rank Planned = 0"
| "phase_rank Claimed = 1"
| "phase_rank Handed = 2"
| "phase_rank Confirmed = 3"
| "phase_rank (Closed x) = 4"
| "phase_rank Removed = 5"

lemma occurrence_step_rank: "occurrence_step p q \<Longrightarrow> phase_rank p < phase_rank q"
  by (cases p) (auto elim!: occurrence_stepE)

lemma occurrence_steps_rank: "occurrence_steps p q \<Longrightarrow> phase_rank p \<le> phase_rank q"
  by (induction rule: rtranclp_induct) (auto dest: occurrence_step_rank)

fun phase_of_status :: "run_status \<Rightarrow> phase" where
  "phase_of_status Run_claimed = Claimed"
| "phase_of_status Run_dispatching = Handed"
| "phase_of_status Run_running = Confirmed"
| "phase_of_status Run_completed = Closed Delivered"
| "phase_of_status Run_failed = Closed Failed_outcome"
| "phase_of_status Run_ambiguous = Closed Unknown_outcome"

definition run_key :: "agent_run \<Rightarrow> string \<times> time" where
  "run_key r = (ar_schedule r, ar_scheduled r)"

definition phase_in :: "schedule_db \<Rightarrow> string \<times> time \<Rightarrow> phase" where
  "phase_in d occ = (case first_row (\<lambda>r. run_key r = occ) (sd_runs d) of
     None \<Rightarrow> Planned | Some r \<Rightarrow> phase_of_status (ar_status r))"

definition advances :: "run_status \<Rightarrow> run_status \<Rightarrow> bool" where
  "advances a b \<longleftrightarrow> occurrence_steps (phase_of_status a) (phase_of_status b)"

lemma advances_refl [simp]: "advances a a" by (simp add: advances_def)

lemma advances_steps [simp]:
  "advances Run_claimed Run_dispatching" "advances Run_dispatching Run_running"
  "advances Run_dispatching Run_ambiguous" "advances Run_running Run_completed"
  by (auto simp: advances_def intro!: r_into_rtranclp occurrence_step.intros)

lemma advances_failed [simp]: "\<not> terminal a \<Longrightarrow> advances a Run_failed"
  by (cases a) (auto simp: advances_def intro!: r_into_rtranclp occurrence_step.intros)

lemma advances_trans: "advances a b \<Longrightarrow> advances b c \<Longrightarrow> advances a c"
  unfolding advances_def by (rule rtranclp_trans)

section \<open>The invariant\<close>

definition in_flight :: "agent_run \<Rightarrow> bool" where
  "in_flight r \<longleftrightarrow> ar_status r = Run_dispatching \<or> ar_status r = Run_running"

definition leases :: "agent_schedule \<Rightarrow> agent_run \<Rightarrow> bool" where
  "leases s r \<longleftrightarrow> as_status s = S_leased \<and> as_lease s = Some (ar_lease r)"

text \<open>
  A schedule and one of its runs. A run in flight is owned by the lease of its schedule, whose handoff has
  started; the run of the current lease is not settled, and is claimed until the handoff starts.
\<close>

definition run_ok :: "agent_schedule \<Rightarrow> agent_run \<Rightarrow> bool" where
  "run_ok s r \<longleftrightarrow>
     (in_flight r \<longrightarrow> leases s r \<and> as_dispatch s \<noteq> None) \<and>
     (leases s r \<longrightarrow> \<not> terminal (ar_status r) \<and> (as_dispatch s = None \<longleftrightarrow> ar_status r = Run_claimed)) \<and>
     (ar_status r = Run_claimed \<longrightarrow> ar_dispatch r = None)"

definition schedules_ok :: "schedule_db \<Rightarrow> bool" where
  "schedules_ok d \<longleftrightarrow>
     schedule_rows.pk (sd_schedules d) \<and> run_rows.pk (sd_runs d) \<and> distinct (map run_key (sd_runs d)) \<and>
     (\<forall>s\<in>set (sd_schedules d). schedule_checks s) \<and>
     (\<forall>r\<in>set (sd_runs d). \<exists>s\<in>set (sd_schedules d). as_id s = ar_schedule r) \<and>
     (\<forall>s\<in>set (sd_schedules d). \<forall>r\<in>set (sd_runs d). ar_schedule r = as_id s \<longrightarrow> run_ok s r) \<and>
     (\<forall>s\<in>set (sd_schedules d). \<forall>r\<in>set (sd_runs d). \<forall>r'\<in>set (sd_runs d).
        ar_schedule r = as_id s \<longrightarrow> ar_schedule r' = as_id s \<longrightarrow> leases s r \<longrightarrow> leases s r' \<longrightarrow> r = r')"

lemma run_okI: "schedules_ok d \<Longrightarrow> s \<in> set (sd_schedules d) \<Longrightarrow> r \<in> set (sd_runs d) \<Longrightarrow> ar_schedule r = as_id s \<Longrightarrow> run_ok s r"
  by (simp add: schedules_ok_def)

lemma one_leased_run:
  "schedules_ok d \<Longrightarrow> s \<in> set (sd_schedules d) \<Longrightarrow> r \<in> set (sd_runs d) \<Longrightarrow> r' \<in> set (sd_runs d) \<Longrightarrow>
     ar_schedule r = as_id s \<Longrightarrow> ar_schedule r' = as_id s \<Longrightarrow> leases s r \<Longrightarrow> leases s r' \<Longrightarrow> r = r'"
  by (simp add: schedules_ok_def)

lemma same_schedule:
  "schedules_ok d \<Longrightarrow> s \<in> set (sd_schedules d) \<Longrightarrow> s' \<in> set (sd_schedules d) \<Longrightarrow> as_id s = as_id s' \<Longrightarrow> s = s'"
  unfolding schedules_ok_def by (blast dest: schedule_rows.pk_unique)

lemma same_run:
  "schedules_ok d \<Longrightarrow> r \<in> set (sd_runs d) \<Longrightarrow> r' \<in> set (sd_runs d) \<Longrightarrow> ar_id r = ar_id r' \<Longrightarrow> r = r'"
  unfolding schedules_ok_def by (blast dest: run_rows.pk_unique)

lemma row_checks: "schedules_ok d \<Longrightarrow> s \<in> set (sd_schedules d) \<Longrightarrow> schedule_checks s"
  by (simp add: schedules_ok_def)

lemma run_has_schedule:
  "schedules_ok d \<Longrightarrow> r \<in> set (sd_runs d) \<Longrightarrow> \<exists>s\<in>set (sd_schedules d). as_id s = ar_schedule r \<and> run_ok s r"
proof -
  assume ok: "schedules_ok d" and r: "r \<in> set (sd_runs d)"
  from ok r have "\<exists>s\<in>set (sd_schedules d). as_id s = ar_schedule r" unfolding schedules_ok_def by blast
  then obtain s where "s \<in> set (sd_schedules d)" "as_id s = ar_schedule r" by blast
  then show ?thesis using run_okI [OF ok _ r, of s] by force
qed

section \<open>Rewriting rows in place\<close>

definition same_run_columns :: "agent_run \<Rightarrow> agent_run \<Rightarrow> bool" where
  "same_run_columns r r' \<longleftrightarrow>
     ar_id r' = ar_id r \<and> ar_schedule r' = ar_schedule r \<and> ar_scheduled r' = ar_scheduled r \<and> ar_lease r' = ar_lease r"

definition rewritten :: "schedule_db \<Rightarrow> schedule_db \<Rightarrow> (agent_schedule \<Rightarrow> agent_schedule) \<Rightarrow> (agent_run \<Rightarrow> agent_run) \<Rightarrow> bool" where
  "rewritten d d' f g \<longleftrightarrow>
     sd_schedules d' = map f (sd_schedules d) \<and> sd_runs d' = map g (sd_runs d) \<and>
     (\<forall>s\<in>set (sd_schedules d). as_id (f s) = as_id s \<and> schedule_checks (f s) \<and>
        (as_status (f s) = S_leased \<longrightarrow> as_status s = S_leased \<and> as_lease (f s) = as_lease s)) \<and>
     (\<forall>r\<in>set (sd_runs d). same_run_columns r (g r) \<and> advances (ar_status r) (ar_status (g r))) \<and>
     (\<forall>s\<in>set (sd_schedules d). \<forall>r\<in>set (sd_runs d). ar_schedule r = as_id s \<longrightarrow> run_ok (f s) (g r))"

text \<open>What the proofs of the later theories use of an operation, also of one that inserts rows.\<close>

definition simulates :: "schedule_db \<Rightarrow> schedule_db \<Rightarrow> bool" where
  "simulates d d' \<longleftrightarrow> (\<forall>occ. occurrence_steps (phase_in d occ) (phase_in d' occ))"

lemma simulates_refl [simp]: "simulates d d" by (simp add: simulates_def)

lemma simulates_trans: "simulates d d' \<Longrightarrow> simulates d' d'' \<Longrightarrow> simulates d d''"
  unfolding simulates_def by (meson rtranclp_trans)

lemma first_row_map:
  "(\<And>r. r \<in> set rows \<Longrightarrow> P (g r) = P r) \<Longrightarrow> first_row P (map g rows) = map_option g (first_row P rows)"
  by (induction rows) (auto simp: first_row_def)

lemma rewritten_ok:
  assumes ok: "schedules_ok d" and rw: "rewritten d d' f g"
  shows "schedules_ok d'" "simulates d d'"
proof -
  have f: "as_id (f s) = as_id s" "schedule_checks (f s)"
      "as_status (f s) = S_leased \<Longrightarrow> as_status s = S_leased \<and> as_lease (f s) = as_lease s"
    if "s \<in> set (sd_schedules d)" for s using rw that unfolding rewritten_def by blast+
  have g: "same_run_columns r (g r)" "advances (ar_status r) (ar_status (g r))" if "r \<in> set (sd_runs d)" for r
    using rw that unfolding rewritten_def by blast+
  have fg: "run_ok (f s) (g r)" if "s \<in> set (sd_schedules d)" "r \<in> set (sd_runs d)" "ar_schedule r = as_id s" for s r
    using rw that unfolding rewritten_def by blast
  have maps: "sd_schedules d' = map f (sd_schedules d)" "sd_runs d' = map g (sd_runs d)"
    using rw unfolding rewritten_def by blast+
  have keys: "map as_id (sd_schedules d') = map as_id (sd_schedules d)" "map ar_id (sd_runs d') = map ar_id (sd_runs d)"
      "map run_key (sd_runs d') = map run_key (sd_runs d)"
    unfolding maps using f g by (simp_all add: same_run_columns_def run_key_def)
  have lease: "leases s r" if "s \<in> set (sd_schedules d)" "r \<in> set (sd_runs d)" "leases (f s) (g r)" for s r
    using f(3) [OF that(1)] g(1) [OF that(2)] that(3) by (simp add: leases_def same_run_columns_def)
  show "schedules_ok d'"
    unfolding schedules_ok_def schedule_rows.pk_def run_rows.pk_def keys
  proof (intro conjI ballI impI)
    show "distinct (map as_id (sd_schedules d))" "distinct (map ar_id (sd_runs d))" "distinct (map run_key (sd_runs d))"
      using ok by (simp_all add: schedules_ok_def schedule_rows.pk_def run_rows.pk_def)
  next
    fix s assume "s \<in> set (sd_schedules d')"
    then show "schedule_checks s" unfolding maps using f(2) by auto
  next
    fix r assume "r \<in> set (sd_runs d')"
    then obtain r0 where r0: "r0 \<in> set (sd_runs d)" "r = g r0" unfolding maps by auto
    from run_has_schedule [OF ok r0(1)] obtain s where "s \<in> set (sd_schedules d)" "as_id s = ar_schedule r0" by blast
    with f(1) g(1) [OF r0(1)] r0(2) show "\<exists>s\<in>set (sd_schedules d'). as_id s = ar_schedule r"
      unfolding maps by (auto simp: same_run_columns_def)
  next
    fix s r assume "s \<in> set (sd_schedules d')" "r \<in> set (sd_runs d')" "ar_schedule r = as_id s"
    then obtain s0 r0 where "s0 \<in> set (sd_schedules d)" "s = f s0" "r0 \<in> set (sd_runs d)" "r = g r0"
      unfolding maps by auto
    with \<open>ar_schedule r = as_id s\<close> f(1) g(1) fg show "run_ok s r" by (auto simp: same_run_columns_def)
  next
    fix s r r' assume s: "s \<in> set (sd_schedules d')" and r: "r \<in> set (sd_runs d')" "r' \<in> set (sd_runs d')"
      and of: "ar_schedule r = as_id s" "ar_schedule r' = as_id s" and held: "leases s r" "leases s r'"
    obtain s0 where s0: "s0 \<in> set (sd_schedules d)" "s = f s0" using s unfolding maps by auto
    obtain r0 where r0: "r0 \<in> set (sd_runs d)" "r = g r0" using r(1) unfolding maps by auto
    obtain r1 where r1: "r1 \<in> set (sd_runs d)" "r' = g r1" using r(2) unfolding maps by auto
    have "ar_schedule r0 = as_id s0" "ar_schedule r1 = as_id s0"
      using of s0 r0 r1 f(1) g(1) by (auto simp: same_run_columns_def)
    moreover have "leases s0 r0" "leases s0 r1" using held lease s0 r0 r1 by auto
    ultimately have "r0 = r1" using one_leased_run [OF ok s0(1) r0(1) r1(1)] by blast
    then show "r = r'" using r0 r1 by simp
  qed
  show "simulates d d'"
    unfolding simulates_def
  proof
    fix occ
    have "first_row (\<lambda>r. run_key r = occ) (sd_runs d') = map_option g (first_row (\<lambda>r. run_key r = occ) (sd_runs d))"
      unfolding maps by (rule first_row_map) (use g(1) in \<open>auto simp: same_run_columns_def run_key_def\<close>)
    then show "occurrence_steps (phase_in d occ) (phase_in d' occ)"
      by (auto simp: phase_in_def advances_def [symmetric] dest!: first_row_Some intro!: g(2) split: option.split)
  qed
qed

text \<open>An update of schedules alone that touches no lease of a run in flight.\<close>

lemma update_where_map: "update_where P f rows = map (\<lambda>r. if P r then f r else r) rows"
  by (simp add: update_where_def)

lemma same_run_columns_refl [simp]: "same_run_columns r r" by (simp add: same_run_columns_def)

lemma rewrite_schedules:
  assumes ok: "schedules_ok d"
    and "sd_schedules d' = update_where P f (sd_schedules d)" "sd_runs d' = sd_runs d"
    and f: "\<And>s. s \<in> set (sd_schedules d) \<Longrightarrow> P s \<Longrightarrow> as_id (f s) = as_id s \<and> schedule_checks (f s) \<and>
        (as_status (f s) = S_leased \<longrightarrow> as_status s = S_leased \<and> as_lease (f s) = as_lease s)"
    and fg: "\<And>s r. s \<in> set (sd_schedules d) \<Longrightarrow> P s \<Longrightarrow> r \<in> set (sd_runs d) \<Longrightarrow> ar_schedule r = as_id s \<Longrightarrow>
        run_ok s r \<Longrightarrow> run_ok (f s) r"
  shows "rewritten d d' (\<lambda>s. if P s then f s else s) (\<lambda>r. r)"
  unfolding rewritten_def using assms(2,3) f fg run_okI [OF ok] row_checks [OF ok]
  by (auto simp: update_where_map)

lemma rewrite_runs:
  assumes ok: "schedules_ok d"
    and "sd_schedules d' = sd_schedules d" "sd_runs d' = update_where P g (sd_runs d)"
    and g: "\<And>r. r \<in> set (sd_runs d) \<Longrightarrow> P r \<Longrightarrow> same_run_columns r (g r) \<and> advances (ar_status r) (ar_status (g r))"
    and fg: "\<And>s r. s \<in> set (sd_schedules d) \<Longrightarrow> r \<in> set (sd_runs d) \<Longrightarrow> P r \<Longrightarrow> ar_schedule r = as_id s \<Longrightarrow>
        run_ok s r \<Longrightarrow> run_ok s (g r)"
  shows "rewritten d d' (\<lambda>s. s) (\<lambda>r. if P r then g r else r)"
  unfolding rewritten_def using assms(2,3) g fg run_okI [OF ok] row_checks [OF ok]
  by (auto simp: update_where_map)

text \<open>A schedule that holds no lease has no run in flight.\<close>

lemma idle_run_ok: "run_ok s r \<Longrightarrow> as_status s \<noteq> S_leased \<Longrightarrow> as_status s' \<noteq> S_leased \<Longrightarrow> run_ok s' r"
  by (auto simp: run_ok_def leases_def)

lemma claimed_fails: "ar_status r = Run_claimed \<Longrightarrow> run_ok s r \<Longrightarrow> \<not> leases s r \<Longrightarrow> run_ok s (failed_run code now r)"
  by (auto simp: run_ok_def leases_def failed_run_def in_flight_def)

lemma failed_run_columns [simp]:
  "same_run_columns r (failed_run code now r)" "ar_status (failed_run code now r) = Run_failed"
  by (simp_all add: failed_run_def same_run_columns_def)

end
