(* ===== verification/Agent_Schedule_Steps.thy ===== *)
theory Agent_Schedule_Steps
  imports Agent_Schedule_Invariant
begin

text \<open>
  Each operation keeps the invariant and moves occurrences only as the abstract machine allows. A job
  that was handed out keeps naming the run of its lease for as long as the lease is held.
\<close>

definition job_ok :: "schedule_db \<Rightarrow> dispatch_job \<Rightarrow> bool" where
  "job_ok d job \<longleftrightarrow>
     (\<forall>s\<in>set (sd_schedules d). held_schedule (dj_id job) (dj_token job) s \<longrightarrow> (\<exists>r\<in>set (sd_runs d). run_of_job job r))"

definition run_columns :: "agent_run \<Rightarrow> string \<times> string \<times> string" where
  "run_columns r = (ar_id r, ar_schedule r, ar_lease r)"

definition evolves :: "schedule_db \<Rightarrow> schedule_db \<Rightarrow> bool" where
  "evolves d d' \<longleftrightarrow>
     schedules_ok d' \<and> simulates d d' \<and> (\<forall>job. job_ok d job \<longrightarrow> job_ok d' job) \<and>
     map run_columns (sd_runs d') = map run_columns (sd_runs d) \<and>
     as_id ` set (sd_schedules d') = as_id ` set (sd_schedules d)"

lemma evolves_refl: "schedules_ok d \<Longrightarrow> evolves d d" by (simp add: evolves_def)

lemma evolves_trans: "evolves d d' \<Longrightarrow> evolves d' d'' \<Longrightarrow> evolves d d''"
  unfolding evolves_def using simulates_trans by (metis (no_types, lifting))

lemma rewritten_evolves:
  assumes ok: "schedules_ok d" and rw: "rewritten d d' f g"
  shows "evolves d d'"
proof -
  have "job_ok d' job" if job: "job_ok d job" for job
    unfolding job_ok_def
  proof (intro ballI impI)
    fix s assume "s \<in> set (sd_schedules d')" and held: "held_schedule (dj_id job) (dj_token job) s"
    then obtain s0 where s0: "s0 \<in> set (sd_schedules d)" "s = f s0" using rw unfolding rewritten_def by auto
    then have "held_schedule (dj_id job) (dj_token job) s0"
      using rw held unfolding rewritten_def held_schedule_def by auto
    with job s0(1) obtain r where "r \<in> set (sd_runs d)" "run_of_job job r" unfolding job_ok_def by blast
    moreover from this have "run_of_job job (g r)" "g r \<in> set (sd_runs d')"
      using rw unfolding rewritten_def run_of_job_def same_run_columns_def by auto
    ultimately show "\<exists>r\<in>set (sd_runs d'). run_of_job job r" by blast
  qed
  moreover have "map run_columns (sd_runs d') = map run_columns (sd_runs d)"
    using rw by (auto simp: rewritten_def same_run_columns_def run_columns_def)
  moreover have "map as_id (sd_schedules d') = map as_id (sd_schedules d)"
    using rw by (simp add: rewritten_def)
  then have "as_id ` set (sd_schedules d') = as_id ` set (sd_schedules d)" by (metis list.set_map)
  ultimately show ?thesis using rewritten_ok [OF ok rw] by (simp add: evolves_def)
qed

lemma evolves_same: "schedules_ok d \<Longrightarrow> sd_schedules d' = sd_schedules d \<Longrightarrow> sd_runs d' = sd_runs d \<Longrightarrow> evolves d d'"
  by (simp add: evolves_def schedules_ok_def simulates_def phase_in_def job_ok_def)

lemmas schedule_rewrites = failed_schedule_def exhausted_schedule_def recovered_schedule_def revoked_schedule_def
  leased_schedule_def s_acquire_def started_schedule_def ended_schedule_def rearmed_schedule_def requested_schedule_def

lemma schedule_rewrite_ids [simp]:
  "as_id (failed_schedule code now s) = as_id s" "as_id (exhausted_schedule now s) = as_id s"
  "as_id (recovered_schedule now s) = as_id s" "as_id (revoked_schedule now s) = as_id s"
  "as_id (leased_schedule token now ms s) = as_id s" "as_id (started_schedule now s) = as_id s"
  "as_id (ended_schedule now e s) = as_id s" "as_id (rearmed_schedule n t now e s) = as_id s"
  "as_id (requested_schedule now s) = as_id s"
  by (simp_all add: schedule_rewrites)

lemma idle_rewrites [simp]:
  "as_status (failed_schedule code now s) = S_failed" "as_status (exhausted_schedule now s) = S_failed"
  "as_status (recovered_schedule now s) = S_active" "as_status (revoked_schedule now s) = S_failed"
  "as_status (ended_schedule now e s) \<noteq> S_leased" "as_status (rearmed_schedule n t now e s) = S_active"
  "as_status (requested_schedule now s) = S_active"
  by (simp_all add: schedule_rewrites)

text \<open>The \<open>CHECK\<close> constraints hold again after every rewriting.\<close>

definition same_plan :: "agent_schedule \<Rightarrow> agent_schedule \<Rightarrow> bool" where
  "same_plan s s' \<longleftrightarrow>
     as_title s' = as_title s \<and> as_request s' = as_request s \<and> as_prompt s' = as_prompt s \<and>
     as_timezone s' = as_timezone s \<and> as_chat_type s' = as_chat_type s \<and> as_thread s' = as_thread s \<and>
     as_topic s' = as_topic s \<and> as_window s' = as_window s \<and> as_scope s' = as_scope s \<and> as_owner s' = as_owner s \<and>
     as_group s' = as_group s \<and> as_tools s' = as_tools s \<and> as_interval s' = as_interval s \<and> as_days s' = as_days s \<and>
     as_kind s' = as_kind s \<and> as_anchor_at s' = as_anchor_at s"

lemma same_plan_checks:
  "same_plan s s' \<Longrightarrow> schedule_checks s \<Longrightarrow> 0 \<le> as_occurrence s' \<Longrightarrow> 0 \<le> as_attempts s' \<Longrightarrow> lease_shape s' \<Longrightarrow> schedule_checks s'"
proof -
  assume plan: "same_plan s s'" and checks: "schedule_checks s" "0 \<le> as_occurrence s'" "0 \<le> as_attempts s'" "lease_shape s'"
  have "scope_shape s' = scope_shape s"
    using plan by (cases "as_scope s") (simp_all add: scope_shape_def same_plan_def)
  moreover have "recurrence_shape s' = recurrence_shape s"
    using plan by (cases "as_days s") (simp_all add: recurrence_shape_def same_plan_def)
  ultimately show ?thesis using plan checks unfolding schedule_checks_def same_plan_def by simp
qed

lemma same_plan_rewrites [simp]:
  "same_plan s (failed_schedule code now s)" "same_plan s (exhausted_schedule now s)"
  "same_plan s (recovered_schedule now s)" "same_plan s (revoked_schedule now s)"
  "same_plan s (leased_schedule token now ms s)" "same_plan s (started_schedule now s)"
  "same_plan s (ended_schedule now e s)" "same_plan s (rearmed_schedule n t now e s)"
  "same_plan s (requested_schedule now s)"
  by (simp_all add: schedule_rewrites same_plan_def)

lemma checks_kept:
  assumes "schedule_checks s"
  shows "schedule_checks (failed_schedule code now s)" "schedule_checks (ended_schedule now e s)"
    "as_dispatch s = None \<Longrightarrow> schedule_checks (exhausted_schedule now s)"
    "as_dispatch s = None \<Longrightarrow> schedule_checks (recovered_schedule now s)"
    "as_status s \<noteq> S_leased \<Longrightarrow> schedule_checks (revoked_schedule now s)"
    "schedule_checks (leased_schedule token now ms s)"
    "as_status s = S_leased \<Longrightarrow> schedule_checks (started_schedule now s)"
    "as_occurrence s < n \<Longrightarrow> schedule_checks (rearmed_schedule n t now e s)"
    "as_status s \<noteq> S_leased \<Longrightarrow> schedule_checks (requested_schedule now s)"
  using assms
  by (auto intro!: same_plan_checks [OF _ assms]) (simp_all add: schedule_checks_def lease_shape_def schedule_rewrites)

section \<open>The loops over closed rows\<close>

lemma close_ambiguous_rows:
  "sd_schedules (foldl (close_ambiguous now) d rows) = sd_schedules d \<and>
   sd_runs (foldl (close_ambiguous now) d rows) = update_each open_run_of (\<lambda>_. ambiguous_run now) rows (sd_runs d)"
  by (induction rows arbitrary: d) (simp_all add: close_ambiguous_def drop_snapshots_def update_runs_def)

lemma close_exhausted_rows:
  "sd_schedules (foldl (close_exhausted now) d rows) = sd_schedules d \<and>
   sd_runs (foldl (close_exhausted now) d rows) =
     update_each unstarted_run_of (\<lambda>_. failed_run ''AGENT_SCHEDULE_ATTEMPTS_EXHAUSTED'' now) rows (sd_runs d)"
  by (induction rows arbitrary: d) (simp_all add: close_exhausted_def drop_snapshots_def update_runs_def Let_def)

lemma close_revoked_rows:
  "sd_schedules (foldl (close_revoked now) d rows) = sd_schedules d \<and>
   sd_runs (foldl (close_revoked now) d rows) =
     update_each unstarted_run_of (\<lambda>_. failed_run ''AGENT_SCHEDULE_DESTINATION_REVOKED'' now) rows (sd_runs d)"
  by (induction rows arbitrary: d) (simp_all add: close_revoked_def drop_snapshots_def update_runs_def)

text \<open>
  Closing schedules together with their runs: the rewritten schedules hold no lease, and of the runs only those
  the loop's statement selects are closed, each by its own schedule.
\<close>

lemma rewrite_closing:
  assumes ok: "schedules_ok d"
    and schedules: "sd_schedules d' = update_where P f (sd_schedules d)"
    and runs: "sd_runs d' = update_each Q (\<lambda>_. g) (filter P (sd_schedules d)) (sd_runs d)"
    and f: "\<And>s. s \<in> set (sd_schedules d) \<Longrightarrow> P s \<Longrightarrow> as_id (f s) = as_id s \<and> schedule_checks (f s) \<and> as_status (f s) \<noteq> S_leased"
    and Q: "\<And>s r. Q s r \<Longrightarrow> ar_schedule r = as_id s" "\<And>s r. \<not> Q s (g r)"
    and g: "\<And>s r. s \<in> set (sd_schedules d) \<Longrightarrow> P s \<Longrightarrow> r \<in> set (sd_runs d) \<Longrightarrow> Q s r \<Longrightarrow> run_ok s r \<Longrightarrow>
        same_run_columns r (g r) \<and> advances (ar_status r) (ar_status (g r)) \<and> terminal (ar_status (g r))"
    and rest: "\<And>s r. s \<in> set (sd_schedules d) \<Longrightarrow> P s \<Longrightarrow> r \<in> set (sd_runs d) \<Longrightarrow> ar_schedule r = as_id s \<Longrightarrow> run_ok s r \<Longrightarrow>
        in_flight r \<Longrightarrow> Q s r"
  shows "\<exists>f' g'. rewritten d d' f' g'"
proof -
  let ?rows = "filter P (sd_schedules d)"
  let ?f = "\<lambda>s. if P s then f s else s"
  let ?g = "through_each Q (\<lambda>_. g) ?rows"
  have cases: "(\<exists>s\<in>set ?rows. Q s r \<and> ?g r = g r) \<or> (\<forall>s\<in>set ?rows. \<not> Q s r) \<and> ?g r = r" for r
    by (rule through_each_cases) (rule Q(2))
  have run: "run_ok (?f s) (?g r)" if s: "s \<in> set (sd_schedules d)" and r: "r \<in> set (sd_runs d)" "ar_schedule r = as_id s" for s r
  proof -
    have own: "s' = s" if "s' \<in> set ?rows" "Q s' r" for s'
      using that Q(1) [OF that(2)] r(2) s same_schedule [OF ok, of s' s] by simp
    note before = run_okI [OF ok s r]
    show ?thesis
    proof (cases "P s")
      case True
      from cases [of r] show ?thesis
      proof
        assume "\<exists>s'\<in>set ?rows. Q s' r \<and> ?g r = g r"
        then have "Q s r" "?g r = g r" using own by auto
        with g [OF s True r(1) _ before] f [OF s True] True show ?thesis
          by (cases "ar_status (g r)") (auto simp: run_ok_def leases_def in_flight_def)
      next
        assume no: "(\<forall>s\<in>set ?rows. \<not> Q s r) \<and> ?g r = r"
        then have "\<not> in_flight r" using rest [OF s True r before] s True by auto
        with no before f [OF s True] True show ?thesis by (auto simp: run_ok_def leases_def)
      qed
    next
      case False
      then have "\<forall>s'\<in>set ?rows. \<not> Q s' r" using own by fastforce
      with cases [of r] have "?g r = r" by blast
      with before False show ?thesis by simp
    qed
  qed
  have "same_run_columns r (?g r) \<and> advances (ar_status r) (ar_status (?g r))" if r: "r \<in> set (sd_runs d)" for r
    using cases [of r]
  proof
    assume "\<exists>s\<in>set ?rows. Q s r \<and> ?g r = g r"
    then obtain s where s: "s \<in> set (sd_schedules d)" "P s" "Q s r" "?g r = g r" by auto
    with g [OF s(1,2) r s(3) run_okI [OF ok s(1) r Q(1) [OF s(3)]]] show ?thesis by simp
  qed simp
  then have "rewritten d d' ?f ?g"
    unfolding rewritten_def schedules runs update_where_map update_each_map
    using f row_checks [OF ok] run by auto
  then show ?thesis by blast
qed

lemma expired_idle: "\<lbrakk>run_ok s r; in_flight r; as_dispatch s = None\<rbrakk> \<Longrightarrow> False"
  by (auto simp: run_ok_def)

lemma closes_rows [simp]:
  "sd_schedules (update_schedules P f d) = update_where P f (sd_schedules d)" "sd_runs (update_schedules P f d) = sd_runs d"
  "sd_schedules (update_runs R g d) = sd_schedules d" "sd_runs (update_runs R g d) = update_where R g (sd_runs d)"
  "sd_schedules (record_schedule_failures code rows d) = sd_schedules d"
  "sd_runs (record_schedule_failures code rows d) = sd_runs d"
  "sd_schedules (drop_snapshots R d) = sd_schedules d" "sd_runs (drop_snapshots R d) = sd_runs d"
  "sd_schedules (drop_snapshot run d) = sd_schedules d" "sd_runs (drop_snapshot run d) = sd_runs d"
  by (simp_all add: update_schedules_def update_runs_def record_schedule_failures_def drop_snapshots_def drop_snapshot_def)

lemma expire_handoffs_evolves:
  assumes ok: "schedules_ok d"
  shows "evolves d (expire_handoffs now d)"
proof -
  let ?P = "handoff_expired now d"
  have "\<exists>f g. rewritten d (expire_handoffs now d) f g"
  proof (rule rewrite_closing [OF ok, where P = ?P and f = "failed_schedule ''AGENT_SCHEDULE_DELIVERY_AMBIGUOUS'' now"
        and Q = open_run_of and g = "ambiguous_run now"])
    show "sd_schedules (expire_handoffs now d) =
        update_where ?P (failed_schedule ''AGENT_SCHEDULE_DELIVERY_AMBIGUOUS'' now) (sd_schedules d)"
      by (simp add: expire_handoffs_def Let_def close_ambiguous_rows)
    show "sd_runs (expire_handoffs now d) = update_each open_run_of (\<lambda>_. ambiguous_run now) (filter ?P (sd_schedules d)) (sd_runs d)"
      by (simp add: expire_handoffs_def Let_def close_ambiguous_rows)
  next
    fix s assume "s \<in> set (sd_schedules d)"
    then show "as_id (failed_schedule ''AGENT_SCHEDULE_DELIVERY_AMBIGUOUS'' now s) = as_id s \<and>
        schedule_checks (failed_schedule ''AGENT_SCHEDULE_DELIVERY_AMBIGUOUS'' now s) \<and>
        as_status (failed_schedule ''AGENT_SCHEDULE_DELIVERY_AMBIGUOUS'' now s) \<noteq> S_leased"
      using checks_kept(1) row_checks [OF ok] by simp
  next
    fix s r assume "open_run_of s r"
    then show "ar_schedule r = as_id s" by (simp add: open_run_of_def)
  next
    fix s r show "\<not> open_run_of s (ambiguous_run now r)" by (simp add: open_run_of_def ambiguous_run_def)
  next
    fix s r assume "?P s" "open_run_of s r" "run_ok s r"
    then have "ar_status r = Run_dispatching"
      by (auto simp: handoff_expired_def schedule_lease_expired_def open_run_of_def run_ok_def leases_def)
    then show "same_run_columns r (ambiguous_run now r) \<and> advances (ar_status r) (ar_status (ambiguous_run now r)) \<and>
        terminal (ar_status (ambiguous_run now r))"
      by (simp add: ambiguous_run_def same_run_columns_def)
  next
    fix s r assume s: "s \<in> set (sd_schedules d)" and P: "?P s" and r: "r \<in> set (sd_runs d)" "ar_schedule r = as_id s"
      and flight: "run_ok s r" "in_flight r"
    from P obtain r0 where r0: "r0 \<in> set (sd_runs d)" "ar_schedule r0 = as_id s" "Some (ar_lease r0) = as_lease s"
        "ar_status r0 = Run_dispatching" "as_status s = S_leased"
      by (auto simp: handoff_expired_def schedule_lease_expired_def)
    have "leases s r0" using r0(3,5) by (simp add: leases_def)
    moreover have "leases s r" using flight by (simp add: run_ok_def)
    ultimately have "r = r0" using one_leased_run [OF ok s r(1) r0(1)] r(2) r0(2) by blast
    with r0 show "open_run_of s r" by (simp add: open_run_of_def)
  qed
  then show ?thesis using rewritten_evolves [OF ok] by blast
qed

lemma unstarted_closes:
  assumes ok: "schedules_ok d"
    and "sd_schedules d' = update_where P f (sd_schedules d)"
    "sd_runs d' = update_each unstarted_run_of (\<lambda>_. failed_run code now) (filter P (sd_schedules d)) (sd_runs d)"
    and f: "\<And>s. s \<in> set (sd_schedules d) \<Longrightarrow> P s \<Longrightarrow> as_id (f s) = as_id s \<and> schedule_checks (f s) \<and> as_status (f s) \<noteq> S_leased"
    and idle: "\<And>s. P s \<Longrightarrow> as_dispatch s = None \<or> as_status s \<noteq> S_leased"
  shows "evolves d d'"
proof -
  have "\<exists>f g. rewritten d d' f g"
  proof (rule rewrite_closing [OF ok assms(2,3)])
    fix s r assume "unstarted_run_of s r"
    then show "ar_schedule r = as_id s" by (simp add: unstarted_run_of_def)
  next
    fix s r show "\<not> unstarted_run_of s (failed_run code now r)" by (simp add: unstarted_run_of_def)
  next
    fix s r assume "unstarted_run_of s r"
    then show "same_run_columns r (failed_run code now r) \<and> advances (ar_status r) (ar_status (failed_run code now r)) \<and>
        terminal (ar_status (failed_run code now r))"
      by (simp add: unstarted_run_of_def)
  next
    fix s r assume "P s" "run_ok s r" "in_flight r"
    with idle [of s] have False by (auto simp: run_ok_def leases_def)
    then show "unstarted_run_of s r" ..
  qed (use f in blast)
  then show ?thesis using rewritten_evolves [OF ok] by blast
qed

lemma fail_exhausted_evolves: "schedules_ok d \<Longrightarrow> evolves d (fail_exhausted_schedules now d)"
  by (rule unstarted_closes [where P = "lease_exhausted now" and f = "exhausted_schedule now"
        and code = "''AGENT_SCHEDULE_ATTEMPTS_EXHAUSTED''" and now = now])
    (auto simp: fail_exhausted_schedules_def Let_def close_exhausted_rows lease_exhausted_def
      intro: checks_kept row_checks)

lemma fail_revoked_evolves: "schedules_ok d \<Longrightarrow> evolves d (fail_revoked_schedules now d)"
  by (rule unstarted_closes [where P = "\<lambda>s. as_status s = S_active \<and> destination_revoked d s" and f = "revoked_schedule now"
        and code = "''AGENT_SCHEDULE_DESTINATION_REVOKED''" and now = now])
    (auto simp: fail_revoked_schedules_def Let_def close_revoked_rows intro: checks_kept row_checks)

lemma recover_leases_evolves: "schedules_ok d \<Longrightarrow> evolves d (recover_leases now d)"
proof -
  assume ok: "schedules_ok d"
  have "rewritten d (recover_leases now d) (\<lambda>s. if lease_recoverable now s then recovered_schedule now s else s) (\<lambda>r. r)"
  proof (rule rewrite_schedules [OF ok])
    fix s assume s: "s \<in> set (sd_schedules d)" "lease_recoverable now s"
    then have "as_dispatch s = None" by (simp add: lease_recoverable_def)
    then show "as_id (recovered_schedule now s) = as_id s \<and> schedule_checks (recovered_schedule now s) \<and>
        (as_status (recovered_schedule now s) = S_leased \<longrightarrow> as_status s = S_leased \<and> as_lease (recovered_schedule now s) = as_lease s)"
      using checks_kept(4) [OF row_checks [OF ok s(1)]] by simp
  next
    fix s r assume "lease_recoverable now s" "run_ok s r"
    then show "run_ok (recovered_schedule now s) r"
      by (auto simp: lease_recoverable_def run_ok_def leases_def)
  qed (simp_all add: recover_leases_def)
  then show ?thesis by (rule rewritten_evolves [OF ok])
qed

lemma evolves_ok: "evolves d d' \<Longrightarrow> schedules_ok d'" by (simp add: evolves_def)

lemma prepare_schedule_claim_evolves:
  assumes ok: "schedules_ok d"
  shows "evolves d (prepare_schedule_claim now d)"
proof -
  let ?d1 = "expire_handoffs now d"
  let ?d2 = "fail_exhausted_schedules now ?d1"
  let ?d3 = "recover_leases now ?d2"
  have 1: "evolves d ?d1" by (rule expire_handoffs_evolves [OF ok])
  have 2: "evolves ?d1 ?d2" by (rule fail_exhausted_evolves [OF evolves_ok [OF 1]])
  have 3: "evolves ?d2 ?d3" by (rule recover_leases_evolves [OF evolves_ok [OF 2]])
  have 4: "evolves ?d3 (fail_revoked_schedules now ?d3)" by (rule fail_revoked_evolves [OF evolves_ok [OF 3]])
  from evolves_trans [OF evolves_trans [OF evolves_trans [OF 1 2] 3] 4] show ?thesis
    unfolding prepare_schedule_claim_def .
qed

section \<open>Claiming\<close>

text \<open>
  A claimed occurrence: the run of the new lease is claimed, its token is new for the schedule, and the
  other runs of the schedule are not in flight, since it was not leased.
\<close>

lemma claimed_run_ok:
  assumes "run_ok s r" "as_status s \<noteq> S_leased" "ar_lease r \<noteq> token"
  shows "run_ok (leased_schedule token now ms s) r"
  using assms by (auto simp: run_ok_def leases_def leased_schedule_def s_acquire_def)

lemma leased_columns [simp]:
  "as_status (leased_schedule token now ms s) = S_leased" "as_lease (leased_schedule token now ms s) = Some token"
  "as_dispatch (leased_schedule token now ms s) = None"
  by (simp_all add: leased_schedule_def s_acquire_def)

definition claim_evolves :: "dispatch_job set \<Rightarrow> string set \<Rightarrow> (string \<Rightarrow> string) \<Rightarrow> schedule_db \<Rightarrow> schedule_db \<Rightarrow> bool" where
  "claim_evolves new ids tokens d d' \<longleftrightarrow>
     schedules_ok d' \<and> simulates d d' \<and>
     (\<forall>job. job_ok d job \<longrightarrow> (dj_id job \<in> ids \<longrightarrow> dj_token job \<noteq> tokens (dj_id job)) \<longrightarrow> job_ok d' job) \<and>
     (\<forall>job\<in>new. dj_id job \<in> ids \<and> job_ok d' job) \<and>
     as_id ` set (sd_schedules d') = as_id ` set (sd_schedules d)"

lemma first_row_snoc:
  "first_row P (rows @ [r]) = (case first_row P rows of Some x \<Rightarrow> Some x | None \<Rightarrow> if P r then Some r else None)"
  by (simp add: first_row_def split: list.split)

text \<open>The claim rewrites the candidate's schedule; how its run is found decides the rest.\<close>

definition claimed_schedule_rows :: "agent_schedule \<Rightarrow> agent_schedule \<Rightarrow> schedule_db \<Rightarrow> agent_schedule list" where
  "claimed_schedule_rows c s' d = map (\<lambda>s. if as_id s = as_id c then s' else s) (sd_schedules d)"

lemma claimed_rows_update:
  assumes ok: "schedules_ok d" and c: "c \<in> set (sd_schedules d)" "as_status c = S_active"
  shows "update_where (\<lambda>s. as_id s = as_id c \<and> as_status s = S_active) f (sd_schedules d) = claimed_schedule_rows c (f c) d"
    "row_count (\<lambda>s. as_id s = as_id c \<and> as_status s = S_active) (sd_schedules d) \<noteq> 0"
  using same_schedule [OF ok _ c(1)] c
  by (auto simp: update_where_def claimed_schedule_rows_def row_count_0_iff intro!: map_cong)

lemma claim_evolvesI:
  assumes ok: "schedules_ok d" and c: "c \<in> set (sd_schedules d)" "as_status c = S_active"
    and s': "as_id s' = as_id c" "schedule_checks s'" "as_status s' = S_leased \<longrightarrow> as_lease s' = Some (tokens (as_id c))"
    and schedules: "sd_schedules d' = claimed_schedule_rows c s' d"
    and ids: "distinct (map ar_id (sd_runs d'))" "distinct (map run_key (sd_runs d'))"
    and others: "\<And>r. r \<in> set (sd_runs d') \<Longrightarrow> ar_schedule r \<noteq> as_id c \<Longrightarrow> r \<in> set (sd_runs d)"
    and own: "\<And>r. r \<in> set (sd_runs d') \<Longrightarrow> ar_schedule r = as_id c \<Longrightarrow> run_ok s' r"
    and single: "\<And>r r'. r \<in> set (sd_runs d') \<Longrightarrow> r' \<in> set (sd_runs d') \<Longrightarrow> ar_schedule r = as_id c \<Longrightarrow> ar_schedule r' = as_id c \<Longrightarrow>
        leases s' r \<Longrightarrow> leases s' r' \<Longrightarrow> r = r'"
    and kept: "\<And>r. r \<in> set (sd_runs d) \<Longrightarrow> ar_schedule r \<noteq> as_id c \<Longrightarrow> r \<in> set (sd_runs d')"
    and sim: "simulates d d'"
    and new: "\<And>job. job \<in> new \<Longrightarrow> dj_id job = as_id c \<and> (\<exists>r\<in>set (sd_runs d'). run_of_job job r)"
  shows "claim_evolves new {as_id c} tokens d d'"
proof -
  have row: "s \<in> set (sd_schedules d') \<Longrightarrow> s = s' \<or> s \<in> set (sd_schedules d) \<and> as_id s \<noteq> as_id c" for s
    unfolding schedules claimed_schedule_rows_def by auto
  have in': "s' \<in> set (sd_schedules d')" using c(1) unfolding schedules claimed_schedule_rows_def by force
  have "schedules_ok d'"
    unfolding schedules_ok_def schedule_rows.pk_def run_rows.pk_def
  proof (intro conjI ballI impI)
    have "map as_id (sd_schedules d') = map as_id (sd_schedules d)"
      unfolding schedules claimed_schedule_rows_def using s'(1) by simp
    then show "distinct (map as_id (sd_schedules d'))" using ok by (simp add: schedules_ok_def schedule_rows.pk_def)
    show "distinct (map ar_id (sd_runs d'))" "distinct (map run_key (sd_runs d'))" by (fact ids)+
  next
    fix s assume "s \<in> set (sd_schedules d')"
    then show "schedule_checks s" using row s'(2) row_checks [OF ok] by blast
  next
    fix r assume r: "r \<in> set (sd_runs d')"
    show "\<exists>s\<in>set (sd_schedules d'). as_id s = ar_schedule r"
    proof (cases "ar_schedule r = as_id c")
      case True
      with in' s'(1) show ?thesis by auto
    next
      case False
      from run_has_schedule [OF ok others [OF r False]] obtain s where "s \<in> set (sd_schedules d)" "as_id s = ar_schedule r" by blast
      with False show ?thesis unfolding schedules claimed_schedule_rows_def by force
    qed
  next
    fix s r assume s: "s \<in> set (sd_schedules d')" and r: "r \<in> set (sd_runs d')" and of: "ar_schedule r = as_id s"
    show "run_ok s r"
    proof (cases "as_id s = as_id c")
      case True
      then have "s = s'" using row [OF s] by auto
      with own r of True show ?thesis by auto
    next
      case False
      then have "s \<in> set (sd_schedules d)" using row [OF s] s'(1) by auto
      with run_okI [OF ok _ others [OF r]] of False show ?thesis by simp
    qed
  next
    fix s r r' assume s: "s \<in> set (sd_schedules d')" and r: "r \<in> set (sd_runs d')" "r' \<in> set (sd_runs d')"
      and of: "ar_schedule r = as_id s" "ar_schedule r' = as_id s" and held: "leases s r" "leases s r'"
    show "r = r'"
    proof (cases "as_id s = as_id c")
      case True
      then have "s = s'" using row [OF s] by auto
      with single r of held s'(1) show ?thesis by auto
    next
      case False
      then have "s \<in> set (sd_schedules d)" using row [OF s] s'(1) by auto
      with one_leased_run [OF ok _ others [OF r(1)] others [OF r(2)]] of held False show ?thesis by simp
    qed
  qed
  moreover have "job_ok d' job" if job: "job_ok d job" "dj_id job = as_id c \<longrightarrow> dj_token job \<noteq> tokens (dj_id job)" for job
    unfolding job_ok_def
  proof (intro ballI impI)
    fix s assume s: "s \<in> set (sd_schedules d')" and held: "held_schedule (dj_id job) (dj_token job) s"
    have other: "as_id s \<noteq> as_id c"
    proof
      assume "as_id s = as_id c"
      then have "s = s'" using row [OF s] by auto
      with held s'(1,3) job(2) show False by (auto simp: held_schedule_def)
    qed
    then have "s \<in> set (sd_schedules d)" using row [OF s] s'(1) by auto
    with job(1) held obtain r where r: "r \<in> set (sd_runs d)" "run_of_job job r" unfolding job_ok_def by blast
    then have "r \<in> set (sd_runs d')" using kept other held by (simp add: run_of_job_def held_schedule_def)
    with r(2) show "\<exists>r\<in>set (sd_runs d'). run_of_job job r" by blast
  qed
  moreover have "dj_id job = as_id c \<and> job_ok d' job" if "job \<in> new" for job
    using new [OF that] by (auto simp: job_ok_def)
  moreover have "map as_id (sd_schedules d') = map as_id (sd_schedules d)"
    unfolding schedules claimed_schedule_rows_def using s'(1) by simp
  then have "as_id ` set (sd_schedules d') = as_id ` set (sd_schedules d)" by (metis list.set_map)
  ultimately show ?thesis using sim by (simp add: claim_evolves_def)
qed

lemma upsert_cases:
  assumes "upsert_run uuid token now c d = (found, d')"
  obtains (fresh) "first_row (same_occurrence c) (sd_runs d) = None" "found = Some uuid"
      "d' = d\<lparr>sd_runs := sd_runs d @ [new_run uuid token now c]\<rparr>"
  | (again) r where "first_row (same_occurrence c) (sd_runs d) = Some r" "ar_status r = Run_claimed" "found = Some (ar_id r)"
      "d' = update_runs (same_occurrence c) (reclaimed_run token now) d"
  | (conflict) "found = None" "d' = d"
  using assms by (auto simp: upsert_run_def split: option.splits if_splits)

lemma same_occurrence_key: "same_occurrence c r \<longleftrightarrow> run_key r = (as_id c, occurrence_of c)"
  by (auto simp: same_occurrence_def run_key_def)

lemma one_occurrence:
  "schedules_ok d \<Longrightarrow> r \<in> set (sd_runs d) \<Longrightarrow> r' \<in> set (sd_runs d) \<Longrightarrow> run_key r = run_key r' \<Longrightarrow> r = r'"
  by (auto simp: schedules_ok_def distinct_map inj_on_def)

lemma unleased: "as_status s \<noteq> S_leased \<Longrightarrow> \<not> leases s r" by (simp add: leases_def)

definition job_identity :: "claimed_schedule \<Rightarrow> dispatch_job" where
  "job_identity j = \<lparr>dj_id = cs_id j, dj_token = cs_token j, dj_run = cs_run j\<rparr>"

definition fresh_for :: "(string \<Rightarrow> string) \<Rightarrow> (string \<Rightarrow> string) \<Rightarrow> string set \<Rightarrow> schedule_db \<Rightarrow> bool" where
  "fresh_for tokens uuids ids d \<longleftrightarrow>
     (\<forall>r\<in>set (sd_runs d). ar_schedule r \<in> ids \<longrightarrow> ar_lease r \<noteq> tokens (ar_schedule r)) \<and>
     inj_on uuids ids \<and> uuids ` ids \<inter> ar_id ` set (sd_runs d) = {}"

text \<open>What a claim leaves alone: the rows of other schedules.\<close>

definition touches :: "string set \<Rightarrow> (string \<Rightarrow> string) \<Rightarrow> schedule_db \<Rightarrow> schedule_db \<Rightarrow> bool" where
  "touches ids uuids d d' \<longleftrightarrow>
     (\<forall>s. as_id s \<notin> ids \<longrightarrow> (s \<in> set (sd_schedules d') \<longleftrightarrow> s \<in> set (sd_schedules d))) \<and>
     (\<forall>r. ar_schedule r \<notin> ids \<longrightarrow> (r \<in> set (sd_runs d') \<longleftrightarrow> r \<in> set (sd_runs d))) \<and>
     ar_id ` set (sd_runs d') \<subseteq> ar_id ` set (sd_runs d) \<union> uuids ` ids"

lemma claim_one_unfold:
  assumes ok: "schedules_ok d" and c: "c \<in> set (sd_schedules d)" "as_status c = S_active"
  shows "claim_one tokens uuids now ms c d =
    (case upsert_run (uuids (as_id c)) (tokens (as_id c)) now c
        (d\<lparr>sd_schedules := claimed_schedule_rows c (leased_schedule (tokens (as_id c)) now ms c) d\<rparr>) of
       (Some run, d2) \<Rightarrow> (Some (to_schedule_job d (tokens (as_id c)) run c), d2)
     | (None, d2) \<Rightarrow> (None, record_schedule_failures ''AGENT_SCHEDULE_RUN_CONFLICT''
          (filter (held_schedule (as_id c) (tokens (as_id c))) (sd_schedules d2))
          (update_schedules (held_schedule (as_id c) (tokens (as_id c))) (failed_schedule ''AGENT_SCHEDULE_RUN_CONFLICT'' now) d2)))"
  unfolding claim_one_def Let_def if_not_P [OF claimed_rows_update(2) [OF ok c]]
  unfolding update_schedules_def claimed_rows_update(1) [OF ok c]
  by (simp add: to_schedule_job_def author_role_def author_telegram_id_def split: prod.split option.split)

lemma claim_one_evolves:
  assumes ok: "schedules_ok d" and c: "c \<in> set (sd_schedules d)" "as_status c = S_active"
    and fresh: "fresh_for tokens uuids {as_id c} d"
    and claim: "claim_one tokens uuids now ms c d = (job, d')"
  shows "claim_evolves (job_identity ` set_option job) {as_id c} tokens d d'" "touches {as_id c} uuids d d'"
proof -
  let ?t = "tokens (as_id c)"
  let ?L = "leased_schedule ?t now ms c"
  let ?d1 = "d\<lparr>sd_schedules := claimed_schedule_rows c ?L d\<rparr>"
  have keys: "distinct (map ar_id (sd_runs d))" "distinct (map run_key (sd_runs d))"
    using ok by (simp_all add: schedules_ok_def run_rows.pk_def)
  have checks: "schedule_checks c" by (rule row_checks [OF ok c(1)])
  have token: "ar_lease r \<noteq> ?t" if "r \<in> set (sd_runs d)" "ar_schedule r = as_id c" for r
    using fresh that by (auto simp: fresh_for_def)
  have rok: "run_ok c r" if "r \<in> set (sd_runs d)" "ar_schedule r = as_id c" for r
    by (rule run_okI [OF ok c(1) that])
  have otherwise: "s \<in> set (claimed_schedule_rows c s' d) \<longleftrightarrow> s \<in> set (sd_schedules d)"
    if "as_id s \<noteq> as_id c" "as_id s' = as_id c" for s s'
    using that by (auto simp: claimed_schedule_rows_def)
  obtain found d2 where up: "upsert_run (uuids (as_id c)) ?t now c ?d1 = (found, d2)" by fastforce
  note unfolded = claim [unfolded claim_one_unfold [OF ok c], unfolded up prod.case]
  from up have "claim_evolves (job_identity ` set_option job) {as_id c} tokens d d' \<and> touches {as_id c} uuids d d'"
  proof (cases rule: upsert_cases)
    case fresh_run: fresh
    let ?r = "new_run (uuids (as_id c)) ?t now c"
    have job: "job = Some (to_schedule_job d ?t (uuids (as_id c)) c)" and d': "d' = d2"
      using unfolded fresh_run(2) by simp_all
    have none: "first_row (same_occurrence c) (sd_runs d) = None" using fresh_run(1) by simp
    have runs: "sd_runs d' = sd_runs d @ [?r]" "sd_schedules d' = claimed_schedule_rows c ?L d"
      using fresh_run(3) d' by simp_all
    have r: "ar_schedule ?r = as_id c" "run_key ?r = (as_id c, occurrence_of c)" "ar_id ?r = uuids (as_id c)"
      by (simp_all add: new_run_def run_key_def)
    have sim: "simulates d d'"
      unfolding simulates_def
    proof
      fix occ show "occurrence_steps (phase_in d occ) (phase_in d' occ)"
      proof (cases "occ = run_key ?r")
        case True
        have "first_row (\<lambda>x. run_key x = occ) (sd_runs d) = None"
          using none unfolding True r(2) same_occurrence_key [abs_def] .
        then show ?thesis unfolding phase_in_def runs first_row_snoc True
          by (auto simp: new_run_def intro!: r_into_rtranclp occurrence_step.claim)
      next
        case False
        then show ?thesis unfolding phase_in_def runs first_row_snoc by (auto split: option.split)
      qed
    qed
    have "claim_evolves (job_identity ` set_option job) {as_id c} tokens d d'"
    proof (rule claim_evolvesI [OF ok c, where s' = ?L])
      show "distinct (map ar_id (sd_runs d'))"
        unfolding runs using keys(1) fresh r(3) by (auto simp: fresh_for_def)
      show "distinct (map run_key (sd_runs d'))"
        unfolding runs using keys(2) none r(2) by (auto simp: first_row_None_iff same_occurrence_key)
      fix x assume x: "x \<in> set (sd_runs d')" "ar_schedule x = as_id c"
      show "run_ok ?L x"
      proof (cases "x = ?r")
        case True
        then show ?thesis by (simp add: run_ok_def in_flight_def new_run_def)
      next
        case False
        then have "x \<in> set (sd_runs d)" using x(1) unfolding runs by simp
        with rok token x(2) c(2) show ?thesis by (intro claimed_run_ok) auto
      qed
      fix y assume y: "y \<in> set (sd_runs d')" "ar_schedule y = as_id c" and held: "leases ?L x" "leases ?L y"
      have "x = ?r" if "x \<in> set (sd_runs d')" "ar_schedule x = as_id c" "leases ?L x" for x
        using that token unfolding runs by (auto simp: leases_def)
      with x y held show "x = y" by blast
    next
      fix j assume "j \<in> job_identity ` set_option job"
      then have "run_of_job j ?r" "dj_id j = as_id c"
        by (auto simp: job job_identity_def run_of_job_def new_run_def to_schedule_job_def)
      then show "dj_id j = as_id c \<and> (\<exists>r\<in>set (sd_runs d'). run_of_job j r)" unfolding runs by auto
    qed (use runs r checks checks_kept(6) sim in auto)
    moreover have "touches {as_id c} uuids d d'"
      unfolding touches_def runs using r otherwise by auto
    ultimately show ?thesis ..
  next
    case (again r0)
    have job: "job = Some (to_schedule_job d ?t (ar_id r0) c)" and d': "d' = d2"
      using unfolded again(3) by simp_all
    have r0: "r0 \<in> set (sd_runs d)" "same_occurrence c r0" using first_row_Some [OF again(1)] by simp_all
    let ?g = "\<lambda>r. if same_occurrence c r then reclaimed_run ?t now r else r"
    have runs: "sd_runs d' = map ?g (sd_runs d)" "sd_schedules d' = claimed_schedule_rows c ?L d"
      using again(4) d' by (simp_all add: update_where_map)
    have only: "r = r0" if "r \<in> set (sd_runs d)" "same_occurrence c r" for r
      using one_occurrence [OF ok that(1) r0(1)] that(2) r0(2) by (simp add: same_occurrence_key)
    have g: "ar_id (?g r) = ar_id r" "run_key (?g r) = run_key r" "ar_schedule (?g r) = ar_schedule r" for r
      by (simp_all add: reclaimed_run_def run_key_def)
    have g0: "?g r0 = reclaimed_run ?t now r0" using r0(2) by simp
    have sim: "simulates d d'"
      unfolding simulates_def
    proof
      fix occ
      have "first_row (\<lambda>r. run_key r = occ) (sd_runs d') = map_option ?g (first_row (\<lambda>r. run_key r = occ) (sd_runs d))"
        unfolding runs by (rule first_row_map) (simp add: g)
      moreover have stays: "ar_status (?g r) = ar_status r" if "r \<in> set (sd_runs d)" for r
        using only [OF that] again(2) by (auto simp: reclaimed_run_def)
      ultimately show "occurrence_steps (phase_in d occ) (phase_in d' occ)"
        using stays by (cases "first_row (\<lambda>r. run_key r = occ) (sd_runs d)") (simp_all add: phase_in_def first_row_in)
    qed
    have origin: "\<exists>y\<in>set (sd_runs d). x = ?g y" if "x \<in> set (sd_runs d')" for x using that unfolding runs by auto
    have other: "x \<in> set (sd_runs d') \<longleftrightarrow> x \<in> set (sd_runs d)" if x: "ar_schedule x \<noteq> as_id c" for x
    proof
      assume "x \<in> set (sd_runs d')"
      then obtain y where y: "y \<in> set (sd_runs d)" "x = ?g y" using origin by blast
      then have "\<not> same_occurrence c y" using x g(3) [of y] by (auto simp: same_occurrence_def)
      with y show "x \<in> set (sd_runs d)" by simp
    next
      assume "x \<in> set (sd_runs d)"
      then have "?g x \<in> set (sd_runs d')" unfolding runs set_map by (rule imageI)
      moreover have "?g x = x" using x by (simp add: same_occurrence_def)
      ultimately show "x \<in> set (sd_runs d')" by argo
    qed
    have "claim_evolves (job_identity ` set_option job) {as_id c} tokens d d'"
    proof (rule claim_evolvesI [OF ok c, where s' = ?L])
      have "map ar_id (sd_runs d') = map ar_id (sd_runs d)" "map run_key (sd_runs d') = map run_key (sd_runs d)"
        unfolding runs by (simp_all add: g)
      then show "distinct (map ar_id (sd_runs d'))" "distinct (map run_key (sd_runs d'))" using keys by simp_all
      fix x assume x: "x \<in> set (sd_runs d')" "ar_schedule x = as_id c"
      obtain y where y: "y \<in> set (sd_runs d)" "x = ?g y" using origin [OF x(1)] by blast
      show "run_ok ?L x"
      proof (cases "same_occurrence c y")
        case True
        with y show ?thesis by (simp add: run_ok_def in_flight_def reclaimed_run_def)
      next
        case False
        with rok token x(2) y c(2) show ?thesis by (auto intro: claimed_run_ok)
      qed
      fix z assume z: "z \<in> set (sd_runs d')" "ar_schedule z = as_id c" and held: "leases ?L x" "leases ?L z"
      have "x = ?g r0" if x: "x \<in> set (sd_runs d')" "ar_schedule x = as_id c" "leases ?L x" for x
      proof -
        obtain y where y: "y \<in> set (sd_runs d)" "x = ?g y" using origin [OF x(1)] by blast
        have "same_occurrence c y"
        proof (rule ccontr)
          assume "\<not> same_occurrence c y"
          with y x(2,3) token show False by (auto simp: leases_def)
        qed
        with only y show ?thesis by auto
      qed
      with x z held show "x = z" by blast
    next
      fix x assume "x \<in> set (sd_runs d')" "ar_schedule x \<noteq> as_id c"
      then show "x \<in> set (sd_runs d)" using other by simp
    next
      fix x assume "x \<in> set (sd_runs d)" "ar_schedule x \<noteq> as_id c"
      then show "x \<in> set (sd_runs d')" using other by simp
    next
      fix j assume "j \<in> job_identity ` set_option job"
      then have "run_of_job j (?g r0)" "dj_id j = as_id c"
        using r0(2) by (auto simp: job job_identity_def run_of_job_def reclaimed_run_def to_schedule_job_def same_occurrence_def)
      moreover have "?g r0 \<in> set (sd_runs d')" using r0(1) unfolding runs by auto
      ultimately show "dj_id j = as_id c \<and> (\<exists>r\<in>set (sd_runs d'). run_of_job j r)" by blast
    qed (use runs checks checks_kept(6) sim in auto)
    moreover have "touches {as_id c} uuids d d'"
      unfolding touches_def
    proof (intro conjI allI impI)
      fix s :: agent_schedule assume "as_id s \<notin> {as_id c}"
      then show "s \<in> set (sd_schedules d') \<longleftrightarrow> s \<in> set (sd_schedules d)" unfolding runs by (intro otherwise) auto
    next
      fix r :: agent_run assume "ar_schedule r \<notin> {as_id c}"
      then show "r \<in> set (sd_runs d') \<longleftrightarrow> r \<in> set (sd_runs d)"
        using other by simp
    next
      show "ar_id ` set (sd_runs d') \<subseteq> ar_id ` set (sd_runs d) \<union> uuids ` {as_id c}"
        unfolding runs by (auto simp: reclaimed_run_def)
    qed
    ultimately show ?thesis ..
  next
    case conflict
    let ?F = "failed_schedule ''AGENT_SCHEDULE_RUN_CONFLICT'' now ?L"
    have job: "job = None" using unfolded conflict(1) by simp
    have "update_where (held_schedule (as_id c) ?t) (failed_schedule ''AGENT_SCHEDULE_RUN_CONFLICT'' now)
        (claimed_schedule_rows c ?L d) = claimed_schedule_rows c ?F d"
      unfolding claimed_schedule_rows_def update_where_def map_map
      by (rule map_cong) (auto simp: held_schedule_def)
    then have runs: "sd_runs d' = sd_runs d" "sd_schedules d' = claimed_schedule_rows c ?F d"
      using unfolded conflict by (auto simp: closes_rows)
    have sim: "simulates d d'" by (simp add: simulates_def phase_in_def runs)
    have "claim_evolves (job_identity ` set_option job) {as_id c} tokens d d'"
    proof (rule claim_evolvesI [OF ok c, where s' = ?F])
      fix x assume x: "x \<in> set (sd_runs d')" "ar_schedule x = as_id c"
      with rok have "run_ok c x" unfolding runs by blast
      then show "run_ok ?F x" by (rule idle_run_ok) (simp_all add: c(2))
      fix y assume "leases ?F x"
      then show "x = y" by (simp add: leases_def)
    qed (use runs checks checks_kept(1,6) sim keys job in auto)
    moreover have "touches {as_id c} uuids d d'"
      unfolding touches_def runs using otherwise by auto
    ultimately show ?thesis ..
  qed
  then show "claim_evolves (job_identity ` set_option job) {as_id c} tokens d d'" "touches {as_id c} uuids d d'" by blast+
qed

end
