(* ===== verification/Agent_Schedule_Operations.thy ===== *)
theory Agent_Schedule_Operations
  imports Agent_Schedule_Steps
begin

text \<open>
  Every operation on agent schedules as a step of the tables: the sweep over all its candidates, the handoff,
  the outcomes, and what the tools do. The error branches leave the tables as they were.
\<close>

section \<open>The sweep\<close>

lemma fresh_for_subset: "fresh_for tokens uuids ids d \<Longrightarrow> ids' \<subseteq> ids \<Longrightarrow> fresh_for tokens uuids ids' d"
  unfolding fresh_for_def by (meson image_mono inj_on_subset subsetD disjoint_iff)

lemma still_disjoint: "A' \<subseteq> A \<union> {u} \<Longrightarrow> u \<notin> U \<Longrightarrow> U \<inter> A = {} \<Longrightarrow> U \<inter> A' = {}"
  by auto

lemma fresh_for_touched:
  assumes fresh: "fresh_for tokens uuids (insert i ids) d" and i: "i \<notin> ids" and touch: "touches {i} uuids d d'"
  shows "fresh_for tokens uuids ids d'"
  unfolding fresh_for_def
proof (intro conjI ballI impI)
  fix r assume r: "r \<in> set (sd_runs d')" "ar_schedule r \<in> ids"
  then have "ar_schedule r \<notin> {i}" using i by auto
  with touch r(1) have "r \<in> set (sd_runs d)" by (simp add: touches_def)
  with r(2) fresh show "ar_lease r \<noteq> tokens (ar_schedule r)" by (simp add: fresh_for_def)
next
  have "inj_on uuids (insert i ids)" using fresh by (simp add: fresh_for_def)
  then show "inj_on uuids ids" by (simp add: inj_on_insert)
  have "ar_id ` set (sd_runs d') \<subseteq> ar_id ` set (sd_runs d) \<union> {uuids i}" using touch unfolding touches_def by simp
  moreover have "uuids i \<notin> uuids ` ids" using fresh i by (auto simp: fresh_for_def)
  moreover have "uuids ` ids \<inter> ar_id ` set (sd_runs d) = {}" using fresh by (simp add: fresh_for_def)
  ultimately show "uuids ` ids \<inter> ar_id ` set (sd_runs d') = {}" by (rule still_disjoint)
qed

lemma claim_evolves_none: "schedules_ok d \<Longrightarrow> claim_evolves {} ids tokens d d"
  by (simp add: claim_evolves_def)

lemma claim_evolvesD:
  assumes "claim_evolves new ids tokens d d'"
  shows "schedules_ok d'" "simulates d d'" "as_id ` set (sd_schedules d') = as_id ` set (sd_schedules d)"
    "job_ok d job \<Longrightarrow> (dj_id job \<in> ids \<Longrightarrow> dj_token job \<noteq> tokens (dj_id job)) \<Longrightarrow> job_ok d' job"
    "job \<in> new \<Longrightarrow> dj_id job \<in> ids" "job \<in> new \<Longrightarrow> job_ok d' job"
  using assms by (simp_all add: claim_evolves_def)

lemma claim_evolves_next:
  assumes first: "claim_evolves new {i} tokens d d1" and rest: "claim_evolves more' ids tokens d1 d2" and i: "i \<notin> ids"
  shows "claim_evolves (new \<union> more') (insert i ids) tokens d d2"
  unfolding claim_evolves_def
proof (intro conjI allI ballI impI)
  show "schedules_ok d2" by (rule claim_evolvesD(1) [OF rest])
  show "simulates d d2" by (rule simulates_trans [OF claim_evolvesD(2) [OF first] claim_evolvesD(2) [OF rest]])
  show "as_id ` set (sd_schedules d2) = as_id ` set (sd_schedules d)"
    using claim_evolvesD(3) [OF first] claim_evolvesD(3) [OF rest] by simp
next
  fix job assume job: "job_ok d job" "dj_id job \<in> insert i ids \<longrightarrow> dj_token job \<noteq> tokens (dj_id job)"
  then have "job_ok d1 job" by (intro claim_evolvesD(4) [OF first]) auto
  then show "job_ok d2 job" using job(2) by (intro claim_evolvesD(4) [OF rest]) auto
next
  fix job assume job: "job \<in> new \<union> more'"
  show "dj_id job \<in> insert i ids"
    using job claim_evolvesD(5) [OF first, of job] claim_evolvesD(5) [OF rest, of job] by auto
  show "job_ok d2 job"
  proof (cases "job \<in> new")
    case True
    then have "dj_id job \<notin> ids" "job_ok d1 job"
      using claim_evolvesD(5,6) [OF first, of job] i by auto
    then show ?thesis by (intro claim_evolvesD(4) [OF rest]) auto
  next
    case False
    with job show ?thesis by (intro claim_evolvesD(6) [OF rest]) auto
  qed
qed

lemma touches_next:
  assumes "touches {i} uuids d d1" "touches ids uuids d1 d2"
  shows "touches (insert i ids) uuids d d2"
  unfolding touches_def
proof (intro conjI allI impI)
  fix s :: agent_schedule assume "as_id s \<notin> insert i ids"
  then show "s \<in> set (sd_schedules d2) \<longleftrightarrow> s \<in> set (sd_schedules d)" using assms by (simp add: touches_def)
next
  fix r :: agent_run assume "ar_schedule r \<notin> insert i ids"
  then show "r \<in> set (sd_runs d2) \<longleftrightarrow> r \<in> set (sd_runs d)" using assms by (simp add: touches_def)
next
  have "ar_id ` set (sd_runs d2) \<subseteq> ar_id ` set (sd_runs d1) \<union> uuids ` ids"
      "ar_id ` set (sd_runs d1) \<subseteq> ar_id ` set (sd_runs d) \<union> {uuids i}"
    using assms by (simp_all add: touches_def)
  then show "ar_id ` set (sd_runs d2) \<subseteq> ar_id ` set (sd_runs d) \<union> uuids ` insert i ids" by auto
qed

lemma claim_each_evolves:
  assumes "schedules_ok d" "distinct (map as_id cs)" "\<forall>c\<in>set cs. c \<in> set (sd_schedules d) \<and> as_status c = S_active"
    "fresh_for tokens uuids (as_id ` set cs) d" "claim_each tokens uuids now ms cs d = (jobs, d')"
  shows "claim_evolves (job_identity ` set jobs) (as_id ` set cs) tokens d d' \<and> touches (as_id ` set cs) uuids d d'"
  using assms
proof (induction cs arbitrary: d jobs d')
  case Nil
  then show ?case by (simp add: claim_evolves_none touches_def)
next
  case (Cons c cs)
  obtain job d1 where one: "claim_one tokens uuids now ms c d = (job, d1)" by fastforce
  obtain rest d2 where each: "claim_each tokens uuids now ms cs d1 = (rest, d2)" by fastforce
  have jobs: "set jobs = set_option job \<union> set rest" "d' = d2"
    using Cons.prems(5) one each by (auto split: option.splits)
  have c: "c \<in> set (sd_schedules d)" "as_status c = S_active" and notin: "as_id c \<notin> as_id ` set cs"
    using Cons.prems(2,3) by auto
  have fresh: "fresh_for tokens uuids (insert (as_id c) (as_id ` set cs)) d" using Cons.prems(4) by simp
  note first = claim_one_evolves [OF Cons.prems(1) c fresh_for_subset [OF fresh] one, simplified]
  have "claim_evolves (job_identity ` set rest) (as_id ` set cs) tokens d1 d2 \<and> touches (as_id ` set cs) uuids d1 d2"
  proof (rule Cons.IH [OF _ _ _ _ each])
    show "schedules_ok d1" using first(1) by (simp add: claim_evolves_def)
    show "distinct (map as_id cs)" using Cons.prems(2) by simp
    show "fresh_for tokens uuids (as_id ` set cs) d1" by (rule fresh_for_touched [OF fresh notin first(2)])
    show "\<forall>x\<in>set cs. x \<in> set (sd_schedules d1) \<and> as_status x = S_active"
    proof
      fix x assume x: "x \<in> set cs"
      then have "as_id x \<in> as_id ` set cs" by (rule imageI)
      with notin have "as_id x \<noteq> as_id c" by metis
      with x Cons.prems(3) first(2) show "x \<in> set (sd_schedules d1) \<and> as_status x = S_active"
        unfolding touches_def by simp
    qed
  qed
  then show ?case
    using claim_evolves_next [OF first(1) _ notin] touches_next [OF first(2)] unfolding jobs by (simp add: image_Un)
qed

lemma distinct_candidates:
  assumes "schedule_rows.pk (sd_schedules d)"
  shows "distinct (map as_id (claim_candidates locked now n d))"
proof -
  have "distinct (map as_id (filter P (sd_schedules d)))" for P
    using assms unfolding schedule_rows.pk_def by (induction "sd_schedules d" arbitrary: d) (auto simp: distinct_map_filter)
  then have "distinct (map as_id (sort_key key (filter P (sd_schedules d))))" for P and key :: "agent_schedule \<Rightarrow> time \<times> string"
    by (metis distinct_map distinct_sort set_sort)
  then show ?thesis unfolding claim_candidates_def select_ordered_def by (metis distinct_take take_map)
qed

lemma fresh_for_evolves:
  assumes "evolves d d'" "fresh_for tokens uuids ids d"
  shows "fresh_for tokens uuids ids d'"
proof -
  have columns: "run_columns ` set (sd_runs d') = run_columns ` set (sd_runs d)"
    using assms(1) by (metis evolves_def list.set_map)
  have "\<exists>r'\<in>set (sd_runs d). run_columns r = run_columns r'" if "r \<in> set (sd_runs d')" for r
    using columns that by (metis imageE imageI)
  then have leases: "\<exists>r'\<in>set (sd_runs d). ar_schedule r = ar_schedule r' \<and> ar_lease r = ar_lease r'" if "r \<in> set (sd_runs d')" for r
    using that by (fastforce simp: run_columns_def)
  have "fst ` run_columns ` set (sd_runs d') = fst ` run_columns ` set (sd_runs d)" using columns by simp
  then have "ar_id ` set (sd_runs d') = ar_id ` set (sd_runs d)" by (simp add: image_image run_columns_def)
  then show ?thesis using assms(2) leases unfolding fresh_for_def by metis
qed

lemma claim_due_evolves:
  assumes ok: "schedules_ok d" and fresh: "fresh_for tokens uuids UNIV d"
    and claim: "claim_due_schedules locked tokens uuids o' d = (r, d')"
  shows "claim_evolves (case r of Inl _ \<Rightarrow> {} | Inr jobs \<Rightarrow> job_identity ` set jobs) UNIV tokens d d'"
proof (cases "require_schedule_claim_options o'")
  case (Inl e)
  then have "r = Inl e" "d' = d" using claim by (simp_all add: claim_due_schedules_def)
  then show ?thesis using claim_evolves_none [OF ok] by simp
next
  case (Inr u)
  let ?now = "millis (the (cl_now o'))"
  let ?d1 = "prepare_schedule_claim ?now d"
  let ?cs = "claim_candidates locked ?now (nat (number_value (cl_limit o'))) ?d1"
  obtain jobs d2 where each: "claim_each tokens uuids ?now (number_value (cl_lease_ms o')) ?cs ?d1 = (jobs, d2)" by fastforce
  then have r: "r = Inr jobs" "d' = d2"
    using claim Inr by (simp_all add: claim_due_schedules_def run_tx_def Let_def)
  note prep = prepare_schedule_claim_evolves [OF ok, of ?now]
  have ok1: "schedules_ok ?d1" by (rule evolves_ok [OF prep])
  have "claim_evolves (job_identity ` set jobs) (as_id ` set ?cs) tokens ?d1 d2 \<and> touches (as_id ` set ?cs) uuids ?d1 d2"
  proof (rule claim_each_evolves [OF ok1 distinct_candidates _ _ each])
    show "schedule_rows.pk (sd_schedules ?d1)" using ok1 by (simp add: schedules_ok_def)
    show "\<forall>c\<in>set ?cs. c \<in> set (sd_schedules ?d1) \<and> as_status c = S_active"
      by (auto simp: claim_candidates_def claimable_schedule_def dest: set_select_ordered)
    show "fresh_for tokens uuids (as_id ` set ?cs) ?d1"
      by (rule fresh_for_subset [OF fresh_for_evolves [OF prep fresh] subset_UNIV])
  qed
  note claimed = claim_evolvesD [OF conjunct1 [OF this]]
  show ?thesis
    unfolding r sum.case claim_evolves_def
  proof (intro conjI allI ballI impI UNIV_I)
    show "schedules_ok d2" by (rule claimed(1))
    show "simulates d d2" using prep claimed(2) simulates_trans unfolding evolves_def by blast
    show "as_id ` set (sd_schedules d2) = as_id ` set (sd_schedules d)" using prep claimed(3) by (simp add: evolves_def)
  next
    fix job assume "job_ok d job" "dj_id job \<in> UNIV \<longrightarrow> dj_token job \<noteq> tokens (dj_id job)"
    then show "job_ok d2 job" using prep by (intro claimed(4)) (simp_all add: evolves_def)
  qed (rule claimed(6))
qed

section \<open>Transactions\<close>

lemma run_tx_evolves:
  assumes ok: "schedules_ok d" and run: "run_tx body d = (r, d')"
    and body: "\<And>x d1. body d = Commit x d1 \<Longrightarrow> evolves d d1"
  shows "evolves d d'"
  using run body evolves_refl [OF ok] by (cases "body d") (auto simp: run_tx_def)

section \<open>Handing over\<close>

lemma held_leases: "held_schedule (dj_id job) (dj_token job) s \<Longrightarrow> run_of_job job r \<Longrightarrow> ar_schedule r = as_id s \<and> leases s r"
  by (simp add: held_schedule_def run_of_job_def leases_def)

lemma row_count_pos: "row_count P rows = 1 \<Longrightarrow> \<exists>r\<in>set rows. P r"
  by (metis row_count_0_iff zero_neq_one)

text \<open>
  Closing or moving the run of the lease together with its schedule: what both become is stated for
  the leased schedule, and no other row is touched.
\<close>

lemma rewrite_leased:
  assumes ok: "schedules_ok d" and s: "s \<in> set (sd_schedules d)" and r: "r \<in> set (sd_runs d)" "ar_schedule r = as_id s" "leases s r"
    and P: "\<And>s'. s' \<in> set (sd_schedules d) \<Longrightarrow> P s' \<longleftrightarrow> s' = s" and R: "\<And>r'. r' \<in> set (sd_runs d) \<Longrightarrow> R r' \<longleftrightarrow> r' = r"
    and d': "sd_schedules d' = update_where P f (sd_schedules d)" "sd_runs d' = update_where R g (sd_runs d)"
    and f: "as_id (f s) = as_id s" "schedule_checks (f s)" "as_status (f s) = S_leased \<longrightarrow> as_lease (f s) = as_lease s"
    and g: "same_run_columns r (g r)" "advances (ar_status r) (ar_status (g r))" "run_ok (f s) (g r)"
  shows "evolves d d'"
proof (rule rewritten_evolves [OF ok])
  have held: "as_status s = S_leased" "as_lease s = Some (ar_lease r)" using r(3) by (simp_all add: leases_def)
  have run: "run_ok (if P s' then f s' else s') (if R r' then g r' else r')"
    if s': "s' \<in> set (sd_schedules d)" and r': "r' \<in> set (sd_runs d)" "ar_schedule r' = as_id s'" for s' r'
  proof (cases "s' = s")
    case True
    show ?thesis
    proof (cases "r' = r")
      case True
      then show ?thesis using \<open>s' = s\<close> P [OF s'] R [OF r'(1)] g(3) by simp
    next
      case False
      have unleased: "\<not> leases s r'"
        using one_leased_run [OF ok s r(1) r'(1)] r(2,3) r'(2) False \<open>s' = s\<close> by metis
      then have "run_ok (f s) r'"
        using run_okI [OF ok s r'(1)] r'(2) f(3) held \<open>s' = s\<close> by (auto simp: run_ok_def leases_def)
      then show ?thesis using \<open>s' = s\<close> P [OF s'] R [OF r'(1)] False by simp
    qed
  next
    case False
    then have "as_id s' \<noteq> as_id s" using same_schedule [OF ok s' s] by blast
    then have "r' \<noteq> r" using r(2) r'(2) by auto
    then show ?thesis using False P [OF s'] R [OF r'(1)] run_okI [OF ok s' r'] by simp
  qed
  show "rewritten d d' (\<lambda>s. if P s then f s else s) (\<lambda>r. if R r then g r else r)"
    unfolding rewritten_def d' update_where_map
    using P R f g held row_checks [OF ok] run by auto
qed

lemma handoff_columns [simp]:
  "as_lease (started_schedule now s) = as_lease s"
  "same_run_columns r (dispatched_run session now r)" "same_run_columns r (running_run eve now r)"
  "same_run_columns r (settled_run now e r)"
  by (simp_all add: started_schedule_def same_run_columns_def dispatched_run_def running_run_def settled_run_def)

lemma begin_dispatch_evolves:
  assumes ok: "schedules_ok d" and body: "begin_dispatch_body job session now d = Commit x d'"
  shows "evolves d d'"
proof -
  let ?waiting = "\<lambda>s. held_schedule (dj_id job) (dj_token job) s \<and> as_dispatch s = None"
  let ?hit = "\<lambda>s. ?waiting s \<and> live_schedule d s"
  let ?revoked = "\<lambda>s. ?waiting s \<and> as_scope s = Group_scope"
  let ?unstarted = "\<lambda>r. run_of_job job r \<and> ar_status r = Run_claimed"
  have one_schedule: "s = s'" if "?waiting s" "?waiting s'" "s \<in> set (sd_schedules d)" "s' \<in> set (sd_schedules d)" for s s'
    using same_schedule [OF ok that(3,4)] that(1,2) by (simp add: held_schedule_def)
  have one_run: "r = r'" if "?unstarted r" "?unstarted r'" "r \<in> set (sd_runs d)" "r' \<in> set (sd_runs d)" for r r'
    using same_run [OF ok that(3,4)] that(1,2) by (simp add: run_of_job_def)
  show ?thesis
  proof (cases "row_count ?hit (sd_schedules d) = 1")
    case True
    then have single: "row_count ?unstarted (sd_runs d) = 1"
        and d': "d' = update_runs ?unstarted (dispatched_run session now) (update_schedules ?hit (started_schedule now) d)"
      using body by (auto simp: begin_dispatch_body_def Let_def split: if_splits)
    obtain s where s: "s \<in> set (sd_schedules d)" "?hit s" using row_count_pos [OF True] by blast
    obtain r where r: "r \<in> set (sd_runs d)" "?unstarted r" using row_count_pos [OF single] by blast
    have lease: "ar_schedule r = as_id s" "leases s r" using held_leases s(2) r(2) by blast+
    show ?thesis
    proof (rule rewrite_leased [OF ok s(1) r(1) lease, where P = ?hit and R = ?unstarted])
      show "?hit s' \<longleftrightarrow> s' = s" if "s' \<in> set (sd_schedules d)" for s'
        using one_schedule [OF _ conjunct1 [OF s(2)] that s(1)] s(2) by auto
      show "?unstarted r' \<longleftrightarrow> r' = r" if "r' \<in> set (sd_runs d)" for r'
        using one_run [OF _ r(2) that r(1)] r(2) by auto
      show "schedule_checks (started_schedule now s)"
        by (rule checks_kept(7) [OF row_checks [OF ok s(1)]]) (use s(2) in \<open>simp add: held_schedule_def\<close>)
      show "run_ok (started_schedule now s) (dispatched_run session now r)"
        using lease(2) by (simp add: run_ok_def leases_def started_schedule_def dispatched_run_def in_flight_def)
      show "advances (ar_status r) (ar_status (dispatched_run session now r))"
        using r(2) by (simp add: dispatched_run_def)
    qed (simp_all add: d')
  next
    case False
    let ?code = "''AGENT_SCHEDULE_DESTINATION_REVOKED''"
    have "row_count ?revoked (sd_schedules d) \<noteq> 0"
        and d': "sd_schedules d' = update_where ?revoked (failed_schedule ?code now) (sd_schedules d)"
          "sd_runs d' = update_where ?unstarted (failed_run ?code now) (sd_runs d)"
      using body False by (auto simp: begin_dispatch_body_def Let_def split: if_splits)
    then obtain s where s: "s \<in> set (sd_schedules d)" "?revoked s" by (auto simp: row_count_0_iff)
    have other: "\<not> ?unstarted r" if "as_id s' \<noteq> as_id s" "ar_schedule r = as_id s'" for s' :: agent_schedule and r
      using that s(2) by (auto simp: run_of_job_def held_schedule_def)
    have idle: "\<not> in_flight r" if "r \<in> set (sd_runs d)" "ar_schedule r = as_id s" for r
      using run_okI [OF ok s(1) that] s(2) by (auto simp: run_ok_def)
    show ?thesis
    proof (rule rewritten_evolves [OF ok])
      show "rewritten d d' (\<lambda>s. if ?revoked s then failed_schedule ?code now s else s)
          (\<lambda>r. if ?unstarted r then failed_run ?code now r else r)"
        unfolding rewritten_def d' update_where_map
      proof (intro conjI ballI impI refl)
        fix s' r assume s': "s' \<in> set (sd_schedules d)" and r: "r \<in> set (sd_runs d)" "ar_schedule r = as_id s'"
        note before = run_okI [OF ok s' r]
        show "run_ok (if ?revoked s' then failed_schedule ?code now s' else s') (if ?unstarted r then failed_run ?code now r else r)"
        proof (cases "s' = s")
          case True
          then have "\<not> in_flight r" using idle r by simp
          with True s(2) before show ?thesis by (auto simp: run_ok_def leases_def in_flight_def failed_schedule_def)
        next
          case False
          then have "as_id s' \<noteq> as_id s" using same_schedule [OF ok s' s(1)] by blast
          then have "\<not> ?unstarted r" "\<not> ?revoked s'" using other r s(2) by (auto simp: held_schedule_def)
          with before show ?thesis by (simp only: if_False)
        qed
      qed (use row_checks [OF ok] checks_kept(1) in \<open>auto split: if_splits\<close>)
    qed
  qed
qed

lemma mark_running_evolves:
  assumes ok: "schedules_ok d" and run: "mark_agent_schedule_running job session eve now d = (r, d')"
  shows "evolves d d'"
proof -
  let ?hit = "\<lambda>r. run_of_job job r \<and> ar_status r = Run_dispatching \<and> ar_session r = Some session"
  show ?thesis
  proof (cases "d' = d")
    case True
    with evolves_refl [OF ok] show ?thesis by simp
  next
    case False
    then have d': "d' = update_runs ?hit (running_run eve now) d"
      using run by (auto simp: mark_agent_schedule_running_def Let_def split: if_splits)
    show ?thesis
  proof (rule rewritten_evolves [OF ok rewrite_runs [OF ok]])
    show "sd_schedules d' = sd_schedules d" "sd_runs d' = update_where ?hit (running_run eve now) (sd_runs d)"
      by (simp_all add: d')
  next
    fix r assume "?hit r"
    then show "same_run_columns r (running_run eve now r) \<and> advances (ar_status r) (ar_status (running_run eve now r))"
      by (auto simp: running_run_def same_run_columns_def)
  next
    fix s r assume "?hit r" "run_ok s r"
    then show "run_ok s (running_run eve now r)"
      by (auto simp: run_ok_def in_flight_def running_run_def leases_def)
  qed
  qed
qed

section \<open>Outcomes\<close>

lemma settled_status [simp]:
  "ar_status (settled_run now e r) = (if e = None then Run_completed else Run_failed)"
  by (simp add: settled_run_def)

lemma rearmed_lease [simp]: "as_lease (rearmed_schedule n t now e s) = None" "as_lease (ended_schedule now e s) = None"
  by (simp_all add: rearmed_schedule_def ended_schedule_def)

lemma finish_cases:
  assumes "finish_active_agent_schedule_run cal session eve completed e d = Inr (b, d')"
  obtains (nothing) "d' = d" "\<not> b"
  | (settled) s r f where "b" "r \<in> set (sd_runs d)" "active_run d session eve r"
      "s \<in> set (sd_schedules d)" "as_id s = ar_schedule r" "as_status s = S_leased"
      "next_schedule_occurrence cal s (millis completed) = Inr None \<and> f = ended_schedule (millis completed) e \<or>
       (\<exists>n t. next_schedule_occurrence cal s (millis completed) = Inr (Some (n, t)) \<and> as_occurrence s < n \<and>
          millis completed < t \<and> f = rearmed_schedule n t (millis completed) e)"
      "d' = update_schedules (\<lambda>x. as_id x = as_id s) f
         (drop_snapshot (ar_id r) (update_runs (\<lambda>x. ar_id x = ar_id r) (settled_run (millis completed) e) d))"
proof (cases "first_row (active_run d session eve) (sd_runs d)")
  case None
  show ?thesis by (rule nothing) (use None assms in \<open>auto simp: finish_active_agent_schedule_run_def\<close>)
next
  case r: (Some r)
  show ?thesis
  proof (cases "first_row (\<lambda>s. as_id s = ar_schedule r \<and> as_status s = S_leased) (sd_schedules d)")
    case None
    show ?thesis by (rule nothing) (use None r assms in \<open>auto simp: finish_active_agent_schedule_run_def\<close>)
  next
    case s: (Some s)
    note found = first_row_Some [OF r] first_row_Some [OF s]
    from r s assms obtain x where x: "next_schedule_occurrence cal s (millis completed) = Inr x"
      by (auto simp: finish_active_agent_schedule_run_def Let_def split: sum.splits)
    show ?thesis
    proof (cases x)
      case None
      show ?thesis
        by (rule settled [of r s "ended_schedule (millis completed) e"])
          (use None r s x assms found in \<open>auto simp: finish_active_agent_schedule_run_def Let_def\<close>)
    next
      case (Some nt)
      obtain n t where nt: "nt = (n, t)" by fastforce
      have later: "millis completed < t" "as_occurrence s < n"
        using next_occurrence_later [of cal s "millis completed" n t] x Some nt by simp_all
      show ?thesis
        by (rule settled [of r s "rearmed_schedule n t (millis completed) e"])
          (use later r s x Some nt assms found in \<open>auto simp: finish_active_agent_schedule_run_def Let_def\<close>)
    qed
  qed
qed

lemma finish_evolves:
  assumes ok: "schedules_ok d" and finish: "finish_active_agent_schedule_run cal session eve completed e d = Inr (b, d')"
  shows "evolves d d'"
  using finish
proof (cases rule: finish_cases)
  case nothing
  then show ?thesis using evolves_refl [OF ok] by simp
next
  case (settled s r f)
  have running: "ar_status r = Run_running" using settled(3) by (simp add: active_run_def)
  have lease: "leases s r"
    using run_okI [OF ok settled(4,2)] settled(5) running by (simp add: run_ok_def in_flight_def)
  have checks: "schedule_checks (f s)" and idle: "as_id (f s) = as_id s" "as_lease (f s) = None" "as_status (f s) \<noteq> S_leased"
    using settled(7) checks_kept(2,8) [OF row_checks [OF ok settled(4)]] by auto
  show ?thesis
  proof (rule rewrite_leased [OF ok settled(4,2) settled(5) [symmetric] lease,
        where P = "\<lambda>x. as_id x = as_id s" and R = "\<lambda>x. ar_id x = ar_id r"])
    show "as_id s' = as_id s \<longleftrightarrow> s' = s" if "s' \<in> set (sd_schedules d)" for s'
      using same_schedule [OF ok that settled(4)] by auto
    show "ar_id r' = ar_id r \<longleftrightarrow> r' = r" if "r' \<in> set (sd_runs d)" for r'
      using same_run [OF ok that settled(2)] by auto
    show "sd_schedules d' = update_where (\<lambda>x. as_id x = as_id s) f (sd_schedules d)"
        "sd_runs d' = update_where (\<lambda>x. ar_id x = ar_id r) (settled_run (millis completed) e) (sd_runs d)"
      using settled(8) by simp_all
    show "advances (ar_status r) (ar_status (settled_run (millis completed) e r))" using running by simp
    show "run_ok (f s) (settled_run (millis completed) e r)"
      using idle by (simp add: run_ok_def leases_def in_flight_def)
  qed (use checks idle in auto)
qed

lemma complete_delivered_evolves:
  assumes ok: "schedules_ok d" and run: "complete_delivered_run cal i d = (r, d')"
  shows "evolves d d'"
proof -
  obtain x where tx: "run_tx (complete_delivered_agent_schedule_run cal i) d = (x, d')"
    using run by (cases "run_tx (complete_delivered_agent_schedule_run cal i) d")
      (auto simp: complete_delivered_run_def split: sum.splits completion.splits)
  show ?thesis
  proof (rule run_tx_evolves [OF ok tx])
    fix y d1 assume body: "complete_delivered_agent_schedule_run cal i d = Commit y d1"
    obtain run j where found: "first_row (\<lambda>r. ar_id r = ci_run i) (sd_runs d) = Some run"
        and receipt: "record_proactive_delivery ((ci_delivery i)\<lparr>di_source := ci_run i, di_kind := Schedule_source\<rparr>) (sd_deliveries d) = Inr j"
      using body by (auto simp: complete_delivered_agent_schedule_run_def split: option.splits sum.splits)
    let ?d = "d\<lparr>sd_deliveries := j\<rparr>"
    have recorded: "evolves d ?d" by (rule evolves_same [OF ok]) simp_all
    note ok' = evolves_ok [OF recorded]
    let ?matches = "ar_session run = Some (ci_session i) \<and> ar_eve run = Some (ci_eve i)"
    let ?finish = "finish_active_agent_schedule_run cal (ci_session i) (ci_eve i) (the (di_delivered (ci_delivery i))) None ?d"
    show "evolves d d1"
    proof (cases "\<not> ?matches \<or> ar_status run \<noteq> Run_running")
      case True
      with body found receipt have "d1 = ?d"
        unfolding complete_delivered_agent_schedule_run_def found receipt option.case sum.case Let_def if_P [OF True] by simp
      with recorded show ?thesis by simp
    next
      case False
      note unfolded = body [unfolded complete_delivered_agent_schedule_run_def found receipt option.case sum.case Let_def if_not_P [OF False]]
      then obtain b d2 where finish: "?finish = Inr (b, d2)" by (cases ?finish) auto
      then have "d1 = d2" using unfolded by (cases b) simp_all
      with finish show ?thesis using evolves_trans [OF recorded finish_evolves [OF ok']] by simp
    qed
  qed
qed

lemma fail_within_evolves:
  assumes ok: "schedules_ok d" and body: "fail_within_transaction cal a eve code failed d = Commit x d'"
  shows "evolves d d'"
  using body finish_evolves [OF ok] by (auto simp: fail_within_transaction_def Let_def split: sum.splits)

lemma fail_run_evolves:
  assumes ok: "schedules_ok d" and run: "fail_agent_schedule_run cal session eve code failed d = (r, d')"
  shows "evolves d d'"
  by (rule run_tx_evolves [OF ok run [unfolded fail_agent_schedule_run_def]])
    (auto intro: finish_evolves [OF ok] split: sum.splits)

lemma fail_notification_evolves:
  assumes ok: "schedules_ok d" and run: "fail_agent_schedule_run_for_notification cal a eve code failed d = (r, d')"
  shows "evolves d d'"
  by (rule run_tx_evolves [OF ok run [unfolded fail_agent_schedule_run_for_notification_def]])
    (rule fail_within_evolves [OF ok])

lemma confirm_evolves:
  assumes ok: "schedules_ok d"
  shows "evolves d (update_runs (\<lambda>r. ar_id r = run \<and> ar_status r = Run_dispatching \<and> ar_eve r = None) (running_run eve now) d)"
    (is "evolves d (update_runs ?hit ?g d)")
proof (rule rewritten_evolves [OF ok rewrite_runs [OF ok]])
  show "sd_schedules (update_runs ?hit ?g d) = sd_schedules d" "sd_runs (update_runs ?hit ?g d) = update_where ?hit ?g (sd_runs d)"
    by simp_all
next
  fix r assume "?hit r"
  then show "same_run_columns r (?g r) \<and> advances (ar_status r) (ar_status (?g r))" by (simp add: running_run_def same_run_columns_def)
next
  fix s r assume "?hit r" "run_ok s r"
  then show "run_ok s (?g r)" by (auto simp: run_ok_def in_flight_def running_run_def leases_def)
qed

lemma fail_identity_evolves:
  assumes ok: "schedules_ok d" and run: "fail_agent_schedule_run_by_identity cal run eve code failed d = (r, d')"
  shows "evolves d d'"
proof (rule run_tx_evolves [OF ok run [unfolded fail_agent_schedule_run_by_identity_def]])
  fix x d1
  assume body: "(case load_authorization run eve d of None \<Rightarrow> Commit False d
     | Some a \<Rightarrow> (let hit = (\<lambda>r. ar_id r = run \<and> ar_status r = Run_dispatching \<and> ar_eve r = None) in
         if exists_row hit (sd_runs d) \<and> session_taken hit (Some (ea_session a)) eve d then Throw (PgError ''23505'')
         else fail_within_transaction cal a eve code failed (update_runs hit (running_run eve (millis failed)) d))) =
     Commit x d1"
  note confirmed = confirm_evolves [OF ok, of run eve "millis failed"]
  show "evolves d d1"
  proof (cases "load_authorization run eve d")
    case None
    with body evolves_refl [OF ok] show ?thesis by simp
  next
    case (Some a)
    with body have "fail_within_transaction cal a eve code failed
        (update_runs (\<lambda>r. ar_id r = run \<and> ar_status r = Run_dispatching \<and> ar_eve r = None) (running_run eve (millis failed)) d) =
      Commit x d1"
      by (auto simp: Let_def split: if_splits)
    then show ?thesis using evolves_trans [OF confirmed fail_within_evolves [OF evolves_ok [OF confirmed]]] by simp
  qed
qed

lemma fail_claim_evolves:
  assumes ok: "schedules_ok d" and job: "job_ok d job" and run: "fail_claim job code now d = (r, d')"
  shows "evolves d d'"
proof (rule run_tx_evolves [OF ok run [unfolded fail_claim_def]])
  let ?held = "held_schedule (dj_id job) (dj_token job)"
  fix x d1
  assume body: "(let held = ?held in
     if row_count held (sd_schedules d) = 0 then Throw (AppError ''AGENT_SCHEDULE_LEASE_STALE'')
     else Commit () (record_schedule_failures code (take 1 (filter held (sd_schedules d)))
       (drop_snapshot (dj_run job)
         (update_runs (run_of_job job) (failed_run code now) (update_schedules held (failed_schedule code now) d))))) = Commit x d1"
  then have "row_count ?held (sd_schedules d) \<noteq> 0" by (auto simp: Let_def split: if_splits)
  then obtain s where s: "s \<in> set (sd_schedules d)" "?held s" by (auto simp: row_count_0_iff)
  with job obtain r where r: "r \<in> set (sd_runs d)" "run_of_job job r" unfolding job_ok_def by blast
  have lease: "ar_schedule r = as_id s" "leases s r" using held_leases s(2) r(2) by blast+
  have "\<not> terminal (ar_status r)" using run_okI [OF ok s(1) r(1)] lease by (simp add: run_ok_def)
  then have advance: "advances (ar_status r) Run_failed" by simp
  show "evolves d d1"
  proof (rule rewrite_leased [OF ok s(1) r(1) lease, where P = ?held and R = "run_of_job job"])
    show "?held s' \<longleftrightarrow> s' = s" if "s' \<in> set (sd_schedules d)" for s'
      using same_schedule [OF ok that s(1)] s(2) by (auto simp: held_schedule_def)
    show "run_of_job job r' \<longleftrightarrow> r' = r" if "r' \<in> set (sd_runs d)" for r'
      using same_run [OF ok that r(1)] r(2) by (auto simp: run_of_job_def)
    show "schedule_checks (failed_schedule code now s)" by (rule checks_kept(1) [OF row_checks [OF ok s(1)]])
    show "run_ok (failed_schedule code now s) (failed_run code now r)" by (simp add: run_ok_def leases_def in_flight_def)
    show "sd_schedules d1 = update_where ?held (failed_schedule code now) (sd_schedules d)"
        "sd_runs d1 = update_where (run_of_job job) (failed_run code now) (sd_runs d)"
      using body by (auto simp: Let_def split: if_splits)
  qed (use advance in simp_all)
qed

section \<open>What the tools do\<close>

lemma recorded_rows [simp]:
  "sd_schedules (record_schedule_operation family key kind h sid e d) = sd_schedules d"
  "sd_runs (record_schedule_operation family key kind h sid e d) = sd_runs d"
  by (simp_all add: record_schedule_operation_def)

lemma mutable_schedule:
  assumes ok: "schedules_ok d" and s: "require_mutable auth sid required d = Inr s"
  shows "s \<in> set (sd_schedules d)" "as_id s = sid" "as_family s = sa_family auth"
    "s' \<in> set (sd_schedules d) \<Longrightarrow> as_id s' = sid \<longleftrightarrow> s' = s"
proof -
  have "first_row (\<lambda>s. as_family s = sa_family auth \<and> as_id s = sid) (sd_schedules d) = Some s"
    using s by (auto simp: require_mutable_def select_agent_schedule_def res_bind_Inr_iff split: option.splits if_splits)
  from first_row_Some [OF this] show in': "s \<in> set (sd_schedules d)" "as_id s = sid" "as_family s = sa_family auth" by simp_all
  show "s' \<in> set (sd_schedules d) \<Longrightarrow> as_id s' = sid \<longleftrightarrow> s' = s"
    using same_schedule [OF ok _ in'(1)] in'(2) by auto
qed

text \<open>Rewriting a schedule that holds no lease.\<close>

lemma rewrite_idle:
  assumes ok: "schedules_ok d" and d': "sd_schedules d' = update_where (\<lambda>x. as_id x = as_id s) f (sd_schedules d)" "sd_runs d' = sd_runs d"
    and s: "s \<in> set (sd_schedules d)" "as_status s \<noteq> S_leased"
    and f: "as_id (f s) = as_id s" "schedule_checks (f s)" "as_status (f s) \<noteq> S_leased"
  shows "evolves d d'"
proof (rule rewritten_evolves [OF ok rewrite_schedules [OF ok d']])
  fix s' assume s': "s' \<in> set (sd_schedules d)" "as_id s' = as_id s"
  then have "s' = s" using same_schedule [OF ok s'(1) s(1)] by simp
  with f show "as_id (f s') = as_id s' \<and> schedule_checks (f s') \<and> (as_status (f s') = S_leased \<longrightarrow> as_status s' = S_leased \<and> as_lease (f s') = as_lease s')"
    by simp
  fix r assume "run_ok s' r"
  with \<open>s' = s\<close> s(2) f(3) show "run_ok (f s') r" by (simp add: idle_run_ok)
qed

lemma replayed_same: "replayed_schedule auth sid d = Commit x d' \<Longrightarrow> d' = d"
  by (auto simp: replayed_schedule_def split: option.splits)

lemma updated_idle:
  "as_status s \<noteq> S_leased \<Longrightarrow> as_status (updated_schedule cal enabled v capabilities now s) \<noteq> S_leased"
  "as_id (updated_schedule cal enabled v capabilities now s) = as_id s"
  by (simp_all add: updated_schedule_def Let_def split: prod.split)

lemma update_row_cases:
  assumes "update_schedule_row cal auth sid i v h now d = Commit x d'"
  obtains s capabilities where "require_mutable auth sid (su_scope i) d = Inr s" "as_status s \<noteq> S_leased"
    "require_updated_external_schedule_capabilities (sd_groups d) s (su_capabilities i) = Inr capabilities"
    "schedule_checks (updated_schedule cal (su_enabled i) v capabilities now s)"
    "d' = record_schedule_operation (sa_family auth) (su_key i) Update_schedule h sid
       (Schedule_updated (sa_family auth) (sa_user auth) sid)
       (d\<lparr>sd_schedules := update_where (\<lambda>x. as_id x = sid) (\<lambda>_. updated_schedule cal (su_enabled i) v capabilities now s) (sd_schedules d)\<rparr>)"
  using assms by (auto simp: update_schedule_row_def Let_def split: sum.splits if_splits)

lemma update_row_evolves:
  assumes ok: "schedules_ok d" and row: "update_schedule_row cal auth sid i v h now d = Commit x d'"
  shows "evolves d d'"
  using row
proof (cases rule: update_row_cases)
  case (1 s capabilities)
  note found = mutable_schedule [OF ok 1(1)]
  show ?thesis
    by (rule rewrite_idle [OF ok _ _ found(1) 1(2), where f = "\<lambda>_. updated_schedule cal (su_enabled i) v capabilities now s"])
      (use 1 found(1,2) updated_idle in simp_all)
qed

lemma update_schedule_evolves:
  assumes ok: "schedules_ok d" and run: "update_schedule hash cal auth sid i now d = (r, d')"
  shows "evolves d d'"
proof (cases "schedule_update_values i")
  case (Inl e)
  with run evolves_refl [OF ok] show ?thesis by (simp add: update_schedule_def)
next
  case (Inr v)
  note run' = run [unfolded update_schedule_def Inr when_valid_simps]
  show ?thesis
    by (rule run_tx_evolves [OF ok run'])
      (auto simp: update_schedule_body_def split: sum.splits option.splits
        intro: update_row_evolves [OF ok] evolves_refl [OF ok] dest!: replayed_same)
qed

lemma run_now_evolves:
  assumes ok: "schedules_ok d" and run: "run_schedule_now hash auth sid key required now d = (r, d')"
  shows "evolves d d'"
proof (rule run_tx_evolves [OF ok run [unfolded run_schedule_now_def]])
  fix x d1 assume body: "run_schedule_now_body auth sid key required (hash (Id_print sid)) now d = Commit x d1"
  have "evolves d d1" if row: "run_schedule_now_row auth sid key required (hash (Id_print sid)) now d = Commit x d1"
  proof -
    from row obtain s where s: "require_mutable auth sid required d = Inr s" "as_status s \<noteq> S_leased"
      "sd_schedules d1 = update_where (\<lambda>x. as_id x = sid) (requested_schedule now) (sd_schedules d)" "sd_runs d1 = sd_runs d"
      by (auto simp: run_schedule_now_row_def split: sum.splits if_splits)
    note found = mutable_schedule [OF ok s(1)]
    show ?thesis
      by (rule rewrite_idle [OF ok _ s(4) found(1) s(2), where f = "requested_schedule now"])
        (use s found(1,2) checks_kept(9) [OF row_checks [OF ok found(1)] s(2)] in simp_all)
  qed
  with body show "evolves d d1"
    by (auto simp: run_schedule_now_body_def split: sum.splits option.splits intro: evolves_refl [OF ok] dest!: replayed_same)
qed

text \<open>A new schedule under the drawn id; the rest stays.\<close>

definition extends :: "string \<Rightarrow> schedule_db \<Rightarrow> schedule_db \<Rightarrow> bool" where
  "extends uuid d d' \<longleftrightarrow>
     schedules_ok d' \<and> sd_runs d' = sd_runs d \<and> (\<forall>job. job_ok d job \<longrightarrow> job_ok d' job) \<and>
     as_id ` set (sd_schedules d) \<subseteq> as_id ` set (sd_schedules d') \<and>
     as_id ` set (sd_schedules d') \<subseteq> insert uuid (as_id ` set (sd_schedules d))"

lemma extends_refl: "schedules_ok d \<Longrightarrow> extends uuid d d" by (auto simp: extends_def)

lemma append_schedule_extends:
  assumes ok: "schedules_ok d" and row: "schedule_checks s" "as_status s \<noteq> S_leased" "\<forall>x\<in>set (sd_schedules d). as_id x \<noteq> as_id s"
    and d': "sd_schedules d' = sd_schedules d @ [s]" "sd_runs d' = sd_runs d"
  shows "extends (as_id s) d d'"
proof -
  have owned: "ar_schedule r \<noteq> as_id s" if "r \<in> set (sd_runs d)" for r
    using run_has_schedule [OF ok that] row(3) by force
  have "schedules_ok d'"
    using ok row owned unfolding schedules_ok_def d' by (auto intro: schedule_rows.pk_insert)
  moreover have "job_ok d' job" if "job_ok d job" for job
    using that row(2) unfolding job_ok_def d' by (auto simp: held_schedule_def)
  ultimately show ?thesis by (auto simp: extends_def d')
qed

lemma insert_schedule_cases:
  assumes "insert_schedule row actor key h d = Inr d'"
  shows "schedule_checks row" "\<forall>x\<in>set (sd_schedules d). as_id x \<noteq> as_id row" "sd_schedules d' = sd_schedules d @ [row]" "sd_runs d' = sd_runs d"
  using assms by (auto simp: insert_schedule_def split: if_splits)

lemma new_schedule_columns [simp]:
  "as_status (new_schedule cal uuid auth scope timezone v thread topic now) = S_active"
  "as_id (new_schedule cal uuid auth scope timezone v thread topic now) = uuid"
  "as_status (new_external_schedule cal uuid xauth g timezone v window capabilities now) = S_active"
  "as_id (new_external_schedule cal uuid xauth g timezone v window capabilities now) = uuid"
  by (simp_all add: new_schedule_def new_external_schedule_def Let_def split: prod.split)

lemma create_schedule_extends:
  assumes ok: "schedules_ok d" and run: "create_schedule hash cal uuid auth i now d = (r, d')"
  shows "extends uuid d d'"
proof (cases "schedule_create_values (sc_title i) (sc_request i) (sc_prompt i) (sc_first i) (sc_recurrence i)")
  case (Inl e)
  with run extends_refl [OF ok] show ?thesis by (simp add: create_schedule_def)
next
  case (Inr v)
  let ?h = "hash (Create_print (sc_key i) (sc_scope i) (sc_timezone i) v)"
  have tx: "run_tx (create_schedule_body cal uuid auth i v ?h now) d = (r, d')"
    using run unfolding create_schedule_def Inr when_valid_simps .
  have row: "extends uuid d d1"
    if row: "create_schedule_row cal uuid auth i v ?h now d = Commit x d1" for x d1
  proof -
    from row obtain timezone thread topic where insert:
        "insert_schedule (new_schedule cal uuid auth (sc_scope i) timezone v thread topic now) (sa_user auth) (sc_key i) ?h d = Inr d1"
      by (auto simp: create_schedule_row_def res_bind_Inr_iff Let_def split: sum.splits)
    note inserted = insert_schedule_cases [OF insert]
    show ?thesis using append_schedule_extends [OF ok inserted(1) _ inserted(2-4)] by simp
  qed
  have body: "extends uuid d d1"
    if "create_schedule_body cal uuid auth i v ?h now d = Commit x d1" for x d1
    using that row extends_refl [OF ok]
    by (auto simp: create_schedule_body_def split: sum.splits option.splits)
  show ?thesis
    using tx body extends_refl [OF ok]
    by (cases "create_schedule_body cal uuid auth i v ?h now d") (auto simp: run_tx_def)
qed

lemma create_external_extends:
  assumes ok: "schedules_ok d" and run: "create_external_schedule hash cal uuid auth i now d = (r, d')"
  shows "extends uuid d d'"
proof -
  have row: "extends uuid d d1"
    if row: "create_external_row cal uuid auth i v window g capabilities h now d = Commit x d1" for v window g capabilities h x d1
  proof (cases "find_agent_schedule_operation (xa_family auth) (xc_key i) Create_schedule h d = Inr None")
    case True
    with row have insert: "insert_schedule (new_external_schedule cal uuid auth g (xc_timezone i) v window capabilities now)
        (xa_user auth) (xc_key i) h d = Inr d1"
      by (auto simp: create_external_row_def res_bind_Inr_iff split: sum.splits)
    note inserted = insert_schedule_cases [OF insert]
    show ?thesis using append_schedule_extends [OF ok inserted(1) _ inserted(2-4)] by simp
  next
    case False
    with row have "d1 = d" by (auto simp: create_external_row_def split: sum.splits option.splits)
    with extends_refl [OF ok] show ?thesis by simp
  qed
  have body: "extends uuid d d1"
    if "create_external_body hash cal uuid auth i v window now d = Commit x d1" for v window x d1
  proof -
    from that obtain g cs h where "create_external_row cal uuid auth i v window g cs h now d = Commit x d1"
      by (auto simp: create_external_body_def split: sum.splits)
    then show ?thesis by (rule row)
  qed
  show ?thesis
  proof (cases "res_bind (schedule_create_values (xc_title i) (xc_request i) (xc_prompt i) (xc_first i) (xc_recurrence i))
         (\<lambda>v. res_bind (require_history_window_days (xc_window i)) (\<lambda>w. Inr (v, w)))")
    case (Inl e)
    with run extends_refl [OF ok] show ?thesis by (simp add: create_external_schedule_def)
  next
    case (Inr vw)
    obtain v w where vw: "vw = (v, w)" by fastforce
    have "run_tx (create_external_body hash cal uuid auth i v w now) d = (r, d')"
      using run unfolding create_external_schedule_def Inr when_valid_simps vw prod.case .
    then show ?thesis
      using body extends_refl [OF ok]
      by (cases "create_external_body hash cal uuid auth i v w now d") (auto simp: run_tx_def)
  qed
qed

text \<open>Removing a schedule, by the tool or by a foreign key that cascades.\<close>

lemma remove_schedule_rows:
  "set (sd_schedules (remove_schedule sid d)) = {s \<in> set (sd_schedules d). as_id s \<noteq> sid}"
  "set (sd_runs (remove_schedule sid d)) = {r \<in> set (sd_runs d). ar_schedule r \<noteq> sid}"
  by (auto simp: remove_schedule_def delete_where_def)

lemma first_row_filter: "(\<And>r. P r \<Longrightarrow> Q r) \<Longrightarrow> first_row P (filter Q rows) = first_row P rows"
  by (induction rows) (auto simp: first_row_def)

lemma remove_schedule_ok:
  assumes ok: "schedules_ok d"
  shows "schedules_ok (remove_schedule sid d)" "job_ok d job \<Longrightarrow> job_ok (remove_schedule sid d) job"
    "fst occ \<noteq> sid \<Longrightarrow> phase_in (remove_schedule sid d) occ = phase_in d occ"
proof -
  have pks: "schedule_rows.pk (sd_schedules (remove_schedule sid d))" "run_rows.pk (sd_runs (remove_schedule sid d))"
      "distinct (map run_key (sd_runs (remove_schedule sid d)))"
    using ok by (simp_all add: schedules_ok_def schedule_rows.pk_def run_rows.pk_def remove_schedule_def delete_where_def distinct_map_filter)
  show "schedules_ok (remove_schedule sid d)"
    unfolding schedules_ok_def
  proof (intro conjI pks)
    show "\<forall>r\<in>set (sd_runs (remove_schedule sid d)). \<exists>s\<in>set (sd_schedules (remove_schedule sid d)). as_id s = ar_schedule r"
      unfolding remove_schedule_rows using run_has_schedule [OF ok] by force
  qed (use ok in \<open>auto simp: schedules_ok_def remove_schedule_rows\<close>)
  show "job_ok d job \<Longrightarrow> job_ok (remove_schedule sid d) job"
    unfolding job_ok_def remove_schedule_rows by (auto simp: held_schedule_def run_of_job_def)
  assume "fst occ \<noteq> sid"
  then have "first_row (\<lambda>r. run_key r = occ) (sd_runs (remove_schedule sid d)) = first_row (\<lambda>r. run_key r = occ) (sd_runs d)"
    unfolding remove_schedule_def delete_where_def by (simp, intro first_row_filter) (auto simp: run_key_def)
  then show "phase_in (remove_schedule sid d) occ = phase_in d occ" by (simp add: phase_in_def)
qed

lemma delete_schedule_cases:
  assumes "delete_schedule hash auth sid key required d = (r, d')"
  shows "d' = d \<or> (\<exists>d1. sd_schedules d1 = sd_schedules d \<and> sd_runs d1 = sd_runs d \<and> d' = remove_schedule sid d1 \<and>
    (\<exists>s. require_mutable auth sid required d = Inr s \<and> as_status s \<noteq> S_leased))"
proof (cases "delete_schedule_body auth sid key required (hash (Id_print sid)) d")
  case (Throw e)
  with assms show ?thesis by (simp add: delete_schedule_def run_tx_def)
next
  case (Rollback x)
  then have False by (auto simp: delete_schedule_body_def split: sum.splits option.splits if_splits)
  then show ?thesis ..
next
  case (Commit x d2)
  with assms have d': "d' = d2" by (simp add: delete_schedule_def run_tx_def)
  show ?thesis
  proof (cases "find_agent_schedule_operation (sa_family auth) key Delete_schedule (hash (Id_print sid)) d = Inr None")
    case True
    with Commit obtain s where s: "require_mutable auth sid required d = Inr s" "as_status s \<noteq> S_leased"
      "d2 = remove_schedule sid (record_schedule_operation (sa_family auth) key Delete_schedule (hash (Id_print sid)) sid
          (Schedule_deleted (sa_family auth) (sa_user auth) sid (as_scope s)) d)"
      by (auto simp: delete_schedule_body_def split: sum.splits if_splits)
    then show ?thesis unfolding d' by (intro disjI2 exI conjI) (rule recorded_rows | assumption)+
  next
    case False
    with Commit have "d2 = d" by (auto simp: delete_schedule_body_def split: sum.splits option.splits if_splits)
    with d' show ?thesis by simp
  qed
qed

end
