(* ===== verification/Agent_Schedule_History.thy ===== *)
theory Agent_Schedule_History
  imports Agent_Schedule_Operations
begin

text \<open>
  Histories of the schedule tables: what the tools, the dispatcher and the rest of the program may do to them in
  any order, the jobs the sweeps have handed out, and the schedules that are gone. The properties over
  whole histories: the tables refine the life of an occurrence, stay well-formed, and hand no occurrence over twice.
\<close>

record schedule_world =
  sw_db :: schedule_db
  sw_jobs :: "dispatch_job set"
  sw_removed :: "string set"

definition moved :: "schedule_world \<Rightarrow> schedule_db \<Rightarrow> dispatch_job set \<Rightarrow> schedule_world" where
  "moved w d jobs =
     \<lparr>sw_db = d, sw_jobs = sw_jobs w \<union> jobs,
      sw_removed = sw_removed w \<union> (as_id ` set (sd_schedules (sw_db w)) - as_id ` set (sd_schedules d))\<rparr>"

definition issued :: "claimed_schedule list result \<Rightarrow> dispatch_job set" where
  "issued r = (case r of Inl _ \<Rightarrow> {} | Inr jobs \<Rightarrow> job_identity ` set jobs)"

text \<open>
  The ids and lease tokens PostgreSQL and Node draw are new. What the rest of the program does to the other
  tables is arbitrary, and a foreign key may take a schedule along at any time.
\<close>

inductive schedule_step :: "(schedule_fingerprint \<Rightarrow> string) \<Rightarrow> pg_calendar \<Rightarrow> schedule_world \<Rightarrow> schedule_world \<Rightarrow> bool"
  for hash cal where
  create: "create_schedule hash cal uuid auth i now (sw_db w) = (r1, d) \<Longrightarrow> uuid \<notin> sw_removed w \<Longrightarrow>
     schedule_step hash cal w (moved w d {})"
| create_external: "create_external_schedule hash cal uuid xauth x now (sw_db w) = (r2, d) \<Longrightarrow> uuid \<notin> sw_removed w \<Longrightarrow>
     schedule_step hash cal w (moved w d {})"
| update: "update_schedule hash cal auth sid u now (sw_db w) = (r1, d) \<Longrightarrow> schedule_step hash cal w (moved w d {})"
| run_now: "run_schedule_now hash auth sid key required now (sw_db w) = (r1, d) \<Longrightarrow> schedule_step hash cal w (moved w d {})"
| delete: "delete_schedule hash auth sid key required (sw_db w) = (b, d) \<Longrightarrow> schedule_step hash cal w (moved w d {})"
| claim: "claim_due_schedules locked tokens uuids o' (sw_db w) = (jobs, d) \<Longrightarrow> fresh_for tokens uuids UNIV (sw_db w) \<Longrightarrow>
     (\<forall>job\<in>sw_jobs w. dj_token job \<noteq> tokens (dj_id job)) \<Longrightarrow> schedule_step hash cal w (moved w d (issued jobs))"
| begin_dispatch: "begin_agent_schedule_dispatch job session now (sw_db w) = (b, d) \<Longrightarrow> schedule_step hash cal w (moved w d {})"
| mark_running: "mark_agent_schedule_running job session eve now (sw_db w) = (u1, d) \<Longrightarrow> schedule_step hash cal w (moved w d {})"
| complete: "complete_delivered_run cal c (sw_db w) = (b, d) \<Longrightarrow> schedule_step hash cal w (moved w d {})"
| fail_job: "fail_claim job code now (sw_db w) = (u1, d) \<Longrightarrow> job \<in> sw_jobs w \<Longrightarrow> schedule_step hash cal w (moved w d {})"
| fail_run: "fail_agent_schedule_run cal session eve code failed (sw_db w) = (b, d) \<Longrightarrow> schedule_step hash cal w (moved w d {})"
| fail_notified: "fail_agent_schedule_run_for_notification cal a eve code failed (sw_db w) = (b, d) \<Longrightarrow>
     schedule_step hash cal w (moved w d {})"
| fail_identified: "fail_agent_schedule_run_by_identity cal run eve code failed (sw_db w) = (b, d) \<Longrightarrow>
     schedule_step hash cal w (moved w d {})"
| elsewhere: "sd_schedules d = sd_schedules (sw_db w) \<Longrightarrow> sd_runs d = sd_runs (sw_db w) \<Longrightarrow> schedule_step hash cal w (moved w d {})"
| cascade: "schedule_step hash cal w (moved w (remove_schedule sid (sw_db w)) {})"

definition no_schedules :: "schedule_world \<Rightarrow> bool" where
  "no_schedules w \<longleftrightarrow> sd_schedules (sw_db w) = [] \<and> sd_runs (sw_db w) = [] \<and> sw_jobs w = {} \<and> sw_removed w = {}"

inductive schedule_history :: "(schedule_fingerprint \<Rightarrow> string) \<Rightarrow> pg_calendar \<Rightarrow> schedule_world \<Rightarrow> bool" for hash cal where
  start: "no_schedules w \<Longrightarrow> schedule_history hash cal w"
| step: "schedule_history hash cal w \<Longrightarrow> schedule_step hash cal w w' \<Longrightarrow> schedule_history hash cal w'"

abbreviation schedule_steps :: "(schedule_fingerprint \<Rightarrow> string) \<Rightarrow> pg_calendar \<Rightarrow> schedule_world \<Rightarrow> schedule_world \<Rightarrow> bool" where
  "schedule_steps hash cal \<equiv> (schedule_step hash cal)\<^sup>*\<^sup>*"

text \<open>Where an occurrence is in its life, its schedule gone included.\<close>

definition world_phase :: "schedule_world \<Rightarrow> string \<times> time \<Rightarrow> phase" where
  "world_phase w occ = (if fst occ \<in> sw_removed w then Removed else phase_in (sw_db w) occ)"

definition world_ok :: "schedule_world \<Rightarrow> bool" where
  "world_ok w \<longleftrightarrow>
     schedules_ok (sw_db w) \<and> (\<forall>job\<in>sw_jobs w. job_ok (sw_db w) job) \<and>
     sw_removed w \<inter> as_id ` set (sd_schedules (sw_db w)) = {}"

definition good_step :: "schedule_world \<Rightarrow> schedule_world \<Rightarrow> bool" where
  "good_step w w' \<longleftrightarrow> world_ok w' \<and> (\<forall>occ. occurrence_steps (world_phase w occ) (world_phase w' occ))"

lemma moved_columns [simp]: "sw_db (moved w d jobs) = d" "sw_jobs (moved w d jobs) = sw_jobs w \<union> jobs"
  by (simp_all add: moved_def)

lemma keeps_ids_good:
  assumes ok: "world_ok w" and d: "schedules_ok d" "simulates (sw_db w) d"
    and ids: "as_id ` set (sd_schedules d) = as_id ` set (sd_schedules (sw_db w))"
    and jobs: "\<forall>job\<in>sw_jobs w \<union> new. job_ok d job"
  shows "good_step w (moved w d new)"
proof -
  have removed: "sw_removed (moved w d new) = sw_removed w" using ids by (simp add: moved_def)
  then have "world_ok (moved w d new)" using ok d(1) jobs ids by (simp add: world_ok_def)
  moreover have "occurrence_steps (world_phase w occ) (world_phase (moved w d new) occ)" for occ
  proof -
    have "occurrence_steps (phase_in (sw_db w) occ) (phase_in d occ)" using d(2) unfolding simulates_def by blast
    then show ?thesis using removed by (simp add: world_phase_def)
  qed
  ultimately show ?thesis by (simp add: good_step_def)
qed

lemma evolves_good:
  assumes ok: "world_ok w" and step: "evolves (sw_db w) d"
  shows "good_step w (moved w d {})"
  by (rule keeps_ids_good [OF ok]) (use ok step in \<open>simp_all add: evolves_def world_ok_def\<close>)

lemma extends_good:
  assumes ok: "world_ok w" and new: "extends uuid (sw_db w) d" "uuid \<notin> sw_removed w"
  shows "good_step w (moved w d {})"
proof -
  have removed: "sw_removed (moved w d {}) = sw_removed w" using new(1) by (auto simp: moved_def extends_def)
  have "sw_removed w \<inter> as_id ` set (sd_schedules d) = {}"
    using ok new unfolding world_ok_def extends_def by blast
  then have "world_ok (moved w d {})" using ok new removed by (simp add: world_ok_def extends_def)
  moreover have "occurrence_steps (world_phase w occ) (world_phase (moved w d {}) occ)" for occ
    using new(1) removed by (simp add: world_phase_def phase_in_def extends_def)
  ultimately show ?thesis by (simp add: good_step_def)
qed

lemma remove_good:
  assumes ok: "world_ok w" and d: "sd_schedules d = sd_schedules (sw_db w)" "sd_runs d = sd_runs (sw_db w)"
  shows "good_step w (moved w (remove_schedule sid d) {})"
proof -
  let ?w' = "moved w (remove_schedule sid d) {}"
  have "schedules_ok (sw_db w)" using ok by (simp add: world_ok_def)
  then have ok': "schedules_ok d" using evolves_ok [OF evolves_same] d by metis
  have jobs: "job_ok d job" if "job \<in> sw_jobs w" for job
    using ok that d by (simp add: world_ok_def job_ok_def)
  have removed: "sw_removed ?w' = sw_removed w \<union> ({sid} \<inter> as_id ` set (sd_schedules (sw_db w)))"
    unfolding moved_def remove_schedule_rows by (auto simp: d)
  have "world_ok ?w'"
    unfolding world_ok_def
  proof (intro conjI ballI)
    show "schedules_ok (sw_db ?w')" using remove_schedule_ok(1) [OF ok'] by simp
    show "job_ok (sw_db ?w') job" if "job \<in> sw_jobs ?w'" for job
      using remove_schedule_ok(2) [OF ok' jobs] that by simp
    show "sw_removed ?w' \<inter> as_id ` set (sd_schedules (sw_db ?w')) = {}"
      using ok unfolding removed moved_columns remove_schedule_rows d world_ok_def by auto
  qed
  moreover have "occurrence_steps (world_phase w occ) (world_phase ?w' occ)" for occ
  proof (cases "fst occ \<in> sw_removed ?w'")
    case True
    then have "world_phase ?w' occ = Removed" by (simp add: world_phase_def)
    then show ?thesis by (cases "world_phase w occ = Removed") (auto intro: r_into_rtranclp occurrence_step.remove)
  next
    case False
    then have old: "fst occ \<notin> sw_removed w" using removed by simp
    show ?thesis
    proof (cases "fst occ = sid")
      case True
      then have "sid \<notin> as_id ` set (sd_schedules (sw_db w))" using False removed by auto
      then have none: "\<forall>r\<in>set (sd_runs d). ar_schedule r \<noteq> sid"
        using run_has_schedule [OF ok'] d by force
      then have "first_row (\<lambda>r. run_key r = occ) (sd_runs d) = None" using True by (auto simp: first_row_None_iff run_key_def)
      then have "phase_in (sw_db w) occ = Planned" using d by (simp add: phase_in_def)
      moreover have "first_row (\<lambda>r. run_key r = occ) (sd_runs (remove_schedule sid d)) = None"
        using none True by (auto simp: first_row_None_iff run_key_def remove_schedule_rows)
      then have "phase_in (remove_schedule sid d) occ = Planned" by (simp add: phase_in_def)
      ultimately show ?thesis using False old by (simp add: world_phase_def)
    next
      case other: False
      have "phase_in (remove_schedule sid d) occ = phase_in (sw_db w) occ"
        using remove_schedule_ok(3) [OF ok' other] d by (simp add: phase_in_def)
      then show ?thesis using False old by (simp add: world_phase_def)
    qed
  qed
  ultimately show ?thesis by (simp add: good_step_def)
qed

lemma schedule_step_good:
  assumes step: "schedule_step hash cal w w'" and ok: "world_ok w"
  shows "good_step w w'"
proof -
  have db: "schedules_ok (sw_db w)" using ok by (simp add: world_ok_def)
  note good = evolves_good [OF ok]
  from step show ?thesis
  proof cases
    case (create uuid auth i now r1 d)
    then show ?thesis using extends_good [OF ok create_schedule_extends [OF db]] by simp
  next
    case (create_external uuid xauth x now r2 d)
    then show ?thesis using extends_good [OF ok create_external_extends [OF db]] by simp
  next
    case (update auth sid u now r1 d)
    then show ?thesis using good [OF update_schedule_evolves [OF db]] by simp
  next
    case (run_now auth sid key required now r1 d)
    then show ?thesis using good [OF run_now_evolves [OF db]] by simp
  next
    case (delete auth sid key required b d)
    from delete_schedule_cases [OF delete(2)] show ?thesis
    proof
      assume "d = sw_db w"
      then show ?thesis using good [OF evolves_refl [OF db]] delete(1) by simp
    next
      assume "\<exists>d1. sd_schedules d1 = sd_schedules (sw_db w) \<and> sd_runs d1 = sd_runs (sw_db w) \<and> d = remove_schedule sid d1 \<and>
        (\<exists>s. require_mutable auth sid required (sw_db w) = Inr s \<and> as_status s \<noteq> S_leased)"
      then show ?thesis using remove_good [OF ok] delete(1) by metis
    qed
  next
    case (claim locked tokens uuids o' jobs d)
    note claimed = claim_evolvesD [OF claim_due_evolves [OF db claim(3,2), folded issued_def]]
    show ?thesis
      unfolding claim(1)
    proof (rule keeps_ids_good [OF ok claimed(1-3)])
      show "\<forall>job\<in>sw_jobs w \<union> issued jobs. job_ok d job"
        using ok claim(4) claimed(4,6) by (auto simp: world_ok_def)
    qed
  next
    case (begin_dispatch job session now b d)
    then show ?thesis
      using good [OF run_tx_evolves [OF db begin_dispatch(2) [unfolded begin_agent_schedule_dispatch_def] begin_dispatch_evolves [OF db]]]
      by simp
  next
    case (mark_running job session eve now u1 d)
    then show ?thesis using good [OF mark_running_evolves [OF db]] by simp
  next
    case (complete c b d)
    then show ?thesis using good [OF complete_delivered_evolves [OF db]] by simp
  next
    case (fail_job job code now u1 d)
    have "job_ok (sw_db w) job" using ok fail_job(3) by (simp add: world_ok_def)
    then show ?thesis using good [OF fail_claim_evolves [OF db _ fail_job(2)]] fail_job(1) by simp
  next
    case (fail_run session eve code failed b d)
    then show ?thesis using good [OF fail_run_evolves [OF db]] by simp
  next
    case (fail_notified a eve code failed b d)
    then show ?thesis using good [OF fail_notification_evolves [OF db]] by simp
  next
    case (fail_identified run eve code failed b d)
    then show ?thesis using good [OF fail_identity_evolves [OF db]] by simp
  next
    case (elsewhere d)
    then show ?thesis using good [OF evolves_same [OF db]] by simp
  next
    case (cascade sid)
    then show ?thesis using remove_good [OF ok refl refl] by simp
  qed
qed

lemma history_ok: "schedule_history hash cal w \<Longrightarrow> world_ok w"
proof (induction rule: schedule_history.induct)
  case (start w)
  then show ?case
    by (simp add: no_schedules_def world_ok_def schedules_ok_def schedule_rows.pk_def run_rows.pk_def)
next
  case (step w w')
  then show ?case using schedule_step_good by (simp add: good_step_def)
qed

lemma history_steps: "schedule_steps hash cal w w' \<Longrightarrow> schedule_history hash cal w \<Longrightarrow> schedule_history hash cal w'"
  by (induction rule: rtranclp_induct) (auto intro: schedule_history.step)

end
