(* ===== verification/Agent_Schedule_Properties.thy ===== *)
theory Agent_Schedule_Properties
  imports Agent_Schedule_History
begin

text \<open>
  The correctness of agent schedules, over histories of the tables where the property speaks of more than one
  operation.
\<close>

section \<open>Histories\<close>

lemma history_phases:
  assumes history: "schedule_history hash cal w" and steps: "schedule_steps hash cal w w'"
  shows "occurrence_steps (world_phase w occ) (world_phase w' occ)"
  using steps
proof (induction rule: rtranclp_induct)
  case (step w1 w2)
  have "world_ok w1" by (rule history_ok [OF history_steps [OF step.hyps(1) history]])
  with step show ?case using schedule_step_good [OF step.hyps(2)] unfolding good_step_def by (meson rtranclp_trans)
qed simp

text \<open>
  C6: The schedule tables refine the life of an occurrence. In every history of the tools, the dispatcher and the
  rest of the program, in any order and with any errors, each planned occurrence only moves along the abstract
  machine: planned, claimed, handed to Eve, confirmed, closed with an outcome, or removed with its schedule.
\<close>

theorem schedules_refine_occurrences:
  assumes history: "schedule_history hash cal w" and steps: "schedule_steps hash cal w w'"
  shows "occurrence_steps (world_phase w occ) (world_phase w' occ)"
  by (rule history_phases [OF history steps])

text \<open>
  C29: Stored schedules stay well-formed. In every history all rows satisfy the \<open>CHECK\<close> constraints of the table (scope,
  recurrence, lease and lengths), ids are unique, no occurrence has two runs, and every run belongs to a
  stored schedule.
\<close>

theorem stored_schedules_are_well_formed:
  assumes "schedule_history hash cal w"
  shows "list_all schedule_checks (sd_schedules (sw_db w)) \<and> distinct (map as_id (sd_schedules (sw_db w))) \<and>
    distinct (map run_key (sd_runs (sw_db w))) \<and>
    list_all (\<lambda>r. list_ex (\<lambda>s. as_id s = ar_schedule r) (sd_schedules (sw_db w))) (sd_runs (sw_db w))"
  using history_ok [OF assms]
  by (simp add: world_ok_def schedules_ok_def schedule_rows.pk_def list_all_iff list_ex_iff)

lemma single_element: "distinct xs \<Longrightarrow> set xs = {x} \<Longrightarrow> xs = [x]"
  by (cases xs; cases "tl xs") auto

lemma single_run_in_flight:
  assumes ok: "schedules_ok d"
    and r: "r \<in> set (sd_runs d)" "in_flight r" and s: "s \<in> set (sd_schedules d)" "ar_schedule r = as_id s"
  shows "leases s r \<and> as_dispatch s \<noteq> None \<and> filter (\<lambda>r'. ar_schedule r' = as_id s \<and> in_flight r') (sd_runs d) = [r]"
proof -
  let ?P = "\<lambda>r'. ar_schedule r' = as_id s \<and> in_flight r'"
  have lease: "leases s x \<and> as_dispatch s \<noteq> None" if "x \<in> set (sd_runs d)" "?P x" for x
    using run_okI [OF ok s(1) that(1)] that(2) unfolding run_ok_def by blast
  have only: "x = r" if x: "x \<in> set (sd_runs d)" "?P x" for x
    by (rule one_leased_run [OF ok s(1) x(1) r(1) conjunct1 [OF x(2)] s(2)
          conjunct1 [OF lease [OF x]] conjunct1 [OF lease [OF r(1) conjI [OF s(2) r(2)]]]])
  have "set (filter ?P (sd_runs d)) = {r}"
  proof (intro set_eqI iffI)
    fix x assume "x \<in> set (filter ?P (sd_runs d))"
    then have "x = r" by (intro only) simp_all
    then show "x \<in> {r}" by simp
  qed (use r s in simp)
  moreover have "distinct (sd_runs d)"
    using ok unfolding schedules_ok_def run_rows.pk_def by (simp add: distinct_map)
  ultimately have "filter ?P (sd_runs d) = [r]"
    by (intro single_element) simp_all
  then show ?thesis using lease [OF r(1)] r(2) s(2) by simp
qed

text \<open>
  C15: Runs of one schedule never overlap. In every history at most one run of a schedule is with Eve, handed over
  or confirmed; its schedule is leased to that run and its handoff has started.
\<close>

theorem runs_never_overlap:
  assumes "schedule_history hash cal w"
    and "r \<in> set (sd_runs (sw_db w))" "in_flight r" "s \<in> set (sd_schedules (sw_db w))" "ar_schedule r = as_id s"
  shows "leases s r \<and> as_dispatch s \<noteq> None \<and>
    filter (\<lambda>r'. ar_schedule r' = as_id s \<and> in_flight r') (sd_runs (sw_db w)) = [r]"
  using history_ok [OF assms(1)] by (intro single_run_in_flight assms(2-5)) (simp add: world_ok_def)

section \<open>One handoff\<close>

definition hands_over :: "dispatch_job \<Rightarrow> string \<Rightarrow> time \<Rightarrow> string \<times> time \<Rightarrow> schedule_db \<Rightarrow> bool" where
  "hands_over job session now occ d \<longleftrightarrow>
     fst (begin_agent_schedule_dispatch job session now d) = Inr True \<and>
     exists_row (\<lambda>r. run_of_job job r \<and> run_key r = occ) (sd_runs d)"

lemma phase_of_run:
  assumes "schedules_ok d" "r \<in> set (sd_runs d)"
  shows "phase_in d (run_key r) = phase_of_status (ar_status r)"
proof -
  have "first_row (\<lambda>x. run_key x = run_key r) (sd_runs d) = Some r"
  proof (cases "first_row (\<lambda>x. run_key x = run_key r) (sd_runs d)")
    case None
    with assms(2) show ?thesis by (auto simp: first_row_None_iff)
  next
    case (Some x)
    with first_row_Some [OF Some] one_occurrence [OF assms(1) _ assms(2)] show ?thesis by simp
  qed
  then show ?thesis by (simp add: phase_in_def)
qed

lemma begin_true:
  assumes "begin_agent_schedule_dispatch job session now d = (Inr True, d')"
  shows "\<exists>r\<in>set (sd_runs d). run_of_job job r \<and> ar_status r = Run_claimed"
    "sd_runs d' = update_where (\<lambda>r. run_of_job job r \<and> ar_status r = Run_claimed) (dispatched_run session now) (sd_runs d)"
proof -
  let ?hit = "\<lambda>s. (held_schedule (dj_id job) (dj_token job) s \<and> as_dispatch s = None) \<and> live_schedule d s"
  let ?unstarted = "\<lambda>r. run_of_job job r \<and> ar_status r = Run_claimed"
  obtain x where body: "begin_dispatch_body job session now d = Commit True x"
    using assms by (cases "begin_dispatch_body job session now d")
      (auto simp: begin_agent_schedule_dispatch_def run_tx_def begin_dispatch_body_def Let_def split: if_splits)
  then have "x = d'" using assms by (simp add: begin_agent_schedule_dispatch_def run_tx_def)
  have one: "row_count ?unstarted (sd_runs d) = 1"
      "d' = update_runs ?unstarted (dispatched_run session now) (update_schedules ?hit (started_schedule now) d)"
    using body \<open>x = d'\<close> by (auto simp: begin_dispatch_body_def Let_def split: if_splits)
  show "\<exists>r\<in>set (sd_runs d). ?unstarted r" by (rule row_count_pos [OF one(1)])
  show "sd_runs d' = update_where ?unstarted (dispatched_run session now) (sd_runs d)" unfolding one(2) by simp
qed

lemma hands_over_phases:
  assumes ok: "schedules_ok d" and over: "hands_over job session now occ d"
  shows "phase_in d occ = Claimed" "phase_in (snd (begin_agent_schedule_dispatch job session now d)) occ = Handed"
    "fst occ \<in> as_id ` set (sd_schedules d)"
proof -
  obtain d' where begun: "begin_agent_schedule_dispatch job session now d = (Inr True, d')"
    using over unfolding hands_over_def by (metis prod.collapse)
  obtain r where r: "r \<in> set (sd_runs d)" "run_of_job job r" "run_key r = occ" using over by (auto simp: hands_over_def)
  obtain r' where r': "r' \<in> set (sd_runs d)" "run_of_job job r'" "ar_status r' = Run_claimed"
    using begin_true(1) [OF begun] by blast
  have "r' = r" using same_run [OF ok r'(1) r(1)] r(2) r'(2) by (simp add: run_of_job_def)
  then have claimed: "ar_status r = Run_claimed" using r'(3) by simp
  show "phase_in d occ = Claimed" using phase_of_run [OF ok r(1)] r(3) claimed by simp
  have "evolves d d'"
    by (rule run_tx_evolves [OF ok begun [unfolded begin_agent_schedule_dispatch_def] begin_dispatch_evolves [OF ok]])
  then have ok': "schedules_ok d'" by (rule evolves_ok)
  have "dispatched_run session now r \<in> set (sd_runs d')"
    using r(1,2) claimed unfolding begin_true(2) [OF begun] by (force simp: set_update_where)
  from phase_of_run [OF ok' this] show "phase_in (snd (begin_agent_schedule_dispatch job session now d)) occ = Handed"
    using begun r(3) by (simp add: run_key_def dispatched_run_def)
  show "fst occ \<in> as_id ` set (sd_schedules d)"
    using run_has_schedule [OF ok r(1)] r(3) by (force simp: run_key_def)
qed

text \<open>
  C3: An occurrence is handed to Eve at most once. After a handoff of an occurrence succeeded, no later handoff of
  the same occurrence succeeds, for any job and session, whatever happens in between: expired leases,
  recoveries, failures, retries of the dispatcher, edits and new claims.
\<close>

theorem occurrence_is_handed_over_once:
  assumes history: "schedule_history hash cal w" and first: "hands_over job session now occ (sw_db w)"
    and later: "schedule_steps hash cal (moved w (snd (begin_agent_schedule_dispatch job session now (sw_db w))) {}) w'"
  shows "\<not> hands_over job' session' now' occ (sw_db w')"
proof
  assume again: "hands_over job' session' now' occ (sw_db w')"
  let ?d = "snd (begin_agent_schedule_dispatch job session now (sw_db w))"
  let ?w1 = "moved w ?d {}"
  have ok: "world_ok w" by (rule history_ok [OF history])
  have step: "schedule_step hash cal w ?w1"
    by (rule begin_dispatch [where b = "fst (begin_agent_schedule_dispatch job session now (sw_db w))"]) simp
  have history1: "schedule_history hash cal ?w1" by (rule schedule_history.step [OF history step])
  have ok1: "world_ok ?w1" and ok': "world_ok w'"
    by (rule history_ok [OF history1]) (rule history_ok [OF history_steps [OF later history1]])
  have phase: "world_phase x occ = phase_in (sw_db x) occ" if "world_ok x" "fst occ \<in> as_id ` set (sd_schedules (sw_db x))" for x
    using that by (auto simp: world_phase_def world_ok_def)
  note start = hands_over_phases [OF _ first] and end' = hands_over_phases [OF _ again]
  have "phase_rank Handed \<le> phase_rank (world_phase ?w1 occ)"
    using start(2) ok by (auto simp: world_phase_def world_ok_def)
  also have "\<dots> \<le> phase_rank (world_phase w' occ)"
    by (rule occurrence_steps_rank [OF history_phases [OF history1 later]])
  also have "\<dots> = phase_rank Claimed"
    using end'(1,3) phase [OF ok'] ok' by (simp add: world_ok_def)
  finally show False by simp
qed

section \<open>Sweeps\<close>

lemma update_each_keeps: "r \<in> set rows \<Longrightarrow> \<forall>x\<in>set xs. \<not> P x r \<Longrightarrow> r \<in> set (update_each P f xs rows)"
  by (induction xs arbitrary: rows) (auto intro: update_where_keeps)

lemma stage_rows:
  "sd_schedules (expire_handoffs now d) =
     update_where (handoff_expired now d) (failed_schedule ''AGENT_SCHEDULE_DELIVERY_AMBIGUOUS'' now) (sd_schedules d)"
  "sd_runs (expire_handoffs now d) =
     update_each open_run_of (\<lambda>_. ambiguous_run now) (filter (handoff_expired now d) (sd_schedules d)) (sd_runs d)"
  "sd_schedules (fail_exhausted_schedules now d) = update_where (lease_exhausted now) (exhausted_schedule now) (sd_schedules d)"
  "sd_runs (fail_exhausted_schedules now d) =
     update_each unstarted_run_of (\<lambda>_. failed_run ''AGENT_SCHEDULE_ATTEMPTS_EXHAUSTED'' now)
       (filter (lease_exhausted now) (sd_schedules d)) (sd_runs d)"
  "sd_schedules (recover_leases now d) = update_where (lease_recoverable now) (recovered_schedule now) (sd_schedules d)"
  "sd_runs (recover_leases now d) = sd_runs d"
  "sd_schedules (fail_revoked_schedules now d) =
     update_where (\<lambda>s. as_status s = S_active \<and> destination_revoked d s) (revoked_schedule now) (sd_schedules d)"
  "sd_runs (fail_revoked_schedules now d) =
     update_each unstarted_run_of (\<lambda>_. failed_run ''AGENT_SCHEDULE_DESTINATION_REVOKED'' now)
       (filter (\<lambda>s. as_status s = S_active \<and> destination_revoked d s) (sd_schedules d)) (sd_runs d)"
  by (simp_all add: expire_handoffs_def fail_exhausted_schedules_def recover_leases_def fail_revoked_schedules_def Let_def
      close_ambiguous_rows close_exhausted_rows close_revoked_rows)

lemma prepare_keeps_running:
  assumes ok: "schedules_ok d" and s: "s \<in> set (sd_schedules d)" and r: "r \<in> set (sd_runs d)" "ar_schedule r = as_id s"
    and running: "ar_status r = Run_running"
  shows "s \<in> set (sd_schedules (prepare_schedule_claim now d)) \<and> r \<in> set (sd_runs (prepare_schedule_claim now d))"
proof -
  have lease: "leases s r" "as_dispatch s \<noteq> None"
    using run_okI [OF ok s r] running by (simp_all add: run_ok_def in_flight_def)
  have "\<not> handoff_expired now d s"
  proof
    assume "handoff_expired now d s"
    then obtain r0 where r0: "r0 \<in> set (sd_runs d)" "ar_schedule r0 = as_id s" "Some (ar_lease r0) = as_lease s" "ar_status r0 = Run_dispatching"
      by (auto simp: handoff_expired_def)
    then have "leases s r0" using lease(1) by (simp add: leases_def)
    from one_leased_run [OF ok s r(1) r0(1) r(2) r0(2) lease(1) this] r0(4) running show False by simp
  qed
  moreover have "\<not> lease_exhausted now s" "\<not> lease_recoverable now s" "as_status s \<noteq> S_active"
    using lease by (auto simp: lease_exhausted_def lease_recoverable_def leases_def)
  moreover have "\<not> open_run_of x r" "\<not> unstarted_run_of x r" for x
    using running by (simp_all add: open_run_of_def unstarted_run_of_def)
  ultimately show ?thesis
    unfolding prepare_schedule_claim_def stage_rows using s r(1)
    by (intro conjI update_where_keeps update_each_keeps) auto
qed

text \<open>A sweep is its recovery followed by the claims of its candidates.\<close>

lemma sweep_parts:
  assumes "claim_due_schedules locked tokens uuids o' d = (Inr jobs, d')"
  shows "claim_each tokens uuids (millis (the (cl_now o'))) (number_value (cl_lease_ms o'))
      (claim_candidates locked (millis (the (cl_now o'))) (nat (number_value (cl_limit o')))
         (prepare_schedule_claim (millis (the (cl_now o'))) d))
      (prepare_schedule_claim (millis (the (cl_now o'))) d) = (jobs, d')"
  using assms
  by (cases "require_schedule_claim_options o'")
    (auto simp: claim_due_schedules_def run_tx_def Let_def split: prod.splits)

lemma candidate:
  assumes "c \<in> set (claim_candidates locked now n d)"
  shows "c \<in> set (sd_schedules d)" "as_status c = S_active" "claimable_schedule locked now d c"
  using assms by (auto simp: claim_candidates_def claimable_schedule_def dest: set_select_ordered)

lemma sweep_touches:
  assumes ok: "schedules_ok d" and fresh: "fresh_for tokens uuids UNIV d"
    and each: "claim_each tokens uuids now ms (claim_candidates locked now n d) d = (jobs, d')"
  shows "touches (as_id ` set (claim_candidates locked now n d)) uuids d d'"
    "j \<in> set jobs \<Longrightarrow> cs_id j \<in> as_id ` set (claim_candidates locked now n d)"
proof -
  have pk: "schedule_rows.pk (sd_schedules d)" using ok by (simp add: schedules_ok_def)
  have active: "\<forall>c\<in>set (claim_candidates locked now n d). c \<in> set (sd_schedules d) \<and> as_status c = S_active"
    using candidate by blast
  note claimed = claim_each_evolves [OF ok distinct_candidates [OF pk] active fresh_for_subset [OF fresh subset_UNIV] each]
  show "touches (as_id ` set (claim_candidates locked now n d)) uuids d d'" by (rule conjunct2 [OF claimed])
  assume "j \<in> set jobs"
  from claim_evolvesD(5) [OF conjunct1 [OF claimed] imageI [OF this]]
  show "cs_id j \<in> as_id ` set (claim_candidates locked now n d)" by (simp add: job_identity_def)
qed

text \<open>
  C13: A sweep leaves confirmed work alone. However long a confirmed run takes and however late the sweep comes, the run
  and its schedule are the same afterwards: it is neither failed nor recovered nor claimed a second time.
\<close>

theorem sweep_leaves_running_work_alone:
  assumes history: "schedule_history hash cal w"
    and s: "s \<in> set (sd_schedules (sw_db w))" and r: "r \<in> set (sd_runs (sw_db w))" "ar_schedule r = as_id s"
    and running: "ar_status r = Run_running"
    and fresh: "fresh_for tokens uuids UNIV (sw_db w)"
    and sweep: "claim_due_schedules locked tokens uuids o' (sw_db w) = (Inr jobs, d')"
  shows "s \<in> set (sd_schedules d') \<and> r \<in> set (sd_runs d') \<and> list_all (\<lambda>j. cs_id j \<noteq> as_id s) jobs"
proof -
  let ?now = "millis (the (cl_now o'))"
  let ?d1 = "prepare_schedule_claim ?now (sw_db w)"
  let ?cs = "claim_candidates locked ?now (nat (number_value (cl_limit o'))) ?d1"
  have ok: "schedules_ok (sw_db w)" using history_ok [OF history] by (simp add: world_ok_def)
  note prep = prepare_schedule_claim_evolves [OF ok, of ?now]
  have ok1: "schedules_ok ?d1" by (rule evolves_ok [OF prep])
  have kept: "s \<in> set (sd_schedules ?d1)" "r \<in> set (sd_runs ?d1)"
    using prepare_keeps_running [OF ok s r running] by simp_all
  have "as_status s = S_leased" using run_okI [OF ok s r] running by (simp add: run_ok_def in_flight_def leases_def)
  then have other: "as_id s \<notin> as_id ` set ?cs"
  proof -
    have False if c: "c \<in> set ?cs" "as_id s = as_id c" for c
    proof -
      have "s = c" by (rule same_schedule [OF ok1 kept(1) candidate(1) [OF c(1)] c(2)])
      with candidate(2) [OF c(1)] \<open>as_status s = S_leased\<close> show False by simp
    qed
    then show ?thesis by (intro notI, elim imageE)
  qed
  note touched = sweep_touches [OF ok1 fresh_for_evolves [OF prep fresh] sweep_parts [OF sweep]]
  have "s \<in> set (sd_schedules d')" "r \<in> set (sd_runs d')"
    using touched(1) other kept r(2) by (simp_all add: touches_def)
  moreover have "cs_id j \<noteq> as_id s" if "j \<in> set jobs" for j using touched(2) [OF that] other by metis
  ultimately show ?thesis by (simp add: list_all_iff)
qed

text \<open>What the rest of the program keeps about members, groups and users does not change in a sweep.\<close>

definition surroundings :: "schedule_db \<Rightarrow> membership list \<times> telegram_group list \<times> app_user list" where
  "surroundings d = (sd_memberships d, sd_groups d, sd_users d)"

lemma surroundings_updates [simp]:
  "surroundings (update_schedules P f d) = surroundings d" "surroundings (update_runs R g d) = surroundings d"
  "surroundings (record_schedule_failures code rows d) = surroundings d" "surroundings (drop_snapshots R d) = surroundings d"
  by (simp_all add: surroundings_def update_schedules_def update_runs_def record_schedule_failures_def drop_snapshots_def)

lemma surroundings_loops [simp]:
  "surroundings (foldl (close_ambiguous now) d rows) = surroundings d"
  "surroundings (foldl (close_exhausted now) d rows) = surroundings d"
  "surroundings (foldl (close_revoked now) d rows) = surroundings d"
  by (induction rows arbitrary: d) (simp_all add: close_ambiguous_def close_exhausted_def close_revoked_def Let_def)

lemma surroundings_stages [simp]:
  "surroundings (expire_handoffs now d) = surroundings d" "surroundings (fail_exhausted_schedules now d) = surroundings d"
  "surroundings (recover_leases now d) = surroundings d" "surroundings (fail_revoked_schedules now d) = surroundings d"
  by (simp_all add: expire_handoffs_def fail_exhausted_schedules_def recover_leases_def fail_revoked_schedules_def Let_def)

lemma surroundings_cong:
  assumes "surroundings d' = surroundings d"
  shows "destination_revoked d' s = destination_revoked d s" "author_role d' s = author_role d s"
    "author_telegram_id d' s = author_telegram_id d s"
  using assms by (simp_all add: surroundings_def destination_revoked_def is_member_def is_family_owner_def in_family_group_def
      in_external_group_def author_role_def author_telegram_id_def del: exists_row_iff)

text \<open>The stages before the claims close runs of the schedules they fail only.\<close>

lemma filter_runs_update_each:
  assumes "\<forall>x\<in>set xs. as_id x \<noteq> sid" "\<And>x r. P x r \<Longrightarrow> ar_schedule r = as_id x" "\<And>r. ar_schedule (g r) = ar_schedule r"
  shows "filter (\<lambda>r. ar_schedule r = sid) (update_each P (\<lambda>_. g) xs rows) = filter (\<lambda>r. ar_schedule r = sid) rows"
  using assms(1)
proof (induction xs arbitrary: rows)
  case (Cons x xs)
  have "filter (\<lambda>r. ar_schedule r = sid) (update_where (P x) g rows) = filter (\<lambda>r. ar_schedule r = sid) rows"
    using Cons.prems assms(2,3) by (induction rows) (auto simp: update_where_def)
  with Cons show ?case by simp
qed simp

text \<open>The schedule as the sweep sees it once expired leases are recovered.\<close>

definition after_recovery :: "time \<Rightarrow> agent_schedule \<Rightarrow> agent_schedule" where
  "after_recovery now s = (if lease_recoverable now s then recovered_schedule now s else s)"

lemma prepare_keeps_claimable:
  assumes ok: "schedules_ok d" and s: "s \<in> set (sd_schedules d)" "as_status (after_recovery now s) = S_active" "\<not> destination_revoked d s"
  shows "after_recovery now s \<in> set (sd_schedules (prepare_schedule_claim now d))"
    "filter (\<lambda>r. ar_schedule r = as_id s) (sd_runs (prepare_schedule_claim now d)) = filter (\<lambda>r. ar_schedule r = as_id s) (sd_runs d)"
proof -
  let ?d1 = "expire_handoffs now d" and ?d2 = "fail_exhausted_schedules now (expire_handoffs now d)"
  let ?d3 = "recover_leases now ?d2"
  have 1: "evolves d ?d1" by (rule expire_handoffs_evolves [OF ok])
  have 2: "evolves ?d1 ?d2" by (rule fail_exhausted_evolves [OF evolves_ok [OF 1]])
  have 3: "evolves ?d2 ?d3" by (rule recover_leases_evolves [OF evolves_ok [OF 2]])
  have not: "\<not> handoff_expired now x s" "\<not> lease_exhausted now s" for x
    using s(2) by (auto simp: after_recovery_def handoff_expired_def lease_exhausted_def lease_recoverable_def
        schedule_lease_expired_def split: if_splits)
  have s1: "s \<in> set (sd_schedules ?d1)" unfolding stage_rows by (rule update_where_keeps [OF s(1)]) (rule not)
  have s2: "s \<in> set (sd_schedules ?d2)" unfolding stage_rows(3) by (rule update_where_keeps [OF s1]) (rule not)
  have s3: "after_recovery now s \<in> set (sd_schedules ?d3)"
    unfolding stage_rows(5) set_update_where after_recovery_def using s2 by blast
  have same_id: "as_id (after_recovery now s) = as_id s" by (simp add: after_recovery_def recovered_schedule_def)
  have "destination_revoked ?d3 (after_recovery now s) = destination_revoked d (after_recovery now s)"
    by (rule surroundings_cong) simp
  also have "\<dots> = destination_revoked d s"
    by (simp add: after_recovery_def recovered_schedule_def destination_revoked_def is_member_def is_family_owner_def
        in_family_group_def in_external_group_def del: exists_row_iff)
  finally have stands: "\<not> destination_revoked ?d3 (after_recovery now s)" using s(3) by simp
  show "after_recovery now s \<in> set (sd_schedules (prepare_schedule_claim now d))"
    unfolding prepare_schedule_claim_def stage_rows(7) by (rule update_where_keeps [OF s3]) (simp add: stands)
  have others: "\<forall>x\<in>set (filter Q (sd_schedules x')). as_id x \<noteq> as_id s"
    if "schedules_ok x'" "y \<in> set (sd_schedules x')" "as_id y = as_id s" "\<not> Q y" for Q x' y
  proof
    fix x assume x: "x \<in> set (filter Q (sd_schedules x'))"
    show "as_id x \<noteq> as_id s"
    proof
      assume "as_id x = as_id s"
      then have "x = y" using same_schedule [OF that(1) _ that(2)] x that(3) by simp
      with x that(4) show False by simp
    qed
  qed
  have runs1: "filter (\<lambda>r. ar_schedule r = as_id s) (sd_runs ?d1) = filter (\<lambda>r. ar_schedule r = as_id s) (sd_runs d)"
    unfolding stage_rows(2)
    by (rule filter_runs_update_each [OF others [where y = s]]) (simp_all add: ok s not open_run_of_def ambiguous_run_def)
  have runs2: "filter (\<lambda>r. ar_schedule r = as_id s) (sd_runs ?d2) = filter (\<lambda>r. ar_schedule r = as_id s) (sd_runs ?d1)"
    unfolding stage_rows(4)
    by (rule filter_runs_update_each [OF others [where y = s]])
      (simp_all add: evolves_ok [OF 1] s1 not unstarted_run_of_def failed_run_def)
  have runs4: "filter (\<lambda>r. ar_schedule r = as_id s) (sd_runs (fail_revoked_schedules now ?d3)) =
      filter (\<lambda>r. ar_schedule r = as_id s) (sd_runs ?d3)"
    unfolding stage_rows(8)
    by (rule filter_runs_update_each [OF others [where y = "after_recovery now s"]])
      (simp_all add: evolves_ok [OF 3] s3 same_id stands unstarted_run_of_def failed_run_def)
  show "filter (\<lambda>r. ar_schedule r = as_id s) (sd_runs (prepare_schedule_claim now d)) = filter (\<lambda>r. ar_schedule r = as_id s) (sd_runs d)"
    unfolding prepare_schedule_claim_def runs4 unfolding stage_rows(6) runs2 runs1 ..
qed

lemma prepare_due: "row_count (\<lambda>s. as_next s \<le> now) (sd_schedules (prepare_schedule_claim now d)) = row_count (\<lambda>s. as_next s \<le> now) (sd_schedules d)"
proof -
  have keep: "row_count P (update_where Q f rows) = row_count P rows" if "\<And>s. P (f s) = P s"
    for P Q and f :: "agent_schedule \<Rightarrow> agent_schedule" and rows
    using that by (induction rows) (auto simp: row_count_def update_where_def)
  show ?thesis unfolding prepare_schedule_claim_def stage_rows
    by (simp add: keep schedule_rewrites)
qed

lemma filter_row_count: "(\<And>x. P x \<Longrightarrow> Q x) \<Longrightarrow> length (filter P rows) \<le> row_count Q rows"
  unfolding row_count_def by (induction rows) (auto simp: le_Suc_eq)

definition never_started :: "agent_run \<Rightarrow> bool" where
  "never_started r \<longleftrightarrow> ar_status r = Run_claimed \<and> ar_dispatch r = None"

text \<open>A candidate whose occurrence has no run yet, or one that never started, becomes a job.\<close>

lemma claim_one_free:
  assumes ok: "schedules_ok d" and c: "c \<in> set (sd_schedules d)" "as_status c = S_active"
    and free: "\<forall>r\<in>set (sd_runs d). same_occurrence c r \<longrightarrow> never_started r"
    and claim: "claim_one tokens uuids now ms c d = (job, d')"
  shows "\<exists>run. job = Some (to_schedule_job d (tokens (as_id c)) run c) \<and>
    (\<forall>r\<in>set (sd_runs d). same_occurrence c r \<longrightarrow> run = ar_id r)"
proof (cases "first_row (same_occurrence c) (sd_runs d)")
  case None
  then have none: "\<forall>r\<in>set (sd_runs d). \<not> same_occurrence c r" by (simp add: first_row_None_iff)
  have "job = Some (to_schedule_job d (tokens (as_id c)) (uuids (as_id c)) c)"
    using claim None unfolding claim_one_unfold [OF ok c] by (simp add: upsert_run_def)
  with none show ?thesis by blast
next
  case (Some r)
  have r: "r \<in> set (sd_runs d)" "same_occurrence c r" using first_row_Some [OF Some] by simp_all
  have "job = Some (to_schedule_job d (tokens (as_id c)) (ar_id r) c)"
    using claim free r Some unfolding claim_one_unfold [OF ok c] by (simp add: upsert_run_def never_started_def update_runs_def)
  moreover have "r' = r" if "r' \<in> set (sd_runs d)" "same_occurrence c r'" for r'
  proof -
    have "distinct (map run_key (sd_runs d))" using ok by (simp add: schedules_ok_def)
    moreover have "run_key r' = run_key r" using that(2) r(2) by (simp add: same_occurrence_def run_key_def)
    ultimately show ?thesis using that(1) r(1) by (simp add: distinct_map inj_on_def)
  qed
  ultimately show ?thesis by blast
qed

text \<open>The job claims the schedule, and the run of its occurrence if there is one.\<close>

definition job_for :: "(string \<Rightarrow> string) \<Rightarrow> schedule_db \<Rightarrow> agent_schedule \<Rightarrow> claimed_schedule \<Rightarrow> bool" where
  "job_for tokens d s j \<longleftrightarrow>
     cs_id j = as_id s \<and> cs_next j = to_date (as_next s) \<and> cs_prompt j = as_prompt s \<and> cs_token j = tokens (as_id s) \<and>
     (\<forall>r\<in>set (sd_runs d). same_occurrence s r \<longrightarrow> cs_run j = ar_id r)"

lemma claim_each_includes:
  assumes "schedules_ok d" "distinct (map as_id cs)" "\<forall>c\<in>set cs. c \<in> set (sd_schedules d) \<and> as_status c = S_active"
    "fresh_for tokens uuids (as_id ` set cs) d" "claim_each tokens uuids now ms cs d = (jobs, d')"
    and "s \<in> set cs" "\<forall>r\<in>set (sd_runs d). same_occurrence s r \<longrightarrow> never_started r"
  shows "\<exists>j\<in>set jobs. job_for tokens d s j"
  using assms
proof (induction cs arbitrary: d jobs d')
  case (Cons c cs)
  obtain job d1 where one: "claim_one tokens uuids now ms c d = (job, d1)" by fastforce
  obtain rest d2 where each: "claim_each tokens uuids now ms cs d1 = (rest, d2)" by fastforce
  have jobs: "set jobs = set_option job \<union> set rest" using Cons.prems(5) one each by (auto split: option.splits)
  have c: "c \<in> set (sd_schedules d)" "as_status c = S_active" and notin: "as_id c \<notin> as_id ` set cs"
    using Cons.prems(2,3) by auto
  have fresh: "fresh_for tokens uuids (insert (as_id c) (as_id ` set cs)) d" using Cons.prems(4) by simp
  note first = claim_one_evolves [OF Cons.prems(1) c fresh_for_subset [OF fresh] one, simplified]
  show ?case
  proof (cases "s = c")
    case True
    with claim_one_free [OF Cons.prems(1) c _ one] Cons.prems(7) jobs show ?thesis
      by (auto simp: to_schedule_job_def job_for_def)
  next
    case False
    then have s: "s \<in> set cs" using Cons.prems(6) by simp
    have other: "as_id x \<noteq> as_id c" if "x \<in> set cs" for x using notin that by (metis imageI)
    have same: "same_occurrence s r \<Longrightarrow> (r \<in> set (sd_runs d1)) = (r \<in> set (sd_runs d))" for r
      using first(2) other [OF s] by (auto simp: touches_def same_occurrence_def)
    have "\<exists>j\<in>set rest. job_for tokens d1 s j"
    proof (rule Cons.IH [OF _ _ _ _ each s])
      show "schedules_ok d1" using first(1) by (simp add: claim_evolves_def)
      show "distinct (map as_id cs)" using Cons.prems(2) by simp
      show "fresh_for tokens uuids (as_id ` set cs) d1" by (rule fresh_for_touched [OF fresh notin first(2)])
      show "\<forall>x\<in>set cs. x \<in> set (sd_schedules d1) \<and> as_status x = S_active"
        using Cons.prems(3) first(2) other by (simp add: touches_def)
      show "\<forall>r\<in>set (sd_runs d1). same_occurrence s r \<longrightarrow> never_started r" using Cons.prems(7) same by blast
    qed
    then show ?thesis unfolding jobs job_for_def using same by blast
  qed
qed simp

text \<open>
  C30: A due schedule is claimed, also after a crash. When a valid sweep's limit covers the due schedules, a schedule
  that is due, has attempts left, whose destination still stands, whose author is a known user and that nobody
  has locked is among the jobs of the sweep, with its prompt and a fresh lease token; and this holds for an
  active schedule as well as for one whose lease ran out before its handoff began. The one condition on the run of
  its occurrence is that, if there is one, it never started; then the job continues that very run.
\<close>

theorem due_schedule_is_claimed:
  assumes history: "schedule_history hash cal w" and s: "s \<in> set (sd_schedules (sw_db w))"
    and due: "claimable_schedule locked (millis (the (cl_now o'))) (sw_db w) (after_recovery (millis (the (cl_now o'))) s)"
      "\<not> destination_revoked (sw_db w) s"
    and free: "\<forall>r\<in>set (sd_runs (sw_db w)). same_occurrence s r \<longrightarrow> ar_status r = Run_claimed \<and> ar_dispatch r = None"
    and fresh: "fresh_for tokens uuids UNIV (sw_db w)"
    and limit: "int (row_count (\<lambda>s. as_next s \<le> millis (the (cl_now o'))) (sd_schedules (sw_db w))) \<le> number_value (cl_limit o')"
    and sweep: "claim_due_schedules locked tokens uuids o' (sw_db w) = (Inr jobs, d')"
  shows "\<exists>j\<in>set jobs. cs_id j = as_id s \<and> cs_next j = to_date (as_next s) \<and> cs_prompt j = as_prompt s \<and>
    cs_token j = tokens (as_id s) \<and> (\<forall>r\<in>set (sd_runs (sw_db w)). same_occurrence s r \<longrightarrow> cs_run j = ar_id r)"
proof -
  let ?now = "millis (the (cl_now o'))"
  let ?n = "nat (number_value (cl_limit o'))"
  let ?d1 = "prepare_schedule_claim ?now (sw_db w)"
  let ?cs = "claim_candidates locked ?now ?n ?d1"
  let ?s = "after_recovery ?now s"
  have ok: "schedules_ok (sw_db w)" using history_ok [OF history] by (simp add: world_ok_def)
  note prep = prepare_schedule_claim_evolves [OF ok, of ?now]
  have ok1: "schedules_ok ?d1" by (rule evolves_ok [OF prep])
  have active: "as_status ?s = S_active" using due(1) by (simp add: claimable_schedule_def)
  note kept = prepare_keeps_claimable [OF ok s active due(2)]
  have around: "surroundings ?d1 = surroundings (sw_db w)" by (simp add: prepare_schedule_claim_def)
  have claimable: "claimable_schedule locked ?now ?d1 ?s"
    using due(1) unfolding claimable_schedule_def surroundings_cong(2,3) [OF around] .
  have "length (filter (claimable_schedule locked ?now ?d1) (sd_schedules ?d1)) \<le> row_count (\<lambda>s. as_next s \<le> ?now) (sd_schedules ?d1)"
    by (rule filter_row_count) (simp add: claimable_schedule_def)
  then have "length (filter (claimable_schedule locked ?now ?d1) (sd_schedules ?d1)) \<le> ?n"
    using limit prepare_due [of ?now "sw_db w"] by linarith
  then have chosen: "?s \<in> set ?cs" using kept(1) claimable by (simp add: claim_candidates_def select_ordered_def)
  have same: "same_occurrence ?s = same_occurrence s" "as_id ?s = as_id s" "as_next ?s = as_next s" "as_prompt ?s = as_prompt s"
    by (simp_all add: after_recovery_def recovered_schedule_def same_occurrence_def occurrence_of_def fun_eq_iff)
  have runs: "(r \<in> set (sd_runs ?d1)) = (r \<in> set (sd_runs (sw_db w)))" if "same_occurrence s r" for r
    using arg_cong [OF kept(2), of set] that by (auto simp: same_occurrence_def set_eq_iff)
  have free1: "\<forall>r\<in>set (sd_runs ?d1). same_occurrence ?s r \<longrightarrow> never_started r"
    using free runs unfolding same never_started_def by blast
  have pk: "schedule_rows.pk (sd_schedules ?d1)" using ok1 by (simp add: schedules_ok_def)
  have cs: "\<forall>c\<in>set ?cs. c \<in> set (sd_schedules ?d1) \<and> as_status c = S_active" using candidate by blast
  have "\<exists>j\<in>set jobs. job_for tokens ?d1 ?s j"
    by (rule claim_each_includes [OF ok1 distinct_candidates [OF pk] cs
          fresh_for_subset [OF fresh_for_evolves [OF prep fresh] subset_UNIV] sweep_parts [OF sweep] chosen free1])
  then show ?thesis using runs unfolding job_for_def same by blast
qed

end
