(* ===== verification/Agent_Schedule_Rules.thy ===== *)
theory Agent_Schedule_Rules
  imports Agent_Schedule_Properties
begin

text \<open>
  What single operations on agent schedules guarantee: who may change a schedule, what an automation of an
  external group may use, that repeated requests do nothing twice, and how a delivered run is settled.
\<close>

section \<open>Who may change a schedule\<close>

definition entitled :: "schedule_auth \<Rightarrow> schedule_db \<Rightarrow> agent_schedule \<Rightarrow> bool" where
  "entitled auth d s \<longleftrightarrow>
     (\<exists>m\<in>set (sd_memberships d). m_family m = sa_family auth \<and> m_user m = sa_user auth \<and>
        (case as_scope s of
           Personal_scope \<Rightarrow> as_author s = sa_user auth \<and> sa_chat_type auth = Private_chat
         | Family_scope \<Rightarrow> as_author s = sa_user auth \<or> m_role m = Owner_role
         | Group_scope \<Rightarrow> m_role m = Owner_role \<and> sa_chat_type auth = Private_chat))"

lemma mutation_access_entitled:
  assumes "require_agent_schedule_mutation_access auth s d = Inr ()"
  shows "entitled auth d s"
proof -
  have visible: "agent_schedule_visible_in_chat (sa_chat_type auth) (as_scope s)"
    using assms by (simp add: require_agent_schedule_mutation_access_def split: if_splits)
  with assms obtain role where role: "require_current_membership (sd_memberships d) (sa_family auth) (sa_user auth) = Inr role"
    by (auto simp: require_agent_schedule_mutation_access_def res_bind_Inr_iff)
  from require_current_membership_Inr [OF role] obtain m where
    m: "m \<in> set (sd_memberships d)" "m_family m = sa_family auth" "m_user m = sa_user auth" "m_role m = role" by blast
  show ?thesis
    using assms visible role m unfolding entitled_def
    by (intro bexI [of _ m]; cases "as_scope s")
      (auto simp: require_agent_schedule_mutation_access_def agent_schedule_visible_in_chat_def split: if_splits)
qed

lemma mutable_entitled:
  assumes "require_mutable auth sid required d = Inr s"
  shows "s \<in> set (sd_schedules d)" "as_id s = sid" "as_family s = sa_family auth" "entitled auth d s"
proof -
  have sel: "first_row (\<lambda>s. as_family s = sa_family auth \<and> as_id s = sid) (sd_schedules d) = Some s"
      and access: "require_agent_schedule_mutation_access auth s d = Inr ()"
    using assms by (auto simp: require_mutable_def select_agent_schedule_def res_bind_Inr_iff split: option.splits if_splits)
  from first_row_Some [OF sel] show "s \<in> set (sd_schedules d)" "as_id s = sid" "as_family s = sa_family auth" by simp_all
  show "entitled auth d s" by (rule mutation_access_entitled [OF access])
qed

text \<open>An operation that goes through \<open>require_mutable\<close> and rewrites or deletes the row under that id only.\<close>

definition guarded_change :: "schedule_auth \<Rightarrow> string \<Rightarrow> schedule_db \<Rightarrow> schedule_db \<Rightarrow> bool" where
  "guarded_change auth sid d d' \<longleftrightarrow>
     (\<exists>s\<in>set (sd_schedules d). as_id s = sid \<and> as_family s = sa_family auth \<and> as_status s \<noteq> S_leased \<and> entitled auth d s) \<and>
     filter (\<lambda>s. as_id s \<noteq> sid) (sd_schedules d') = filter (\<lambda>s. as_id s \<noteq> sid) (sd_schedules d)"

lemma run_tx_schedules:
  assumes "sd_schedules (snd (run_tx body d)) \<noteq> sd_schedules d"
  obtains x where "body d = Commit x (snd (run_tx body d))"
  using assms by (cases "body d") (auto simp: run_tx_def)

lemma filter_update_where:
  "(\<And>x. x \<in> set rows \<Longrightarrow> P x \<Longrightarrow> \<not> Q x \<and> \<not> Q (f x)) \<Longrightarrow> filter Q (update_where P f rows) = filter Q rows"
  by (induction rows) (auto simp: update_where_def)

lemma update_guarded:
  assumes "sd_schedules (snd (update_schedule hash cal auth sid u now d)) \<noteq> sd_schedules d" (is "sd_schedules ?d' \<noteq> _")
  shows "guarded_change auth sid d ?d'"
proof (cases "schedule_update_values u")
  case (Inl e)
  with assms show ?thesis by (simp add: update_schedule_def)
next
  case (Inr v)
  let ?h = "hash (Update_print u v)"
  have d': "?d' = snd (run_tx (update_schedule_body cal auth sid u v ?h now) d)" by (simp add: update_schedule_def Inr)
  obtain x where body: "update_schedule_body cal auth sid u v ?h now d = Commit x ?d'"
    using assms unfolding d' by (rule run_tx_schedules)
  then have "update_schedule_row cal auth sid u v ?h now d = Commit x ?d'"
    using assms by (auto simp: update_schedule_body_def split: sum.splits option.splits dest!: replayed_same)
  then show ?thesis
  proof (cases rule: update_row_cases)
    case (1 s capabilities)
    note found = mutable_entitled [OF 1(1)]
    have "filter (\<lambda>s. as_id s \<noteq> sid) (sd_schedules ?d') = filter (\<lambda>s. as_id s \<noteq> sid) (sd_schedules d)"
      unfolding 1(5) by (simp, rule filter_update_where) (simp add: updated_idle(2) found(2))
    then show ?thesis unfolding guarded_change_def using found 1(2) by blast
  qed
qed

lemma run_now_row_cases:
  assumes "run_schedule_now_row auth sid key required h now d = Commit x d'"
  shows "\<exists>s. require_mutable auth sid required d = Inr s \<and> as_status s \<noteq> S_leased \<and> \<not> key_taken (sa_family auth) key d \<and>
    d' = record_schedule_operation (sa_family auth) key Run_schedule_now h sid (Schedule_run_now (sa_family auth) (sa_user auth) sid)
      (d\<lparr>sd_schedules := update_where (\<lambda>x. as_id x = sid) (requested_schedule now) (sd_schedules d)\<rparr>)"
  using assms by (auto simp: run_schedule_now_row_def split: sum.splits if_splits)

lemma run_now_guarded:
  assumes "sd_schedules (snd (run_schedule_now hash auth sid key required now d)) \<noteq> sd_schedules d" (is "sd_schedules ?d' \<noteq> _")
  shows "guarded_change auth sid d ?d'"
proof -
  let ?h = "hash (Id_print sid)"
  obtain x where body: "run_schedule_now_body auth sid key required ?h now d = Commit x ?d'"
    using assms unfolding run_schedule_now_def by (rule run_tx_schedules)
  then have row: "run_schedule_now_row auth sid key required ?h now d = Commit x ?d'"
    using assms by (auto simp: run_schedule_now_body_def split: sum.splits option.splits dest!: replayed_same)
  from run_now_row_cases [OF row] obtain s where s: "require_mutable auth sid required d = Inr s" "as_status s \<noteq> S_leased"
    "sd_schedules ?d' = update_where (\<lambda>x. as_id x = sid) (requested_schedule now) (sd_schedules d)" by auto
  have "filter (\<lambda>s. as_id s \<noteq> sid) (sd_schedules ?d') = filter (\<lambda>s. as_id s \<noteq> sid) (sd_schedules d)"
    unfolding s(3) by (rule filter_update_where) simp
  then show ?thesis unfolding guarded_change_def using mutable_entitled [OF s(1)] s(2) by blast
qed

lemma delete_guarded:
  assumes "sd_schedules (snd (delete_schedule hash auth sid key required d)) \<noteq> sd_schedules d" (is "sd_schedules ?d' \<noteq> _")
  shows "guarded_change auth sid d ?d'"
proof -
  from delete_schedule_cases [of hash auth sid key required d] assms
  obtain d1 s where d1: "sd_schedules d1 = sd_schedules d" "?d' = remove_schedule sid d1"
      and s: "require_mutable auth sid required d = Inr s" "as_status s \<noteq> S_leased"
    by (metis prod.collapse)
  have "filter (\<lambda>s. as_id s \<noteq> sid) (sd_schedules ?d') = filter (\<lambda>s. as_id s \<noteq> sid) (sd_schedules d)"
    unfolding d1(2) remove_schedule_def using d1(1) by (simp add: delete_where_def)
  then show ?thesis unfolding guarded_change_def using mutable_entitled [OF s(1)] s(2) by blast
qed

text \<open>
  C20: Only those entitled change a schedule. An update, a run-now or a deletion that changes the schedules was asked by a
  current member of the family: the author of a personal schedule in a private chat, the author or the
  family's owner for one of the family group, the owner in a private chat for one of an external group. No run of
  the schedule is in progress, and no other schedule changes.
\<close>

theorem schedule_changes_are_entitled:
  assumes "d' \<in> {snd (update_schedule hash cal auth sid u now d), snd (run_schedule_now hash auth sid key required now d),
      snd (delete_schedule hash auth sid key required d)}"
    and "sd_schedules d' \<noteq> sd_schedules d"
  shows "(\<exists>s\<in>set (sd_schedules d). as_id s = sid \<and> as_family s = sa_family auth \<and> as_status s \<noteq> S_leased \<and> entitled auth d s) \<and>
    filter (\<lambda>s. as_id s \<noteq> sid) (sd_schedules d') = filter (\<lambda>s. as_id s \<noteq> sid) (sd_schedules d)"
  using assms update_guarded run_now_guarded delete_guarded unfolding guarded_change_def [symmetric] by blast

section \<open>Repeated requests\<close>

text \<open>
  Run-now asks for one run. After a run-now answered, the same request, sent again at any later time under the same
  key, changes no schedule, also when the requested run has meanwhile been claimed, has finished or failed.
\<close>

theorem run_now_asks_once:
  assumes first: "run_schedule_now hash auth sid key required now d = (Inr x, d1)"
    and later: "sd_operations d2 = sd_operations d1"
  shows "snd (run_schedule_now hash auth sid key required' now' d2) = d2"
proof -
  let ?h = "hash (Id_print sid)"
  let ?find = "find_agent_schedule_operation (sa_family auth) key Run_schedule_now ?h"
  have body: "run_schedule_now_body auth sid key required ?h now d = Commit x d1"
    using first by (cases "run_schedule_now_body auth sid key required ?h now d")
      (auto simp: run_schedule_now_def run_tx_def run_schedule_now_body_def run_schedule_now_row_def replayed_schedule_def
        split: sum.splits option.splits if_splits)
  have "\<exists>p. ?find d1 = Inr (Some p) \<and> (p = None \<longrightarrow> key_taken (sa_family auth) key d1)"
  proof (cases "?find d")
    case (Inl e)
    with body show ?thesis by (simp add: run_schedule_now_body_def)
  next
    case (Inr p)
    show ?thesis
    proof (cases p)
      case (Some q)
      then have taken: "key_taken (sa_family auth) key d"
        using Inr by (auto simp: find_agent_schedule_operation_def key_taken_def split: option.splits if_splits dest!: first_row_Some)
      have "d1 = d"
        using body Inr Some taken
        by (auto simp: run_schedule_now_body_def split: option.splits dest!: replayed_same run_now_row_cases)
      with Inr Some taken show ?thesis by auto
    next
      case None
      then have row: "run_schedule_now_row auth sid key required ?h now d = Commit x d1"
        using body Inr by (simp add: run_schedule_now_body_def)
      from run_now_row_cases [OF row] have "\<not> key_taken (sa_family auth) key d"
        "sd_operations d1 = sd_operations d @
           [\<lparr>so_family = sa_family auth, so_key = key, so_kind = Run_schedule_now, so_hash = ?h, so_schedule = Some sid\<rparr>]"
        by (auto simp: record_schedule_operation_def)
      then have "?find d1 = Inr (Some (Some sid))"
        by (auto simp: find_agent_schedule_operation_def first_row_snoc key_taken_def split: option.split dest!: first_row_Some)
      then show ?thesis by auto
    qed
  qed
  then obtain p where p: "?find d2 = Inr (Some p)" "p = None \<Longrightarrow> key_taken (sa_family auth) key d2"
    using later by (auto simp: find_agent_schedule_operation_def key_taken_def)
  show ?thesis
    using p by (cases p) (auto simp: run_schedule_now_def run_tx_def run_schedule_now_body_def run_schedule_now_row_def
        replayed_schedule_def split: sum.splits option.splits)
qed

end
