(* ===== verification/Agent_Schedule_Delivery.thy ===== *)
theory Agent_Schedule_Delivery
  imports Agent_Schedule_Rules
begin

text \<open>
  What happens to a run whose result Telegram has accepted, who may still receive it, and what an automation of
  an external group may use.
\<close>

section \<open>Receipts\<close>

definition receipt_of :: "completed_input \<Rightarrow> proactive_delivery \<Rightarrow> bool" where
  "receipt_of i p \<longleftrightarrow>
     pd_kind p = Schedule_source \<and> pd_source p = ci_run i \<and> pd_message p = decimal_value (di_message (ci_delivery i))"

lemma finish_keeps_journal:
  assumes "finish_active_agent_schedule_run cal session eve completed e d = Inr (b, d')"
  shows "sd_deliveries d' = sd_deliveries d"
  using assms by (cases rule: finish_cases) (simp_all add: update_schedules_def drop_snapshot_def update_runs_def)

text \<open>The cases of a completion: it fails before the receipt, or commits with the receipt written.\<close>

lemma delivered_cases:
  assumes found: "first_row (\<lambda>r. ar_id r = ci_run i) (sd_runs d) = Some run"
  shows "(\<exists>e. complete_delivered_agent_schedule_run cal i d = Throw e \<and>
        (record_proactive_delivery ((ci_delivery i)\<lparr>di_source := ci_run i, di_kind := Schedule_source\<rparr>) (sd_deliveries d) = Inl e \<or>
         (\<exists>j. finish_active_agent_schedule_run cal (ci_session i) (ci_eve i) (the (di_delivered (ci_delivery i))) None
           (d\<lparr>sd_deliveries := j\<rparr>) = Inl e))) \<or>
     (\<exists>c d'. complete_delivered_agent_schedule_run cal i d = Commit c d' \<and> (\<exists>p\<in>set (jn_rows (sd_deliveries d')). receipt_of i p))"
proof -
  let ?receipt = "record_proactive_delivery ((ci_delivery i)\<lparr>di_source := ci_run i, di_kind := Schedule_source\<rparr>) (sd_deliveries d)"
  let ?matches = "ar_session run = Some (ci_session i) \<and> ar_eve run = Some (ci_eve i)"
  note unfold = complete_delivered_agent_schedule_run_def found option.case
  show ?thesis
  proof (cases ?receipt)
    case (Inl e)
    then show ?thesis unfolding unfold by simp
  next
    case (Inr j)
    obtain p where "p \<in> set (jn_rows j)"
        "same_receipt (delivery_row 0 ((ci_delivery i)\<lparr>di_source := ci_run i, di_kind := Schedule_source\<rparr>)) p"
      using recorded_delivery [OF Inr] by blast
    then have "\<exists>p\<in>set (jn_rows j). receipt_of i p"
      by (intro bexI [of _ p]) (simp_all add: receipt_of_def same_receipt_def delivery_row_def)
    then have receipt: "\<exists>p\<in>set (jn_rows (sd_deliveries (d\<lparr>sd_deliveries := j\<rparr>))). receipt_of i p" by simp
    let ?finish = "finish_active_agent_schedule_run cal (ci_session i) (ci_eve i) (the (di_delivered (ci_delivery i))) None
           (d\<lparr>sd_deliveries := j\<rparr>)"
    show ?thesis
    proof (cases "\<not> ?matches \<or> ar_status run \<noteq> Run_running")
      case True
      with receipt show ?thesis unfolding unfold Inr sum.case Let_def if_P [OF True] by blast
    next
      case False
      show ?thesis
      proof (cases ?finish)
        case (Inl e)
        then show ?thesis unfolding unfold Inr sum.case Let_def if_not_P [OF False] by auto
      next
        case finish: (Inr bd)
        obtain b d2 where bd: "bd = (b, d2)" by fastforce
        then have "\<exists>p\<in>set (jn_rows (sd_deliveries d2)). receipt_of i p"
          using finish_keeps_journal finish receipt by metis
        then show ?thesis unfolding unfold Inr sum.case Let_def if_not_P [OF False] finish bd by (cases b) simp_all
      qed
    qed
  qed
qed

text \<open>Neither a rejected receipt nor the recurrence query answers with the code of a conflict.\<close>

lemma record_errors:
  "record_proactive_delivery i j = Inl e \<Longrightarrow> e \<noteq> AppError ''AGENT_SCHEDULE_DELIVERY_STATE_INVALID''"
  by (auto simp: record_proactive_delivery_def require_delivery_def require_delivery_zone_def require_positive_bigint_def
      res_bind_Inl_iff Let_def split: if_splits)

lemma next_occurrence_errors:
  "next_schedule_occurrence cal s t = Inl e \<Longrightarrow> e = AppError ''AGENT_RECURRENCE_NEXT_TIME_INVALID''"
  by (auto simp: next_schedule_occurrence_def next_anchored_occurrence_def Let_def
      split: schedule_kind.splits if_splits sum.splits option.splits occurrence.splits)

lemma finish_errors:
  "finish_active_agent_schedule_run cal session eve completed e d = Inl x \<Longrightarrow> x = AppError ''AGENT_RECURRENCE_NEXT_TIME_INVALID''"
  by (auto simp: finish_active_agent_schedule_run_def Let_def split: option.splits sum.splits dest: next_occurrence_errors)

text \<open>
  The receipt survives a conflict. When Telegram has accepted the result of a known run and completing it answers
  that the run is not in the state to be completed, the receipt of the message is in the journal
  all the same: the conflict is reported after the commit.
\<close>

theorem receipt_survives_a_conflict:
  assumes "\<exists>r\<in>set (sd_runs d). ar_id r = ci_run i"
    and "complete_delivered_run cal i d = (Inl (AppError ''AGENT_SCHEDULE_DELIVERY_STATE_INVALID''), d')"
  shows "\<exists>p\<in>set (jn_rows (sd_deliveries d')). receipt_of i p"
proof -
  obtain run where found: "first_row (\<lambda>r. ar_id r = ci_run i) (sd_runs d) = Some run"
    using assms(1) by (cases "first_row (\<lambda>r. ar_id r = ci_run i) (sd_runs d)") (auto simp: first_row_None_iff)
  from delivered_cases [OF found, of cal] show ?thesis
  proof
    assume "\<exists>e. complete_delivered_agent_schedule_run cal i d = Throw e \<and>
        (record_proactive_delivery ((ci_delivery i)\<lparr>di_source := ci_run i, di_kind := Schedule_source\<rparr>) (sd_deliveries d) = Inl e \<or>
         (\<exists>j. finish_active_agent_schedule_run cal (ci_session i) (ci_eve i) (the (di_delivered (ci_delivery i))) None
           (d\<lparr>sd_deliveries := j\<rparr>) = Inl e))"
    then obtain e where "complete_delivered_agent_schedule_run cal i d = Throw e"
        "e \<noteq> AppError ''AGENT_SCHEDULE_DELIVERY_STATE_INVALID''"
      using record_errors finish_errors by fastforce
    with assms(2) have False by (simp add: complete_delivered_run_def run_tx_def)
    then show ?thesis ..
  next
    assume "\<exists>c d1. complete_delivered_agent_schedule_run cal i d = Commit c d1 \<and> (\<exists>p\<in>set (jn_rows (sd_deliveries d1)). receipt_of i p)"
    then obtain c d1 where commit: "complete_delivered_agent_schedule_run cal i d = Commit c d1"
        "\<exists>p\<in>set (jn_rows (sd_deliveries d1)). receipt_of i p" by blast
    then have "d' = d1" using assms(2) by (cases c) (simp_all add: complete_delivered_run_def run_tx_def)
    with commit(2) show ?thesis by simp
  qed
qed

section \<open>Settling a delivered run\<close>

lemma ended_only_once:
  "next_schedule_occurrence cal s t = Inr None \<Longrightarrow> zone_laws cal \<Longrightarrow> (\<And>days. as_days s = Some days \<Longrightarrow> weekly_row s days) \<Longrightarrow>
    recurrence_shape s \<Longrightarrow> as_kind s = Once"
proof (cases "as_kind s")
  case (Repeats u)
  assume none: "next_schedule_occurrence cal s t = Inr None" and laws: "zone_laws cal"
    and rows: "\<And>days. as_days s = Some days \<Longrightarrow> weekly_row s days" and shape: "recurrence_shape s"
  show ?thesis
  proof (cases "u = Weekly")
    case True
    then obtain days where days: "as_days s = Some days"
      using shape Repeats by (auto simp: recurrence_shape_def split: option.splits)
    have "weekly_candidates cal s t \<noteq> []" by (rule weekly_candidate_exists [OF laws rows [OF days]])
    then have "numbered_candidates cal s t \<noteq> []"
      by (simp add: numbered_candidates_def) (metis length_0_conv length_enumerate)
    then have "sort_key snd (numbered_candidates cal s t) \<noteq> []" by (metis length_0_conv length_sort)
    with none Repeats True show ?thesis
      by (auto simp: next_schedule_occurrence_def next_weekly_occurrence_def split: list.splits)
  next
    case False
    with none Repeats show ?thesis
      by (auto simp: next_schedule_occurrence_def split: sum.splits occurrence.splits)
  qed
qed simp

lemma stored_weekly_row: "recurrence_shape s \<Longrightarrow> as_days s = Some days \<Longrightarrow> weekly_row s days"
  by (auto simp: recurrence_shape_def weekly_row_def list_all_iff)

definition settled_schedule :: "time \<Rightarrow> agent_schedule \<Rightarrow> bool" where
  "settled_schedule at' s \<longleftrightarrow>
     as_lease s = None \<and> as_dispatch s = None \<and> as_error s = None \<and>
     (if as_kind s = Once then as_status s = S_completed
      else as_status s = S_active \<and> as_attempts s = 0 \<and> at' < as_next s)"

text \<open>
  C31: A delivered run is settled. When completing a delivered run answers that it completed now, on a calendar that
  obeys the laws and with the unique index on sessions in force, then the run is completed, its receipt is in
  the journal, and its schedule is free again: a single one is completed, a repeating one is active, without
  attempts, for an occurrence after the delivery.
\<close>

theorem delivered_run_is_settled:
  assumes history: "schedule_history hash cal w" and laws: "zone_laws cal"
    and index: "\<forall>r\<in>set (sd_runs (sw_db w)). ar_session r = Some (ci_session i) \<longrightarrow> ar_eve r = Some (ci_eve i) \<longrightarrow> ar_id r = ci_run i"
    and complete: "complete_delivered_run cal i (sw_db w) = (Inr True, d')"
  shows "\<exists>r\<in>set (sd_runs d'). ar_id r = ci_run i \<and> ar_status r = Run_completed \<and>
    (\<exists>s\<in>set (sd_schedules d'). as_id s = ar_schedule r \<and> settled_schedule (millis (the (di_delivered (ci_delivery i)))) s) \<and>
    (\<exists>p\<in>set (jn_rows (sd_deliveries d')). receipt_of i p)"
proof -
  let ?d = "sw_db w"
  let ?at = "millis (the (di_delivered (ci_delivery i)))"
  have ok: "schedules_ok ?d" using history_ok [OF history] by (simp add: world_ok_def)
  obtain run where found: "first_row (\<lambda>r. ar_id r = ci_run i) (sd_runs ?d) = Some run"
    using complete by (cases "first_row (\<lambda>r. ar_id r = ci_run i) (sd_runs ?d)")
      (auto simp: complete_delivered_run_def run_tx_def complete_delivered_agent_schedule_run_def)
  obtain c d1 where commit': "complete_delivered_agent_schedule_run cal i ?d = Commit c d1"
      and receipt': "\<exists>p\<in>set (jn_rows (sd_deliveries d1)). receipt_of i p"
    using delivered_cases [OF found, of cal] complete by (auto simp: complete_delivered_run_def run_tx_def)
  have "c = Completed_now" "d1 = d'" using complete commit' by (cases c; simp add: complete_delivered_run_def run_tx_def)+
  then have commit: "complete_delivered_agent_schedule_run cal i ?d = Commit Completed_now d'"
      and receipt: "\<exists>p\<in>set (jn_rows (sd_deliveries d')). receipt_of i p" using commit' receipt' by simp_all
  obtain j where recorded: "record_proactive_delivery ((ci_delivery i)\<lparr>di_source := ci_run i, di_kind := Schedule_source\<rparr>) (sd_deliveries ?d) = Inr j"
    using commit found by (auto simp: complete_delivered_agent_schedule_run_def split: sum.splits)
  let ?d1 = "?d\<lparr>sd_deliveries := j\<rparr>"
  have "finish_active_agent_schedule_run cal (ci_session i) (ci_eve i) (the (di_delivered (ci_delivery i))) None ?d1 = Inr (True, d')"
    using commit found recorded
    by (auto simp: complete_delivered_agent_schedule_run_def Let_def split: sum.splits bool.splits if_splits)
  then show ?thesis
  proof (cases rule: finish_cases)
    case (settled s r f)
    have r: "r \<in> set (sd_runs ?d)" "ar_id r = ci_run i" using settled(2,3) index by (auto simp: active_run_def)
    let ?r = "settled_run ?at None r"
    have "?r \<in> set (sd_runs d')" unfolding settled(8) using settled(2) by (force simp: set_update_where)
    moreover have "ar_id ?r = ci_run i" "ar_status ?r = Run_completed" "ar_schedule ?r = as_id s"
      using r(2) settled(5) by (simp_all add: settled_run_def)
    moreover have "f s \<in> set (sd_schedules d')" "as_id (f s) = as_id s"
      unfolding settled(8) using settled(4,7) by (force simp: set_update_where)+
    moreover have "settled_schedule ?at (f s)"
    proof -
      have "schedules_ok ?d" by (rule ok)
      then have shape: "recurrence_shape s" using row_checks [OF ok] settled(4) by (simp add: schedule_checks_def)
      note ended = ended_only_once [OF _ laws stored_weekly_row [OF shape] shape]
      have once: "as_kind s \<noteq> Once" if "next_schedule_occurrence cal s ?at = Inr (Some (n, t))" for n t
        using that by (auto simp: next_schedule_occurrence_def)
      from settled(7) show ?thesis
        using ended once by (auto simp: settled_schedule_def ended_schedule_def rearmed_schedule_def)
    qed
    ultimately show ?thesis using receipt by metis
  qed simp
qed

section \<open>Authorization\<close>

lemma entitled_not_revoked: "still_entitled d s \<Longrightarrow> \<not> destination_revoked d s"
  by (cases "as_scope s") (auto simp: still_entitled_def destination_revoked_def is_member_def is_family_owner_def
      in_family_group_def in_external_group_def)

text \<open>
  Execution and the sweep agree on who is entitled. The query that authorizes a running scenario and the one by which the
  sweep revokes a schedule accept the same schedules: still entitled is the same as not revoked, given
  that a personal schedule is owned by its author.
\<close>

theorem entitlement_is_not_revoked:
  "still_entitled d s \<longleftrightarrow>
     \<not> destination_revoked d s \<and> \<not> (as_scope s = Personal_scope \<and> as_owner s \<noteq> Some (as_author s))"
proof (cases "as_scope s")
  case Personal_scope
  then show ?thesis by (auto simp: still_entitled_def destination_revoked_def is_member_def)
next
  case Family_scope
  then show ?thesis by (auto simp: still_entitled_def destination_revoked_def is_member_def in_family_group_def)
next
  case Group_scope
  then show ?thesis
    by (auto simp: still_entitled_def destination_revoked_def is_member_def is_family_owner_def in_external_group_def)
qed

text \<open>
  C16: A result is delivered only where the author still may send it. When delivery is authorized, in any history, the
  run is confirmed (running, in the authorized session and Eve session) and the only one of its schedule in flight,
  its schedule is leased to it and sends to the authorized chat and thread, and the destination is not revoked at
  that moment.
\<close>

theorem delivery_needs_todays_rights:
  assumes history: "schedule_history hash cal w"
    and authorized: "authorize_agent_schedule_delivery a eve (sw_db w) = Inr ()"
  shows "\<exists>r\<in>set (sd_runs (sw_db w)). \<exists>s\<in>set (sd_schedules (sw_db w)).
    ar_id r = ea_run a \<and> ar_status r = Run_running \<and> ar_session r = Some (ea_session a) \<and> ar_eve r = Some eve \<and>
    ar_schedule r = as_id s \<and> leases s r \<and> as_chat s = ea_chat a \<and> as_thread s = ea_thread a \<and>
    \<not> destination_revoked (sw_db w) s \<and>
    filter (\<lambda>r'. ar_schedule r' = as_id s \<and> in_flight r') (sd_runs (sw_db w)) = [r]"
proof -
  have "is_authorized a (Some eve) (sw_db w)"
    using authorized by (simp add: authorize_agent_schedule_delivery_def split: if_splits)
  then obtain r s where r: "r \<in> set (sd_runs (sw_db w))" "ar_id r = ea_run a" "ar_status r = Run_running"
        "ar_session r = Some (ea_session a)" "ar_eve r = Some eve"
      and s: "s \<in> set (sd_schedules (sw_db w))" "as_id s = ar_schedule r" "as_chat s = ea_chat a" "as_thread s = ea_thread a"
        "still_entitled (sw_db w) s"
    by (auto simp: is_authorized_def)
  have flight: "in_flight r" using r(3) by (simp add: in_flight_def)
  have ok: "schedules_ok (sw_db w)" using history_ok [OF history] by (simp add: world_ok_def)
  have "leases s r \<and> as_dispatch s \<noteq> None \<and> filter (\<lambda>r'. ar_schedule r' = as_id s \<and> in_flight r') (sd_runs (sw_db w)) = [r]"
    by (rule single_run_in_flight [OF ok r(1) flight s(1) s(2) [symmetric]])
  moreover have "\<not> destination_revoked (sw_db w) s" by (rule entitled_not_revoked [OF s(5)])
  ultimately show ?thesis
    by (intro bexI [OF _ r(1)] bexI [OF _ s(1)] conjI) (simp_all only: r(2-5) s(2) s(3) s(4) simp_thms)
qed

section \<open>Automations of external groups\<close>

definition granted :: "schedule_db \<Rightarrow> agent_schedule \<Rightarrow> bool" where
  "granted d s \<longleftrightarrow>
     (\<exists>g\<in>set (sd_groups d). as_group s = Some (g_id g) \<and> g_family g = as_family s \<and> g_type g = External_group \<and>
        set (as_tools s) \<subseteq> set (g_allowlist g) \<and> set (as_tools s) \<subseteq> set external_schedule_capabilities)"

lemma parse_capabilities_subset:
  "parse_capabilities vs acc = Some cs \<Longrightarrow> set acc \<subseteq> set external_schedule_capabilities \<Longrightarrow>
     set cs \<subseteq> set external_schedule_capabilities"
  by (induction vs acc rule: parse_capabilities.induct) (auto split: if_splits)

lemma parsed_capabilities_known:
  "parse_external_schedule_capabilities v = Some cs \<Longrightarrow> set cs \<subseteq> set external_schedule_capabilities"
  by (auto simp: parse_external_schedule_capabilities_def dest: parse_capabilities_subset split: json.splits)

lemma stored_allowlist_same: "stored_allowlist names = Some current \<Longrightarrow> current = names"
  by (auto simp: stored_allowlist_def parse_allowlist_Some_iff inj_map_eq_map inj_def)

lemma required_granted: "require_granted scheduled current = Inr cs \<Longrightarrow> cs = scheduled \<and> set scheduled \<subseteq> set current"
  by (auto simp: require_granted_def list_ex_iff split: if_splits)

lemma updated_capabilities_granted:
  assumes "require_updated_external_schedule_capabilities gs s v = Inr (Some cs)"
  shows "\<exists>g\<in>set gs. as_group s = Some (g_id g) \<and> g_family g = as_family s \<and> g_type g = External_group \<and>
    set cs \<subseteq> set (g_allowlist g) \<and> set cs \<subseteq> set external_schedule_capabilities"
proof -
  obtain requested scheduled gid where v: "v = Some requested" "parse_external_schedule_capabilities requested = Some scheduled" "as_group s = Some gid"
    using assms by (auto simp: require_updated_external_schedule_capabilities_def split: option.splits)
  with assms obtain g current where
      g: "first_row (\<lambda>g. g_id g = gid \<and> g_family g = as_family s \<and> g_type g = External_group) gs = Some g"
        "stored_allowlist (g_allowlist g) = Some current" "require_granted scheduled current = Inr cs"
    by (auto simp: require_updated_external_schedule_capabilities_def res_bind_Inr_iff split: if_splits option.splits bind_splits)
  with first_row_Some [OF g(1)] v parsed_capabilities_known [OF v(2)] required_granted [OF g(3)] stored_allowlist_same [OF g(2)]
  show ?thesis by auto
qed

lemma update_tools:
  assumes s': "s' \<in> set (sd_schedules (snd (update_schedule hash cal auth sid u now d)))"
  shows "(\<exists>s\<in>set (sd_schedules d). as_id s = as_id s' \<and> as_tools s = as_tools s') \<or> granted d s'"
proof (cases "sd_schedules (snd (update_schedule hash cal auth sid u now d)) = sd_schedules d")
  case True
  with s' show ?thesis by auto
next
  case False
  then obtain v where v: "schedule_update_values u = Inr v"
    by (cases "schedule_update_values u") (auto simp: update_schedule_def)
  let ?h = "hash (Update_print u v)"
  let ?d' = "snd (update_schedule hash cal auth sid u now d)"
  have d': "?d' = snd (run_tx (update_schedule_body cal auth sid u v ?h now) d)" by (simp add: update_schedule_def v)
  obtain x where body: "update_schedule_body cal auth sid u v ?h now d = Commit x ?d'"
    using False unfolding d' by (rule run_tx_schedules)
  then have "update_schedule_row cal auth sid u v ?h now d = Commit x ?d'"
    using False by (auto simp: update_schedule_body_def split: sum.splits option.splits dest!: replayed_same)
  then show ?thesis
  proof (cases rule: update_row_cases)
    case (1 s capabilities)
    let ?row = "updated_schedule cal (su_enabled u) v capabilities now s"
    have kept: "as_group ?row = as_group s" "as_family ?row = as_family s" "as_id ?row = as_id s"
        "as_tools ?row = (case capabilities of None \<Rightarrow> as_tools s | Some cs \<Rightarrow> cs)"
      by (simp_all add: updated_schedule_def Let_def split: prod.split)
    have "s' \<in> set (sd_schedules d) \<or> s' = ?row" using s' unfolding 1(5) by (auto simp: set_update_where)
    then show ?thesis
    proof
      assume row: "s' = ?row"
      show ?thesis
      proof (cases capabilities)
        case None
        with row kept mutable_entitled(1) [OF 1(1)] show ?thesis by auto
      next
        case (Some cs)
        with updated_capabilities_granted [OF 1(3) [unfolded Some]] row kept show ?thesis by (auto simp: granted_def)
      qed
    qed auto
  qed
qed

lemma create_external_tools:
  assumes s': "s' \<in> set (sd_schedules (snd (create_external_schedule hash cal uuid xauth x now d)))" "s' \<notin> set (sd_schedules d)"
  shows "granted d s' \<and> as_scope s' = Group_scope \<and> lock_current_owner (sd_memberships d) (xa_family xauth) (xa_user xauth)"
proof -
  let ?d' = "snd (create_external_schedule hash cal uuid xauth x now d)"
  let ?parts = "res_bind (schedule_create_values (xc_title x) (xc_request x) (xc_prompt x) (xc_first x) (xc_recurrence x))
         (\<lambda>v. res_bind (require_history_window_days (xc_window x)) (\<lambda>w. Inr (v, w)))"
  have changed: "sd_schedules ?d' \<noteq> sd_schedules d" using s' by metis
  then obtain v w where parts: "?parts = Inr (v, w)"
    by (cases ?parts) (auto simp: create_external_schedule_def)
  have d': "?d' = snd (run_tx (create_external_body hash cal uuid xauth x v w now) d)"
    by (simp add: create_external_schedule_def parts)
  obtain y where body: "create_external_body hash cal uuid xauth x v w now d = Commit y ?d'"
    using changed unfolding d' by (rule run_tx_schedules)
  then obtain g cs where owner: "require_current_owner xauth d = Inr ()" and g: "require_external_group xauth (xc_chat x) d = Inr g"
      and cs: "require_capability_subset (xc_capabilities x) (g_allowlist g) = Inr cs"
      and row: "create_external_row cal uuid xauth x v w g cs (hash (External_print x cs (cv_first v) w (cv_recurrence v))) now d = Commit y ?d'"
    by (auto simp: create_external_body_def res_bind_Inr_iff split: sum.splits)
  from row changed have "find_agent_schedule_operation (xa_family xauth) (xc_key x) Create_schedule
      (hash (External_print x cs (cv_first v) w (cv_recurrence v))) d = Inr None"
    by (auto simp: create_external_row_def split: sum.splits option.splits)
  with row have insert: "insert_schedule (new_external_schedule cal uuid xauth g (xc_timezone x) v w cs now)
      (xa_user xauth) (xc_key x) (hash (External_print x cs (cv_first v) w (cv_recurrence v))) d = Inr ?d'"
    by (auto simp: create_external_row_def res_bind_Inr_iff split: sum.splits)
  have new: "s' = new_external_schedule cal uuid xauth g (xc_timezone x) v w cs now"
    using s' insert_schedule_cases(3) [OF insert] by simp
  have "g \<in> set (sd_groups d) \<and> g_family g = xa_family xauth \<and> g_type g = External_group"
    using g by (auto simp: require_external_group_def split: option.splits if_splits dest!: first_row_Some)
  moreover have "set cs \<subseteq> set (g_allowlist g) \<and> set cs \<subseteq> set external_schedule_capabilities"
    using cs by (auto simp: require_capability_subset_def split: option.splits
        dest!: required_granted stored_allowlist_same parsed_capabilities_known)
  moreover have "lock_current_owner (sd_memberships d) (xa_family xauth) (xa_user xauth)"
    using owner by (simp add: require_current_owner_def split: if_splits)
  ultimately show ?thesis unfolding new by (auto simp: granted_def new_external_schedule_def Let_def split: prod.split)
qed

text \<open>
  C32: Automations use only what their group is granted. After creating an automation of an external group, or after any
  update, each schedule either had its capabilities before or has capabilities that its external group's owner has
  granted the group now and that automations may use at all.
\<close>

theorem automations_use_granted_capabilities:
  assumes "d' \<in> {snd (create_external_schedule hash cal uuid xauth x now d), snd (update_schedule hash cal auth sid u now d)}"
    and "s' \<in> set (sd_schedules d')"
  shows "(\<exists>s\<in>set (sd_schedules d). as_id s = as_id s' \<and> as_tools s = as_tools s') \<or> granted d s'"
  using assms create_external_tools update_tools by blast

end
