(* ===== verification/Agent_Schedule_Witness.thy ===== *)
theory Agent_Schedule_Witness
  imports Agent_Schedule_Delivery
begin

text \<open>One person's private chat with a scenario that runs once, from its creation to the delivery of its result.\<close>

definition plain_print :: "schedule_fingerprint \<Rightarrow> string" where "plain_print _ = ''h''"

definition person :: schedule_auth where
  "person = \<lparr>sa_topic = None, sa_family = ''f1'', sa_group = None, sa_family_group = False, sa_thread = None,
     sa_role = Owner_role, sa_chat = ''7'', sa_chat_type = Private_chat, sa_telegram_user = ''70'', sa_user = ''u1''\<rparr>"

definition outside_group :: telegram_group where
  "outside_group = \<lparr>g_id = ''g1'', g_family = ''f1'', g_chat_id = ''-9'', g_chat_type = Some Supergroup_chat,
     g_type = External_group, g_mode = Addressed_only, g_allowlist = [''web_fetch'', ''list_memories'']\<rparr>"

definition plan_db :: schedule_db where
  "plan_db = \<lparr>sd_schedules = [], sd_runs = [], sd_operations = [], sd_snapshots = [],
     sd_memberships = [\<lparr>m_family = ''f1'', m_user = ''u1'', m_role = Owner_role\<rparr>], sd_groups = [outside_group],
     sd_users = [\<lparr>usr_id = ''u1'', usr_telegram_id = ''70''\<rparr>], sd_deliveries = empty_journal, sd_audit = []\<rparr>"

definition news_input :: schedule_create_input where
  "news_input = \<lparr>sc_first = Some 10, sc_key = ''k1'', sc_recurrence = \<lparr>rq_kind = ''once'', rq_interval = Int_num 1, rq_days = []\<rparr>,
     sc_prompt = ''Summarise'', sc_scope = Personal_scope, sc_timezone = ''UTC'', sc_title = ''News'', sc_request = ''news''\<rparr>"

definition news_row :: agent_schedule where
  "news_row =
     \<lparr>as_id = ''s1'', as_family = ''f1'', as_owner = Some ''u1'', as_author = ''u1'', as_group = None, as_scope = Personal_scope,
      as_title = ''News'', as_request = ''news'', as_prompt = ''Summarise'', as_timezone = ''UTC'', as_kind = Once,
      as_interval = 1, as_days = None, as_anchor_local = 10000, as_anchor_at = Some 10000, as_occurrence = 0,
      as_next = 10000, as_chat = ''7'', as_chat_type = Private_chat, as_thread = None, as_topic = None, as_window = None,
      as_tools = [], as_status = S_active, as_attempts = 0, as_lease = None, as_lease_until = None, as_dispatch = None,
      as_error = None, as_created = 5000, as_updated = 5000\<rparr>"

definition planned_db :: schedule_db where
  "planned_db = plan_db\<lparr>sd_schedules := [news_row],
     sd_operations := [\<lparr>so_family = ''f1'', so_key = ''k1'', so_kind = Create_schedule, so_hash = ''h'', so_schedule = Some ''s1''\<rparr>],
     sd_audit := [Schedule_created ''f1'' ''u1'' ''s1'' Personal_scope]\<rparr>"

lemma news_planned:
  "create_schedule plain_print plain_calendar ''s1'' person news_input 5000 plan_db = (Inr (row_to_agent_schedule news_row), planned_db)"
  by code_simp

definition sweep_at :: "int \<Rightarrow> schedule_claim_options" where
  "sweep_at t = \<lparr>cl_lease_ms = Int_num 600000, cl_limit = Int_num 10, cl_now = Some t\<rparr>"

definition claimed_db :: schedule_db where
  "claimed_db = planned_db\<lparr>sd_schedules := [leased_schedule ''ts1'' 20000 600000 news_row],
     sd_runs := [new_run ''rs1'' ''ts1'' 20000 news_row]\<rparr>"

definition news_job :: claimed_schedule where "news_job = to_schedule_job planned_db ''ts1'' ''rs1'' news_row"

lemma news_claimed:
  "claim_due_schedules (\<lambda>_. False) ((#) CHR ''t'') ((#) CHR ''r'') (sweep_at 20) planned_db = (Inr [news_job], claimed_db)"
  by code_simp

definition news_identity :: dispatch_job where
  "news_identity = \<lparr>dj_id = ''s1'', dj_token = ''ts1'', dj_run = ''rs1''\<rparr>"

definition handed_db :: schedule_db where
  "handed_db = claimed_db\<lparr>sd_schedules := map (started_schedule 21000) (sd_schedules claimed_db),
     sd_runs := map (dispatched_run ''a1'' 21000) (sd_runs claimed_db)\<rparr>"

lemma news_handed: "begin_agent_schedule_dispatch news_identity ''a1'' 21000 claimed_db = (Inr True, handed_db)"
  by code_simp

definition running_db :: schedule_db where
  "running_db = handed_db\<lparr>sd_runs := map (running_run ''e1'' 22000) (sd_runs handed_db)\<rparr>"

lemma news_running: "mark_agent_schedule_running news_identity ''a1'' ''e1'' 22000 handed_db = (Inr (), running_db)"
  by code_simp

definition first_world :: schedule_world where "first_world = \<lparr>sw_db = plan_db, sw_jobs = {}, sw_removed = {}\<rparr>"
definition planned_world :: schedule_world where "planned_world = moved first_world planned_db {}"
definition claimed_world :: schedule_world where "claimed_world = moved planned_world claimed_db (issued (Inr [news_job]))"
definition handed_world :: schedule_world where "handed_world = moved claimed_world handed_db {}"
definition running_world :: schedule_world where "running_world = moved handed_world running_db {}"

lemmas world_defs = first_world_def planned_world_def claimed_world_def handed_world_def running_world_def

lemma world_dbs [simp]:
  "sw_db first_world = plan_db" "sw_db planned_world = planned_db" "sw_db claimed_world = claimed_db"
  "sw_db handed_world = handed_db" "sw_db running_world = running_db"
  by (simp_all add: world_defs)

lemma fresh_draws: "(\<forall>r\<in>set (sd_runs d). hd (ar_lease r) \<noteq> c \<and> hd (ar_id r) \<noteq> c') \<Longrightarrow> fresh_for ((#) c) ((#) c') UNIV d"
proof -
  assume heads: "\<forall>r\<in>set (sd_runs d). hd (ar_lease r) \<noteq> c \<and> hd (ar_id r) \<noteq> c'"
  have "ar_lease r \<noteq> c # ar_schedule r" "ar_id r \<noteq> c' # x" if "r \<in> set (sd_runs d)" for r x
    using bspec [OF heads that] by auto
  then show ?thesis unfolding fresh_for_def by (auto simp: inj_on_def) metis
qed

abbreviation news_step :: "schedule_world \<Rightarrow> schedule_world \<Rightarrow> bool" where
  "news_step \<equiv> schedule_step plain_print plain_calendar"

lemma news_steps:
  "news_step first_world planned_world" "news_step planned_world claimed_world" "news_step claimed_world handed_world"
  "news_step handed_world running_world"
proof -
  show "news_step first_world planned_world"
    unfolding planned_world_def by (rule schedule_step.create [OF news_planned [folded world_dbs(1)]]) (simp add: first_world_def)
  show "news_step planned_world claimed_world"
    unfolding claimed_world_def
  proof (rule schedule_step.claim [OF news_claimed [folded world_dbs(2)]])
    show "fresh_for ((#) CHR ''t'') ((#) CHR ''r'') UNIV (sw_db planned_world)"
      by (rule fresh_draws) (simp add: planned_db_def plan_db_def)
    show "\<forall>job\<in>sw_jobs planned_world. dj_token job \<noteq> CHR ''t'' # dj_id job" by (simp add: world_defs)
  qed
  show "news_step claimed_world handed_world"
    unfolding handed_world_def by (rule schedule_step.begin_dispatch [OF news_handed [folded world_dbs(3)]])
  show "news_step handed_world running_world"
    unfolding running_world_def by (rule schedule_step.mark_running [OF news_running [folded world_dbs(4)]])
qed

lemma news_histories:
  "schedule_history plain_print plain_calendar first_world" "schedule_history plain_print plain_calendar planned_world"
  "schedule_history plain_print plain_calendar claimed_world" "schedule_history plain_print plain_calendar handed_world"
  "schedule_history plain_print plain_calendar running_world"
proof -
  show 1: "schedule_history plain_print plain_calendar first_world"
    by (rule schedule_history.start) (simp add: no_schedules_def first_world_def plan_db_def)
  show 2: "schedule_history plain_print plain_calendar planned_world" by (rule schedule_history.step [OF 1 news_steps(1)])
  show 3: "schedule_history plain_print plain_calendar claimed_world" by (rule schedule_history.step [OF 2 news_steps(2)])
  show 4: "schedule_history plain_print plain_calendar handed_world" by (rule schedule_history.step [OF 3 news_steps(3)])
  show "schedule_history plain_print plain_calendar running_world" by (rule schedule_history.step [OF 4 news_steps(4)])
qed

definition news_occurrence :: "string \<times> time" where "news_occurrence = (''s1'', 10000)"

lemma news_phases: "phase_in plan_db news_occurrence = Planned" "phase_in running_db news_occurrence = Confirmed"
  by code_simp+

lemma schedules_refine_occurrences_witness:
  "occurrence_steps (world_phase first_world news_occurrence) (world_phase running_world news_occurrence) \<and>
   world_phase first_world news_occurrence = Planned"
proof -
  have "schedule_steps plain_print plain_calendar first_world running_world"
    using news_steps by (meson converse_rtranclp_into_rtranclp rtranclp.rtrancl_refl)
  from schedules_refine_occurrences [OF news_histories(1) this, of news_occurrence]
  moreover have "world_phase first_world news_occurrence = Planned"
    unfolding world_phase_def world_dbs news_phases by (simp add: first_world_def)
  ultimately show ?thesis by simp
qed

lemma stored_schedules_are_well_formed_witness:
  "list_all schedule_checks (sd_schedules running_db)"
  using stored_schedules_are_well_formed [OF news_histories(5)] by simp

definition running_row :: agent_schedule where "running_row = hd (sd_schedules running_db)"
definition running_news :: agent_run where "running_news = hd (sd_runs running_db)"

lemma running_rows:
  "running_row \<in> set (sd_schedules running_db)" "running_news \<in> set (sd_runs running_db)"
  "ar_schedule running_news = as_id running_row" "ar_status running_news = Run_running"
  by (simp_all add: running_row_def running_news_def running_db_def handed_db_def claimed_db_def started_schedule_def
      running_run_def dispatched_run_def new_run_def leased_schedule_def s_acquire_def)

lemma runs_never_overlap_witness: "leases running_row running_news"
  using runs_never_overlap [OF news_histories(5)] running_rows by (simp add: in_flight_def)

lemma occurrence_is_handed_over_once_witness:
  "\<not> hands_over news_identity ''a2'' 30000 news_occurrence running_db"
proof -
  have first: "hands_over news_identity ''a1'' 21000 news_occurrence (sw_db claimed_world)"
    unfolding world_dbs hands_over_def news_handed
    by (simp add: claimed_db_def run_of_job_def new_run_def news_identity_def news_occurrence_def run_key_def
        occurrence_of_def news_row_def millis_def to_date_def)
  have "schedule_steps plain_print plain_calendar
      (moved claimed_world (snd (begin_agent_schedule_dispatch news_identity ''a1'' 21000 (sw_db claimed_world))) {}) running_world"
    using news_steps(4) by (simp add: news_handed handed_world_def [symmetric])
  from occurrence_is_handed_over_once [OF news_histories(3) first this] show ?thesis by simp
qed

lemma sweep_leaves_running_work_alone_witness:
  "\<exists>d'. claim_due_schedules (\<lambda>_. False) ((#) CHR ''v'') ((#) CHR ''w'') (sweep_at 1000000) running_db = (Inr [], d') \<and>
     running_row \<in> set (sd_schedules d') \<and> running_news \<in> set (sd_runs d')"
proof -
  have sweep: "claim_due_schedules (\<lambda>_. False) ((#) CHR ''v'') ((#) CHR ''w'') (sweep_at 1000000) running_db = (Inr [], running_db)"
    by code_simp
  have "fresh_for ((#) CHR ''v'') ((#) CHR ''w'') UNIV (sw_db running_world)"
    by (rule fresh_draws) (simp add: running_db_def handed_db_def claimed_db_def running_run_def dispatched_run_def new_run_def)
  from sweep_leaves_running_work_alone [OF news_histories(5) _ _ running_rows(3,4) this, unfolded world_dbs,
      OF running_rows(1,2) sweep]
  show ?thesis using sweep by blast
qed

text \<open>The first worker dies before the handoff; its lease ran out long before this sweep.\<close>

definition second_sweep :: "claimed_schedule list result \<times> schedule_db" where
  "second_sweep = claim_due_schedules (\<lambda>_. False) ((#) CHR ''v'') ((#) CHR ''w'') (sweep_at 1000000) claimed_db"

lemma due_schedule_is_claimed_witness:
  "\<exists>jobs. fst second_sweep = Inr jobs \<and> (\<exists>j\<in>set jobs. cs_id j = ''s1'' \<and> cs_token j = ''vs1'' \<and> cs_run j = ''rs1'')"
proof -
  define lost where "lost = leased_schedule ''ts1'' 20000 600000 news_row"
  have fresh: "fresh_for ((#) CHR ''v'') ((#) CHR ''w'') UNIV (sw_db claimed_world)"
    by (rule fresh_draws) (simp add: claimed_db_def new_run_def)
  have due: "claimable_schedule (\<lambda>_. False) (millis (the (cl_now (sweep_at 1000000)))) claimed_db
        (after_recovery (millis (the (cl_now (sweep_at 1000000)))) lost)"
      "\<not> destination_revoked claimed_db lost"
    unfolding lost_def by code_simp+
  have limit: "int (row_count (\<lambda>s. as_next s \<le> millis (the (cl_now (sweep_at 1000000)))) (sd_schedules claimed_db)) \<le>
      number_value (cl_limit (sweep_at 1000000))"
    by code_simp
  have "(case fst second_sweep of Inl e \<Rightarrow> False | Inr jobs \<Rightarrow> True)" by code_simp
  then obtain jobs where jobs: "fst second_sweep = Inr jobs" by (auto split: sum.splits)
  then have sweep: "claim_due_schedules (\<lambda>_. False) ((#) CHR ''v'') ((#) CHR ''w'') (sweep_at 1000000) (sw_db claimed_world) =
      (Inr jobs, snd second_sweep)"
    by (metis second_sweep_def prod.collapse world_dbs(3))
  have rows: "lost \<in> set (sd_schedules claimed_db)" "sd_runs claimed_db = [new_run ''rs1'' ''ts1'' 20000 news_row]"
    by (simp_all add: claimed_db_def lost_def)
  have run: "same_occurrence lost (new_run ''rs1'' ''ts1'' 20000 news_row)"
    by (simp add: same_occurrence_def lost_def new_run_def leased_schedule_def s_acquire_def occurrence_of_def)
  have "\<exists>j\<in>set jobs. cs_id j = as_id lost \<and> cs_next j = to_date (as_next lost) \<and> cs_prompt j = as_prompt lost \<and>
      cs_token j = CHR ''v'' # as_id lost \<and>
      (\<forall>r\<in>set (sd_runs (sw_db claimed_world)). same_occurrence lost r \<longrightarrow> cs_run j = ar_id r)"
    by (rule due_schedule_is_claimed [OF news_histories(3) _ _ _ _ fresh _ sweep])
      (use rows due limit in \<open>simp_all add: new_run_def\<close>)
  then have "\<exists>j\<in>set jobs. cs_id j = ''s1'' \<and> cs_token j = ''vs1'' \<and> cs_run j = ''rs1''"
    unfolding world_dbs rows(2) using run
    by (auto simp: new_run_def lost_def leased_schedule_def s_acquire_def news_row_def)
  with jobs show ?thesis by blast
qed

section \<open>Single operations\<close>

definition asked_db :: schedule_db where
  "asked_db = snd (run_schedule_now plain_print person ''s1'' ''k2'' None 7000 planned_db)"

lemma news_asked:
  "run_schedule_now plain_print person ''s1'' ''k2'' None 7000 planned_db =
     (Inr (row_to_agent_schedule (requested_schedule 7000 news_row)), asked_db)"
  by code_simp

lemma schedule_changes_are_entitled_witness:
  "\<exists>s\<in>set (sd_schedules planned_db). as_id s = ''s1'' \<and> entitled person planned_db s"
proof -
  have "sd_schedules asked_db \<noteq> sd_schedules planned_db" by code_simp
  then show ?thesis
    using schedule_changes_are_entitled [of asked_db plain_print plain_calendar person "''s1''" _ 7000 planned_db "''k2''" None]
    by (auto simp: asked_db_def)
qed

lemma run_now_asks_once_witness:
  "snd (run_schedule_now plain_print person ''s1'' ''k2'' None 9000 (asked_db\<lparr>sd_schedules := []\<rparr>)) = asked_db\<lparr>sd_schedules := []\<rparr>"
  by (rule run_now_asks_once [OF news_asked]) simp

definition news_delivery :: delivery_input where
  "news_delivery = \<lparr>dz_family = ''f1'', dz_group = None, dz_thread = None, dz_owner = Some ''u1'', dz_scope = Personal_scope, dz_chat = ''7'',
     di_content = ''All quiet'', di_delivered = Some 25, di_scheduled = Some 10, di_source = [], di_kind = Schedule_source,
     di_message = ''15'', di_title = Some ''News''\<rparr>"

definition news_completion :: "string \<Rightarrow> completed_input" where
  "news_completion session = \<lparr>ci_session = session, ci_eve = ''e1'', ci_run = ''rs1'', ci_delivery = news_delivery\<rparr>"

definition news_receipt :: proactive_delivery where
  "news_receipt =
     \<lparr>pd_id = 1, pd_kind = Schedule_source, pd_source = ''rs1'', pd_message = 15, pd_title = Some ''News'', pd_family = ''f1'',
      pd_owner = Some ''u1'', pd_group = None, pd_scope = Personal_scope, pd_content = ''All quiet'', pd_scheduled = 10000,
      pd_delivered = 25000, pd_chat = ''7'', pd_thread = None\<rparr>"

definition news_journal :: delivery_journal where "news_journal = \<lparr>jn_rows = [news_receipt], jn_last = 1\<rparr>"

lemma news_recorded:
  "record_proactive_delivery (news_delivery\<lparr>di_source := ''rs1'', di_kind := Schedule_source\<rparr>) (sd_deliveries running_db) =
     Inr news_journal"
proof -
  let ?i = "news_delivery\<lparr>di_source := ''rs1'', di_kind := Schedule_source\<rparr>"
  have row: "delivery_row 1 ?i = news_receipt" by code_simp
  have "require_delivery ?i = Inr ()" by code_simp
  moreover have "sd_deliveries running_db = empty_journal"
    by (simp add: running_db_def handed_db_def claimed_db_def planned_db_def plan_db_def)
  moreover have "delivery_checks news_receipt" "pd_message news_receipt = 15"
    by (simp_all add: delivery_checks_def news_receipt_def)
  ultimately show ?thesis
    by (simp add: record_proactive_delivery_def empty_journal_def row max_bigint_def news_journal_def)
qed

lemma news_found: "first_row (\<lambda>r. ar_id r = ''rs1'') (sd_runs running_db) = Some running_news"
    "ar_session running_news = Some ''a1''" "ar_eve running_news = Some ''e1''"
  by code_simp+

lemma receipt_survives_a_conflict_witness:
  "\<exists>p\<in>set (jn_rows (sd_deliveries (running_db\<lparr>sd_deliveries := news_journal\<rparr>))). receipt_of (news_completion ''a9'') p"
proof (rule receipt_survives_a_conflict)
  show "\<exists>r\<in>set (sd_runs running_db). ar_id r = ci_run (news_completion ''a9'')"
    using first_row_Some [OF news_found(1)] by (auto simp: news_completion_def)
  show "complete_delivered_run plain_calendar (news_completion ''a9'') running_db =
      (Inl (AppError ''AGENT_SCHEDULE_DELIVERY_STATE_INVALID''), running_db\<lparr>sd_deliveries := news_journal\<rparr>)"
    by (simp add: complete_delivered_run_def run_tx_def complete_delivered_agent_schedule_run_def news_completion_def news_found
        news_recorded)
qed

lemma news_finished:
  "\<exists>d. finish_active_agent_schedule_run plain_calendar ''a1'' ''e1'' 25 None (running_db\<lparr>sd_deliveries := news_journal\<rparr>) = Inr (True, d)"
proof -
  have "case finish_active_agent_schedule_run plain_calendar ''a1'' ''e1'' 25 None (running_db\<lparr>sd_deliveries := news_journal\<rparr>) of
      Inl _ \<Rightarrow> False | Inr (b, _) \<Rightarrow> b"
    by code_simp
  then show ?thesis by (auto split: sum.splits)
qed

definition delivered_db :: schedule_db where
  "delivered_db = snd (complete_delivered_run plain_calendar (news_completion ''a1'') running_db)"

lemma delivered_run_is_settled_witness:
  "\<exists>r\<in>set (sd_runs delivered_db). ar_id r = ''rs1'' \<and> ar_status r = Run_completed \<and>
    (\<exists>s\<in>set (sd_schedules delivered_db). as_id s = ar_schedule r \<and> settled_schedule 25000 s)"
proof -
  have laws: "zone_laws plain_calendar" using plain_calendar_laws by (simp add: calendar_laws_def)
  have index: "\<forall>r\<in>set (sd_runs (sw_db running_world)). ar_session r = Some (ci_session (news_completion ''a1'')) \<longrightarrow>
      ar_eve r = Some (ci_eve (news_completion ''a1'')) \<longrightarrow> ar_id r = ci_run (news_completion ''a1'')"
    unfolding world_dbs by code_simp
  obtain d where "finish_active_agent_schedule_run plain_calendar ''a1'' ''e1'' 25 None (running_db\<lparr>sd_deliveries := news_journal\<rparr>) = Inr (True, d)"
    using news_finished by blast
  then have complete: "complete_delivered_run plain_calendar (news_completion ''a1'') running_db = (Inr True, d)"
    using running_rows(4)
    by (simp add: complete_delivered_run_def run_tx_def complete_delivered_agent_schedule_run_def news_completion_def news_found
        news_recorded) (simp add: news_delivery_def)
  then have "complete_delivered_run plain_calendar (news_completion ''a1'') (sw_db running_world) = (Inr True, delivered_db)"
    by (simp add: delivered_db_def)
  from delivered_run_is_settled [OF news_histories(5) laws index this] show ?thesis
    by (auto simp: news_completion_def news_delivery_def millis_def)
qed

definition news_authorization :: execution_authorization where
  "news_authorization = \<lparr>ea_session = ''a1'', ea_family = ''f1'', ea_group = None, ea_thread = None, ea_owner = Some ''u1'',
     ea_run = ''rs1'', ea_scope = Personal_scope, ea_chat = ''7''\<rparr>"

lemma delivery_needs_todays_rights_witness:
  "\<exists>s\<in>set (sd_schedules running_db). as_chat s = ''7'' \<and> \<not> destination_revoked running_db s"
proof -
  have "authorize_agent_schedule_delivery news_authorization ''e1'' (sw_db running_world) = Inr ()"
    unfolding world_dbs by code_simp
  from delivery_needs_todays_rights [OF news_histories(5) this] show ?thesis
    by (auto simp: news_authorization_def)
qed

definition digest_input :: external_create_input where
  "digest_input = \<lparr>xc_capabilities = JArr [JStr ''web_fetch''], xc_first = Some 10, xc_window = Some (Int_num 7), xc_key = ''k3'',
     xc_recurrence = \<lparr>rq_kind = ''daily'', rq_interval = Int_num 1, rq_days = []\<rparr>, xc_prompt = ''Digest'', xc_chat = ''-9'',
     xc_timezone = ''UTC'', xc_title = ''Digest'', xc_request = ''digest''\<rparr>"

definition digest_db :: schedule_db where
  "digest_db = snd (create_external_schedule plain_print plain_calendar ''s2'' \<lparr>xa_family = ''f1'', xa_user = ''u1''\<rparr> digest_input 6000 plan_db)"

lemma automations_use_granted_capabilities_witness:
  "map as_tools (sd_schedules digest_db) = [[''web_fetch'']] \<and> list_all (granted plan_db) (sd_schedules digest_db)"
proof -
  have none: "sd_schedules plan_db = []" by (simp add: plan_db_def)
  have "granted plan_db s" if "s \<in> set (sd_schedules digest_db)" for s
    using automations_use_granted_capabilities [of digest_db plain_print plain_calendar "''s2''" "\<lparr>xa_family = ''f1'', xa_user = ''u1''\<rparr>"
        digest_input 6000 plan_db person "''s1''" _ s] that none
    by (simp add: digest_db_def)
  moreover have "map as_tools (sd_schedules digest_db) = [[''web_fetch'']]" by code_simp
  ultimately show ?thesis by (simp add: list_all_iff)
qed

definition weekly_news :: agent_schedule where
  "weekly_news = news_row\<lparr>as_kind := Repeats Weekly, as_interval := 2, as_days := Some [1, 4]\<rparr>"

lemma next_weekly_occurrence_is_the_first_to_come_witness:
  "\<exists>n t. next_weekly_occurrence plain_calendar weekly_news 99999999 = Some (n, t) \<and> 0 < n \<and> 99999999 < t"
proof -
  have laws: "zone_laws plain_calendar" using plain_calendar_laws by (simp add: calendar_laws_def)
  have days: "days_in_order plain_calendar" by (simp add: days_in_order_def plain_calendar_def one_day_def)
  have "weekly_row weekly_news [1, 4]" by (simp add: weekly_row_def weekly_news_def)
  from next_weekly_occurrence_is_the_first_to_come [OF laws days this, of 99999999] show ?thesis
    by (auto simp: weekly_news_def news_row_def)
qed

end
