(* ===== verification/Delivery_Context.thy ===== *)
theory Delivery_Context
  imports Proactive_Deliveries Untrusted_Context Session_Values
begin

text \<open>
  agent/lib/proactive-deliveries: what a turn is told about messages the assistant sent on its own.
  proactive-delivery-context.ts puts them into the prompt, bounded, as data between tags;
  proactive-delivery-repository.ts selects the ones a session has not seen and moves its cursor, and lists the
  journal page by page. A stored text is turned into its code units where it enters the prompt.
\<close>

section \<open>The text of the context\<close>

definition context_max_age_days :: int where "context_max_age_days = 30"
definition context_max_characters :: int where "context_max_characters = 12000"
definition context_max_items :: nat where "context_max_items = 10"
definition delivery_history_max_limit :: int where "delivery_history_max_limit = 50"

definition minimum_context_characters :: int where "minimum_context_characters = 512"

definition context_notice :: text16 where
  "context_notice =
     [1069, 1090, 1086, 32, 1088, 1072, 1085, 1077, 1077, 32, 1076, 1086, 1089, 1090, 1072, 1074, 1083,
      1077, 1085, 1085, 1099, 1077, 32, 1089, 1086, 1086, 1073, 1097, 1077, 1085, 1080, 1103, 32, 1073,
      1086, 1090, 1072, 44, 32, 1072, 32, 1085, 1077, 32, 1085, 1086, 1074, 1099, 1077, 32, 1080, 1085,
      1089, 1090, 1088, 1091, 1082, 1094, 1080, 1080, 46, 32, 1048, 1089, 1087, 1086, 1083, 1100, 1079,
      1091, 1081, 32, 1080, 1093, 32, 1090, 1086, 1083, 1100, 1082, 1086, 32, 1082, 1072, 1082, 32, 1080,
      1089, 1090, 1086, 1088, 1080, 1102, 32, 1088, 1072, 1079, 1075, 1086, 1074, 1086, 1088, 1072, 46]"

fun delivery_kind_text :: "delivery_kind \<Rightarrow> string" where
  "delivery_kind_text Schedule_source = ''agent_schedule''"
| "delivery_kind_text Order_watch_source = ''order_watch''"
| "delivery_kind_text Reminder_source = ''reminder''"

record delivery_record =
  dl_content :: text16
  dl_delivered :: string
  dl_id :: string
  dl_scheduled :: string
  dl_source :: string
  dl_kind :: delivery_kind
  dl_title :: "text16 option"

record model_delivery =
  md_content :: text16
  md_delivered :: string
  md_scheduled :: string
  md_kind :: delivery_kind
  md_title :: "text16 option"
  md_truncated :: bool

definition model_delivery_of :: "delivery_record \<Rightarrow> model_delivery" where
  "model_delivery_of e =
     \<lparr>md_content = dl_content e, md_delivered = dl_delivered e, md_scheduled = dl_scheduled e, md_kind = dl_kind e,
      md_title = dl_title e, md_truncated = False\<rparr>"

definition model_delivery_wire :: "model_delivery \<Rightarrow> wire" where
  "model_delivery_wire d = W_object ([(''content'', W_text (md_content d)), (''deliveredAt'', W_text (units (md_delivered d))),
     (''scheduledFor'', W_text (units (md_scheduled d))), (''sourceKind'', W_text (units (delivery_kind_text (md_kind d)))),
     (''title'', text_or_null (md_title d))] @ (if md_truncated d then [(''truncated'', W_true)] else []))"

definition render_deliveries :: "model_delivery list \<Rightarrow> text16" where
  "render_deliveries ds =
     units ''<recent_proactive_deliveries>'' @ 10 #
     escape_untrusted_context_json (W_object [(''deliveries'', W_list (map model_delivery_wire ds)), (''notice'', W_text context_notice)])
     @ 10 # units ''</recent_proactive_deliveries>''"

definition shortened :: "model_delivery \<Rightarrow> int \<Rightarrow> model_delivery" where
  "shortened d n = d\<lparr>md_content := take (nat n) (md_content d), md_truncated := True\<rparr>"

lemma middle: "l \<le> (u::int) \<Longrightarrow> l \<le> (l + u) div 2 \<and> (l + u) div 2 \<le> u"
  by presburger

function search_prefix :: "model_delivery \<Rightarrow> int \<Rightarrow> int \<Rightarrow> int \<Rightarrow> text16 \<Rightarrow> text16" where
  "search_prefix d limit low high best =
     (if high < low then best
      else (let mid = (low + high) div 2; candidate = render_deliveries [shortened d mid] in
        if int (length candidate) \<le> limit then search_prefix d limit (mid + 1) high candidate
        else search_prefix d limit low (mid - 1) best))"
  by pat_completeness auto
termination
  by (relation "measure (\<lambda>(d, limit, low, high, best). nat (high + 1 - low))") (use middle in \<open>force simp: not_less\<close>)+

declare search_prefix.simps [simp del]

definition truncate_single_delivery :: "model_delivery \<Rightarrow> int \<Rightarrow> text16" where
  "truncate_single_delivery d limit =
     search_prefix d limit 0 (int (length (md_content d))) (render_deliveries [shortened d 0])"

text \<open>\<open>while (deliveries.length > 1 && render(deliveries).length > maxCharacters) deliveries.shift()\<close>\<close>

fun drop_oldest :: "int \<Rightarrow> model_delivery list \<Rightarrow> model_delivery list" where
  "drop_oldest limit (d # e # ds) =
     (if limit < int (length (render_deliveries (d # e # ds))) then drop_oldest limit (e # ds) else d # e # ds)"
| "drop_oldest limit ds = ds"

definition format_proactive_delivery_context :: "delivery_record list \<Rightarrow> js_number \<Rightarrow> text16 option result" where
  "format_proactive_delivery_context entries limit =
     (if \<not> is_safe_integer limit \<or> number_value limit < minimum_context_characters then Inl (HostError ''Error'')
      else if entries = [] then Inr None
      else (let ds = drop_oldest (number_value limit) (map model_delivery_of entries);
                whole = render_deliveries ds in
        Inr (Some (if int (length whole) \<le> number_value limit then whole
                   else truncate_single_delivery (hd ds) (number_value limit)))))"

section \<open>What a session has not seen\<close>

definition map_delivery_row :: "date_codec \<Rightarrow> proactive_delivery \<Rightarrow> delivery_record" where
  "map_delivery_row dc p =
     \<lparr>dl_content = units (pd_content p), dl_delivered = dc_iso dc (to_date (pd_delivered p)), dl_id = nat_text (nat (pd_id p)),
      dl_scheduled = dc_iso dc (to_date (pd_scheduled p)), dl_source = pd_source p, dl_kind = pd_kind p,
      dl_title = map_option units (pd_title p)\<rparr>"

record delivery_session =
  cv_id :: string
  cv_retired :: "time option"
  cv_family :: string
  cv_scope :: memory_scope
  cv_owner :: "string option"
  cv_group :: "string option"
  cv_last_delivery :: int

record delivery_db =
  dd_sessions :: "delivery_session list"
  dd_journal :: delivery_journal

definition session_in_zone :: "string \<Rightarrow> 'a delivery_zone_scheme \<Rightarrow> delivery_session \<Rightarrow> bool" where
  "session_in_zone session z c \<longleftrightarrow>
     cv_id c = session \<and> cv_retired c = None \<and> cv_family c = dz_family z \<and> cv_scope c = dz_scope z \<and>
     cv_owner c = dz_owner z \<and> cv_group c = dz_group z"

definition delivery_in_zone :: "'a delivery_zone_scheme \<Rightarrow> proactive_delivery \<Rightarrow> bool" where
  "delivery_in_zone z p \<longleftrightarrow>
     pd_family p = dz_family z \<and> pd_scope p = dz_scope z \<and> pd_owner p = dz_owner z \<and> pd_group p = dz_group z \<and>
     pd_chat p = dz_chat z \<and> pd_thread p = dz_thread z"

text \<open>\<open>days_before\<close> is PostgreSQL's subtraction of days from an instant in the time zone of the connection.\<close>

definition unseen_delivery ::
  "(time \<Rightarrow> int \<Rightarrow> time) \<Rightarrow> 'a delivery_zone_scheme \<Rightarrow> int \<Rightarrow> time \<Rightarrow> proactive_delivery \<Rightarrow> bool" where
  "unseen_delivery days_before z cursor now p \<longleftrightarrow>
     cursor < pd_id p \<and> delivery_in_zone z p \<and> pd_delivered p \<le> now \<and> days_before now context_max_age_days \<le> pd_delivered p"

definition recent_deliveries :: "(proactive_delivery \<Rightarrow> bool) \<Rightarrow> delivery_journal \<Rightarrow> proactive_delivery list" where
  "recent_deliveries P j = sort_key pd_id (select_ordered P (\<lambda>p. - pd_id p) context_max_items (jn_rows j))"

definition list_pending_context ::
  "date_codec \<Rightarrow> (time \<Rightarrow> int \<Rightarrow> time) \<Rightarrow> 'a delivery_zone_scheme \<Rightarrow> string \<Rightarrow> int option \<Rightarrow> delivery_db
     \<Rightarrow> (text16 \<times> string) option result" where
  "list_pending_context dc days_before z session now d =
     res_bind (require_delivery_zone z) (\<lambda>_.
       case now of
         None \<Rightarrow> Inl (AppError ''AGENT_PROACTIVE_CONTEXT_TIME_INVALID'')
       | Some ms \<Rightarrow>
           (case first_row (session_in_zone session z) (dd_sessions d) of
              None \<Rightarrow> Inl (AppError ''AGENT_PROACTIVE_CONTEXT_SESSION_INVALID'')
            | Some c \<Rightarrow>
                (let records = map (map_delivery_row dc)
                       (recent_deliveries (unseen_delivery days_before z (cv_last_delivery c) (millis ms)) (dd_journal d)) in
                 if records = [] then Inr None
                 else res_bind (format_proactive_delivery_context records (Int_num context_max_characters)) (\<lambda>text.
                   case text of
                     None \<Rightarrow> Inr None
                   | Some context' \<Rightarrow> Inr (if context' = [] then None else Some (context', dl_id (last records)))))))"

definition live_session :: "string \<Rightarrow> delivery_session \<Rightarrow> bool" where
  "live_session session c \<longleftrightarrow> cv_id c = session \<and> cv_retired c = None"

definition advance_session_cursor :: "string \<Rightarrow> string \<Rightarrow> delivery_db \<Rightarrow> unit result \<times> delivery_db" where
  "advance_session_cursor session cursor d =
     when_valid (require_positive_bigint cursor) (\<lambda>_ d.
       if max_bigint < decimal_value cursor then (Inl (PgError ''22003''), d)
       else
         ((if row_count (live_session session) (dd_sessions d) \<noteq> 1
           then Inl (AppError ''AGENT_PROACTIVE_CONTEXT_SESSION_INVALID'') else Inr ()),
          d\<lparr>dd_sessions := update_where (live_session session)
              (\<lambda>c. c\<lparr>cv_last_delivery := max (cv_last_delivery c) (decimal_value cursor)\<rparr>) (dd_sessions d)\<rparr>)) d"

section \<open>Listing the journal\<close>

text \<open>A date filter is absent, or a \<open>Date\<close> that may be invalid.\<close>

record delivery_filter = delivery_zone +
  df_cursor :: "string option"
  df_after :: "int option option"
  df_before :: "int option option"
  df_limit :: js_number
  df_query :: "string option"
  df_kind :: "delivery_kind option"

definition require_delivery_filter :: "delivery_filter \<Rightarrow> unit result" where
  "require_delivery_filter i =
     res_bind (require_delivery_zone i) (\<lambda>_.
       if \<not> is_integer (df_limit i) \<or> number_value (df_limit i) < 1 \<or> delivery_history_max_limit < number_value (df_limit i)
       then Inl (AppError ''AGENT_PROACTIVE_DELIVERY_LIMIT_INVALID'')
       else if df_after i = Some None \<or> df_before i = Some None then Inl (AppError ''AGENT_PROACTIVE_DELIVERY_DATE_INVALID'')
       else (case (df_after i, df_before i) of
           (Some (Some a), Some (Some b)) \<Rightarrow>
             if b < a then Inl (AppError ''AGENT_PROACTIVE_DELIVERY_DATE_RANGE_INVALID'') else Inr ()
         | _ \<Rightarrow> Inr ()))"

fun scope_text :: "memory_scope \<Rightarrow> string" where
  "scope_text Personal_scope = ''personal''"
| "scope_text Family_scope = ''family''"
| "scope_text Group_scope = ''group''"

definition filter_binding :: "date_codec \<Rightarrow> (string option list \<Rightarrow> string) \<Rightarrow> delivery_filter \<Rightarrow> string" where
  "filter_binding dc sha i =
     pagination_filter_digest sha
       [Some ''proactive-delivery-v1'', Some (dz_family i), Some (scope_text (dz_scope i)), dz_owner i, dz_group i,
        Some (dz_chat i), map_option (\<lambda>n. nat_text (nat n)) (dz_thread i), map_option delivery_kind_text (df_kind i), df_query i,
        map_option (dc_iso dc) (Option.bind (df_after i) id), map_option (dc_iso dc) (Option.bind (df_before i) id)]"

text \<open>\<open>matches\<close> is the full-text search of PostgreSQL.\<close>

definition within_dates :: "delivery_filter \<Rightarrow> time \<Rightarrow> bool" where
  "within_dates i t \<longleftrightarrow>
     (case Option.bind (df_after i) id of None \<Rightarrow> True | Some a \<Rightarrow> millis a \<le> t) \<and>
     (case Option.bind (df_before i) id of None \<Rightarrow> True | Some b \<Rightarrow> t \<le> millis b)"

definition listed_delivery :: "(string \<Rightarrow> proactive_delivery \<Rightarrow> bool) \<Rightarrow> delivery_filter \<Rightarrow> proactive_delivery \<Rightarrow> bool" where
  "listed_delivery matches i p \<longleftrightarrow>
     delivery_in_zone i p \<and> (case df_kind i of None \<Rightarrow> True | Some k \<Rightarrow> pd_kind p = k) \<and>
     (case df_query i of None \<Rightarrow> True | Some q \<Rightarrow> matches q p) \<and> within_dates i (pd_delivered p)"

definition after_delivery_cursor :: "(string \<times> int) option \<Rightarrow> proactive_delivery \<Rightarrow> bool" where
  "after_delivery_cursor c p \<longleftrightarrow>
     (case c of None \<Rightarrow> True | Some (i, ms) \<Rightarrow> (pd_delivered p, pd_id p) < (millis ms, decimal_value i))"

record delivery_page =
  dp_items :: "delivery_record list"
  dp_next :: "string option"

definition list_deliveries ::
  "date_codec \<Rightarrow> (string option list \<Rightarrow> string) \<Rightarrow> (string \<Rightarrow> proactive_delivery \<Rightarrow> bool) \<Rightarrow> delivery_filter
     \<Rightarrow> delivery_journal \<Rightarrow> delivery_page result" where
  "list_deliveries dc sha matches i j =
     res_bind (require_delivery_filter i) (\<lambda>_.
       let binding = filter_binding dc sha i; n = nat (number_value (df_limit i)) in
       res_bind (decode_date_bigint_cursor dc (df_cursor i) ''AGENT_PROACTIVE_DELIVERY_CURSOR_INVALID'' (Some binding)) (\<lambda>cursor.
         if (case cursor of None \<Rightarrow> False | Some (c, _) \<Rightarrow> max_bigint < decimal_value c) then Inl (PgError ''22003'')
         else
           (let found = select_ordered (\<lambda>p. listed_delivery matches i p \<and> after_delivery_cursor cursor p)
                  (\<lambda>p. (- pd_delivered p, - pd_id p)) (n + 1) (jn_rows j);
                rows = take n found in
            Inr \<lparr>dp_items = map (map_delivery_row dc) rows,
                 dp_next = (if n < length found \<and> rows \<noteq> []
                   then Some (encode_date_bigint_cursor dc (to_date (pd_delivered (last rows)))
                          (nat_text (nat (pd_id (last rows)))) (Some binding))
                   else None)\<rparr>)))"

end
