(* ===== verification/Delivery_Context_Properties.thy ===== *)
theory Delivery_Context_Properties
  imports Delivery_Context
begin

text \<open>
  What the prompt holds of the delivery journal: a bounded text that keeps the newest deliveries, each shown to a
  session once.
\<close>

section \<open>The bound\<close>

lemma search_prefix_spec:
  assumes "0 \<le> low" "high \<le> int (length (md_content d))" "best = render_deliveries [shortened d n]" "0 \<le> n"
    "n \<le> int (length (md_content d))" "int (length best) \<le> limit"
  shows "\<exists>m. 0 \<le> m \<and> m \<le> int (length (md_content d)) \<and> search_prefix d limit low high best = render_deliveries [shortened d m] \<and>
    int (length (search_prefix d limit low high best)) \<le> limit"
  using assms
proof (induction d limit low high best arbitrary: n rule: search_prefix.induct)
  case (1 d limit low high best)
  show ?case
  proof (cases "high < low")
    case True
    with 1(3-) show ?thesis by (subst search_prefix.simps, subst search_prefix.simps) auto
  next
    case False
    let ?mid = "(low + high) div 2"
    have mid: "low \<le> ?mid" "?mid \<le> high" using middle [of low high] False by simp_all
    show ?thesis
    proof (cases "int (length (render_deliveries [shortened d ?mid])) \<le> limit")
      case True
      have "search_prefix d limit low high best = search_prefix d limit (?mid + 1) high (render_deliveries [shortened d ?mid])"
        using False True by (subst search_prefix.simps) (simp add: Let_def)
      then show ?thesis
        using 1(1) [OF False refl refl True, of ?mid] 1(3-5) mid True by simp
    next
      case long: False
      have "search_prefix d limit low high best = search_prefix d limit low (?mid - 1) best"
        using False long by (subst search_prefix.simps) (simp add: Let_def)
      then show ?thesis
        using 1(2) [OF False refl refl long, of n] 1(3-) mid by simp
    qed
  qed
qed

text \<open>Without its content a delivery takes a few hundred characters and what its title and dates take.\<close>

lemma length_quote: "length (escape_markup (json_quote s)) \<le> 6 * length s + 2"
  using length_escaped_le [of s] by (simp add: json_quote_def markup_escape_def)

lemma length_title: "length (escape_markup (json_stringify (text_or_null t))) \<le> 6 * (case t of None \<Rightarrow> 0 | Some s \<Rightarrow> length s) + 4"
proof (cases t)
  case None
  then show ?thesis by (simp add: text_or_null_def units_def markup_escape_def)
next
  case (Some s)
  then show ?thesis using length_quote [of s] by (simp add: text_or_null_def)
qed

lemmas escape_evaluation = json_quote_def units_def plain_escape_def high_surrogate_def low_surrogate_def markup_escape_def

lemma length_notice: "length (escape_markup (json_quote context_notice)) = 106"
  by (simp add: escape_evaluation context_notice_def)

lemma length_kind: "length (escape_markup (json_quote (units (delivery_kind_text k)))) \<le> 16"
  by (cases k) (simp_all add: escape_evaluation)

lemma escaped_names:
  "length (escape_markup (json_quote (units ''deliveries''))) = 12" "length (escape_markup (json_quote (units ''notice''))) = 8"
  "length (escape_markup (json_quote (units ''content''))) = 9" "length (escape_markup (json_quote (units ''deliveredAt''))) = 13"
  "length (escape_markup (json_quote (units ''scheduledFor''))) = 14" "length (escape_markup (json_quote (units ''sourceKind''))) = 12"
  "length (escape_markup (json_quote (units ''title''))) = 7" "length (escape_markup (json_quote (units ''truncated''))) = 11"
  "length (escape_markup (units ''true'')) = 4" "length (escape_markup (json_quote [])) = 2"
  "length (units ''<recent_proactive_deliveries>'') = 29" "length (units ''</recent_proactive_deliveries>'') = 30"
  by (simp_all add: escape_evaluation)

lemma length_plain_unit: "length (markup_escape 123) = 1" "length (markup_escape 125) = 1" "length (markup_escape 91) = 1"
  "length (markup_escape 93) = 1" "length (markup_escape 44) = 1" "length (markup_escape 58) = 1"
  by (simp_all add: markup_escape_def)

lemma length_without_content:
  "length (render_deliveries [shortened d 0]) \<le>
     303 + 6 * (length (md_delivered d) + length (md_scheduled d) + (case md_title d of None \<Rightarrow> 0 | Some s \<Rightarrow> length s))"
proof -
  have date: "length (escape_markup (json_quote (units s))) \<le> 6 * length s + 2" for s
    using length_quote [of "units s"] by (simp add: units_def)
  show ?thesis
    using date [of "md_delivered d"] date [of "md_scheduled d"] length_title [of "md_title d"] length_kind [of "md_kind d"]
    by (simp add: render_deliveries_def shortened_def model_delivery_wire_def escape_untrusted_context_json_def
        length_notice escaped_names length_plain_unit)
qed

lemma drop_oldest_spec:
  assumes "ds \<noteq> []"
  shows "\<exists>older kept. ds = older @ kept \<and> kept \<noteq> [] \<and> drop_oldest limit ds = kept \<and>
    (length kept = 1 \<or> int (length (render_deliveries kept)) \<le> limit) \<and>
    (older \<noteq> [] \<longrightarrow> limit < int (length (render_deliveries (last older # kept))))"
  using assms
proof (induction limit ds rule: drop_oldest.induct)
  case (1 limit d e ds)
  show ?case
  proof (cases "limit < int (length (render_deliveries (d # e # ds)))")
    case True
    then obtain older kept where kept: "e # ds = older @ kept" "kept \<noteq> []" "drop_oldest limit (e # ds) = kept"
        "length kept = 1 \<or> int (length (render_deliveries kept)) \<le> limit"
        "older \<noteq> [] \<longrightarrow> limit < int (length (render_deliveries (last older # kept)))"
      using 1 by blast
    have step: "drop_oldest limit (d # e # ds) = kept" using True kept(3) by simp
    have "limit < int (length (render_deliveries (last (d # older) # kept)))"
      using True kept(1,5) by (cases "older = []") auto
    with kept(1,2,4) step show ?thesis
      by (intro exI [of _ "d # older"] exI [of _ kept]) (simp del: drop_oldest.simps)
  next
    case False
    then show ?thesis by (intro exI [of _ "[]"] exI [of _ "d # e # ds"]) simp
  qed
qed auto

lemma truncated_delivery:
  assumes "int (length (render_deliveries [shortened d 0])) \<le> limit"
  shows "\<exists>n. 0 \<le> n \<and> n \<le> int (length (md_content d)) \<and> truncate_single_delivery d limit = render_deliveries [shortened d n] \<and>
    int (length (truncate_single_delivery d limit)) \<le> limit"
  unfolding truncate_single_delivery_def by (rule search_prefix_spec [of _ _ _ _ 0]) (use assms in simp_all)

text \<open>
  The newest entries as many as fit, or the beginning of the newest when not even that fits.
\<close>

definition newest_that_fit :: "int \<Rightarrow> ('a \<Rightarrow> model_delivery) \<Rightarrow> 'a list \<Rightarrow> text16 \<Rightarrow> bool" where
  "newest_that_fit limit f rows s \<longleftrightarrow>
     (\<exists>older kept newest. rows = older @ kept @ [newest] \<and>
       (s = render_deliveries (map f (kept @ [newest])) \<or>
        kept = [] \<and> limit < int (length (render_deliveries [f newest])) \<and>
          (\<exists>n. 0 \<le> n \<and> n \<le> int (length (md_content (f newest))) \<and> s = render_deliveries [shortened (f newest) n])) \<and>
       (older \<noteq> [] \<longrightarrow> limit < int (length (render_deliveries (map f (last older # kept @ [newest]))))))"

lemma newest_that_fit_map: "newest_that_fit limit f (map g rows) s = newest_that_fit limit (f \<circ> g) rows s"
proof
  assume "newest_that_fit limit f (map g rows) s"
  then obtain older kept newest where split: "map g rows = older @ kept @ [newest]"
    and rest: "s = render_deliveries (map f (kept @ [newest])) \<or>
        kept = [] \<and> limit < int (length (render_deliveries [f newest])) \<and>
          (\<exists>n. 0 \<le> n \<and> n \<le> int (length (md_content (f newest))) \<and> s = render_deliveries [shortened (f newest) n])"
      "older \<noteq> [] \<longrightarrow> limit < int (length (render_deliveries (map f (last older # kept @ [newest]))))"
    unfolding newest_that_fit_def by blast
  obtain older' kept' newest' where rows: "rows = older' @ kept' @ [newest']" "older = map g older'" "kept = map g kept'" "newest = g newest'"
    using split unfolding map_eq_append_conv append_eq_map_conv Cons_eq_map_conv by force
  show "newest_that_fit limit (f \<circ> g) rows s"
    unfolding newest_that_fit_def rows(1) using rest unfolding rows(2-4)
    by (intro exI [of _ older'] exI [of _ kept'] exI [of _ newest']) (auto simp: last_map)
next
  assume "newest_that_fit limit (f \<circ> g) rows s"
  then obtain older kept newest where rows: "rows = older @ kept @ [newest]"
    and rest: "s = render_deliveries (map (f \<circ> g) (kept @ [newest])) \<or>
        kept = [] \<and> limit < int (length (render_deliveries [(f \<circ> g) newest])) \<and>
          (\<exists>n. 0 \<le> n \<and> n \<le> int (length (md_content ((f \<circ> g) newest))) \<and> s = render_deliveries [shortened ((f \<circ> g) newest) n])"
      "older \<noteq> [] \<longrightarrow> limit < int (length (render_deliveries (map (f \<circ> g) (last older # kept @ [newest]))))"
    unfolding newest_that_fit_def by blast
  show "newest_that_fit limit f (map g rows) s"
    unfolding newest_that_fit_def rows using rest
    by (intro exI [of _ "map g older"] exI [of _ "map g kept"] exI [of _ "g newest"]) (auto simp: last_map)
qed

lemma kept_newest:
  assumes split: "ds = older @ kept" "kept \<noteq> []" and short: "length kept = 1 \<or> int (length (render_deliveries kept)) \<le> limit"
    and dropped: "older \<noteq> [] \<longrightarrow> limit < int (length (render_deliveries (last older # kept)))"
    and small: "int (length (render_deliveries [shortened (last ds) 0])) \<le> limit"
    and s: "s = (if int (length (render_deliveries kept)) \<le> limit then render_deliveries kept else truncate_single_delivery (hd kept) limit)"
  shows "int (length s) \<le> limit \<and> newest_that_fit limit (\<lambda>d. d) ds s"
proof -
  obtain front newest where kept: "kept = front @ [newest]" using split(2) by (cases kept rule: rev_cases) auto
  have ds: "ds = older @ front @ [newest]" "last ds = newest" using split(1) kept by simp_all
  show ?thesis
  proof (cases "int (length (render_deliveries kept)) \<le> limit")
    case True
    then show ?thesis
      using s dropped unfolding newest_that_fit_def kept
      by (intro conjI exI [of _ older] exI [of _ front] exI [of _ newest] ds(1)) simp_all
  next
    case False
    then have single: "kept = [newest]" "front = []" using short kept by simp_all
    then have "s = truncate_single_delivery newest limit" using s False by simp
    with truncated_delivery [of newest limit] small ds(2) obtain n where n: "0 \<le> n" "n \<le> int (length (md_content newest))"
        "s = render_deliveries [shortened newest n]" "int (length s) \<le> limit" by auto
    have "newest_that_fit limit (\<lambda>d. d) ds s"
      unfolding newest_that_fit_def
      by (rule exI [of _ older], rule exI [of _ "[]"], rule exI [of _ newest])
        (use n False single ds(1) dropped in auto)
    with n(4) show ?thesis by simp
  qed
qed

lemma formatted_context:
  assumes formatted: "format_proactive_delivery_context entries (Int_num limit) = Inr (Some s)"
    and small: "int (length (render_deliveries [shortened (model_delivery_of (last entries)) 0])) \<le> limit"
  shows "int (length s) \<le> limit \<and> newest_that_fit limit model_delivery_of entries s"
proof -
  let ?ds = "map model_delivery_of entries"
  have some: "entries \<noteq> []" using formatted by (auto simp: format_proactive_delivery_context_def split: if_splits)
  obtain older kept where kept: "?ds = older @ kept" "kept \<noteq> []" "drop_oldest limit ?ds = kept"
      "length kept = 1 \<or> int (length (render_deliveries kept)) \<le> limit"
      "older \<noteq> [] \<longrightarrow> limit < int (length (render_deliveries (last older # kept)))"
    using drop_oldest_spec [of ?ds limit] some unfolding Nil_is_map_conv by blast
  have "s = (if int (length (render_deliveries kept)) \<le> limit then render_deliveries kept
      else truncate_single_delivery (hd kept) limit)"
    using formatted some kept(3) by (auto simp: format_proactive_delivery_context_def Let_def split: if_splits)
  moreover have "int (length (render_deliveries [shortened (last ?ds) 0])) \<le> limit" using small some by (simp add: last_map)
  ultimately have "int (length s) \<le> limit \<and> newest_that_fit limit (\<lambda>d. d) ?ds s"
    by (intro kept_newest [OF kept(1,2,4,5)])
  then show ?thesis by (simp add: newest_that_fit_map comp_def)
qed

section \<open>What a turn is told\<close>

definition told :: "date_codec \<Rightarrow> proactive_delivery \<Rightarrow> model_delivery" where
  "told dc p = model_delivery_of (map_delivery_row dc p)"

definition pending_rows ::
  "(time \<Rightarrow> int \<Rightarrow> time) \<Rightarrow> 'a delivery_zone_scheme \<Rightarrow> string \<Rightarrow> int option \<Rightarrow> delivery_db \<Rightarrow> proactive_delivery list" where
  "pending_rows days_before z session now d =
     (case (now, first_row (session_in_zone session z) (dd_sessions d)) of
        (Some ms, Some c) \<Rightarrow> recent_deliveries (unseen_delivery days_before z (cv_last_delivery c) (millis ms)) (dd_journal d)
      | _ \<Rightarrow> [])"

lemma pending_context:
  assumes "list_pending_context dc days_before z session now d = Inr (Some (context', cursor))"
  shows "format_proactive_delivery_context (map (map_delivery_row dc) (pending_rows days_before z session now d))
      (Int_num context_max_characters) = Inr (Some context')"
    "pending_rows days_before z session now d \<noteq> []"
    "cursor = nat_text (nat (pd_id (last (pending_rows days_before z session now d))))"
proof -
  let ?rows = "pending_rows days_before z session now d"
  obtain ms c where some: "now = Some ms" "first_row (session_in_zone session z) (dd_sessions d) = Some c"
    using assms by (auto simp: list_pending_context_def res_bind_Inr_iff split: option.splits)
  have rows: "?rows = recent_deliveries (unseen_delivery days_before z (cv_last_delivery c) (millis ms)) (dd_journal d)"
    using some by (simp add: pending_rows_def)
  let ?r = "recent_deliveries (unseen_delivery days_before z (cv_last_delivery c) (millis ms)) (dd_journal d)"
  have listed: "(if ?r = [] then Inr None
      else res_bind (format_proactive_delivery_context (map (map_delivery_row dc) ?r) (Int_num context_max_characters)) (\<lambda>text.
        case text of None \<Rightarrow> Inr None
        | Some s \<Rightarrow> Inr (if s = [] then None else Some (s, dl_id (last (map (map_delivery_row dc) ?r)))))) = Inr (Some (context', cursor))"
    using assms some by (simp add: list_pending_context_def res_bind_Inr_iff Let_def)
  show some_rows: "?rows \<noteq> []" unfolding rows using listed by (rule contrapos_pn) simp
  then have "?r \<noteq> []" unfolding rows .
  then obtain s where "format_proactive_delivery_context (map (map_delivery_row dc) ?r) (Int_num context_max_characters) = Inr (Some s)"
      "context' = s" "cursor = dl_id (last (map (map_delivery_row dc) ?r))"
    using listed by (auto simp: res_bind_Inr_iff split: option.splits if_splits)
  then show "format_proactive_delivery_context (map (map_delivery_row dc) ?rows) (Int_num context_max_characters) = Inr (Some context')"
      "cursor = nat_text (nat (pd_id (last ?rows)))"
    unfolding rows using \<open>?r \<noteq> []\<close> by (simp_all add: last_map map_delivery_row_def)
qed

lemma pending_row:
  assumes "p \<in> set (pending_rows days_before z session now d)"
  shows "p \<in> set (jn_rows (dd_journal d)) \<and> (\<exists>c. first_row (session_in_zone session z) (dd_sessions d) = Some c \<and> cv_last_delivery c < pd_id p)"
  using assms unfolding pending_rows_def
  by (force simp: recent_deliveries_def unseen_delivery_def split: option.splits dest: set_select_ordered)

lemma newest_pending:
  assumes "p \<in> set (pending_rows days_before z session now d)"
  shows "pd_id p \<le> pd_id (last (pending_rows days_before z session now d))"
proof -
  let ?rows = "pending_rows days_before z session now d"
  have "sorted (map pd_id ?rows)" by (auto simp: pending_rows_def recent_deliveries_def split: option.splits)
  moreover obtain front where "?rows = front @ [last ?rows]" using assms by (metis append_butlast_last_id empty_iff list.set(1))
  then have rows: "?rows = front @ [last ?rows]" .
  ultimately have "sorted (map pd_id (front @ [last ?rows]))" by metis
  then have "\<forall>q\<in>set front. pd_id q \<le> pd_id (last ?rows)" by (simp add: sorted_append)
  with assms rows show ?thesis by (metis Un_iff empty_iff empty_set order_refl set_ConsD set_append)
qed

lemma small_newest:
  assumes "journal_ok (dd_journal d)" "pending_rows days_before z session now d \<noteq> []"
    and iso: "\<And>p. p \<in> set (jn_rows (dd_journal d)) \<Longrightarrow>
      length (dc_iso dc (to_date (pd_delivered p))) \<le> 27 \<and> length (dc_iso dc (to_date (pd_scheduled p))) \<le> 27"
  shows "int (length (render_deliveries [shortened (model_delivery_of (last (map (map_delivery_row dc)
    (pending_rows days_before z session now d)))) 0])) \<le> context_max_characters"
proof -
  let ?p = "last (pending_rows days_before z session now d)"
  have stored: "?p \<in> set (jn_rows (dd_journal d))" using pending_row [OF last_in_set [OF assms(2)]] by blast
  then have "delivery_checks ?p" using assms(1) by (simp add: journal_ok_def list_all_iff)
  then have "(case md_title (told dc ?p) of None \<Rightarrow> 0 | Some s \<Rightarrow> length s) \<le> 120"
    by (auto simp: told_def model_delivery_of_def map_delivery_row_def delivery_checks_def units_def split: option.splits)
  moreover have "length (md_delivered (told dc ?p)) \<le> 27" "length (md_scheduled (told dc ?p)) \<le> 27"
    using iso [OF stored] by (simp_all add: told_def model_delivery_of_def map_delivery_row_def)
  ultimately show ?thesis
    using length_without_content [of "told dc ?p"] assms(2) by (simp add: context_max_characters_def last_map told_def)
qed


lemma pending_context_told:
  assumes "require_delivery_zone z = Inr ()" "journal_ok (dd_journal d)"
    and rows: "pending_rows days_before z session now d = front @ [p]"
    and iso: "\<And>p. p \<in> set (jn_rows (dd_journal d)) \<Longrightarrow>
      length (dc_iso dc (to_date (pd_delivered p))) \<le> 27 \<and> length (dc_iso dc (to_date (pd_scheduled p))) \<le> 27"
  shows "\<exists>s. list_pending_context dc days_before z session now d = Inr (Some (s, nat_text (nat (pd_id p))))"
proof -
  let ?entries = "map (map_delivery_row dc) (front @ [p])"
  obtain ms c where some: "now = Some ms" "first_row (session_in_zone session z) (dd_sessions d) = Some c"
      "recent_deliveries (unseen_delivery days_before z (cv_last_delivery c) (millis ms)) (dd_journal d) = front @ [p]"
    using rows by (auto simp: pending_rows_def split: option.splits)
  obtain s where s: "format_proactive_delivery_context ?entries (Int_num context_max_characters) = Inr (Some s)"
    by (simp add: format_proactive_delivery_context_def Let_def context_max_characters_def max_safe_integer_def
        minimum_context_characters_def)
  have "newest_that_fit context_max_characters model_delivery_of ?entries s"
    using formatted_context [OF s] small_newest [OF assms(2) _ iso, of days_before z session now] rows by simp
  then have "s \<noteq> []" by (auto simp: newest_that_fit_def render_deliveries_def)
  then show ?thesis using assms(1) some s by (simp add: list_pending_context_def map_delivery_row_def)
qed

text \<open>
  A session is told of a delivery once. After the cursor of a told context was confirmed, whatever else happened to the
  journal in between, none of the deliveries that were pending then, told or left out, is pending for the session
  again, at any time and for any zone.
\<close>

theorem deliveries_are_told_once:
  assumes "list_pending_context dc days_before z session now d = Inr (Some (context', cursor))"
    and "\<forall>p\<in>set (jn_rows (dd_journal d)). 0 < pd_id p"
    and "advance_session_cursor session cursor d1 = (Inr (), d2)" "dd_sessions d3 = dd_sessions d2"
  shows "set (pending_rows days_before z session now d) \<inter> set (pending_rows days_before' z' session now' d3) = {}"
proof -
  let ?rows = "pending_rows days_before z session now d"
  note pending = pending_context [OF assms(1)]
  have "0 < pd_id (last ?rows)" using pending_row [OF last_in_set [OF pending(2)]] assms(2) by blast
  then have cursor: "decimal_value cursor = pd_id (last ?rows)" unfolding pending(3) decimal_value_nat_text by simp
  have "dd_sessions d2 = update_where (live_session session)
      (\<lambda>c. c\<lparr>cv_last_delivery := max (cv_last_delivery c) (decimal_value cursor)\<rparr>) (dd_sessions d1)"
    using assms(3) by (auto simp: advance_session_cursor_def when_valid_def split: sum.splits if_splits)
  then have moved: "dd_sessions d3 = update_where (live_session session)
      (\<lambda>c. c\<lparr>cv_last_delivery := max (cv_last_delivery c) (pd_id (last ?rows))\<rparr>) (dd_sessions d1)"
    unfolding cursor assms(4) .
  then have seen: "pd_id (last ?rows) \<le> cv_last_delivery c" if c: "c \<in> set (dd_sessions d3)" "session_in_zone session z' c" for c
  proof -
    obtain c0 where "c = (if live_session session c0 then c0\<lparr>cv_last_delivery := max (cv_last_delivery c0) (pd_id (last ?rows))\<rparr> else c0)"
      using c(1) unfolding moved set_update_where by blast
    moreover have "live_session session c" using c(2) by (simp add: session_in_zone_def live_session_def)
    ultimately show ?thesis by (auto simp: live_session_def split: if_splits)
  qed
  show ?thesis
  proof (intro equals0I)
    fix p assume "p \<in> set ?rows \<inter> set (pending_rows days_before' z' session now' d3)"
    then have "pd_id p \<le> pd_id (last ?rows)" "p \<in> set (pending_rows days_before' z' session now' d3)"
      by (auto dest: newest_pending)
    then show False using pending_row seen first_row_Some by (metis less_le_not_le order_trans)
  qed
qed

end
