(* ===== verification/Delivery_Listing.thy ===== *)
theory Delivery_Listing
  imports Delivery_Context
begin

text \<open>Reading the delivery journal page by page.\<close>

definition delivery_key :: "proactive_delivery \<Rightarrow> time \<times> int" where
  "delivery_key p = (pd_delivered p, pd_id p)"

definition deliveries_newest_first :: "proactive_delivery list \<Rightarrow> proactive_delivery list" where
  "deliveries_newest_first = sort_key (\<lambda>p. (- pd_delivered p, - pd_id p))"

definition delivery_cursor :: "date_codec \<Rightarrow> string \<Rightarrow> proactive_delivery \<Rightarrow> string" where
  "delivery_cursor dc binding p =
     encode_date_bigint_cursor dc (to_date (pd_delivered p)) (nat_text (nat (pd_id p))) (Some binding)"

definition all_delivery_pages ::
  "date_codec \<Rightarrow> (string option list \<Rightarrow> string) \<Rightarrow> (string \<Rightarrow> proactive_delivery \<Rightarrow> bool) \<Rightarrow> delivery_filter
     \<Rightarrow> delivery_journal \<Rightarrow> nat \<Rightarrow> string option \<Rightarrow> delivery_record list result" where
  "all_delivery_pages dc sha matches i j =
     follow_pages (\<lambda>c. res_bind (list_deliveries dc sha matches (i\<lparr>df_cursor := c\<rparr>) j) (\<lambda>p. Inr (dp_items p, dp_next p)))"

text \<open>The rows of the journal as PostgreSQL and the code write them: positive ids, whole milliseconds.\<close>

definition plain_delivery :: "proactive_delivery \<Rightarrow> bool" where
  "plain_delivery p \<longleftrightarrow> 0 < pd_id p \<and> pd_id p \<le> max_bigint \<and> pd_delivered p mod 1000 = 0"

lemma cursor_left_out [simp]:
  "require_delivery_filter (i\<lparr>df_cursor := c\<rparr>) = require_delivery_filter i"
  "filter_binding dc sha (i\<lparr>df_cursor := c\<rparr>) = filter_binding dc sha i"
  "listed_delivery matches (i\<lparr>df_cursor := c\<rparr>) = listed_delivery matches i"
  by (simp_all add: require_delivery_filter_def require_delivery_zone_def filter_binding_def listed_delivery_def
      delivery_in_zone_def within_dates_def fun_eq_iff)

lemma positive_bigint_nat_text: "0 < n \<Longrightarrow> positive_bigint_pattern (nat_text n)"
proof -
  assume "0 < n"
  moreover obtain c cs where s: "nat_text n = c # cs" by (cases "nat_text n") auto
  ultimately have "list_all ascii_digit (c # cs)" "c \<noteq> CHR ''0''"
    using nat_text_digits [of n] nat_text_leading [of n] by simp_all
  moreover have "of_char c \<noteq> (48::nat)" 
  proof
    assume "of_char c = (48::nat)"
    then have "of_char c = (of_char CHR ''0'' :: nat)" by simp
    with \<open>c \<noteq> CHR ''0''\<close> show False unfolding of_char_eq_iff by simp
  qed
  ultimately show ?thesis by (auto simp: positive_bigint_pattern_def s ascii_digit_def less_eq_char_def)
qed

lemma newest_first_deliveries:
  assumes "delivery_rows.pk rows"
  shows "sorted_wrt (\<lambda>p q. delivery_key q < delivery_key p) (deliveries_newest_first rows)"
proof -
  let ?k = "\<lambda>p. (- pd_delivered p, - pd_id p)"
  have "distinct (map pd_id (deliveries_newest_first rows))"
    using assms by (simp add: delivery_rows.pk_def deliveries_newest_first_def distinct_map)
  then have "distinct (map ?k (deliveries_newest_first rows))"
    unfolding distinct_map inj_on_def by simp
  moreover have "sorted (map ?k (deliveries_newest_first rows))" by (simp add: deliveries_newest_first_def)
  ultimately have "sorted_wrt (<) (map ?k (deliveries_newest_first rows))" by (simp add: strict_sorted_iff)
  then have "sorted_wrt (\<lambda>p q. ?k p < ?k q) (deliveries_newest_first rows)" by (simp add: sorted_wrt_map)
  moreover have "?k p < ?k q \<Longrightarrow> delivery_key q < delivery_key p" for p q by (auto simp: delivery_key_def less_prod_def)
  ultimately show ?thesis by (rule sorted_wrt_mono_rel [rotated])
qed

lemma delivery_page_after:
  assumes laws: "date_laws dc" and pk: "delivery_rows.pk (jn_rows j)" and rows: "list_all plain_delivery (jn_rows j)"
    and valid: "require_delivery_filter i = Inr ()" and digest: "filter_digest_pattern (filter_binding dc sha i)"
    and split: "deliveries_newest_first (filter (listed_delivery matches i) (jn_rows j)) = xs @ ys"
  shows "res_bind (list_deliveries dc sha matches (i\<lparr>df_cursor := cursor_at (delivery_cursor dc (filter_binding dc sha i)) xs\<rparr>) j)
      (\<lambda>p. Inr (dp_items p, dp_next p)) =
    Inr (map (map_delivery_row dc) (take (nat (number_value (df_limit i))) ys),
      if nat (number_value (df_limit i)) < length ys
      then Some (delivery_cursor dc (filter_binding dc sha i) (last (take (nat (number_value (df_limit i))) ys))) else None)"
proof -
  let ?b = "filter_binding dc sha i" and ?n = "nat (number_value (df_limit i))"
  let ?L = "deliveries_newest_first (filter (listed_delivery matches i) (jn_rows j))"
  have strict: "sorted_wrt (\<lambda>p q. delivery_key q < delivery_key p) ?L"
    using newest_first_deliveries [OF pk] unfolding deliveries_newest_first_def filter_sort [symmetric] by (rule sorted_wrt_filter)
  have in_table: "set (xs @ ys) \<subseteq> set (jn_rows j)" unfolding split [symmetric] by (auto simp: deliveries_newest_first_def)
  have n: "0 < ?n" using valid by (auto simp: require_delivery_filter_def res_bind_Inr_iff split: if_splits)
  obtain after where after: "decode_date_bigint_cursor dc (cursor_at (delivery_cursor dc ?b) xs)
        ''AGENT_PROACTIVE_DELIVERY_CURSOR_INVALID'' (Some ?b) = Inr after"
      "(case after of None \<Rightarrow> False | Some (c, _) \<Rightarrow> max_bigint < decimal_value c) = False"
      "filter (after_delivery_cursor after) ?L = ys"
  proof (cases xs rule: rev_cases)
    case Nil
    with that [of None] split show thesis by (simp add: decode_date_bigint_cursor_def after_delivery_cursor_def)
  next
    case (snoc xs' x)
    then have "plain_delivery x" using rows in_table by (auto simp: list_all_iff)
    then have x: "0 < pd_id x" "pd_id x \<le> max_bigint" "millis (to_date (pd_delivered x)) = pd_delivered x"
      by (auto simp: plain_delivery_def millis_def to_date_def)
    let ?after = "Some (nat_text (nat (pd_id x)), to_date (pd_delivered x))"
    have "decode_date_bigint_cursor dc (cursor_at (delivery_cursor dc ?b) xs) ''AGENT_PROACTIVE_DELIVERY_CURSOR_INVALID'' (Some ?b) = Inr ?after"
      using date_bigint.round_trip [of dc "(nat_text (nat (pd_id x)), to_date (pd_delivered x))" "Some ?b"] laws x(1) digest
      by (simp add: cursor_at_def delivery_cursor_def snoc date_bigint.bindable_def positive_bigint_nat_text)
    moreover have "(case ?after of None \<Rightarrow> False | Some (c, _) \<Rightarrow> max_bigint < decimal_value c) = False" using x by simp
    moreover have "after_delivery_cursor ?after = (\<lambda>p. delivery_key p < delivery_key x)"
      using x by (simp add: fun_eq_iff after_delivery_cursor_def delivery_key_def)
    then have "filter (after_delivery_cursor ?after) ?L = ys"
      using filter_below [of delivery_key xs' x ys] strict split snoc by simp
    ultimately show thesis by (rule that)
  qed
  have "select_ordered (\<lambda>p. listed_delivery matches i p \<and> after_delivery_cursor after p)
      (\<lambda>p. (- pd_delivered p, - pd_id p)) (?n + 1) (jn_rows j) = take (?n + 1) ys"
    using after(3) unfolding select_ordered_def deliveries_newest_first_def filter_sort
    by (simp add: conj_commute)
  then show ?thesis
    using n after(1,2) valid by (auto simp: list_deliveries_def Let_def delivery_cursor_def min_def)
qed

text \<open>
  The delivery history is listed completely. Following the cursors from the first page, with any filters and page size,
  yields the deliveries of the zone that match the filters, newest first, none twice and none left out.
\<close>

theorem delivery_pages_are_complete:
  assumes "date_laws dc" "delivery_rows.pk (jn_rows j)" "list_all plain_delivery (jn_rows j)"
    "require_delivery_filter i = Inr ()" "filter_digest_pattern (filter_binding dc sha i)" "length (jn_rows j) < fuel"
  shows "all_delivery_pages dc sha matches i j fuel None =
    Inr (map (map_delivery_row dc) (deliveries_newest_first (filter (listed_delivery matches i) (jn_rows j))))"
proof -
  let ?L = "deliveries_newest_first (filter (listed_delivery matches i) (jn_rows j))"
  let ?cursor = "delivery_cursor dc (filter_binding dc sha i)"
  have "length ?L < fuel" using assms(6) le_less_trans [OF length_filter_le] by (simp add: deliveries_newest_first_def)
  moreover have "0 < nat (number_value (df_limit i))"
    using assms(4) by (auto simp: require_delivery_filter_def res_bind_Inr_iff split: if_splits)
  ultimately have "all_delivery_pages dc sha matches i j fuel (cursor_at ?cursor []) = Inr (map (map_delivery_row dc) ?L)"
    unfolding all_delivery_pages_def
    by (intro follow_pages_complete [where entries = ?L and n = "nat (number_value (df_limit i))" and cursor = ?cursor]
        delivery_page_after [OF assms(1-5)]) simp_all
  then show ?thesis by simp
qed

end
