(* ===== verification/Delivery_Witness.thy ===== *)
theory Delivery_Witness
  imports Delivery_Context_Properties Delivery_Listing
begin

text \<open>Concrete deliveries: the properties at work, and a text that is cut shorter than it had to be.\<close>

definition kitchen_zone :: delivery_zone where
  "kitchen_zone = \<lparr>dz_family = ''f'', dz_group = None, dz_thread = None, dz_owner = Some ''u'', dz_scope = Personal_scope, dz_chat = ''5''\<rparr>"

definition milk_delivery :: "int \<Rightarrow> proactive_delivery" where
  "milk_delivery n =
     \<lparr>pd_id = n, pd_kind = Reminder_source, pd_source = nat_text (nat n), pd_message = 7, pd_title = None, pd_family = ''f'',
      pd_owner = Some ''u'', pd_group = None, pd_scope = Personal_scope, pd_content = ''milk'', pd_scheduled = 1000, pd_delivered = 2000,
      pd_chat = ''5'', pd_thread = None\<rparr>"

definition kitchen_db :: delivery_db where
  "kitchen_db =
     \<lparr>dd_sessions = [\<lparr>cv_id = ''s'', cv_retired = None, cv_family = ''f'', cv_scope = Personal_scope, cv_owner = Some ''u'',
        cv_group = None, cv_last_delivery = 1\<rparr>],
      dd_journal = \<lparr>jn_rows = [milk_delivery 1, milk_delivery 2, milk_delivery 3], jn_last = 3\<rparr>\<rparr>"

definition days_back :: "time \<Rightarrow> int \<Rightarrow> time" where "days_back t n = t - n * 86400000000"

definition kitchen_context :: "(text16 \<times> string) option result" where
  "kitchen_context = list_pending_context unary_dates days_back kitchen_zone ''s'' (Some 9) kitchen_db"

lemma kitchen_rows: "pending_rows days_back kitchen_zone ''s'' (Some 9) kitchen_db = [milk_delivery 2] @ [milk_delivery 3]"
  by code_simp

lemma kitchen_journal: "journal_ok (dd_journal kitchen_db)"
  by (simp add: journal_ok_def delivery_rows.pk_def kitchen_db_def milk_delivery_def delivery_checks_def same_receipt_def) code_simp

lemma kitchen_dates:
  assumes "p \<in> set (jn_rows (dd_journal kitchen_db))"
  shows "length (dc_iso unary_dates (to_date (pd_delivered p))) \<le> 27 \<and> length (dc_iso unary_dates (to_date (pd_scheduled p))) \<le> 27"
  using assms by (auto simp: kitchen_db_def milk_delivery_def unary_dates_def to_date_def)

lemma kitchen_told: "\<exists>s. list_pending_context unary_dates days_back kitchen_zone ''s'' (Some 9) kitchen_db = Inr (Some (s, ''3''))"
proof -
  have "nat_text (nat (pd_id (milk_delivery 3))) = ''3''" by code_simp
  moreover have "require_delivery_zone kitchen_zone = Inr ()" by code_simp
  ultimately show ?thesis using pending_context_told [OF _ kitchen_journal kitchen_rows kitchen_dates] by simp
qed


lemma deliveries_are_told_once_witness:
  "set [milk_delivery 2, milk_delivery 3] \<inter>
     set (pending_rows days_back kitchen_zone ''s'' (Some 10) (snd (advance_session_cursor ''s'' ''3'' kitchen_db))) = {}"
proof -
  obtain s where "list_pending_context unary_dates days_back kitchen_zone ''s'' (Some 9) kitchen_db = Inr (Some (s, ''3''))"
    using kitchen_told by blast
  moreover have "\<forall>p\<in>set (jn_rows (dd_journal kitchen_db)). 0 < pd_id p" by code_simp
  moreover have "advance_session_cursor ''s'' ''3'' kitchen_db = (Inr (), snd (advance_session_cursor ''s'' ''3'' kitchen_db))"
  proof -
    have "fst (advance_session_cursor ''s'' ''3'' kitchen_db) = Inr ()" by code_simp
    then show ?thesis by (simp add: prod_eq_iff)
  qed
  ultimately have "set (pending_rows days_back kitchen_zone ''s'' (Some 9) kitchen_db) \<inter>
     set (pending_rows days_back kitchen_zone ''s'' (Some 10) (snd (advance_session_cursor ''s'' ''3'' kitchen_db))) = {}"
    by (rule deliveries_are_told_once [OF _ _ _ refl])
  then show ?thesis unfolding kitchen_rows by simp
qed

definition kitchen_filter :: delivery_filter where
  "kitchen_filter =
     \<lparr>dz_family = ''f'', dz_group = None, dz_thread = None, dz_owner = Some ''u'', dz_scope = Personal_scope, dz_chat = ''5'',
      df_cursor = None, df_after = None, df_before = Some (Some 5), df_limit = Int_num 1, df_query = None, df_kind = None\<rparr>"

definition zero_digest :: "string option list \<Rightarrow> string" where "zero_digest values = replicate 64 CHR ''0''"

lemma delivery_pages_are_complete_witness:
  "all_delivery_pages unary_dates zero_digest (\<lambda>_ _. True) kitchen_filter (dd_journal kitchen_db) 4 None =
     Inr (map (map_delivery_row unary_dates) [milk_delivery 3, milk_delivery 2, milk_delivery 1])"
proof -
  have "deliveries_newest_first (filter (listed_delivery (\<lambda>_ _. True) kitchen_filter) (jn_rows (dd_journal kitchen_db))) =
      [milk_delivery 3, milk_delivery 2, milk_delivery 1]" by code_simp
  moreover have "hex_digit CHR ''0''" by (simp add: hex_digit_def ascii_digit_def less_eq_char_def)
  then have "filter_digest_pattern (filter_binding unary_dates zero_digest kitchen_filter)"
    by (simp add: filter_binding_def pagination_filter_digest_def zero_digest_def filter_digest_pattern_def list_all_iff)
  moreover have "list_all plain_delivery (jn_rows (dd_journal kitchen_db))"
    by (simp add: kitchen_db_def milk_delivery_def plain_delivery_def max_bigint_def)
  moreover have "require_delivery_filter kitchen_filter = Inr ()" by code_simp
  moreover have "length (jn_rows (dd_journal kitchen_db)) < 4" by (simp add: kitchen_db_def)
  moreover have "delivery_rows.pk (jn_rows (dd_journal kitchen_db))" using kitchen_journal by (simp add: journal_ok_def)
  ultimately show ?thesis
    using delivery_pages_are_complete [OF unary_dates_laws, where matches = "\<lambda>_ _. True" and fuel = 4] by metis
qed

section \<open>A text cut shorter than it had to be\<close>

text \<open>
  A prefix that ends inside a surrogate pair takes six characters for the lone half, more than the whole pair takes. So the
  length of a prefix is not monotone, and the binary search of \<open>truncateSingleDelivery\<close> can step over the longest
  prefix that fits.
\<close>

fun smiles :: "nat \<Rightarrow> text16" where
  "smiles 0 = []"
| "smiles (Suc n) = 55357 # 56832 # smiles n"

definition smiling_delivery :: model_delivery where
  "smiling_delivery =
     \<lparr>md_content = smiles 84, md_delivered = ''2026-01-01T00:00:00.000Z'', md_scheduled = ''2026-01-01T00:00:00.000Z'',
      md_kind = Reminder_source, md_title = None, md_truncated = False\<rparr>"

lemma length_smiles [simp]: "length (smiles n) = 2 * n"
  by (induction n) simp_all

lemma smiles_prefix: "k \<le> 2 * n \<Longrightarrow> length (escape_markup (escape_units (take k (smiles n)))) = (if even k then k else k + 5)"
proof (induction n arbitrary: k)
  case (Suc n)
  show ?case
  proof (cases "2 \<le> k")
    case True
    then obtain m where k: "k = Suc (Suc m)" by (metis One_nat_def Suc_1 Suc_le_D Suc_le_mono)
    then show ?thesis using Suc.IH [of m] Suc.prems by (simp add: high_surrogate_def low_surrogate_def markup_escape_def)
  next
    case False
    then consider "k = 0" | "k = 1" by linarith
    then show ?thesis
      by cases (simp_all add: plain_escape_def high_surrogate_def unicode_escape_def hex_unit_def markup_escape_def)
  qed
qed simp

lemma smiling_content: "length (md_content smiling_delivery) = 168"
  by (simp add: smiling_delivery_def)

lemma smiling_length:
  assumes "0 \<le> n" "n \<le> 168"
  shows "int (length (render_deliveries [shortened smiling_delivery n])) = (if even n then 345 + n else 350 + n)"
proof -
  have "length (escape_markup (json_quote (units ''2026-01-01T00:00:00.000Z''))) = 26"
    "length (escape_markup (json_quote (units ''reminder''))) = 10" "length (escape_markup (units ''null'')) = 4"
    by (simp_all add: escape_evaluation)
  then show ?thesis
    using smiles_prefix [of "nat n" 84] assms
    by (simp add: render_deliveries_def shortened_def smiling_delivery_def model_delivery_wire_def text_or_null_def
        escape_untrusted_context_json_def length_notice escaped_names length_plain_unit even_nat_iff)
      (simp add: json_quote_def markup_escape_def)
qed

lemma smiling_step:
  assumes "0 \<le> low" "high \<le> 168"
  shows "search_prefix smiling_delivery 512 low high best =
    (if high < low then best
     else if (if even ((low + high) div 2) then (low + high) div 2 \<le> 167 else (low + high) div 2 \<le> 162)
       then search_prefix smiling_delivery 512 ((low + high) div 2 + 1) high (render_deliveries [shortened smiling_delivery ((low + high) div 2)])
     else search_prefix smiling_delivery 512 low ((low + high) div 2 - 1) best)"
proof (cases "high < low")
  case True
  then show ?thesis by (subst search_prefix.simps) (simp only: if_True)
next
  case False
  let ?mid = "(low + high) div 2"
  have "0 \<le> ?mid" "?mid \<le> 168" using False assms middle [of low high] by simp_all
  then have "int (length (render_deliveries [shortened smiling_delivery ?mid])) = (if even ?mid then 345 + ?mid else 350 + ?mid)"
    by (rule smiling_length)
  then have fits: "(int (length (render_deliveries [shortened smiling_delivery ?mid])) \<le> 512) = (if even ?mid then ?mid \<le> 167 else ?mid \<le> 162)"
    by (simp only: split: if_split) linarith
  show ?thesis
    by (subst search_prefix.simps) (simp only: Let_def fits False if_False)
qed

text \<open>The search keeps a prefix of 162 code units although 166 fit.\<close>

theorem truncation_misses_a_longer_prefix:
  "truncate_single_delivery smiling_delivery 512 = render_deliveries [shortened smiling_delivery 162] \<and>
   length (render_deliveries [shortened smiling_delivery 166]) \<le> 512"
proof
  have "truncate_single_delivery smiling_delivery 512 = search_prefix smiling_delivery 512 0 168 (render_deliveries [shortened smiling_delivery 0])"
    by (simp add: truncate_single_delivery_def smiling_content)
  also have "\<dots> = search_prefix smiling_delivery 512 85 168 (render_deliveries [shortened smiling_delivery 84])" by (subst smiling_step) simp_all
  also have "\<dots> = search_prefix smiling_delivery 512 127 168 (render_deliveries [shortened smiling_delivery 126])" by (subst smiling_step) simp_all
  also have "\<dots> = search_prefix smiling_delivery 512 148 168 (render_deliveries [shortened smiling_delivery 147])" by (subst smiling_step) simp_all
  also have "\<dots> = search_prefix smiling_delivery 512 159 168 (render_deliveries [shortened smiling_delivery 158])" by (subst smiling_step) simp_all
  also have "\<dots> = search_prefix smiling_delivery 512 159 162 (render_deliveries [shortened smiling_delivery 158])" by (subst smiling_step) simp_all
  also have "\<dots> = search_prefix smiling_delivery 512 161 162 (render_deliveries [shortened smiling_delivery 160])" by (subst smiling_step) simp_all
  also have "\<dots> = search_prefix smiling_delivery 512 162 162 (render_deliveries [shortened smiling_delivery 161])" by (subst smiling_step) simp_all
  also have "\<dots> = search_prefix smiling_delivery 512 163 162 (render_deliveries [shortened smiling_delivery 162])" by (subst smiling_step) simp_all
  also have "\<dots> = render_deliveries [shortened smiling_delivery 162]" by (subst smiling_step) simp_all
  finally show "truncate_single_delivery smiling_delivery 512 = render_deliveries [shortened smiling_delivery 162]" .
  show "length (render_deliveries [shortened smiling_delivery 166]) \<le> 512" using smiling_length [of 166] by simp
qed

end
