(* ===== verification/Spec2Isabelle.thy ===== *)
theory Spec2Isabelle
  imports Ingress_Drain_Witness Interjection_Witness Approval_Witness Reminder_Witness Agent_Schedule_Witness Delivery_Witness
    Tool_Policy Rich_Message
begin

text \<open>
  Osinara is a Telegram assistant for families, written in TypeScript on the Eve agent runtime with PostgreSQL
  as its only durable state. This development models the parts whose mistakes are expensive and hard to see in
  tests: the durable queue of Telegram updates, the confirmation prompts that stand in front of every
  consequential tool, the reminders and the scheduled scenarios it runs on its own, the journal of what it sent,
  the group history it gives to those scenarios, and the messages it shows to a turn that is already running.
  They share one schema and one discipline: several workers, a restart at any instant, a lease on every piece of
  work, and a marker in the database before every effect that cannot be taken back.

  How the code is modelled. A repository method is a function from its arguments, the transaction time and the
  database to a result and the next database. Tables are lists of records (Schema, Reminders, Agent_Schedules), one per
  \<open>CREATE TABLE\<close> of migrations/, with the columns the modelled statements mention; an SQL statement is
  one of the few list functions of Prelude (\<open>update_where\<close>, \<open>delete_where\<close>, \<open>first_row\<close>,
  \<open>select_ordered\<close>). A transaction ends in \<open>Commit\<close>, \<open>Rollback\<close> or \<open>Throw\<close>, and only the
  first keeps what it wrote. Errors are values: \<open>AppError\<close> with the code the source throws,
  \<open>PgError\<close> with the SQLSTATE of a violated constraint. Instants are microseconds, as \<open>timestamptz\<close>
  keeps them, while a JavaScript date has milliseconds; ids of type \<open>bigint\<close> are integers with the bounds
  the code checks. Concurrency between transactions is interleaving: rows another worker has locked are the
  argument \<open>locked\<close> of the statements that \<open>SKIP LOCKED\<close>, and the histories below range over all
  orders of operations.

  Theories and the code they model (paths under src/agent/lib):

  \<^item> Prelude, Json_Value, Schema, Lease: errors, results, transactions, strings, tables; JSON (json-value.ts);
    the tables; the interface of a leased row, which the ingress, the prompt sweep, the reminders and the
    agent schedules interpret.
  \<^item> Input_Validation (tool-input-validation.ts), Tool_Policy (tool-policy/), Rich_Message
    (telegram-rich-message.ts), Keyset_Pagination (keyset-pagination.ts), Family_Checks
    (family-repository-checks.ts), Recurrence (scheduling/next-occurrence.ts), Untrusted_Context
    (untrusted-context-json.ts, on UTF-16 code units), Session_Values (dates and values several tools share).
  \<^item> Ingress_Contract, Ingress_Queue, Ingress_Processing: telegram-ingress-contract.ts, -concurrency.ts,
    -repository.ts, -processing-repository.ts, -session-cursor-repository.ts, -stall.ts, -retention.ts.
    Ingress_Invariant proves the table constraints an invariant of every operation; Ingress_Run makes the
    operations a step relation; Ingress_Properties holds what follows for runs: order within a chat, one
    dispatch per update, stale workers, duplicates, tombstones, progress.
  \<^item> Message_Policy: telegram-message-policy.ts, telegram-message-series.ts and the document candidates of
    attachments/. Ingress_Drain and Ingress_Webhook: telegram-durable-ingress.ts, the loop that leases updates, hands
    them to Eve and settles them, and the webhook in front of it, with whisper/telegram-whisper-ingress.ts.
    Ingress_Drain_Properties proves, whatever Eve answers, whatever fails and whatever other workers do between two
    of its calls, that an update goes to Eve in turn and marked, and again only after it was given back, and that the
    leases are settled in order unless a settling call is the last thing that fails; Ingress_Webhook that what is
    acknowledged is kept and what is refused is not stored.
  \<^item> Interjections: turn-interjection/turn-interjection-repository.ts. Interjection_History adds its operations to
    the runs, and the foreign keys through which the purge of updates and the retention of conversations delete its
    rows: a message counts as seen only if its result was in a prompt, is not shown to a turn again while its row
    is kept, and a recording is paid for once over both of its paths.
  \<^item> Approval_Auth, Approvals, Approval_Timeout: telegram-hitl/approval-auth.ts, approval-repository.ts,
    approval-evidence.ts, approval-timeout-repository.ts, approval-timeout.ts. Approval_Properties and
    Approval_History prove that a prompt is settled once, that evidence is the answer of the entitled person,
    that a resumed turn has today's rights and not the stored ones, and what the sweep takes.
  \<^item> Reminders, Reminder_Dispatch: every file of reminders/ but the Telegram client.
    Reminder_History (one marker per arming, table invariant), Reminder_Properties (quiet hours, progress,
    entitlement) and Reminder_Tools (replays, pages, settings) prove what users rely on.
  \<^item> Proactive_Deliveries, Delivery_Context: proactive-deliveries/, the journal of sent messages: recording one,
    telling a turn what its session has not seen, and listing the journal. Delivery_Context_Properties proves the text a
    turn is told bounded and made of the newest entries, and that nothing is told twice; Delivery_Listing that the
    pages are complete.
  \<^item> Agent_Schedules, Agent_Schedule_Tools, Agent_Schedule_Dispatch: agent-schedules/ and its external automations,
    from the tables and the tools to the minute sweep, the handoff to Eve, completion and failure.
    Weekly_Recurrence: the weekly query of agent-schedule-run-completion.ts, which finds the first matching
    weekday. Agent_Schedule_Invariant states the life of an occurrence as a step relation and the invariant of the
    tables; Agent_Schedule_Steps and Agent_Schedule_Operations prove that every operation keeps the invariant
    and only moves occurrences along; Agent_Schedule_History closes this over all histories, together with what
    the rest of the program does to memberships, groups and users. Agent_Schedule_Properties holds what follows
    (refinement, one handoff, no overlap, what the sweep leaves alone, progress), Agent_Schedule_Rules who may
    change a schedule, Agent_Schedule_Delivery what happens when a result reaches Telegram.
  \<^item> Group_History: agent-schedules/scheduled-group-history-chunker.ts. The cut of long messages by binary search is
    the linear one, the chunks are the history, and each fits what the model is given.
  \<^item> The theories named _Witness apply each property to concrete rows.

  How the parts meet. The ingress leases updates and drives Eve; a turn that parks on a confirmation leaves a
  prompt, whose answer resumes the session; a running turn reads waiting updates of the same ingress queue
  through the interjections. Interjection_History therefore interleaves interjections with every ingress
  operation (\<open>ingress_is_elsewhere\<close>), and the early transcription is an operation of the ingress runs. Reminders
  and agent schedules share the recurrence query, the policy of a group and the journal of deliveries: each
  settles its row and writes the receipt in one transaction.

  Parameters, for code outside the repository: \<open>pg_calendar\<close> (time zones and month arithmetic of PostgreSQL,
  with \<open>calendar_laws\<close>: local time is monotone up to the day, months add up; weekly schedules use \<open>zone_laws\<close> and
  \<open>days_in_order\<close>, the same time some days later is not an earlier instant), \<open>date_codec\<close> (the text of a JavaScript
  date, with \<open>date_laws\<close>: parsing inverts printing and the text has no bar), the hash of an operation fingerprint,
  random UUIDs and lease tokens (of schedules they are functions of the row, assumed unused by \<open>fresh_for\<close>), the
  answers of Telegram (\<open>dispatch_world\<close>), PostgreSQL's full-text search (\<open>matches\<close>) and subtraction of days from
  an instant (\<open>days_before\<close>), the digest of a page's filter (\<open>sha\<close>), and the surroundings of the drain loop
  (\<open>drain_world\<close>): Eve's parser, dispatcher and event streams, the pattern of the agent's name, texts for people,
  and the other workers, of whom \<open>others_run\<close> says that they act on the queue through the repository. Each law has an
  instance (\<open>plain_calendar\<close>, \<open>unary_dates\<close>), on which the witnesses run.

  Bounds and fuel. The drain loop runs for a given number of iterations, since messages may keep coming; its
  properties hold for every number. \<open>follow_pages\<close>, a client that follows cursors, has more fuel than there are
  rows (\<open>follow_pages_complete\<close>); recursion over JSON and Rich messages, the cut of a long message and the binary
  searches have measures; the recurrence queries always find an occurrence (Recurrence, Weekly_Recurrence).

  What modelling showed. A prompt registered again after more than its window is expired by the next sweep,
  since its creation time is kept (\<open>replay_reopens_the_prompt\<close>). A page of reminders loses rows created in the
  same millisecond as its last one, since the cursor has milliseconds and the column microseconds
  (\<open>cursor_skips_its_millisecond\<close>). A refused photo that Telegram sends both in the rich blocks and as a member of the
  message stays in the stored update (\<open>repeated_photo_is_stored\<close>). A delivery that is too long for the context is
  cut by a binary search over a length that is not monotone at surrogate pairs, so it can be cut shorter than it had
  to be (\<open>truncation_misses_a_longer_prefix\<close>).

  Not modelled: message wording; strings beyond U+00FF, hence the Unicode pattern of the agent's name and
  everything that renders Telegram text (channels/telegram.ts, telegram-on-message.ts, the pending messages a turn is
  shown, the turn interjection collector); memory and memory review,
  authored skills, families and journals beyond the rows read here; the loop that drives the schedule operations
  (agent-schedule-dispatcher.ts) and the query that fills a history snapshot; integrations, model
  transport, browser and sandbox services, which are network clients. Isolation is interleaving of whole
  transactions: what \<open>FOR UPDATE\<close> serializes is assumed serialized.
\<close>

end
